(* ===== verification/Prelude.thy ===== *)
theory Prelude
  imports Main "HOL-Library.Char_ord" "HOL-Library.List_Lexorder" "HOL-Library.Sublist"
begin

text \<open>
  Shared vocabulary of the development: the part of Go's standard library that several
  components use (\<open>strings\<close>, \<open>slices\<close>, \<open>sort\<close>, \<open>unicode\<close>, \<open>net/textproto\<close>), modelled on byte
  strings, and the generic lemmas on lists the component proofs rest on.

  A Go \<open>string\<close> or \<open>[]byte\<close> is a HOL \<open>string\<close>: a list of \<open>char\<close>, where a \<open>char\<close> is one byte.
  Go compares strings byte by byte, which is the lexicographic order that the imported
  theories put on lists of characters, so \<open>sort.Strings\<close> is \<open>sort\<close>. A Go error result is a
  value of a sum type, \<open>Inl\<close> for the error. A Go map that the code only looks up is a HOL map;
  one that the code iterates over is an association list or is read in key order.
\<close>

named_theorems journal_defs \<open>definitions of the journal's tables, guards and operations\<close>
named_theorems frame \<open>what an operation leaves unchanged\<close>

type_synonym bytes = string

subsection \<open>Results\<close>

text \<open>Sequencing of fallible computations: the first error wins, as with \<open>if err != nil\<close>.\<close>

definition and_then :: "'e + 'a \<Rightarrow> ('a \<Rightarrow> 'e + 'b) \<Rightarrow> 'e + 'b" where
  "and_then r f = (case r of Inl e \<Rightarrow> Inl e | Inr a \<Rightarrow> f a)"

lemma and_then_simps [simp]:
  "and_then (Inl e) f = Inl e"
  "and_then (Inr a) f = f a"
  by (simp_all add: and_then_def)

lemma and_then_Inr_iff: "and_then r f = Inr b \<longleftrightarrow> (\<exists>a. r = Inr a \<and> f a = Inr b)"
  by (cases r) auto

lemma and_then_Inl_iff: "and_then r f = Inl e \<longleftrightarrow> r = Inl e \<or> (\<exists>a. r = Inr a \<and> f a = Inl e)"
  by (cases r) auto

text \<open>The error an optional guard raises, if any.\<close>

definition require :: "bool \<Rightarrow> 'e \<Rightarrow> 'e + unit" where
  "require b e = (if b then Inr () else Inl e)"

lemma require_simps [simp]:
  "require b e = Inr u \<longleftrightarrow> b"
  "require b e = Inl e' \<longleftrightarrow> \<not> b \<and> e' = e"
  by (auto simp: require_def)

subsection \<open>Splitting and joining\<close>

text \<open>\<open>strings.Split(s, sep)\<close> for a one-byte separator.\<close>

fun split_on :: "char \<Rightarrow> string \<Rightarrow> string list" where
  "split_on c [] = [[]]"
| "split_on c (x # xs) =
     (if x = c then [] # split_on c xs
      else (case split_on c xs of [] \<Rightarrow> [[x]] | y # ys \<Rightarrow> (x # y) # ys))"

text \<open>\<open>strings.Join(parts, sep)\<close>.\<close>

fun join :: "string \<Rightarrow> string list \<Rightarrow> string" where
  "join sep [] = []"
| "join sep [x] = x"
| "join sep (x # y # ys) = x @ sep @ join sep (y # ys)"

text \<open>\<open>strings.Cut(s, sep)\<close> for a one-byte separator: \<open>None\<close> when the separator is absent.\<close>

fun cut :: "char \<Rightarrow> string \<Rightarrow> (string \<times> string) option" where
  "cut c [] = None"
| "cut c (x # xs) =
     (if x = c then Some ([], xs)
      else map_option (\<lambda>(a, b). (x # a, b)) (cut c xs))"

lemma split_on_not_Nil [simp]: "split_on c s \<noteq> []"
  by (induction s) (auto split: list.splits)

lemma split_on_parts: "p \<in> set (split_on c s) \<Longrightarrow> c \<notin> set p"
proof (induction s arbitrary: p)
  case Nil
  then show ?case by simp
next
  case (Cons x xs)
  obtain y ys where y: "split_on c xs = y # ys"
    by (cases "split_on c xs") auto
  with Cons show ?case
    by (cases "x = c") auto
qed

lemma join_split_on: "join [c] (split_on c s) = s"
proof (induction s)
  case Nil
  then show ?case by simp
next
  case (Cons x xs)
  obtain y ys where y: "split_on c xs = y # ys"
    by (cases "split_on c xs") auto
  with Cons show ?case
    by (cases ys) auto
qed

lemma split_on_sep_free: "c \<notin> set s \<Longrightarrow> split_on c s = [s]"
  by (induction s) auto

lemma split_on_append: "c \<notin> set p \<Longrightarrow> split_on c (p @ c # s) = p # split_on c s"
  by (induction p) auto

lemma split_on_join:
  assumes "ps \<noteq> []" and "\<And>p. p \<in> set ps \<Longrightarrow> c \<notin> set p"
  shows "split_on c (join [c] ps) = ps"
  using assms
proof (induction ps rule: induct_list012)
  case (3 x y zs)
  then show ?case by (simp add: split_on_append)
qed (auto simp: split_on_sep_free)

lemma join_inject:
  assumes "join [c] ps = join [c] qs" "ps \<noteq> []" "qs \<noteq> []"
    and "\<And>p. p \<in> set ps \<Longrightarrow> c \<notin> set p" "\<And>q. q \<in> set qs \<Longrightarrow> c \<notin> set q"
  shows "ps = qs"
  by (metis assms split_on_join)

lemma cut_Some: "cut c s = Some (a, b) \<Longrightarrow> s = a @ c # b \<and> c \<notin> set a"
  by (induction s arbitrary: a) (auto split: if_splits)

lemma cut_None: "cut c s = None \<longleftrightarrow> c \<notin> set s"
  by (induction s) auto

subsection \<open>White space and control characters\<close>

text \<open>
  \<open>unicode.IsSpace\<close> holds of U+0009..U+000D, U+0020, U+0085, U+00A0, U+1680, U+2000..U+200A,
  U+2028, U+2029, U+202F, U+205F and U+3000. Their UTF-8 encodings are listed here. None
  of them is a proper part of the encoding of another code point, so a string holds a space
  exactly when one of these byte sequences occurs in it.
\<close>

definition space_seqs :: "string list" where
  "space_seqs =
     [[CHR 9],
      [CHR 10],
      [CHR 11],
      [CHR 12],
      [CHR 13],
      [CHR 32],
      [CHR 0xC2, CHR 0x85],
      [CHR 0xC2, CHR 0xA0],
      [CHR 0xE1, CHR 0x9A, CHR 0x80],
      [CHR 0xE2, CHR 0x80, CHR 0x80],
      [CHR 0xE2, CHR 0x80, CHR 0x81],
      [CHR 0xE2, CHR 0x80, CHR 0x82],
      [CHR 0xE2, CHR 0x80, CHR 0x83],
      [CHR 0xE2, CHR 0x80, CHR 0x84],
      [CHR 0xE2, CHR 0x80, CHR 0x85],
      [CHR 0xE2, CHR 0x80, CHR 0x86],
      [CHR 0xE2, CHR 0x80, CHR 0x87],
      [CHR 0xE2, CHR 0x80, CHR 0x88],
      [CHR 0xE2, CHR 0x80, CHR 0x89],
      [CHR 0xE2, CHR 0x80, CHR 0x8A],
      [CHR 0xE2, CHR 0x80, CHR 0xA8],
      [CHR 0xE2, CHR 0x80, CHR 0xA9],
      [CHR 0xE2, CHR 0x80, CHR 0xAF],
      [CHR 0xE2, CHR 0x81, CHR 0x9F],
      [CHR 0xE3, CHR 0x80, CHR 0x80]]"

fun occurs_in :: "string list \<Rightarrow> string \<Rightarrow> bool" where
  "occurs_in ws [] = (\<exists>w \<in> set ws. w = [])"
| "occurs_in ws (x # xs) = ((\<exists>w \<in> set ws. prefix w (x # xs)) \<or> occurs_in ws xs)"

text \<open>\<open>strings.IndexFunc(s, unicode.IsSpace) >= 0\<close>.\<close>

definition has_space :: "string \<Rightarrow> bool" where
  "has_space s = occurs_in space_seqs s"

text \<open>\<open>unicode.IsControl\<close>: U+0000..U+001F and U+007F..U+009F.\<close>

definition control_seqs :: "string list" where
  "control_seqs = map (\<lambda>n. [char_of (n::nat)]) ([0..<32] @ [127]) @
     map (\<lambda>n. map char_of ([194, n] :: nat list)) [128..<160]"

definition has_control_rune :: "string \<Rightarrow> bool" where
  "has_control_rune s = occurs_in control_seqs s"

text \<open>
  \<open>strings.TrimLeft\<close>/\<open>TrimRight\<close>/\<open>TrimSpace\<close>: repeatedly drop one of the given (non-empty) byte
  sequences from an end. The fuel is the length of the string, and every drop removes at
  least one byte, so it never runs out.
\<close>

fun trim_left_n :: "nat \<Rightarrow> string list \<Rightarrow> string \<Rightarrow> string" where
  "trim_left_n 0 ws s = s"
| "trim_left_n (Suc n) ws s =
     (case find (\<lambda>w. w \<noteq> [] \<and> prefix w s) ws of
        None \<Rightarrow> s
      | Some w \<Rightarrow> trim_left_n n ws (drop (length w) s))"

definition trim_left :: "string list \<Rightarrow> string \<Rightarrow> string" where
  "trim_left ws s = trim_left_n (length s) ws s"

definition trim_right :: "string list \<Rightarrow> string \<Rightarrow> string" where
  "trim_right ws s = rev (trim_left (map rev ws) (rev s))"

definition trim :: "string list \<Rightarrow> string \<Rightarrow> string" where
  "trim ws s = trim_right ws (trim_left ws s)"

definition trim_space :: "string \<Rightarrow> string" where
  "trim_space s = trim space_seqs s"

text \<open>\<open>strings.Trim(s, cutset)\<close> for a cut set of single bytes.\<close>

definition trim_chars :: "string \<Rightarrow> string \<Rightarrow> string" where
  "trim_chars cs s = trim (map (\<lambda>c. [c]) cs) s"

lemma trim_left_n_suffix: "suffix (trim_left_n n ws s) s"
proof (induction n arbitrary: s)
  case 0
  show ?case by simp
next
  case (Suc n)
  show ?case
    by (cases "find (\<lambda>w. w \<noteq> [] \<and> prefix w s) ws")
      (auto intro: suffix_order.trans [OF Suc suffix_drop])
qed

lemma trim_left_n_stops:
  assumes "length s \<le> n" "w \<in> set ws" "w \<noteq> []"
  shows "\<not> prefix w (trim_left_n n ws s)"
  using assms
proof (induction n arbitrary: s)
  case 0
  then show ?case by simp
next
  case (Suc n)
  show ?case
  proof (cases "find (\<lambda>w. w \<noteq> [] \<and> prefix w s) ws")
    case None
    then have "\<not> prefix w s" using Suc.prems(2,3) by (auto simp: find_None_iff)
    with None show ?thesis by simp
  next
    case (Some v)
    then have "v \<noteq> []" "prefix v s" by (auto simp: find_Some_iff)
    then have "length (drop (length v) s) \<le> n"
      using Suc.prems(1) by (cases v) (auto dest: prefix_length_le)
    with Some Suc show ?thesis by simp
  qed
qed

lemma trim_left_stops: "w \<in> set ws \<Longrightarrow> w \<noteq> [] \<Longrightarrow> \<not> prefix w (trim_left ws s)"
  by (simp add: trim_left_def trim_left_n_stops)

lemma trim_left_id: "\<forall>w \<in> set ws. w \<noteq> [] \<longrightarrow> \<not> prefix w s \<Longrightarrow> trim_left ws s = s"
proof -
  assume "\<forall>w \<in> set ws. w \<noteq> [] \<longrightarrow> \<not> prefix w s"
  then have "find (\<lambda>w. w \<noteq> [] \<and> prefix w s) ws = None" by (auto simp: find_None_iff)
  then show ?thesis by (cases s) (simp_all add: trim_left_def)
qed

lemma trim_left_idem [simp]: "trim_left ws (trim_left ws s) = trim_left ws s"
  by (rule trim_left_id) (auto simp: trim_left_stops)

lemma length_trim_le: "length (trim ws s) \<le> length s"
proof -
  have l: "length (trim_left vs t) \<le> length t" for vs t
    using suffix_length_le [OF trim_left_n_suffix] by (simp add: trim_left_def)
  have "length (trim ws s) \<le> length (trim_left ws s)"
    using l [of "map rev ws" "rev (trim_left ws s)"] by (simp add: trim_def trim_right_def)
  also have "\<dots> \<le> length s" by (rule l)
  finally show ?thesis .
qed

lemma trim_Nil [simp]: "trim ws [] = []"
  by (simp add: trim_def trim_right_def trim_left_def)

subsection \<open>Characters and header names\<close>

definition is_lower :: "char \<Rightarrow> bool" where "is_lower c = (CHR ''a'' \<le> c \<and> c \<le> CHR ''z'')"
definition is_upper :: "char \<Rightarrow> bool" where "is_upper c = (CHR ''A'' \<le> c \<and> c \<le> CHR ''Z'')"
definition is_digit :: "char \<Rightarrow> bool" where "is_digit c = (CHR ''0'' \<le> c \<and> c \<le> CHR ''9'')"

definition is_alnum :: "char \<Rightarrow> bool" where
  "is_alnum c = (is_lower c \<or> is_upper c \<or> is_digit c)"

text \<open>A byte of an RFC 7230 token, as the code tests it in three packages.\<close>

definition is_tchar :: "char \<Rightarrow> bool" where
  "is_tchar c = (is_alnum c \<or> c \<in> set ''!#$%&'' \<or> c = CHR 39 \<or> c \<in> set ''*+-.^_'' \<or>
     c = CHR 96 \<or> c \<in> set ''|~'')"

definition is_token :: "string \<Rightarrow> bool" where
  "is_token s = (s \<noteq> [] \<and> list_all is_tchar s)"

definition to_upper :: "char \<Rightarrow> char" where
  "to_upper c = (if is_lower c then char_of (of_char c - 32 :: nat) else c)"

definition to_lower :: "char \<Rightarrow> char" where
  "to_lower c = (if is_upper c then char_of (of_char c + 32 :: nat) else c)"

text \<open>
  \<open>http.CanonicalHeaderKey\<close>: a name with a byte that is not a token byte is returned as it
  is; otherwise letters are upper case at the start and after a hyphen, lower case elsewhere.
\<close>

fun canonical_go :: "bool \<Rightarrow> string \<Rightarrow> string" where
  "canonical_go up [] = []"
| "canonical_go up (c # cs) =
     (let d = (if up then to_upper c else to_lower c) in d # canonical_go (d = CHR ''-'') cs)"

definition canonical_header_key :: "string \<Rightarrow> string" where
  "canonical_header_key s = (if list_all is_tchar s then canonical_go True s else s)"

lemma length_canonical_go [simp]: "length (canonical_go up s) = length s"
  by (induction s arbitrary: up) (auto simp: Let_def)

lemma canonical_header_key_Nil [simp]: "canonical_header_key s = [] \<longleftrightarrow> s = []"
  by (metis canonical_header_key_def length_0_conv length_canonical_go)

subsection \<open>Lists\<close>

text \<open>\<open>slices.Index\<close>: the first position of an element, \<open>None\<close> for Go's -1.\<close>

fun index_of :: "'a \<Rightarrow> 'a list \<Rightarrow> nat option" where
  "index_of x [] = None"
| "index_of x (y # ys) = (if x = y then Some 0 else map_option Suc (index_of x ys))"

lemma index_of_None: "index_of x xs = None \<longleftrightarrow> x \<notin> set xs"
  by (induction xs) auto

lemma index_of_notin [simp]: "x \<notin> set xs \<Longrightarrow> index_of x xs = None"
  by (simp add: index_of_None)

lemma index_of_Some: "index_of x xs = Some i \<Longrightarrow> i < length xs \<and> xs ! i = x \<and> x \<notin> set (take i xs)"
  by (induction xs arbitrary: i) (auto split: if_splits simp: less_Suc_eq_0_disj)

text \<open>\<open>slices.Delete(xs, i, i+1)\<close>.\<close>

definition delete_at :: "nat \<Rightarrow> 'a list \<Rightarrow> 'a list" where
  "delete_at i xs = take i xs @ drop (Suc i) xs"

lemma delete_at_distinct:
  assumes "distinct xs" "index_of x xs = Some i"
  shows "delete_at i xs = filter (\<lambda>y. y \<noteq> x) xs"
proof -
  from index_of_Some [OF assms(2)] have i: "i < length xs" "xs ! i = x" by auto
  then have xs: "xs = take i xs @ x # drop (Suc i) xs" using id_take_nth_drop [of i xs] by simp
  have "x \<notin> set (take i xs)" "x \<notin> set (drop (Suc i) xs)"
    using assms(1) by (subst (asm) xs, simp)+
  then have "filter (\<lambda>y. y \<noteq> x) (take i xs) = take i xs"
    "filter (\<lambda>y. y \<noteq> x) (drop (Suc i) xs) = drop (Suc i) xs"
    by (auto intro!: filter_True)
  then have "filter (\<lambda>y. y \<noteq> x) (take i xs @ x # drop (Suc i) xs) = delete_at i xs"
    by (simp add: delete_at_def)
  with xs show ?thesis by simp
qed

text \<open>Keep the first occurrence of each element, as loops over a \<open>seen\<close> map do.\<close>

fun dedup :: "'a list \<Rightarrow> 'a list \<Rightarrow> 'a list" where
  "dedup seen [] = []"
| "dedup seen (x # xs) = (if x \<in> set seen then dedup seen xs else x # dedup (x # seen) xs)"

lemma set_dedup: "set (dedup seen xs) = set xs - set seen"
  by (induction xs arbitrary: seen) auto

lemma distinct_dedup [simp]: "distinct (dedup seen xs)"
  by (induction xs arbitrary: seen) (auto simp: set_dedup)

text \<open>\<open>sortedKeys\<close> and the \<open>for key := range m\<close> plus \<open>sort.Strings\<close> idiom.\<close>

definition sorted_keys :: "('k::linorder \<times> 'v) list \<Rightarrow> 'k list" where
  "sorted_keys m = sort (remdups (map fst m))"

lemma set_sorted_keys [simp]: "set (sorted_keys m) = fst ` set m"
  by (simp add: sorted_keys_def)

lemma sorted_sorted_keys [simp]: "sorted (sorted_keys m)"
  by (simp add: sorted_keys_def)

lemma distinct_sorted_keys [simp]: "distinct (sorted_keys m)"
  by (simp add: sorted_keys_def)

text \<open>Updating the rows of a table that satisfy a condition, as SQL's \<open>UPDATE ... WHERE\<close>.\<close>

definition update_where :: "('r \<Rightarrow> bool) \<Rightarrow> ('r \<Rightarrow> 'r) \<Rightarrow> 'r list \<Rightarrow> 'r list" where
  "update_where p f rs = map (\<lambda>r. if p r then f r else r) rs"

lemma length_update_where [simp]: "length (update_where p f rs) = length rs"
  by (simp add: update_where_def)

lemma set_update_where: "set (update_where p f rs) = f ` {r \<in> set rs. p r} \<union> {r \<in> set rs. \<not> p r}"
  by (auto simp: update_where_def)

lemma update_where_Nil [simp]: "update_where p f [] = []"
  by (simp add: update_where_def)

lemma update_where_Cons [simp]:
  "update_where p f (r # rs) = (if p r then f r else r) # update_where p f rs"
  by (simp add: update_where_def)

lemma map_update_where:
  assumes "\<And>r. p r \<Longrightarrow> g (f r) = g r"
  shows "map g (update_where p f rs) = map g rs"
  using assms by (auto simp: update_where_def)

lemma update_where_cong_none: "(\<And>r. r \<in> set rs \<Longrightarrow> \<not> p r) \<Longrightarrow> update_where p f rs = rs"
  by (auto simp: update_where_def map_idI)

lemma filter_update_where:
  assumes "\<And>r. p r \<Longrightarrow> q (f r) = q r"
  shows "filter q (update_where p f rs) = update_where p f (filter q rs)"
  using assms by (induction rs) auto

section \<open>Hashes\<close>

text \<open>Two different messages with the same hash. A statement about digests names the two messages whose
  collision would break it.\<close>

definition collides :: "(string \<Rightarrow> string) \<Rightarrow> string \<Rightarrow> string \<Rightarrow> bool" where
  "collides sha m m' = (m \<noteq> m' \<and> sha m = sha m')"

end
