(* ===== verification/Json.thy ===== *)
theory Json
  imports Prelude
begin

text \<open>
  What the code uses of \<open>encoding/json\<close>: a document tree, the decoder and the encoder. The
  journal stores its payloads as JSON columns, accepts reply documents and tool arguments as
  JSON text and hashes re-encoded documents, so both directions are functions on bytes here.

  Strings are byte lists. Bytes from 0x80 up pass through unchanged in both directions, so
  the model covers valid UTF-8 text; the decoder's replacement of invalid UTF-8 by U+FFFD and its
  nesting limit of 10000 are left out. Numbers keep their literal text, as \<open>json.Number\<close> does.
\<close>

datatype json =
    JNull
  | JBool bool
  | JNum string
  | JStr string
  | JArr "json list"
  | JObj "(string \<times> json) list"

section \<open>Encoding\<close>

definition hex_digit :: "nat \<Rightarrow> char" where
  "hex_digit n = ''0123456789abcdef'' ! n"

definition escape_char :: "char \<Rightarrow> string option" where
  "escape_char c =
     (if c = CHR 0x22 then Some [CHR 0x5C, CHR 0x22]
      else if c = CHR 0x5C then Some [CHR 0x5C, CHR 0x5C]
      else if c = CHR 0x08 then Some [CHR 0x5C, CHR ''b'']
      else if c = CHR 0x0C then Some [CHR 0x5C, CHR ''f'']
      else if c = CHR 0x0A then Some [CHR 0x5C, CHR ''n'']
      else if c = CHR 0x0D then Some [CHR 0x5C, CHR ''r'']
      else if c = CHR 0x09 then Some [CHR 0x5C, CHR ''t'']
      else if of_char c < (32::nat) \<or> c = CHR ''<'' \<or> c = CHR ''>'' \<or> c = CHR ''&'' then
        Some ([CHR 0x5C] @ ''u00'' @ [hex_digit (of_char c div 16), hex_digit (of_char c mod 16)])
      else None)"

text \<open>U+2028 and U+2029 are the byte sequences E2 80 A8 and E2 80 A9.\<close>

fun escape :: "string \<Rightarrow> string" where
  "escape [] = []"
| "escape (c # s) =
     (if c = CHR 0xE2 \<and> take 2 s = [CHR 0x80, CHR 0xA8] then [CHR 0x5C] @ ''u2028'' @ escape (drop 2 s)
      else if c = CHR 0xE2 \<and> take 2 s = [CHR 0x80, CHR 0xA9] then [CHR 0x5C] @ ''u2029'' @ escape (drop 2 s)
      else case escape_char c of Some e \<Rightarrow> e @ escape s | None \<Rightarrow> c # escape s)"

definition quote :: "string \<Rightarrow> string" where
  "quote s = CHR 0x22 # escape s @ [CHR 0x22]"

fun print_json :: "json \<Rightarrow> string" where
  "print_json JNull = ''null''"
| "print_json (JBool b) = (if b then ''true'' else ''false'')"
| "print_json (JNum n) = n"
| "print_json (JStr s) = quote s"
| "print_json (JArr vs) = ''['' @ join '','' (map print_json vs) @ '']''"
| "print_json (JObj kvs) =
     ''{'' @ join '','' (map (\<lambda>kv. quote (fst kv) @ '':'' @ print_json (snd kv)) kvs) @ ''}''"

section \<open>Decoding\<close>

definition skip_ws :: "string \<Rightarrow> string" where
  "skip_ws = dropWhile (\<lambda>c. c = CHR 0x20 \<or> c = CHR 0x09 \<or> c = CHR 0x0A \<or> c = CHR 0x0D)"

definition hex_value :: "char \<Rightarrow> nat option" where
  "hex_value c =
     (if CHR ''0'' \<le> c \<and> c \<le> CHR ''9'' then Some (of_char c - 48)
      else if CHR ''a'' \<le> c \<and> c \<le> CHR ''f'' then Some (of_char c - 87)
      else if CHR ''A'' \<le> c \<and> c \<le> CHR ''F'' then Some (of_char c - 55)
      else None)"

fun take_u4 :: "string \<Rightarrow> (nat \<times> string) option" where
  "take_u4 (a # b # c # d # r) =
     (case (hex_value a, hex_value b, hex_value c, hex_value d) of
        (Some a, Some b, Some c, Some d) \<Rightarrow> Some (((a * 16 + b) * 16 + c) * 16 + d, r)
      | _ \<Rightarrow> None)"
| "take_u4 _ = None"

definition utf8 :: "nat \<Rightarrow> string" where
  "utf8 u =
     map char_of
       (if u < 128 then [u]
        else if u < 2048 then [192 + u div 64, 128 + u mod 64]
        else if u < 65536 then [224 + u div 4096, 128 + u div 64 mod 64, 128 + u mod 64]
        else [240 + u div 262144, 128 + u div 4096 mod 64, 128 + u div 64 mod 64, 128 + u mod 64])"

definition simple_escape :: "char \<Rightarrow> char option" where
  "simple_escape e =
     (if e = CHR 0x22 \<or> e = CHR 0x5C \<or> e = CHR ''/'' then Some e
      else if e = CHR ''b'' then Some CHR 0x08
      else if e = CHR ''f'' then Some CHR 0x0C
      else if e = CHR ''n'' then Some CHR 0x0A
      else if e = CHR ''r'' then Some CHR 0x0D
      else if e = CHR ''t'' then Some CHR 0x09
      else None)"

text \<open>After \<open>\u\<close>: a surrogate pair is one rune, a lone surrogate is U+FFFD.\<close>

definition take_rune :: "string \<Rightarrow> (nat \<times> string) option" where
  "take_rune s =
     (case take_u4 s of
        None \<Rightarrow> None
      | Some (u, r) \<Rightarrow>
          if u < 55296 \<or> 57343 < u then Some (u, r)
          else if 56319 < u then Some (65533, r)
          else if take 2 r = [CHR 0x5C, CHR ''u''] then
            (case take_u4 (drop 2 r) of
               Some (v, r') \<Rightarrow> if 56320 \<le> v \<and> v \<le> 57343
                 then Some (65536 + (u - 55296) * 1024 + (v - 56320), r') else Some (65533, r)
             | None \<Rightarrow> None)
          else Some (65533, r))"

lemma take_u4_length: "take_u4 s = Some (u, r) \<Longrightarrow> length r < length s"
  by (induction s rule: take_u4.induct) (auto split: option.splits)

lemma take_rune_length: "take_rune s = Some (u, r) \<Longrightarrow> length r < length s"
proof -
  assume t: "take_rune s = Some (u, r)"
  then obtain v r0 where s: "take_u4 s = Some (v, r0)"
    by (auto simp: take_rune_def split: option.splits)
  have "length r \<le> length r0"
    using t s take_u4_length [of "drop 2 r0"]
    by (fastforce simp: take_rune_def split: option.splits if_splits)
  with take_u4_length [OF s] show ?thesis by simp
qed

function scan_string :: "string \<Rightarrow> (string \<times> string) option" where
  "scan_string [] = None"
| "scan_string (c # s) =
     (if c = CHR 0x22 then Some ([], s)
      else if c = CHR 0x5C then
        (case s of [] \<Rightarrow> None
         | e # r \<Rightarrow>
             if e = CHR ''u'' then
               (case take_rune r of None \<Rightarrow> None
                | Some (u, r') \<Rightarrow> map_option (\<lambda>(t, q). (utf8 u @ t, q)) (scan_string r'))
             else (case simple_escape e of None \<Rightarrow> None
                   | Some d \<Rightarrow> map_option (\<lambda>(t, q). (d # t, q)) (scan_string r)))
      else if of_char c < (32::nat) then None
      else map_option (\<lambda>(t, q). (c # t, q)) (scan_string s))"
  by pat_completeness auto
termination
  by (relation "measure length") (auto dest: take_rune_length)

definition scan_digits :: "string \<Rightarrow> (string \<times> string) option" where
  "scan_digits s = (let d = takeWhile is_digit s in if d = [] then None else Some (d, dropWhile is_digit s))"

definition scan_int :: "string \<Rightarrow> (string \<times> string) option" where
  "scan_int s = (case s of
       c # r \<Rightarrow> if c = CHR ''0'' then Some ([c], r) else scan_digits s
     | [] \<Rightarrow> None)"

definition scan_frac :: "string \<Rightarrow> (string \<times> string) option" where
  "scan_frac s = (case s of
       c # r \<Rightarrow> if c = CHR ''.'' then map_option (\<lambda>(d, q). (c # d, q)) (scan_digits r) else Some ([], s)
     | [] \<Rightarrow> Some ([], s))"

definition scan_exp :: "string \<Rightarrow> (string \<times> string) option" where
  "scan_exp s = (case s of
       c # r \<Rightarrow>
         if c = CHR ''e'' \<or> c = CHR ''E'' then
           (case r of
              g # r' \<Rightarrow> if g = CHR ''+'' \<or> g = CHR ''-''
                then map_option (\<lambda>(d, q). (c # g # d, q)) (scan_digits r')
                else map_option (\<lambda>(d, q). (c # d, q)) (scan_digits r)
            | [] \<Rightarrow> None)
         else Some ([], s)
     | [] \<Rightarrow> Some ([], s))"

definition scan_number :: "string \<Rightarrow> (string \<times> string) option" where
  "scan_number s =
     (let (sign, s0) = (case s of c # r \<Rightarrow> if c = CHR ''-'' then ([c], r) else ([], s) | [] \<Rightarrow> ([], s))
      in case scan_int s0 of None \<Rightarrow> None | Some (i, s1) \<Rightarrow>
         case scan_frac s1 of None \<Rightarrow> None | Some (f, s2) \<Rightarrow>
         case scan_exp s2 of None \<Rightarrow> None | Some (e, s3) \<Rightarrow> Some (sign @ i @ f @ e, s3))"

text \<open>The recursive descent, with fuel for the nesting and the number of members.\<close>

fun parse_value :: "nat \<Rightarrow> string \<Rightarrow> (json \<times> string) option"
and parse_elems :: "nat \<Rightarrow> string \<Rightarrow> (json list \<times> string) option"
and parse_members :: "nat \<Rightarrow> string \<Rightarrow> ((string \<times> json) list \<times> string) option" where
  "parse_value 0 s = None"
| "parse_value (Suc n) s =
     (case skip_ws s of [] \<Rightarrow> None
      | c # r \<Rightarrow>
          if c = CHR 0x22 then map_option (\<lambda>(t, q). (JStr t, q)) (scan_string r)
          else if c = CHR ''['' then
            (if take 1 (skip_ws r) = '']'' then Some (JArr [], drop 1 (skip_ws r))
             else map_option (\<lambda>(vs, q). (JArr vs, q)) (parse_elems n r))
          else if c = CHR ''{'' then
            (if take 1 (skip_ws r) = ''}'' then Some (JObj [], drop 1 (skip_ws r))
             else map_option (\<lambda>(kvs, q). (JObj kvs, q)) (parse_members n r))
          else if take 4 (c # r) = ''null'' then Some (JNull, drop 4 (c # r))
          else if take 4 (c # r) = ''true'' then Some (JBool True, drop 4 (c # r))
          else if take 5 (c # r) = ''false'' then Some (JBool False, drop 5 (c # r))
          else map_option (\<lambda>(t, q). (JNum t, q)) (scan_number (c # r)))"
| "parse_elems 0 s = None"
| "parse_elems (Suc n) s =
     (case parse_value n s of None \<Rightarrow> None
      | Some (v, r) \<Rightarrow>
          (case skip_ws r of [] \<Rightarrow> None
           | c # q \<Rightarrow>
               if c = CHR '','' then map_option (\<lambda>(vs, p). (v # vs, p)) (parse_elems n q)
               else if c = CHR '']'' then Some ([v], q) else None))"
| "parse_members 0 s = None"
| "parse_members (Suc n) s =
     (case skip_ws s of [] \<Rightarrow> None
      | c # r \<Rightarrow>
          if c \<noteq> CHR 0x22 then None
          else case scan_string r of None \<Rightarrow> None
          | Some (k, r') \<Rightarrow>
              (if take 1 (skip_ws r') \<noteq> '':'' then None
               else case parse_value n (drop 1 (skip_ws r')) of None \<Rightarrow> None
               | Some (v, r'') \<Rightarrow>
                   (case skip_ws r'' of [] \<Rightarrow> None
                    | d # q \<Rightarrow>
                        if d = CHR '','' then map_option (\<lambda>(kvs, p). ((k, v) # kvs, p)) (parse_members n q)
                        else if d = CHR ''}'' then Some ([(k, v)], q) else None)))"

text \<open>One document and nothing after it; \<open>length s + 1\<close> levels are enough for a document of
  \<open>length s\<close> bytes.\<close>

definition parse_json :: "string \<Rightarrow> json option" where
  "parse_json s =
     (case parse_value (length s + 1) s of
        Some (v, r) \<Rightarrow> if skip_ws r = [] then Some v else None
      | None \<Rightarrow> None)"

section \<open>Round trip\<close>

lemma hex_value_digit [simp]: "n < 16 \<Longrightarrow> hex_value (hex_digit n) = Some n"
proof -
  have "\<forall>n \<in> set [0..<16]. hex_value (hex_digit n) = Some n" by code_simp
  then show "n < 16 \<Longrightarrow> hex_value (hex_digit n) = Some n" by auto
qed

lemma escape_char_None:
  "escape_char c = None \<Longrightarrow>
     scan_string (c # r) = map_option (\<lambda>(t, q). (c # t, q)) (scan_string r)"
  by (simp add: escape_char_def split: if_splits)

lemma take_rune_00:
  assumes "n < 128"
  shows "take_rune (''00'' @ hex_digit (n div 16) # hex_digit (n mod 16) # r) = Some (n, r)"
proof -
  have "hex_value CHR ''0'' = Some 0" by (simp add: hex_value_def less_eq_char_def)
  with assms show ?thesis by (simp add: take_rune_def)
qed

lemma escape_char_Some:
  assumes "escape_char c = Some e"
  shows "scan_string (e @ r) = map_option (\<lambda>(t, q). (c # t, q)) (scan_string r)"
proof (cases "c \<in> {CHR 0x22, CHR 0x5C, CHR 0x08, CHR 0x0C, CHR 0x0A, CHR 0x0D, CHR 0x09}")
  case True
  with assms show ?thesis by (auto simp: escape_char_def simple_escape_def)
next
  case False
  with assms have e: "e = [CHR 0x5C] @ ''u00'' @ [hex_digit (of_char c div 16), hex_digit (of_char c mod 16)]"
    and c: "of_char c < (32::nat) \<or> c = CHR ''<'' \<or> c = CHR ''>'' \<or> c = CHR ''&''"
    by (auto simp: escape_char_def split: if_splits)
  from c have "of_char c < (128::nat)" by auto
  then show ?thesis
    using take_rune_00 [of "of_char c" r] by (simp add: e utf8_def)
qed

lemma scan_escape: "scan_string (escape s @ CHR 0x22 # r) = Some (s, r)"
proof (induction s rule: escape.induct)
  case (2 c s)
  have hex2: "hex_value CHR ''0'' = Some 0" "hex_value CHR ''2'' = Some 2" "hex_value CHR ''8'' = Some 8"
    "hex_value CHR ''9'' = Some 9"
    by code_simp+
  have u: "take_rune (CHR ''2'' # CHR ''0'' # CHR ''2'' # CHR ''8'' # q) = Some (8232, q)"
    "take_rune (CHR ''2'' # CHR ''0'' # CHR ''2'' # CHR ''9'' # q) = Some (8233, q)" for q
    by (simp_all add: take_rune_def hex2)
  have u8: "utf8 8232 = [CHR 0xE2, CHR 0x80, CHR 0xA8]" "utf8 8233 = [CHR 0xE2, CHR 0x80, CHR 0xA9]"
    by (simp_all add: utf8_def char_of_def bit_0)
  have split: "s = p @ drop 2 s" if "take 2 s = p" for p
    using that append_take_drop_id [of 2 s] by simp
  consider "c = CHR 0xE2 \<and> take 2 s = [CHR 0x80, CHR 0xA8]" | "c = CHR 0xE2 \<and> take 2 s = [CHR 0x80, CHR 0xA9]"
    | "\<not> (c = CHR 0xE2 \<and> take 2 s = [CHR 0x80, CHR 0xA8])" "\<not> (c = CHR 0xE2 \<and> take 2 s = [CHR 0x80, CHR 0xA9])"
    by blast
  then show ?case
  proof cases
    case 1
    with split obtain q where s: "s = [CHR 0x80, CHR 0xA8] @ q" by blast
    with "2.IH"(1) 1 have "scan_string (escape q @ CHR 0x22 # r) = Some (q, r)" by simp
    then show ?thesis by (simp add: s 1 u u8)
  next
    case 2
    with split obtain q where s: "s = [CHR 0x80, CHR 0xA9] @ q" by blast
    with "2.IH"(2) 2 have "scan_string (escape q @ CHR 0x22 # r) = Some (q, r)" by simp
    then show ?thesis by (simp add: s 2 u u8)
  next
    case 3
    show ?thesis
    proof (cases "escape_char c")
      case None
      with 3 "2.IH"(3) have "scan_string (escape s @ CHR 0x22 # r) = Some (s, r)" by blast
      with 3 None escape_char_None [OF None] show ?thesis
        by (simp only: escape.simps if_False option.simps append_Cons) simp
    next
      case (Some e)
      with 3 "2.IH"(4) have "scan_string (escape s @ CHR 0x22 # r) = Some (s, r)" by blast
      with 3 Some escape_char_Some [OF Some] show ?thesis
        by (simp only: escape.simps if_False option.simps append_assoc) simp
    qed
  qed
qed simp

lemma quote_cancel: "quote a @ x = quote b @ y \<Longrightarrow> a = b \<and> x = y"
proof -
  assume "quote a @ x = quote b @ y"
  then have "escape a @ CHR 0x22 # x = escape b @ CHR 0x22 # y" by (simp add: quote_def)
  then have "scan_string (escape a @ CHR 0x22 # x) = scan_string (escape b @ CHR 0x22 # y)" by (rule arg_cong)
  then show ?thesis by (simp only: scan_escape) simp
qed

text \<open>Number literals.\<close>

definition number_end :: "string \<Rightarrow> bool" where
  "number_end r = (r = [] \<or> hd r \<in> {CHR '','', CHR '']'', CHR ''}''})"

lemma number_end_char:
  "number_end r \<Longrightarrow> r = [] \<or> (\<exists>c q. r = c # q \<and> \<not> is_digit c \<and> c \<notin> {CHR ''.'', CHR ''e'', CHR ''E''})"
  by (cases r) (auto simp: number_end_def is_digit_def less_eq_char_def)

lemma scan_digits_append:
  assumes "scan_digits s = Some (d, q)" "number_end r"
  shows "scan_digits (s @ r) = Some (d, q @ r)"
proof -
  have t: "takeWhile is_digit r = []" "dropWhile is_digit r = r"
    using number_end_char [OF assms(2)] by auto
  show ?thesis
  proof (cases "\<forall>c \<in> set s. is_digit c")
    case True
    then have "takeWhile is_digit s = s" "dropWhile is_digit s = []"
      by (simp_all add: takeWhile_eq_all_conv)
    with True assms t show ?thesis
      by (auto simp: scan_digits_def Let_def takeWhile_append dropWhile_append split: if_splits)
  next
    case False
    then obtain c where "c \<in> set s" "\<not> is_digit c" by blast
    with assms show ?thesis
      by (auto simp: scan_digits_def Let_def takeWhile_append1 dropWhile_append1 split: if_splits)
  qed
qed

lemma scan_int_append:
  "scan_int s = Some (d, q) \<Longrightarrow> number_end r \<Longrightarrow> scan_int (s @ r) = Some (d, q @ r)"
  using scan_digits_append [of s d q r] by (auto simp: scan_int_def split: list.splits if_splits)

lemma scan_frac_append:
  assumes "scan_frac s = Some (d, q)" "number_end r"
  shows "scan_frac (s @ r) = Some (d, q @ r)"
proof (cases s)
  case Nil
  with assms number_end_char [OF assms(2)] show ?thesis by (auto simp: scan_frac_def)
next
  case (Cons c s')
  with assms scan_digits_append [of s' _ _ r] show ?thesis
    by (auto simp: scan_frac_def split: if_splits)
qed

lemma scan_exp_append:
  assumes "scan_exp s = Some (d, q)" "number_end r"
  shows "scan_exp (s @ r) = Some (d, q @ r)"
proof (cases s)
  case Nil
  with assms number_end_char [OF assms(2)] show ?thesis by (auto simp: scan_exp_def)
next
  case (Cons c s')
  with assms scan_digits_append [of s' _ _ r] scan_digits_append [of "tl s'" _ _ r] show ?thesis
    by (auto simp: scan_exp_def split: if_splits list.splits)
qed

lemma scan_number_append:
  assumes "scan_number s = Some (d, q)" "number_end r"
  shows "scan_number (s @ r) = Some (d, q @ r)"
proof -
  define sg where "sg = (if hd s = CHR ''-'' then [hd s] else [])"
  define s0 where "s0 = (if hd s = CHR ''-'' then tl s else s)"
  have ne: "s \<noteq> []" using assms(1) by (auto simp: scan_number_def scan_int_def)
  have num: "scan_number (s @ t) =
      (case scan_int (s0 @ t) of None \<Rightarrow> None | Some (i, s1) \<Rightarrow>
       case scan_frac s1 of None \<Rightarrow> None | Some (f, s2) \<Rightarrow>
       case scan_exp s2 of None \<Rightarrow> None | Some (e, s3) \<Rightarrow> Some (sg @ i @ f @ e, s3))" for t
    using ne by (cases s) (simp_all add: scan_number_def sg_def s0_def cong: option.case_cong)
  from assms(1) num [of "[]"] obtain i s1 f s2 e where
    i: "scan_int s0 = Some (i, s1)" and f: "scan_frac s1 = Some (f, s2)" and e: "scan_exp s2 = Some (e, q)"
    and d: "d = sg @ i @ f @ e"
    by (auto split: option.splits)
  show ?thesis
    by (simp add: num d scan_int_append [OF i assms(2)] scan_frac_append [OF f assms(2)]
        scan_exp_append [OF e assms(2)])
qed

text \<open>The documents whose numbers are number literals.\<close>

fun json_ok :: "json \<Rightarrow> bool" where
  "json_ok (JNum n) = (scan_number n = Some (n, []))"
| "json_ok (JArr vs) = list_all json_ok vs"
| "json_ok (JObj kvs) = list_all (\<lambda>kv. json_ok (snd kv)) kvs"
| "json_ok _ = True"

lemma scan_number_first:
  assumes "scan_number (c # s) = Some x"
  shows "c = CHR ''-'' \<or> is_digit c"
  using assms
  by (auto simp: scan_number_def scan_int_def scan_digits_def is_digit_def less_eq_char_def
      split: if_splits option.splits)

lemma skip_ws_Cons:
  "c \<notin> {CHR 0x20, CHR 0x09, CHR 0x0A, CHR 0x0D} \<Longrightarrow> skip_ws (c # r) = c # r"
  by (simp add: skip_ws_def)

lemma number_first_char:
  assumes "c = CHR ''-'' \<or> is_digit c"
  shows "c \<notin> {CHR 0x20, CHR 0x09, CHR 0x0A, CHR 0x0D, CHR 0x22, CHR ''['', CHR ''{'', CHR ''n'',
    CHR ''t'', CHR ''f'', CHR '']'', CHR ''}''}"
  using assms by (auto simp: is_digit_def less_eq_char_def)

lemma print_json_first:
  "json_ok j \<Longrightarrow> \<exists>c s. print_json j = c # s \<and>
     c \<notin> {CHR 0x20, CHR 0x09, CHR 0x0A, CHR 0x0D, CHR '']'', CHR ''}''}"
proof (cases j)
  case (JNum n)
  assume "json_ok j"
  with JNum have n: "scan_number n = Some (n, [])" by simp
  then have "n \<noteq> []" by (auto simp: scan_number_def scan_int_def)
  then obtain c s where "n = c # s" by (cases n) auto
  with n scan_number_first [of c s] number_first_char [of c] JNum show ?thesis by auto
qed (auto simp: quote_def)

definition printed_by :: "nat \<Rightarrow> json \<Rightarrow> bool" where
  "printed_by n j = (\<forall>m r. n \<le> m \<longrightarrow> number_end r \<longrightarrow> parse_value (Suc m) (print_json j @ r) = Some (j, r))"

lemma parse_elems_print:
  assumes "vs \<noteq> []" "\<And>v. v \<in> set vs \<Longrightarrow> printed_by (length (print_json v)) v"
    "length (join '','' (map print_json vs)) + 2 \<le> m"
  shows "parse_elems m (join '','' (map print_json vs) @ CHR '']'' # r) = Some (vs, r)"
  using assms
proof (induction vs arbitrary: m)
  case (Cons v vs)
  define m' where "m' = m - 2"
  have m: "m = Suc (Suc m')" using Cons.prems(3) by (simp add: m'_def)
  have v: "parse_value (Suc k) (print_json v @ q) = Some (v, q)"
    if "length (print_json v) \<le> k" "number_end q" for k q
    using Cons.prems(2) [of v] that by (simp add: printed_by_def)
  show ?case
  proof (cases "vs = []")
    case True
    with Cons.prems(3) v [of m' "CHR '']'' # r"] show ?thesis
      by (simp add: m number_end_def skip_ws_Cons)
  next
    case False
    then obtain w ws where vs: "vs = w # ws" by (cases vs) auto
    let ?q = "join '','' (map print_json vs)"
    have j: "join '','' (map print_json (v # vs)) = print_json v @ CHR '','' # ?q"
      by (simp add: vs)
    from Cons.prems(3) have len: "length (print_json v) \<le> m'" "length ?q + 2 \<le> Suc m'"
      unfolding j m by simp_all
    have "parse_elems (Suc m') (?q @ CHR '']'' # r) = Some (vs, r)"
      using Cons.IH [OF False _ len(2)] Cons.prems(2) by simp
    with v [OF len(1), of "CHR '','' # ?q @ CHR '']'' # r"] show ?thesis
      unfolding j m by (simp add: number_end_def skip_ws_Cons)
  qed
qed simp

definition print_member :: "string \<times> json \<Rightarrow> string" where
  "print_member kv = quote (fst kv) @ '':'' @ print_json (snd kv)"

lemma parse_members_print:
  assumes "kvs \<noteq> []" "\<And>kv. kv \<in> set kvs \<Longrightarrow> printed_by (length (print_json (snd kv))) (snd kv)"
    "length (join '','' (map print_member kvs)) + 2 \<le> m"
  shows "parse_members m (join '','' (map print_member kvs) @ CHR ''}'' # r) = Some (kvs, r)"
  using assms
proof (induction kvs arbitrary: m)
  case (Cons kv kvs)
  obtain k v where kv: "kv = (k, v)" by (cases kv)
  define m' where "m' = m - 2"
  have m: "m = Suc (Suc m')" using Cons.prems(3) by (simp add: m'_def)
  have v: "parse_value (Suc i) (print_json v @ q) = Some (v, q)"
    if "length (print_json v) \<le> i" "number_end q" for i q
    using Cons.prems(2) [of kv] that by (simp add: printed_by_def kv)
  show ?case
  proof (cases "kvs = []")
    case True
    with Cons.prems(3) v [of m' "CHR ''}'' # r"] show ?thesis
      by (simp add: m kv print_member_def quote_def number_end_def skip_ws_Cons scan_escape)
  next
    case False
    then obtain w ws where kvs: "kvs = w # ws" by (cases kvs) auto
    let ?q = "join '','' (map print_member kvs)"
    have j: "join '','' (map print_member (kv # kvs)) = print_member kv @ CHR '','' # ?q"
      by (simp add: kvs)
    from Cons.prems(3) have len: "length (print_json v) \<le> m'" "length ?q + 2 \<le> Suc m'"
      unfolding j m by (simp_all add: kv print_member_def)
    have "parse_members (Suc m') (?q @ CHR ''}'' # r) = Some (kvs, r)"
      using Cons.IH [OF False _ len(2)] Cons.prems(2) by simp
    with v [OF len(1), of "CHR '','' # ?q @ CHR ''}'' # r"] show ?thesis
      unfolding j m by (simp add: kv print_member_def quote_def number_end_def skip_ws_Cons scan_escape)
  qed
qed simp

lemma join_first:
  "xs \<noteq> [] \<Longrightarrow> hd xs = c # s \<Longrightarrow> \<exists>q. join '','' xs = c # q"
  by (induction "[CHR '','']" xs rule: join.induct) auto

lemma print_json_printed: "json_ok j \<Longrightarrow> printed_by (length (print_json j)) j"
proof (induction j)
  case (JNum n)
  then have n: "scan_number n = Some (n, [])" by simp
  then have "n \<noteq> []" by (auto simp: scan_number_def scan_int_def)
  then obtain c s where s: "n = c # s" by (cases n) auto
  with n have c: "c = CHR ''-'' \<or> is_digit c" using scan_number_first [of c s] by simp
  show ?case
    using number_first_char [OF c] scan_number_append [OF n]
    by (auto simp: printed_by_def s skip_ws_Cons)
next
  case (JArr vs)
  show ?case
  proof (cases "vs = []")
    case False
    let ?b = "join '','' (map print_json vs)"
    from JArr.prems False have "json_ok (hd vs)" by (cases vs) auto
    from print_json_first [OF this] obtain c s where c: "print_json (hd vs) = c # s"
      "c \<notin> {CHR 0x20, CHR 0x09, CHR 0x0A, CHR 0x0D, CHR '']'', CHR ''}''}" by blast
    with False join_first [of "map print_json vs" c s] obtain q where q: "?b = c # q"
      by (auto simp: hd_map)
    have e: "parse_elems m (?b @ CHR '']'' # r) = Some (vs, r)" if "length ?b + 2 \<le> m" for m r
      using JArr False that by (intro parse_elems_print) (auto simp: list_all_iff)
    show ?thesis
      unfolding printed_by_def
    proof (intro allI impI)
      fix m r
      assume "length (print_json (JArr vs)) \<le> m" "number_end r"
      with e [of m r] c(2) q show "parse_value (Suc m) (print_json (JArr vs) @ r) = Some (JArr vs, r)"
        by (simp add: skip_ws_Cons)
    qed
  qed (auto simp: printed_by_def skip_ws_Cons)
next
  case (JObj kvs)
  show ?case
  proof (cases "kvs = []")
    case False
    let ?b = "join '','' (map print_member kvs)"
    have c: "hd (map print_member kvs) = CHR 0x22 # tl (print_member (hd kvs))"
      using False by (simp add: hd_map print_member_def quote_def)
    with False join_first [of "map print_member kvs"] obtain q where q: "?b = CHR 0x22 # q"
      by fastforce
    have e: "parse_members m (?b @ CHR ''}'' # r) = Some (kvs, r)" if "length ?b + 2 \<le> m" for m r
      using JObj False that by (intro parse_members_print) (auto simp: list_all_iff)
    have p: "print_json (JObj kvs) = CHR ''{'' # ?b @ ''}''"
      by (simp add: print_member_def [abs_def])
    show ?thesis
      unfolding printed_by_def p
    proof (intro allI impI)
      fix m r
      assume "length (CHR ''{'' # ?b @ ''}'') \<le> m" "number_end r"
      with e [of m r] q show "parse_value (Suc m) ((CHR ''{'' # ?b @ ''}'') @ r) = Some (JObj kvs, r)"
        by (simp add: skip_ws_Cons)
    qed
  qed (auto simp: printed_by_def skip_ws_Cons)
qed (auto simp: printed_by_def quote_def skip_ws_Cons scan_escape)

text \<open>A printed document decodes to itself, so two documents with the same encoding are equal: a
  digest of the encoding identifies the document.\<close>

lemma parse_print_json:
  assumes "json_ok j"
  shows "parse_json (print_json j) = Some j"
  using print_json_printed [OF assms]
  by (simp add: parse_json_def printed_by_def number_end_def skip_ws_def)

lemma print_json_inject:
  assumes "json_ok a" "json_ok b" "print_json a = print_json b"
  shows "a = b"
  using print_json_printed [OF assms(1)] print_json_printed [OF assms(2)] assms(3)
  by (auto simp: printed_by_def number_end_def)

section \<open>Canonical documents\<close>

text \<open>Decoding into \<open>map[string]any\<close> and encoding again: of equal keys the last one stays, and
  members are written in key order.\<close>

definition sort_members :: "(string \<times> json) list \<Rightarrow> (string \<times> json) list" where
  "sort_members kvs = map (\<lambda>k. (k, the (map_of (rev kvs) k))) (sorted_keys kvs)"

fun canon :: "json \<Rightarrow> json" where
  "canon (JArr vs) = JArr (map canon vs)"
| "canon (JObj kvs) = JObj (sort_members (map (\<lambda>kv. (fst kv, canon (snd kv))) kvs))"
| "canon j = j"

text \<open>A key lookup in a decoded object: the last member counts.\<close>

definition member :: "string \<Rightarrow> (string \<times> json) list \<Rightarrow> json option" where
  "member k kvs = map_of (rev kvs) k"

subsection \<open>Decoded numbers are literals\<close>

definition no_digit :: "string \<Rightarrow> bool" where
  "no_digit z = (z = [] \<or> \<not> is_digit (hd z))"

lemma scan_digits_literal:
  assumes "scan_digits s = Some (d, q)"
  shows "d \<noteq> [] \<and> (no_digit z \<longrightarrow> scan_digits (d @ z) = Some (d, z))"
proof -
  from assms have d: "d = takeWhile is_digit s" "d \<noteq> []" by (auto simp: scan_digits_def Let_def split: if_splits)
  then have all: "\<forall>c \<in> set d. is_digit c" by (auto dest: set_takeWhileD)
  have "takeWhile is_digit z = [] \<and> dropWhile is_digit z = z" if "no_digit z"
    using that by (cases z) (auto simp: no_digit_def)
  with all d(2) show ?thesis
    by (auto simp: scan_digits_def Let_def)
qed

lemma scan_int_literal:
  assumes "scan_int s = Some (d, q)"
  shows "d \<noteq> [] \<and> hd d \<noteq> CHR ''-'' \<and> (no_digit z \<longrightarrow> scan_int (d @ z) = Some (d, z))"
proof (cases "hd s = CHR ''0''")
  case True
  with assms show ?thesis by (auto simp: scan_int_def split: list.splits)
next
  case False
  with assms have d: "scan_digits s = Some (d, q)" by (auto simp: scan_int_def split: list.splits)
  then have dd: "d = takeWhile is_digit s" by (auto simp: scan_digits_def Let_def split: if_splits)
  from scan_digits_literal [OF d] have l: "d \<noteq> []" "no_digit z \<longrightarrow> scan_digits (d @ z) = Some (d, z)" by auto
  with dd have "is_digit (hd d)" by (metis hd_in_set set_takeWhileD)
  then have "hd d \<noteq> CHR ''-''" by (auto simp: is_digit_def less_eq_char_def)
  moreover have "hd d = hd s" using dd l(1) by (cases s) (auto split: if_splits)
  ultimately show ?thesis using l False by (cases d) (auto simp: scan_int_def)
qed

definition no_frac :: "string \<Rightarrow> bool" where
  "no_frac z = (no_digit z \<and> (z = [] \<or> hd z \<noteq> CHR ''.''))"

lemma scan_frac_literal:
  assumes "scan_frac s = Some (d, q)"
  shows "(d = [] \<or> hd d = CHR ''.'') \<and> (no_frac z \<longrightarrow> scan_frac (d @ z) = Some (d, z))"
proof (cases "s \<noteq> [] \<and> hd s = CHR ''.''")
  case True
  then obtain r where s: "s = CHR ''.'' # r" by (cases s) auto
  with assms obtain d' where d: "d = CHR ''.'' # d'" "scan_digits r = Some (d', q)"
    by (auto simp: scan_frac_def)
  from scan_digits_literal [OF d(2)] show ?thesis by (auto simp: scan_frac_def no_frac_def d(1))
next
  case False
  with assms have "d = []" by (auto simp: scan_frac_def split: list.splits if_splits)
  then show ?thesis by (auto simp: scan_frac_def no_frac_def split: list.splits)
qed

lemma scan_exp_literal:
  assumes "scan_exp s = Some (d, q)"
  shows "no_frac d \<and> scan_exp d = Some (d, [])"
proof (cases "s \<noteq> [] \<and> (hd s = CHR ''e'' \<or> hd s = CHR ''E'')")
  case True
  then obtain c r where s: "s = c # r" and c: "c = CHR ''e'' \<or> c = CHR ''E''" by (cases s) auto
  have nf: "no_frac (c # x)" for x using c by (auto simp: no_frac_def no_digit_def is_digit_def less_eq_char_def)
  from assms s c obtain g r' where r: "r = g # r'" by (auto simp: scan_exp_def split: list.splits)
  show ?thesis
  proof (cases "g = CHR ''+'' \<or> g = CHR ''-''")
    case True
    with assms s c r obtain d' where d: "d = c # g # d'" "scan_digits r' = Some (d', q)"
      by (auto simp: scan_exp_def)
    from scan_digits_literal [OF d(2), of "[]"] c True nf show ?thesis
      by (auto simp: d(1) scan_exp_def no_digit_def)
  next
    case False
    with assms s c r obtain d' where d: "d = c # d'" "scan_digits r = Some (d', q)"
      by (auto simp: scan_exp_def)
    then have dd: "d' = takeWhile is_digit r" "d' \<noteq> []" by (auto simp: scan_digits_def Let_def split: if_splits)
    with r have "d' = g # tl d'" by (auto split: if_splits)
    then obtain d'' where d'': "d' = g # d''" by blast
    from scan_digits_literal [OF d(2), of "[]"] have "scan_digits (g # d'') = Some (d', [])"
      by (simp add: no_digit_def d'')
    with c False nf show ?thesis by (auto simp: d(1) d'' scan_exp_def)
  qed
next
  case False
  with assms have "d = []" by (auto simp: scan_exp_def split: list.splits if_splits)
  then show ?thesis by (simp add: scan_exp_def no_frac_def no_digit_def)
qed

lemma scan_number_literal:
  assumes "scan_number s = Some (n, q)"
  shows "scan_number n = Some (n, [])"
proof -
  define sg where "sg = (if s \<noteq> [] \<and> hd s = CHR ''-'' then ''-'' else [])"
  define s0 where "s0 = (if s \<noteq> [] \<and> hd s = CHR ''-'' then tl s else s)"
  have "scan_number s =
      (case scan_int s0 of None \<Rightarrow> None | Some (i, s1) \<Rightarrow>
       case scan_frac s1 of None \<Rightarrow> None | Some (f, s2) \<Rightarrow>
       case scan_exp s2 of None \<Rightarrow> None | Some (e, s3) \<Rightarrow> Some (sg @ i @ f @ e, s3))"
    by (cases s) (simp_all add: scan_number_def sg_def s0_def cong: option.case_cong)
  with assms obtain i s1 f s2 e where
    i: "scan_int s0 = Some (i, s1)" and f: "scan_frac s1 = Some (f, s2)" and e: "scan_exp s2 = Some (e, q)"
    and n: "n = sg @ i @ f @ e"
    by (auto split: option.splits)
  from scan_exp_literal [OF e] have e': "no_frac e" "scan_exp e = Some (e, [])" by auto
  with scan_frac_literal [OF f, of e] have f': "scan_frac (f @ e) = Some (f, e)" "f = [] \<or> hd f = CHR ''.''" by auto
  then have "no_digit (f @ e)" using e'(1)
    by (cases f) (auto simp: no_digit_def no_frac_def is_digit_def less_eq_char_def)
  with scan_int_literal [OF i, of "f @ e"]
  have i': "scan_int (i @ f @ e) = Some (i, f @ e)" "i \<noteq> []" "hd i \<noteq> CHR ''-''" by auto
  show ?thesis
  proof (cases "s \<noteq> [] \<and> hd s = CHR ''-''")
    case True
    then have "n = CHR ''-'' # i @ f @ e" by (simp add: n sg_def)
    then show ?thesis by (simp add: scan_number_def i' f' e')
  next
    case False
    then have "n = i @ f @ e" by (auto simp: n sg_def)
    with i' f' e' show ?thesis by (cases i) (simp_all add: scan_number_def)
  qed
qed

lemma parse_value_ok:
  "parse_value m s = Some (j, r) \<Longrightarrow> json_ok j"
  "parse_elems m s = Some (js, r) \<Longrightarrow> list_all json_ok js"
  "parse_members m s = Some (kvs, r) \<Longrightarrow> list_all (\<lambda>kv. json_ok (snd kv)) kvs"
proof (induction m s and m s and m s arbitrary: j r and js r and kvs r
    rule: parse_value_parse_elems_parse_members.induct)
  case (2 n s)
  then show ?case
    by (auto split: list.splits if_splits dest: scan_number_literal)
next
  case (4 n s)
  then show ?case by (fastforce split: option.splits list.splits if_splits)
next
  case (6 n s)
  then show ?case by (fastforce split: option.splits list.splits if_splits)
qed simp_all

lemma parse_json_ok: "parse_json s = Some j \<Longrightarrow> json_ok j"
  by (auto simp: parse_json_def simp del: parse_value.simps dest: parse_value_ok(1) split: option.splits if_splits)

lemma canon_ok: "json_ok j \<Longrightarrow> json_ok (canon j)"
proof (induction j)
  case (JObj kvs)
  have "json_ok (the (map_of (rev (map (\<lambda>kv. (fst kv, canon (snd kv))) kvs)) k))"
    if "k \<in> fst ` set kvs" for k
  proof -
    let ?l = "rev (map (\<lambda>kv. (fst kv, canon (snd kv))) kvs)"
    from that have "map_of ?l k \<noteq> None" by (auto simp: map_of_eq_None_iff image_iff)
    then obtain v where v: "map_of ?l k = Some v" by blast
    then have "(k, v) \<in> set ?l" by (rule map_of_SomeD)
    then obtain kv where "kv \<in> set kvs" "v = canon (snd kv)" by auto
    with JObj v show ?thesis by (cases kv) (force simp: list_all_iff)
  qed
  then show ?case by (auto simp: list_all_iff sort_members_def sorted_keys_def image_image)
qed (auto simp: list_all_iff)

section \<open>Integers\<close>

text \<open>The decimal text of an integer, and \<open>strconv.ParseInt(s, 10, 64)\<close>.\<close>

fun show_nat :: "nat \<Rightarrow> string" where
  "show_nat n = (if n < 10 then [char_of (48 + n)] else show_nat (n div 10) @ [char_of (48 + n mod 10)])"

declare show_nat.simps [simp del]

definition show_int :: "int \<Rightarrow> string" where
  "show_int n = (if n < 0 then CHR ''-'' # show_nat (nat (- n)) else show_nat (nat n))"

definition parse_nat :: "string \<Rightarrow> nat" where
  "parse_nat s = foldl (\<lambda>n c. n * 10 + (of_char c - 48)) 0 s"

definition parse_int64 :: "string \<Rightarrow> int option" where
  "parse_int64 s =
     (let neg = (s \<noteq> [] \<and> hd s = CHR ''-'');
          ds = (if s \<noteq> [] \<and> (hd s = CHR ''-'' \<or> hd s = CHR ''+'') then tl s else s);
          n = (if neg then - int (parse_nat ds) else int (parse_nat ds))
      in if ds \<noteq> [] \<and> list_all is_digit ds \<and> - (2 ^ 63) \<le> n \<and> n < 2 ^ 63 then Some n else None)"

lemma digit_char:
  "n < (10::nat) \<Longrightarrow> is_digit (char_of (48 + n)) \<and> of_char (char_of (48 + n) :: char) = 48 + n"
  by (simp add: is_digit_def less_eq_char_def)

lemma show_nat_digits: "show_nat n \<noteq> [] \<and> list_all is_digit (show_nat n)"
proof (induction n rule: show_nat.induct)
  case (1 n)
  then show ?case
    using digit_char [of n] digit_char [of "n mod 10"]
    by (subst show_nat.simps, subst show_nat.simps) auto
qed

lemma parse_show_nat: "parse_nat (show_nat n) = n"
proof (induction n rule: show_nat.induct)
  case (1 n)
  show ?case
  proof (cases "n < 10")
    case True
    with digit_char [of n] show ?thesis by (subst show_nat.simps) (simp add: parse_nat_def)
  next
    case False
    then have "show_nat n = show_nat (n div 10) @ [char_of (48 + n mod 10)]"
      by (subst show_nat.simps) simp
    with False 1 digit_char [of "n mod 10"] show ?thesis by (simp add: parse_nat_def)
  qed
qed

lemma show_nat_hd: "is_digit (hd (show_nat n))"
  using show_nat_digits [of n] by (cases "show_nat n") auto

lemma digit_no_sign: "is_digit c \<Longrightarrow> c \<noteq> CHR ''-'' \<and> c \<noteq> CHR ''+'' \<and> c \<noteq> CHR ''.''"
  by (auto simp: is_digit_def less_eq_char_def)

lemma parse_show_int:
  assumes "- (2 ^ 63) \<le> n" "n < 2 ^ 63"
  shows "parse_int64 (show_int n) = Some n"
  using assms show_nat_digits [of "nat n"] show_nat_digits [of "nat (- n)"] show_nat_hd [of "nat n"]
    digit_no_sign [of "hd (show_nat (nat n))"]
  by (auto simp: parse_int64_def show_int_def parse_show_nat Let_def)

lemma show_int_sign: "hd (show_int n) = CHR ''-'' \<longleftrightarrow> n < 0"
  using show_nat_hd [of "nat n"] digit_no_sign [of "hd (show_nat (nat n))"] by (simp add: show_int_def)

lemma show_int_inject: "show_int a = show_int b \<Longrightarrow> a = b"
proof -
  assume e: "show_int a = show_int b"
  then have s: "a < 0 \<longleftrightarrow> b < 0" using show_int_sign [of a] show_int_sign [of b] by simp
  show "a = b"
  proof (cases "a < 0")
    case True
    with e s have "show_nat (nat (- a)) = show_nat (nat (- b))" by (simp add: show_int_def)
    then have "nat (- a) = nat (- b)" by (metis parse_show_nat)
    with True s show ?thesis by simp
  next
    case False
    with e s have "show_nat (nat a) = show_nat (nat b)" by (simp add: show_int_def)
    then have "nat a = nat b" by (metis parse_show_nat)
    with False s show ?thesis by simp
  qed
qed

lemma show_nat_first: "n \<noteq> 0 \<Longrightarrow> hd (show_nat n) \<noteq> CHR ''0''"
proof (induction n rule: show_nat.induct)
  case (1 n)
  show ?case
  proof (cases "n < 10")
    case True
    with 1 digit_char [of n] show ?thesis
      by (subst show_nat.simps) (auto dest!: arg_cong [where f = "of_char :: char \<Rightarrow> nat"])
  next
    case False
    with 1 show_nat_digits [of "n div 10"] show ?thesis by (subst show_nat.simps) simp
  qed
qed

lemma scan_int_show_nat: "scan_int (show_nat n) = Some (show_nat n, [])"
proof (cases "n = 0")
  case True
  then have "show_nat n = ''0''" by (simp add: show_nat.simps char_of_def bit_0)
  then show ?thesis by (simp add: scan_int_def)
next
  case False
  with show_nat_first [OF False] show_nat_digits [of n] show ?thesis
    by (cases "show_nat n") (auto simp: scan_int_def scan_digits_def Let_def list_all_iff)
qed

lemma show_int_literal [simp]: "scan_number (show_int n) = Some (show_int n, [])"
proof (cases "n < 0")
  case True
  then show ?thesis
    by (simp add: show_int_def scan_number_def scan_int_show_nat scan_frac_def scan_exp_def)
next
  case False
  have "show_nat (nat n) \<noteq> [] \<and> hd (show_nat (nat n)) \<noteq> CHR ''-''"
    using show_nat_digits [of "nat n"] show_nat_hd [of "nat n"] digit_no_sign by blast
  with False show ?thesis
    using scan_int_show_nat [of "nat n"]
    by (cases "show_nat (nat n)") (simp_all add: show_int_def scan_number_def scan_frac_def scan_exp_def)
qed

end
