(* ===== verification/Journal_Store.thy ===== *)
theory Journal_Store
  imports Json
begin

text \<open>
  The data of the journal (\<open>internal/journal/store.go\<close>, \<open>interactions.go\<close>, \<open>operations.go\<close> and the
  migrations that define the tables) and the transactions its operations are written in.

  A table is the list of its rows in insertion order, so the \<open>ordinal\<close> identity column of
  \<open>agent_commands\<close> is the position in the list; a nullable column is an option; a JSON column holds
  the decoded value. Times are integers, in microseconds; a Go duration is an integer, in
  nanoseconds. All operations on a conversation lock its row first, so each transaction is one
  atomic step on the database and reads the clock at one instant \<open>now\<close>.

  Two things come from outside: SHA-256, and the message codec of the agent framework with which the
  journal appends a tool result to a stored history. They are the fields of \<open>libs\<close>, a parameter of the
  operations that use them.
\<close>

record libs =
  lib_sha256 :: "bytes \<Rightarrow> string"
  lib_append_result :: "json \<Rightarrow> string \<Rightarrow> string \<Rightarrow> json option"

section \<open>Errors and states\<close>

datatype journal_error =
    ErrOwnership | ErrPending | ErrConflict | ErrExpired | ErrForbidden | ErrBusy | ErrState
  | ErrDefinition | ErrDefinitionSuperseded | ErrSuperseded | ErrOutcomeUnknown
  | NoRows | UniqueViolation | CheckViolation | DecodeError

datatype RunState =
    RunAwaitingInput | RunInterrupted | RunPending | RunRunning | RunCompleted | RunFailed
  | RunAuthRequired | RunDependencyUnavailable | RunLimitExceeded

fun state_string :: "RunState \<Rightarrow> string" where
  "state_string RunAwaitingInput = ''awaiting_input''"
| "state_string RunInterrupted = ''interrupted''"
| "state_string RunPending = ''pending''"
| "state_string RunRunning = ''running''"
| "state_string RunCompleted = ''completed''"
| "state_string RunFailed = ''failed''"
| "state_string RunAuthRequired = ''auth_required''"
| "state_string RunDependencyUnavailable = ''dependency_unavailable''"
| "state_string RunLimitExceeded = ''limit_exceeded''"

definition live :: "RunState \<Rightarrow> bool" where
  "live s = (s = RunPending \<or> s = RunRunning)"

datatype interaction_state = IPending | IConsumed | IExpired

datatype marker = Requested | Decided | Denied | Dispatched | Superseded

section \<open>Values of the Go API\<close>

record Command =
  ThreadID :: string
  RunID :: string
  CommunicationID :: string
  Principal :: string
  Tenant :: string
  Text :: string
  TargetJourney :: string
  InteractionID :: string
  ReplyKind :: string
  ReplyJSON :: string

record Receipt =
  rc_ThreadID :: string
  rc_RunID :: string
  rc_CommunicationID :: string
  rc_ExecutionRunID :: string
  rc_State :: RunState

record Event =
  e_Type :: string
  e_RunID :: string
  e_CallID :: string
  e_ToolName :: string
  e_Answer :: string
  e_CommunicationID :: string
  e_Reason :: string
  e_Detail :: "json option"

definition event :: "string \<Rightarrow> string \<Rightarrow> Event" where
  "event run typ = \<lparr>e_Type = typ, e_RunID = run, e_CallID = [], e_ToolName = [], e_Answer = [],
     e_CommunicationID = [], e_Reason = [], e_Detail = None\<rparr>"

record Option =
  o_Label :: string
  o_Description :: string

record Question =
  q_ID :: string
  q_Header :: string
  q_Question :: string
  q_Options :: "Option list"

record ProposedCall =
  pc_CallID :: string
  pc_ProviderCallID :: string
  pc_Name :: string
  pc_Arguments :: bytes
  pc_Binding :: string

record Interaction =
  i_ID :: string
  i_Kind :: string
  i_Questions :: "Question list"
  i_Call :: ProposedCall
  i_ExpiresAt :: int
  i_JourneyID :: string
  i_OperationKey :: string
  i_NameDigest :: string
  i_SchemaDigest :: string

record Answer =
  a_Option :: string
  a_Custom :: string

record Reply =
  r_Answers :: "(string \<times> Answer) list"
  r_Decision :: string
  r_Binding :: string

record Operation =
  o_CallID :: string
  o_Name :: string
  o_Arguments :: bytes
  o_Binding :: string
  o_Policy :: string
  o_OperationKey :: string
  o_NameDigest :: string
  o_SchemaDigest :: string
  o_RequiresApproval :: bool
  o_JourneyID :: string

record Owner =
  ow_Command :: Command
  ow_ID :: string
  ow_Epoch :: int

record CatalogSnapshot =
  cs_Digest :: string
  cs_Tenant :: string
  cs_Principal :: string
  cs_ProductVersion :: string
  cs_EndpointID :: string
  cs_ServerVersion :: string
  cs_Descriptors :: bytes
  cs_CapturedAt :: int

section \<open>Tables\<close>

record conversation_row =
  cv_id :: string
  cv_principal :: string
  cv_sequence :: int
  cv_owner_epoch :: int
  cv_history :: json
  cv_definition_digest :: "string option"
  cv_active_journeys :: "string list"
  cv_catalog_digest :: "string option"
  cv_product_version :: "string option"
  cv_catalog_validated_at :: "int option"

record command_row =
  cm_thread_id :: string
  cm_communication_id :: string
  cm_run_id :: string
  cm_payload :: Command
  cm_execution_run_id :: string
  cm_included :: bool
  cm_terminal_reason :: string

record run_row =
  rn_id :: string
  rn_thread_id :: string
  rn_state :: RunState
  rn_journey_id :: "string option"
  rn_definition_digest :: "string option"
  rn_answer :: string
  rn_owner_id :: string
  rn_owner_epoch :: int
  rn_lease_until :: int
  rn_product_version :: "string option"
  rn_endpoint_id :: "string option"
  rn_settings :: "json option"
  rn_server_info :: "json option"
  rn_catalog_digest :: "string option"

record event_row =
  ev_thread_id :: string
  ev_sequence :: int
  ev_event :: Event

record interaction_row =
  ia_id :: string
  ia_thread_id :: string
  ia_run_id :: string
  ia_journey_id :: "string option"
  ia_definition_digest :: string
  ia_kind :: string
  ia_artifact :: Interaction
  ia_checkpoint :: json
  ia_history :: json
  ia_expires_at :: int
  ia_state :: interaction_state
  ia_continuation_run_id :: "string option"
  ia_reply :: "json option"
  ia_marker :: "marker option"
  ia_operation_key :: string
  ia_name_digest :: string
  ia_schema_digest :: string
  ia_product_version :: "string option"
  ia_catalog_digest :: "string option"
  ia_active_journeys :: "string list"

record operation_row =
  op_call_id :: string
  op_thread_id :: string
  op_run_id :: string
  op_alias :: string
  op_operation_key :: string
  op_arguments :: bytes
  op_binding :: string
  op_policy :: string
  op_requires_approval :: bool
  op_outcome :: string
  op_journey_id :: "string option"

record attempt_row =
  at_call_id :: string
  at_attempt :: int
  at_outcome :: string

record usage_row =
  us_thread_id :: string
  us_run_id :: string
  us_seq :: int
  us_model :: string
  us_input_tokens :: int
  us_output_tokens :: int
  us_cached_tokens :: int
  us_tenant :: string
  us_principal :: string
  us_journey_id :: "string option"
  us_recorded_at :: int

record definition_set_row =
  dset_digest :: string
  dset_files :: "(string \<times> bytes) list"
  dset_activated_at :: "int option"

record db =
  conversations :: "conversation_row list"
  commands :: "command_row list"
  runs :: "run_row list"
  events :: "event_row list"
  interactions :: "interaction_row list"
  operations :: "operation_row list"
  attempts :: "attempt_row list"
  usage :: "usage_row list"
  definition_current :: "string option"
  definition_sets :: "definition_set_row list"
  catalog_snapshots :: "CatalogSnapshot list"

definition empty_db :: db where
  "empty_db = \<lparr>conversations = [], commands = [], runs = [], events = [], interactions = [],
     operations = [], attempts = [], usage = [], definition_current = None, definition_sets = [],
     catalog_snapshots = []\<rparr>"

section \<open>Transactions\<close>

text \<open>
  A transaction body reads and writes the database and may fail. The statements take the rest of
  the body as their last argument: a query passes its result on, a write passes the new
  database on, a guard ends the body with an error, and \<open>call\<close> runs a helper in the same
  transaction.
\<close>

type_synonym 'a tx = "db \<Rightarrow> journal_error + 'a \<times> db"

definition return :: "'a \<Rightarrow> 'a tx" where
  "return x = (\<lambda>db. Inr (x, db))"

definition fail :: "journal_error \<Rightarrow> 'a tx" where
  "fail e = (\<lambda>db. Inl e)"

definition query :: "(db \<Rightarrow> 'x) \<Rightarrow> ('x \<Rightarrow> 'a tx) \<Rightarrow> 'a tx" where
  "query f k = (\<lambda>db. k (f db) db)"

definition exec :: "(db \<Rightarrow> db) \<Rightarrow> 'a tx \<Rightarrow> 'a tx" where
  "exec f k = (\<lambda>db. k (f db))"

definition guard :: "bool \<Rightarrow> journal_error \<Rightarrow> 'a tx \<Rightarrow> 'a tx" where
  "guard b e k = (if b then k else fail e)"

definition call :: "'x tx \<Rightarrow> ('x \<Rightarrow> 'a tx) \<Rightarrow> 'a tx" where
  "call m k = (\<lambda>db. case m db of Inl e \<Rightarrow> Inl e | Inr (x, db') \<Rightarrow> k x db')"

text \<open>A query for one row: no row is an error of the query.\<close>

definition query_row :: "(db \<Rightarrow> 'x option) \<Rightarrow> journal_error \<Rightarrow> ('x \<Rightarrow> 'a tx) \<Rightarrow> 'a tx" where
  "query_row f e k = (\<lambda>db. case f db of None \<Rightarrow> Inl e | Some x \<Rightarrow> k x db)"

fun for_each :: "'x list \<Rightarrow> ('x \<Rightarrow> unit tx) \<Rightarrow> unit tx" where
  "for_each [] f = return ()"
| "for_each (x # xs) f = call (f x) (\<lambda>_. for_each xs f)"

text \<open>\<open>pgx.BeginFunc\<close>: commit on success, roll back on error.\<close>

definition begin_func :: "'a tx \<Rightarrow> db \<Rightarrow> (journal_error + 'a) \<times> db" where
  "begin_func m db = (case m db of Inl e \<Rightarrow> (Inl e, db) | Inr (x, db') \<Rightarrow> (Inr x, db'))"

lemmas tx_defs = return_def fail_def query_def exec_def guard_def call_def query_row_def

lemma return_ok [simp]: "return x db = Inr (y, db') \<longleftrightarrow> y = x \<and> db' = db"
  by (auto simp: return_def)

lemma fail_ok [simp]: "fail e db = Inr r \<longleftrightarrow> False"
  by (simp add: fail_def)

lemma query_ok [simp]: "query f k db = k (f db) db"
  by (simp add: query_def)

lemma exec_ok [simp]: "exec f k db = k (f db)"
  by (simp add: exec_def)

lemma guard_ok [simp]: "guard b e k db = Inr r \<longleftrightarrow> b \<and> k db = Inr r"
  by (simp add: guard_def)

lemma call_ok [simp]: "call m k db = Inr r \<longleftrightarrow> (\<exists>x db1. m db = Inr (x, db1) \<and> k x db1 = Inr r)"
  by (auto simp: call_def split: sum.splits)

lemma query_row_ok [simp]: "query_row f e k db = Inr r \<longleftrightarrow> (\<exists>x. f db = Some x \<and> k x db = Inr r)"
  by (auto simp: query_row_def split: option.splits)

lemma case_option_fail_ok [simp]:
  "(case a of None \<Rightarrow> fail e | Some x \<Rightarrow> f x) db = Inr r \<longleftrightarrow> (\<exists>x. a = Some x \<and> f x db = Inr r)"
  by (cases a) auto

lemma case_sum_fail_ok [simp]:
  "(case a of Inl e \<Rightarrow> fail e | Inr x \<Rightarrow> f x) db = Inr r \<longleftrightarrow> (\<exists>x. a = Inr x \<and> f x db = Inr r)"
  by (cases a) auto

lemma begin_func_cases:
  obtains (rollback) e where "m db = Inl e" "begin_func m db = (Inl e, db)"
    | (commit) x db' where "m db = Inr (x, db')" "begin_func m db = (Inr x, db')"
  by (cases "m db") (auto simp: begin_func_def)

lemma begin_func_Inl: "begin_func m db = (Inl e, db') \<longleftrightarrow> m db = Inl e \<and> db' = db"
  by (auto simp: begin_func_def split: sum.splits)

lemma begin_func_Inr: "begin_func m db = (Inr x, db') \<longleftrightarrow> m db = Inr (x, db')"
  by (auto simp: begin_func_def split: sum.splits)

section \<open>Rows\<close>

definition find_conversation :: "string \<Rightarrow> db \<Rightarrow> conversation_row option" where
  "find_conversation thread db = find (\<lambda>c. cv_id c = thread) (conversations db)"

definition find_run :: "string \<Rightarrow> string \<Rightarrow> db \<Rightarrow> run_row option" where
  "find_run thread run db = find (\<lambda>r. rn_thread_id r = thread \<and> rn_id r = run) (runs db)"

definition update_conversation :: "string \<Rightarrow> (conversation_row \<Rightarrow> conversation_row) \<Rightarrow> db \<Rightarrow> db" where
  "update_conversation thread f db =
     db\<lparr>conversations := update_where (\<lambda>c. cv_id c = thread) f (conversations db)\<rparr>"

definition update_run :: "string \<Rightarrow> string \<Rightarrow> (run_row \<Rightarrow> run_row) \<Rightarrow> db \<Rightarrow> db" where
  "update_run thread run f db =
     db\<lparr>runs := update_where (\<lambda>r. rn_thread_id r = thread \<and> rn_id r = run) f (runs db)\<rparr>"

definition update_interactions :: "(interaction_row \<Rightarrow> bool) \<Rightarrow> (interaction_row \<Rightarrow> interaction_row) \<Rightarrow> db \<Rightarrow> db" where
  "update_interactions p f db = db\<lparr>interactions := update_where p f (interactions db)\<rparr>"

definition update_commands :: "(command_row \<Rightarrow> bool) \<Rightarrow> (command_row \<Rightarrow> command_row) \<Rightarrow> db \<Rightarrow> db" where
  "update_commands p f db = db\<lparr>commands := update_where p f (commands db)\<rparr>"

definition update_operations :: "(operation_row \<Rightarrow> bool) \<Rightarrow> (operation_row \<Rightarrow> operation_row) \<Rightarrow> db \<Rightarrow> db" where
  "update_operations p f db = db\<lparr>operations := update_where p f (operations db)\<rparr>"

definition update_attempts :: "(attempt_row \<Rightarrow> bool) \<Rightarrow> (attempt_row \<Rightarrow> attempt_row) \<Rightarrow> db \<Rightarrow> db" where
  "update_attempts p f db = db\<lparr>attempts := update_where p f (attempts db)\<rparr>"

lemmas table_updates = update_conversation_def update_run_def update_interactions_def
  update_commands_def update_operations_def update_attempts_def

section \<open>Unique keys of inserted rows\<close>

text \<open>The unique constraints an insert can violate: the primary keys and, through the two
  partial unique indexes, one live run and one pending interaction per conversation.\<close>

definition insert_command :: "command_row \<Rightarrow> 'a tx \<Rightarrow> 'a tx" where
  "insert_command row k = query commands (\<lambda>cs.
     guard (\<not> list_ex (\<lambda>c. cm_thread_id c = cm_thread_id row \<and> cm_communication_id c = cm_communication_id row
                      \<or> cm_run_id c = cm_run_id row) cs) UniqueViolation
       (exec (\<lambda>db. db\<lparr>commands := commands db @ [row]\<rparr>) k))"

definition insert_run :: "run_row \<Rightarrow> 'a tx \<Rightarrow> 'a tx" where
  "insert_run row k = query runs (\<lambda>rs.
     guard (\<not> list_ex (\<lambda>r. rn_id r = rn_id row \<or>
                      live (rn_state r) \<and> live (rn_state row) \<and> rn_thread_id r = rn_thread_id row) rs)
       UniqueViolation (exec (\<lambda>db. db\<lparr>runs := runs db @ [row]\<rparr>) k))"

definition insert_interaction :: "interaction_row \<Rightarrow> 'a tx \<Rightarrow> 'a tx" where
  "insert_interaction row k = query interactions (\<lambda>is.
     guard (\<not> list_ex (\<lambda>i. ia_id i = ia_id row \<or>
                      ia_state i = IPending \<and> ia_state row = IPending \<and> ia_thread_id i = ia_thread_id row) is)
       UniqueViolation (exec (\<lambda>db. db\<lparr>interactions := interactions db @ [row]\<rparr>) k))"

definition insert_operation :: "operation_row \<Rightarrow> 'a tx \<Rightarrow> 'a tx" where
  "insert_operation row k = query operations (\<lambda>xs.
     guard (\<not> list_ex (\<lambda>x. op_call_id x = op_call_id row) xs) UniqueViolation
       (exec (\<lambda>db. db\<lparr>operations := operations db @ [row]\<rparr>) k))"

definition insert_attempt :: "attempt_row \<Rightarrow> 'a tx \<Rightarrow> 'a tx" where
  "insert_attempt row k = query attempts (\<lambda>as.
     guard (\<not> list_ex (\<lambda>a. at_call_id a = at_call_id row \<and> at_attempt a = at_attempt row) as) UniqueViolation
       (exec (\<lambda>db. db\<lparr>attempts := attempts db @ [row]\<rparr>) k))"

text \<open>\<open>agent_conversations.history\<close> must be a JSON array.\<close>

definition is_array :: "json \<Rightarrow> bool" where
  "is_array j = (case j of JArr _ \<Rightarrow> True | _ \<Rightarrow> False)"

definition is_object :: "json \<Rightarrow> bool" where
  "is_object j = (case j of JObj _ \<Rightarrow> True | _ \<Rightarrow> False)"

definition set_history :: "string \<Rightarrow> json \<Rightarrow> 'a tx \<Rightarrow> 'a tx" where
  "set_history thread h k = guard (is_array h) CheckViolation
     (exec (update_conversation thread (\<lambda>c. c\<lparr>cv_history := h\<rparr>)) k)"

section \<open>Locking and events\<close>

definition lockConversation :: "string \<Rightarrow> string \<Rightarrow> unit tx" where
  "lockConversation thread who =
     query_row (find_conversation thread) ErrForbidden (\<lambda>c.
     guard (cv_principal c = who) ErrForbidden (return ()))"

text \<open>The sequence number comes from the conversation row, which the insert then uses as the key.\<close>

definition appendEvent :: "string \<Rightarrow> Event \<Rightarrow> unit tx" where
  "appendEvent thread e =
     exec (update_conversation thread (\<lambda>c. c\<lparr>cv_sequence := cv_sequence c + 1\<rparr>))
     (query_row (find_conversation thread) NoRows (\<lambda>c.
      exec (\<lambda>db. db\<lparr>events := events db @ [\<lparr>ev_thread_id = thread, ev_sequence = cv_sequence c, ev_event = e\<rparr>]\<rparr>)
     (return ())))"

end
