(* ===== verification/Journal_Owners.thy ===== *)
theory Journal_Owners
  imports Journal_Store
begin

text \<open>
  Run ownership (\<open>internal/journal/owners.go\<close>), the disposal of pending commands (\<open>inbox.go\<close>), unresolved
  tool calls (\<open>operations.go\<close>) and expired interactions (\<open>interactions.go\<close>).

  An owner is the run it was given, an identity and an epoch. \<open>lockOwner\<close> is the fence every owned
  operation starts with; \<open>Claim\<close> is the only operation that creates an owner.
\<close>

section \<open>The ownership fence\<close>

definition owns :: "Owner \<Rightarrow> int \<Rightarrow> run_row \<Rightarrow> bool" where
  "owns ow now r =
     (rn_state r = RunRunning \<and> rn_owner_id r = ow_ID ow \<and> rn_owner_epoch r = ow_Epoch ow \<and>
      rn_lease_until r > now)"

definition lockOwner :: "Owner \<Rightarrow> int \<Rightarrow> unit tx" where
  "lockOwner ow now =
     (let c = ow_Command ow in
      call (lockConversation (ThreadID c) (Principal c)) (\<lambda>_.
      query_row (find_run (ThreadID c) (RunID c)) ErrOwnership (\<lambda>r.
      guard (owns ow now r) ErrOwnership (return ()))))"

definition Check :: "Owner \<Rightarrow> int \<Rightarrow> db \<Rightarrow> (journal_error + unit) \<times> db" where
  "Check ow now = begin_func (lockOwner ow now)"

text \<open>\<open>duration.Milliseconds()\<close> as an interval in microseconds: whole milliseconds only.\<close>

definition interval :: "int \<Rightarrow> int" where
  "interval duration = duration div 1000000 * 1000"

definition Renew :: "Owner \<Rightarrow> int \<Rightarrow> int \<Rightarrow> db \<Rightarrow> (journal_error + unit) \<times> db" where
  "Renew ow duration now db =
     (if duration \<le> 0 then (Inl ErrOwnership, db)
      else begin_func
        (call (lockOwner ow now) (\<lambda>_.
         exec (update_run (ThreadID (ow_Command ow)) (RunID (ow_Command ow))
                (\<lambda>r. r\<lparr>rn_lease_until := now + interval duration\<rparr>))
         (return ()))) db)"

section \<open>Claim\<close>

definition with_error :: "(journal_error \<Rightarrow> journal_error) \<Rightarrow> 'a tx \<Rightarrow> 'a tx" where
  "with_error g m = (\<lambda>db. case m db of Inl e \<Rightarrow> Inl (g e) | Inr r \<Rightarrow> Inr r)"

definition claim_command :: "Command \<Rightarrow> db \<Rightarrow> command_row option" where
  "claim_command c db =
     find (\<lambda>k. cm_thread_id k = ThreadID c \<and> cm_run_id k = RunID c \<and> cm_execution_run_id k = RunID c)
       (commands db)"

text \<open>A consumed interaction whose continuation is the given run.\<close>

definition continues :: "string \<Rightarrow> string \<Rightarrow> interaction_row \<Rightarrow> bool" where
  "continues thread run i =
     (ia_thread_id i = thread \<and> ia_continuation_run_id i = Some run \<and> ia_state i = IConsumed)"

definition claim_tx :: "Command \<Rightarrow> string \<Rightarrow> int \<Rightarrow> int \<Rightarrow> Owner tx" where
  "claim_tx c oid duration now =
     call (with_error (\<lambda>e. if e = ErrForbidden then ErrOwnership else e)
             (lockConversation (ThreadID c) (Principal c))) (\<lambda>_.
     query_row (claim_command c) ErrOwnership (\<lambda>k.
     guard (cm_payload k = c) ErrOwnership (
     query_row (find_run (ThreadID c) (RunID c)) ErrOwnership (\<lambda>r.
     query (\<lambda>db. rn_state r = RunPending \<and> rn_owner_epoch r = 0 \<and> \<not> rn_lease_until r > now \<and>
                 InteractionID c \<noteq> [] \<and>
                 list_ex (\<lambda>i. ia_id i = InteractionID c \<and> continues (ThreadID c) (RunID c) i) (interactions db))
       (\<lambda>recoverable.
     guard (rn_state r = RunPending \<and> (rn_lease_until r > now \<or> recoverable)) ErrOwnership (
     exec (update_conversation (ThreadID c) (\<lambda>v. v\<lparr>cv_owner_epoch := cv_owner_epoch v + 1\<rparr>)) (
     query_row (find_conversation (ThreadID c)) NoRows (\<lambda>v.
     exec (update_run (ThreadID c) (RunID c)
            (\<lambda>r. r\<lparr>rn_state := RunRunning, rn_owner_id := oid, rn_owner_epoch := cv_owner_epoch v,
                   rn_lease_until := now + interval duration\<rparr>)) (
     call (appendEvent (ThreadID c) (event (RunID c) ''run.started'')) (\<lambda>_.
     return \<lparr>ow_Command = c, ow_ID = oid, ow_Epoch = cv_owner_epoch v\<rparr>))))))))))"

definition Claim :: "Command \<Rightarrow> string \<Rightarrow> int \<Rightarrow> int \<Rightarrow> db \<Rightarrow> (journal_error + Owner) \<times> db" where
  "Claim c oid duration now db =
     (if oid = [] \<or> duration \<le> 0 then (Inl ErrOwnership, db)
      else begin_func (claim_tx c oid duration now) db)"

section \<open>Closing what a run leaves behind\<close>

definition pending_command :: "string \<Rightarrow> string \<Rightarrow> command_row \<Rightarrow> bool" where
  "pending_command thread run c =
     (cm_thread_id c = thread \<and> cm_execution_run_id c = run \<and> \<not> cm_included c \<and> cm_terminal_reason c = [])"

definition disposePending :: "string \<Rightarrow> string \<Rightarrow> RunState \<Rightarrow> unit tx" where
  "disposePending thread run reason =
     query (\<lambda>db. map cm_communication_id (filter (pending_command thread run) (commands db))) (\<lambda>ids.
     exec (update_commands (pending_command thread run) (\<lambda>c. c\<lparr>cm_terminal_reason := state_string reason\<rparr>)) (
     for_each ids (\<lambda>cid.
       appendEvent thread
         ((event run (if reason = RunInterrupted then ''command.interrupted'' else ''command.rejected''))
            \<lparr>e_CommunicationID := cid, e_Reason := state_string reason\<rparr>))))"

definition dispatching_of :: "string \<Rightarrow> string \<Rightarrow> operation_row \<Rightarrow> bool" where
  "dispatching_of thread run x =
     (op_thread_id x = thread \<and> op_run_id x = run \<and> op_outcome x = ''dispatching'')"

definition markOperationsUnknown :: "string \<Rightarrow> string \<Rightarrow> unit tx" where
  "markOperationsUnknown thread run =
     query operations (\<lambda>xs.
     exec (update_attempts
            (\<lambda>a. at_outcome a = ''dispatching'' \<and>
                 list_ex (\<lambda>x. op_call_id x = at_call_id a \<and> op_thread_id x = thread \<and> op_run_id x = run) xs)
            (\<lambda>a. a\<lparr>at_outcome := ''outcome_unknown''\<rparr>)) (
     exec (update_operations (dispatching_of thread run) (\<lambda>x. x\<lparr>op_outcome := ''outcome_unknown''\<rparr>)) (
     for_each (filter (dispatching_of thread run) xs) (\<lambda>x.
       appendEvent thread ((event run ''tool.outcome_unknown'')
         \<lparr>e_CallID := op_call_id x, e_ToolName := op_alias x\<rparr>)))))"

definition candidate_run :: "string \<Rightarrow> string \<Rightarrow> db \<Rightarrow> run_row option" where
  "candidate_run thread candidate db =
     find (\<lambda>r. rn_thread_id r = thread \<and> live (rn_state r) \<and> (candidate = [] \<or> rn_id r = candidate)) (runs db)"

definition interruptExpired :: "string \<Rightarrow> string \<Rightarrow> int \<Rightarrow> unit tx" where
  "interruptExpired thread candidate now =
     query (candidate_run thread candidate) (\<lambda>found.
     case found of None \<Rightarrow> return ()
     | Some r \<Rightarrow>
         query (\<lambda>db. list_ex (continues thread (rn_id r)) (interactions db)) (\<lambda>continuation.
         if \<not> rn_lease_until r \<le> now \<or> rn_state r = RunPending \<and> rn_owner_epoch r = 0 \<and> continuation
         then return ()
         else exec (update_run thread (rn_id r) (\<lambda>r. if live (rn_state r) then r\<lparr>rn_state := RunInterrupted\<rparr> else r))
             (call (markOperationsUnknown thread (rn_id r)) (\<lambda>_.
              call (disposePending thread (rn_id r) RunInterrupted) (\<lambda>_.
              appendEvent thread (event (rn_id r) ''run.interrupted''))))))"

definition expiring :: "string \<Rightarrow> int \<Rightarrow> interaction_row \<Rightarrow> bool" where
  "expiring thread now i = (ia_thread_id i = thread \<and> ia_state i = IPending \<and> ia_expires_at i \<le> now)"

definition close_expired :: "libs \<Rightarrow> string \<Rightarrow> string \<Rightarrow> unit tx" where
  "close_expired lib thread run =
     query_row (\<lambda>db. find (\<lambda>i. ia_thread_id i = thread \<and> ia_run_id i = run \<and> ia_state i = IExpired) (interactions db))
       NoRows (\<lambda>i.
     case lib_append_result lib (ia_history i) (pc_ProviderCallID (i_Call (ia_artifact i))) ''interaction_expired'' of
       None \<Rightarrow> fail ErrState
     | Some closed \<Rightarrow>
         set_history thread closed (
         exec (update_run thread run (\<lambda>r. if rn_state r = RunAwaitingInput then r\<lparr>rn_state := RunFailed\<rparr> else r)) (
         call (appendEvent thread (event run ''interaction.expired'')) (\<lambda>_.
         appendEvent thread ((event run ''run.failed'')\<lparr>e_Reason := ''interaction_expired''\<rparr>)))))"

definition expire_row :: "interaction_row \<Rightarrow> interaction_row" where
  "expire_row i = i\<lparr>ia_state := IExpired, ia_marker := (if ia_kind i = ''approval'' then Some Denied else None)\<rparr>"

definition expireInteractions :: "libs \<Rightarrow> string \<Rightarrow> int \<Rightarrow> unit tx" where
  "expireInteractions lib thread now =
     query (\<lambda>db. map ia_run_id (filter (expiring thread now) (interactions db))) (\<lambda>expired.
     exec (update_interactions (expiring thread now) expire_row) (
     for_each expired (close_expired lib thread)))"

section \<open>Reap\<close>

text \<open>The conversations and runs with an expired lease or an expired interaction, each once;
  then one transaction for each, up to the first that fails.\<close>

definition expired_runs :: "int \<Rightarrow> db \<Rightarrow> (string \<times> string) list" where
  "expired_runs now db = remdups
     (map (\<lambda>r. (rn_thread_id r, rn_id r)) (filter (\<lambda>r. live (rn_state r) \<and> rn_lease_until r \<le> now) (runs db)) @
      map (\<lambda>i. (ia_thread_id i, ia_run_id i))
        (filter (\<lambda>i. ia_state i = IPending \<and> ia_expires_at i \<le> now) (interactions db)))"

definition reap_tx :: "libs \<Rightarrow> int \<Rightarrow> string \<times> string \<Rightarrow> unit tx" where
  "reap_tx lib now tr =
     query_row (find_conversation (fst tr)) NoRows (\<lambda>_.
     call (interruptExpired (fst tr) (snd tr) now) (\<lambda>_.
     expireInteractions lib (fst tr) now))"

fun reap_all :: "libs \<Rightarrow> int \<Rightarrow> (string \<times> string) list \<Rightarrow> db \<Rightarrow> (journal_error + unit) \<times> db" where
  "reap_all lib now [] db = (Inr (), db)"
| "reap_all lib now (tr # trs) db =
     (case begin_func (reap_tx lib now tr) db of
        (Inl e, db') \<Rightarrow> (Inl e, db')
      | (Inr _, db') \<Rightarrow> reap_all lib now trs db')"

definition Reap :: "libs \<Rightarrow> int \<Rightarrow> db \<Rightarrow> (journal_error + unit) \<times> db" where
  "Reap lib now db = reap_all lib now (expired_runs now db) db"

end
