(* ===== verification/Journal_Reply.thy ===== *)
theory Journal_Reply
  imports Journal_Store
begin

text \<open>
  Interaction artifacts and reply documents (\<open>internal/journal/interactions.go\<close>): strict decoding of a
  reply, the validation of an interaction before it is stored and of a reply against it.
\<close>

section \<open>Strict decoding\<close>

text \<open>Field names match without regard to case. U+017F and U+212A fold to \<open>s\<close> and \<open>k\<close>.\<close>

fun fold_key :: "string \<Rightarrow> string" where
  "fold_key [] = []"
| "fold_key (c # s) =
     (if c = CHR 0xC5 \<and> take 1 s = [CHR 0xBF] then CHR ''s'' # fold_key (drop 1 s)
      else if c = CHR 0xE2 \<and> take 2 s = [CHR 0x84, CHR 0xAA] then CHR ''k'' # fold_key (drop 2 s)
      else to_lower c # fold_key s)"

definition set_key :: "string \<Rightarrow> 'v \<Rightarrow> (string \<times> 'v) list \<Rightarrow> (string \<times> 'v) list" where
  "set_key k v m = filter (\<lambda>kv. fst kv \<noteq> k) m @ [(k, v)]"

text \<open>A JSON null leaves a string field as it is.\<close>

fun decode_string :: "string \<Rightarrow> json \<Rightarrow> string option" where
  "decode_string old (JStr s) = Some s"
| "decode_string old JNull = Some old"
| "decode_string old _ = None"

fun decode_answer_fields :: "Answer \<Rightarrow> (string \<times> json) list \<Rightarrow> Answer option" where
  "decode_answer_fields a [] = Some a"
| "decode_answer_fields a ((k, v) # kvs) =
     (if fold_key k = ''option'' then
        (case decode_string (a_Option a) v of None \<Rightarrow> None
         | Some s \<Rightarrow> decode_answer_fields (a\<lparr>a_Option := s\<rparr>) kvs)
      else if fold_key k = ''custom'' then
        (case decode_string (a_Custom a) v of None \<Rightarrow> None
         | Some s \<Rightarrow> decode_answer_fields (a\<lparr>a_Custom := s\<rparr>) kvs)
      else None)"

fun decode_answer :: "json \<Rightarrow> Answer option" where
  "decode_answer (JObj kvs) = decode_answer_fields \<lparr>a_Option = [], a_Custom = []\<rparr> kvs"
| "decode_answer JNull = Some \<lparr>a_Option = [], a_Custom = []\<rparr>"
| "decode_answer _ = None"

fun decode_answers :: "(string \<times> Answer) list \<Rightarrow> (string \<times> json) list \<Rightarrow> (string \<times> Answer) list option" where
  "decode_answers m [] = Some m"
| "decode_answers m ((k, v) # kvs) =
     (case decode_answer v of None \<Rightarrow> None | Some a \<Rightarrow> decode_answers (set_key k a m) kvs)"

fun decode_reply_fields :: "Reply \<Rightarrow> (string \<times> json) list \<Rightarrow> Reply option" where
  "decode_reply_fields r [] = Some r"
| "decode_reply_fields r ((k, v) # kvs) =
     (if fold_key k = ''answers'' then
        (case v of
           JNull \<Rightarrow> decode_reply_fields (r\<lparr>r_Answers := []\<rparr>) kvs
         | JObj ms \<Rightarrow> (case decode_answers (r_Answers r) ms of None \<Rightarrow> None
             | Some m \<Rightarrow> decode_reply_fields (r\<lparr>r_Answers := m\<rparr>) kvs)
         | _ \<Rightarrow> None)
      else if fold_key k = ''decision'' then
        (case decode_string (r_Decision r) v of None \<Rightarrow> None
         | Some s \<Rightarrow> decode_reply_fields (r\<lparr>r_Decision := s\<rparr>) kvs)
      else if fold_key k = ''binding'' then
        (case decode_string (r_Binding r) v of None \<Rightarrow> None
         | Some s \<Rightarrow> decode_reply_fields (r\<lparr>r_Binding := s\<rparr>) kvs)
      else None)"

fun reply_of_json :: "json \<Rightarrow> Reply option" where
  "reply_of_json (JObj kvs) = decode_reply_fields \<lparr>r_Answers = [], r_Decision = [], r_Binding = []\<rparr> kvs"
| "reply_of_json JNull = Some \<lparr>r_Answers = [], r_Decision = [], r_Binding = []\<rparr>"
| "reply_of_json _ = None"

text \<open>\<open>DecodeStrict\<close> into a \<open>Reply\<close>: one document, no unknown field, no trailing data.\<close>

definition DecodeStrict_reply :: "bytes \<Rightarrow> Reply option" where
  "DecodeStrict_reply s = Option.bind (parse_json s) reply_of_json"

text \<open>\<open>json.Marshal(reply)\<close>, empty fields omitted, map keys in order.\<close>

definition answer_json :: "Answer \<Rightarrow> json" where
  "answer_json a = JObj
     ((if a_Option a = [] then [] else [(''option'', JStr (a_Option a))]) @
      (if a_Custom a = [] then [] else [(''custom'', JStr (a_Custom a))]))"

definition reply_json :: "Reply \<Rightarrow> json" where
  "reply_json r = JObj
     ((if r_Answers r = [] then []
       else [(''answers'', JObj (sort_members (map (\<lambda>(k, a). (k, answer_json a)) (r_Answers r))))]) @
      (if r_Decision r = [] then [] else [(''decision'', JStr (r_Decision r))]) @
      (if r_Binding r = [] then [] else [(''binding'', JStr (r_Binding r))]))"

section \<open>Validation\<close>

text \<open>\<open>len([]rune(s))\<close> for valid UTF-8: the bytes that are not continuation bytes.\<close>

definition rune_count :: "string \<Rightarrow> nat" where
  "rune_count s = length (filter (\<lambda>c. \<not> (128 \<le> (of_char c :: nat) \<and> of_char c < (192 :: nat))) s)"

fun check_options :: "string list \<Rightarrow> Option list \<Rightarrow> bool" where
  "check_options labels [] = True"
| "check_options labels (x # xs) =
     (trim_space (o_Label x) \<noteq> [] \<and> trim_space (o_Description x) \<noteq> [] \<and> o_Label x \<notin> set labels \<and>
      check_options (o_Label x # labels) xs)"

fun check_questions :: "string list \<Rightarrow> Question list \<Rightarrow> bool" where
  "check_questions seen [] = True"
| "check_questions seen (q # qs) =
     (q_ID q \<noteq> [] \<and> q_ID q \<notin> set seen \<and> trim_space (q_Question q) \<noteq> [] \<and> q_Header q \<noteq> [] \<and>
      rune_count (q_Header q) \<le> 12 \<and> 2 \<le> length (q_Options q) \<and> length (q_Options q) \<le> 3 \<and>
      check_options [] (q_Options q) \<and> check_questions (q_ID q # seen) qs)"

definition Validate :: "Interaction \<Rightarrow> journal_error + unit" where
  "Validate i =
     (if i_ID i = [] \<or> pc_CallID (i_Call i) = [] \<or> pc_ProviderCallID (i_Call i) = [] \<or> pc_Name (i_Call i) = []
      then Inl ErrState
      else if pc_Binding (i_Call i) = [] then Inl ErrState
      else if i_Kind i = ''approval'' then (if i_Questions i \<noteq> [] then Inl ErrState else Inr ())
      else if i_Kind i \<noteq> ''clarification'' \<or> length (i_Questions i) < 1 \<or> length (i_Questions i) > 3
      then Inl ErrState
      else if check_questions [] (i_Questions i) then Inr () else Inl ErrState)"

fun check_answers :: "(string \<times> Answer) list \<Rightarrow> Question list \<Rightarrow> bool" where
  "check_answers m [] = True"
| "check_answers m (q # qs) =
     (case map_of m (q_ID q) of None \<Rightarrow> False
      | Some a \<Rightarrow>
          if (a_Option a = []) = (trim_space (a_Custom a) = []) then False
          else if a_Custom a \<noteq> [] then length (a_Custom a) \<le> 4096 \<and> check_answers m qs
          else a_Option a \<in> set (map o_Label (q_Options q)) \<and> check_answers m qs)"

definition ValidateReply :: "Interaction \<Rightarrow> Reply \<Rightarrow> journal_error + unit" where
  "ValidateReply i r =
     (if i_Kind i = ''approval'' then
        (if r_Answers r \<noteq> [] \<or> r_Binding r \<noteq> pc_Binding (i_Call i) \<or>
            (r_Decision r \<noteq> ''approve'' \<and> r_Decision r \<noteq> ''deny'')
         then Inl ErrState else Inr ())
      else if r_Decision r \<noteq> [] \<or> r_Binding r \<noteq> [] \<or> length (r_Answers r) \<noteq> length (i_Questions i)
      then Inl ErrState
      else if check_answers (r_Answers r) (i_Questions i) then Inr () else Inl ErrState)"

subsection \<open>What an accepted reply says\<close>

lemma check_answers_iff:
  "check_answers m qs \<longleftrightarrow>
     (\<forall>q \<in> set qs. \<exists>a. map_of m (q_ID q) = Some a \<and>
        (a_Option a = [] \<and> trim_space (a_Custom a) \<noteq> [] \<and> length (a_Custom a) \<le> 4096 \<or>
         a_Option a \<noteq> [] \<and> a_Custom a = [] \<and> a_Option a \<in> set (map o_Label (q_Options q)) \<or>
         a_Option a \<noteq> [] \<and> a_Custom a \<noteq> [] \<and> trim_space (a_Custom a) = [] \<and> length (a_Custom a) \<le> 4096))"
proof (induction qs)
  case (Cons q qs)
  have "trim_space [] = []" by code_simp
  with Cons show ?case by (auto split: option.splits)
qed simp

end
