(* ===== verification/Journal_Commands.thy ===== *)
theory Journal_Commands
  imports Journal_Owners Journal_Reply
begin

text \<open>
  Admission of commands and of replies (\<open>Admit\<close> of \<open>internal/journal/commands.go\<close>, \<open>reply\<close> of
  \<open>interactions.go\<close>) and the owner's inbox (\<open>Pending\<close> and \<open>Included\<close> of \<open>inbox.go\<close>).
\<close>

section \<open>Admission\<close>

definition new_conversation :: "string \<Rightarrow> string \<Rightarrow> conversation_row" where
  "new_conversation thread who =
     \<lparr>cv_id = thread, cv_principal = who, cv_sequence = 0, cv_owner_epoch = 0, cv_history = JArr [],
      cv_definition_digest = None, cv_active_journeys = [], cv_catalog_digest = None,
      cv_product_version = None, cv_catalog_validated_at = None\<rparr>"

definition ensure_conversation :: "string \<Rightarrow> string \<Rightarrow> db \<Rightarrow> db" where
  "ensure_conversation thread who db =
     (case find_conversation thread db of
        Some _ \<Rightarrow> db
      | None \<Rightarrow> db\<lparr>conversations := conversations db @ [new_conversation thread who]\<rparr>)"

text \<open>A run row gets a lease of 15 seconds when it is inserted.\<close>

definition new_run :: "string \<Rightarrow> string \<Rightarrow> string option \<Rightarrow> string option \<Rightarrow> int \<Rightarrow> run_row" where
  "new_run run thread journey digest now =
     \<lparr>rn_id = run, rn_thread_id = thread, rn_state = RunPending, rn_journey_id = journey,
      rn_definition_digest = digest, rn_answer = [], rn_owner_id = [], rn_owner_epoch = 0,
      rn_lease_until = now + 15000000, rn_product_version = None, rn_endpoint_id = None,
      rn_settings = None, rn_server_info = None, rn_catalog_digest = None\<rparr>"

definition new_command :: "Command \<Rightarrow> string \<Rightarrow> command_row" where
  "new_command c execution =
     \<lparr>cm_thread_id = ThreadID c, cm_communication_id = CommunicationID c, cm_run_id = RunID c,
      cm_payload = c, cm_execution_run_id = execution, cm_included = False, cm_terminal_reason = []\<rparr>"

definition find_command :: "string \<Rightarrow> string \<Rightarrow> db \<Rightarrow> command_row option" where
  "find_command thread cid db =
     find (\<lambda>k. cm_thread_id k = thread \<and> cm_communication_id k = cid) (commands db)"

definition receipt_of :: "Command \<Rightarrow> string \<Rightarrow> Receipt" where
  "receipt_of c execution =
     \<lparr>rc_ThreadID = ThreadID c, rc_RunID = RunID c, rc_CommunicationID = CommunicationID c,
      rc_ExecutionRunID = execution, rc_State = RunPending\<rparr>"

text \<open>The live run of a conversation with the journey it executes and the target its own command named.\<close>

definition live_run :: "string \<Rightarrow> db \<Rightarrow> (string \<times> string \<times> string) option" where
  "live_run thread db =
     Option.bind (find (\<lambda>r. rn_thread_id r = thread \<and> live (rn_state r)) (runs db)) (\<lambda>r.
     Option.bind (find (\<lambda>k. cm_run_id k = rn_id r) (commands db)) (\<lambda>k.
       Some (rn_id r, case rn_journey_id r of None \<Rightarrow> [] | Some j \<Rightarrow> j, TargetJourney (cm_payload k))))"

definition pending_interaction :: "string \<Rightarrow> db \<Rightarrow> bool" where
  "pending_interaction thread db =
     list_ex (\<lambda>i. ia_thread_id i = thread \<and> ia_state i = IPending) (interactions db)"

definition accept_tx :: "Command \<Rightarrow> int \<Rightarrow> (Receipt \<times> bool) tx" where
  "accept_tx c now =
     query (live_run (ThreadID c)) (\<lambda>found.
     let fresh = (found = None);
         execution = (case found of None \<Rightarrow> RunID c | Some (run, _, _) \<Rightarrow> run)
     in guard (case found of None \<Rightarrow> True
               | Some (_, journey, target) \<Rightarrow>
                   TargetJourney c = [] \<or> TargetJourney c = journey \<or> TargetJourney c = target) ErrBusy (
        insert_command (new_command c execution) (
        (if fresh then insert_run (new_run (RunID c) (ThreadID c) None None now) else (\<lambda>k. k)) (
        call (appendEvent (ThreadID c)
               ((event execution ''command.accepted'')\<lparr>e_CommunicationID := CommunicationID c\<rparr>)) (\<lambda>_.
        return (receipt_of c execution, fresh))))))"

definition admit_tx :: "libs \<Rightarrow> Command \<Rightarrow> int \<Rightarrow> (Receipt \<times> bool) tx" where
  "admit_tx lib c now =
     exec (ensure_conversation (ThreadID c) (Principal c)) (
     call (lockConversation (ThreadID c) (Principal c)) (\<lambda>_.
     query (find_command (ThreadID c) (CommunicationID c)) (\<lambda>previous.
     case previous of
       Some k \<Rightarrow> guard (cm_payload k = c) ErrConflict (return (receipt_of c (cm_execution_run_id k), False))
     | None \<Rightarrow>
         call (interruptExpired (ThreadID c) [] now) (\<lambda>_.
         call (expireInteractions lib (ThreadID c) now) (\<lambda>_.
         query (pending_interaction (ThreadID c)) (\<lambda>waiting.
         guard (\<not> waiting) ErrBusy (accept_tx c now)))))))"

text \<open>A unique violation (SQLSTATE 23505) is reported as a conflict.\<close>

definition conflict_result :: "(journal_error + 'a) \<times> db \<Rightarrow> (journal_error + 'a) \<times> db" where
  "conflict_result r =
     (case r of (Inl UniqueViolation, db) \<Rightarrow> (Inl ErrConflict, db) | _ \<Rightarrow> r)"

section \<open>Replies\<close>

definition find_interaction :: "string \<Rightarrow> string \<Rightarrow> db \<Rightarrow> interaction_row option" where
  "find_interaction thread iid db =
     find (\<lambda>i. ia_thread_id i = thread \<and> ia_id i = iid) (interactions db)"

definition consume_row :: "Command \<Rightarrow> Reply \<Rightarrow> json \<Rightarrow> interaction_row \<Rightarrow> interaction_row" where
  "consume_row c answer doc i =
     i\<lparr>ia_state := IConsumed, ia_continuation_run_id := Some (RunID c), ia_reply := Some doc,
       ia_marker := (if i_Kind (ia_artifact i) = ''approval''
                     then Some (if r_Decision answer = ''approve'' then Decided else Denied) else None)\<rparr>"

definition consume_tx :: "Command \<Rightarrow> Reply \<Rightarrow> json \<Rightarrow> interaction_row \<Rightarrow> int \<Rightarrow> (Receipt \<times> bool) tx" where
  "consume_tx c answer doc i now =
     insert_command (new_command c (RunID c)) (
     insert_run (new_run (RunID c) (ThreadID c) (ia_journey_id i) (Some (ia_definition_digest i)) now) (
     exec (update_interactions (\<lambda>r. ia_thread_id r = ThreadID c \<and> ia_id r = InteractionID c) (consume_row c answer doc)) (
     exec (update_run (ThreadID c) (ia_run_id i)
            (\<lambda>r. if rn_state r = RunAwaitingInput then r\<lparr>rn_state := RunCompleted\<rparr> else r)) (
     call (appendEvent (ThreadID c) (event (ia_run_id i) ''interaction.consumed'')) (\<lambda>_.
     call (appendEvent (ThreadID c)
            ((event (RunID c) ''command.accepted'')\<lparr>e_CommunicationID := CommunicationID c\<rparr>)) (\<lambda>_.
     call (if i_Kind (ia_artifact i) = ''approval'' \<and> r_Decision answer = ''approve''
           then exec (update_commands
                  (\<lambda>k. cm_thread_id k = ThreadID c \<and> cm_communication_id k = CommunicationID c)
                  (\<lambda>k. k\<lparr>cm_terminal_reason := ''consumed''\<rparr>))
                (appendEvent (ThreadID c)
                  ((event (RunID c) ''command.consumed'')\<lparr>e_CommunicationID := CommunicationID c\<rparr>))
           else return ()) (\<lambda>_.
     return (receipt_of c (RunID c), True))))))))"

text \<open>The third component of the result says that the interaction had expired: the expiry is
  committed and the caller then reports \<open>ErrExpired\<close>.\<close>

definition reply_tx :: "libs \<Rightarrow> Command \<Rightarrow> Reply \<Rightarrow> json \<Rightarrow> int \<Rightarrow> (Receipt \<times> bool \<times> bool) tx" where
  "reply_tx lib c answer doc now =
     call (lockConversation (ThreadID c) (Principal c)) (\<lambda>_.
     query (find_command (ThreadID c) (CommunicationID c)) (\<lambda>previous.
     case previous of
       Some k \<Rightarrow> guard (cm_payload k = c) ErrConflict
                   (return (receipt_of c (cm_execution_run_id k), False, False))
     | None \<Rightarrow>
         query_row (find_interaction (ThreadID c) (InteractionID c)) ErrState (\<lambda>i.
         if \<not> ia_expires_at i > now \<and> ia_state i = IPending then
           call (expireInteractions lib (ThreadID c) now) (\<lambda>_. return (receipt_of c (RunID c), False, True))
         else
           guard (ia_state i \<noteq> IExpired) ErrExpired (
           guard (ia_expires_at i > now \<and> ia_state i = IPending) ErrConflict (
           guard (i_Kind (ia_artifact i) = ReplyKind c \<and>
                  (TargetJourney c = [] \<or> ia_journey_id i = None \<or> ia_journey_id i = Some [] \<or>
                   ia_journey_id i = Some (TargetJourney c))) ErrState (
           guard (ValidateReply (ia_artifact i) answer = Inr ()) ErrState (
           call (consume_tx c answer doc i now) (\<lambda>r. return (fst r, snd r, False)))))))))"

definition reply :: "libs \<Rightarrow> Command \<Rightarrow> int \<Rightarrow> db \<Rightarrow> (journal_error + Receipt \<times> bool) \<times> db" where
  "reply lib c now db =
     (if ThreadID c = [] \<or> RunID c = [] \<or> Principal c = [] \<or> CommunicationID c = [] \<or> Text c \<noteq> []
      then (Inl ErrState, db)
      else case (parse_json (ReplyJSON c), DecodeStrict_reply (ReplyJSON c)) of
        (Some doc, Some answer) \<Rightarrow>
          (case begin_func (reply_tx lib c answer doc now) db of
             (Inl e, db') \<Rightarrow> (Inl e, db')
           | (Inr (receipt, fresh, expired), db') \<Rightarrow>
               (if expired then Inl ErrExpired else Inr (receipt, fresh), db'))
      | _ \<Rightarrow> (Inl ErrState, db))"

definition Admit :: "libs \<Rightarrow> Command \<Rightarrow> int \<Rightarrow> db \<Rightarrow> (journal_error + Receipt \<times> bool) \<times> db" where
  "Admit lib c now db =
     (if InteractionID c \<noteq> [] then reply lib c now db
      else if ThreadID c = [] \<or> RunID c = [] \<or> CommunicationID c = [] \<or> Principal c = [] \<or> Text c = []
      then (Inl ErrState, db)
      else conflict_result (begin_func (admit_tx lib c now) db))"

section \<open>The inbox\<close>

record Input =
  in_CommunicationID :: string
  in_Text :: string
  in_Digest :: string
  in_Payload :: bytes
  in_Materialized :: bool

definition input_of :: "libs \<Rightarrow> command_row \<Rightarrow> Input option" where
  "input_of lib k =
     (let c = cm_payload k;
          blank = \<lparr>in_CommunicationID = cm_communication_id k, in_Text = Text c, in_Digest = [],
                   in_Payload = [], in_Materialized = False\<rparr>;
          filled = (\<lambda>doc. blank\<lparr>in_Payload := print_json doc, in_Materialized := True,
                                in_Digest := lib_sha256 lib (print_json doc)\<rparr>)
      in if Text c \<noteq> [] then Some (filled (JStr (Text c)))
         else if ReplyKind c = ''clarification'' then
           map_option (\<lambda>r. filled (reply_json r)) (DecodeStrict_reply (ReplyJSON c))
         else if ReplyKind c = ''approval'' then
           map_option (\<lambda>r. if r_Decision r = ''deny''
              then filled (JObj [(''error'', JStr ''approval_denied'')]) else blank)
             (DecodeStrict_reply (ReplyJSON c))
         else Some blank)"

fun inputs_of :: "libs \<Rightarrow> command_row list \<Rightarrow> Input list option" where
  "inputs_of lib [] = Some []"
| "inputs_of lib (k # ks) =
     Option.bind (input_of lib k) (\<lambda>i. map_option (\<lambda>is. i # is) (inputs_of lib ks))"

definition Pending :: "libs \<Rightarrow> Owner \<Rightarrow> int \<Rightarrow> db \<Rightarrow> (journal_error + Input list) \<times> db" where
  "Pending lib ow now =
     begin_func (call (lockOwner ow now) (\<lambda>_.
       query_row (\<lambda>db. inputs_of lib (filter (pending_command (ThreadID (ow_Command ow)) (RunID (ow_Command ow)))
                                        (commands db))) ErrState return))"

definition include_command :: "Owner \<Rightarrow> Input \<Rightarrow> unit tx" where
  "include_command ow inp =
     (let c = ow_Command ow;
          p = (\<lambda>k. pending_command (ThreadID c) (RunID c) k \<and> cm_communication_id k = in_CommunicationID inp)
      in query (\<lambda>db. length (filter p (commands db))) (\<lambda>affected.
         exec (update_commands p (\<lambda>k. k\<lparr>cm_included := True\<rparr>)) (
         guard (affected = 1) ErrState (
         appendEvent (ThreadID c)
           ((event (RunID c) ''command.included'')\<lparr>e_CommunicationID := in_CommunicationID inp\<rparr>)))))"

definition Included :: "Owner \<Rightarrow> Input list \<Rightarrow> int \<Rightarrow> db \<Rightarrow> (journal_error + unit) \<times> db" where
  "Included ow inputs now =
     begin_func (call (lockOwner ow now) (\<lambda>_. for_each inputs (include_command ow)))"

end
