(* ===== verification/Journal_Runs.thy ===== *)
theory Journal_Runs
  imports Journal_Commands
begin

text \<open>
  The life of a claimed run: start, scope, active journeys, usage and the terminal
  transaction (\<open>sessions.go\<close>, \<open>scope.go\<close>, \<open>active.go\<close>, \<open>history.go\<close>, \<open>usage.go\<close> of \<open>internal/journal\<close>).
\<close>

abbreviation ow_thread :: "Owner \<Rightarrow> string" where
  "ow_thread ow \<equiv> ThreadID (ow_Command ow)"

abbreviation ow_run :: "Owner \<Rightarrow> string" where
  "ow_run ow \<equiv> RunID (ow_Command ow)"

text \<open>Every owned operation is the fence followed by its own statements, in one transaction.\<close>

definition owned :: "Owner \<Rightarrow> int \<Rightarrow> 'a tx \<Rightarrow> db \<Rightarrow> (journal_error + 'a) \<times> db" where
  "owned ow now body = begin_func (call (lockOwner ow now) (\<lambda>_. body))"

definition unresolved :: "string \<Rightarrow> operation_row \<Rightarrow> bool" where
  "unresolved thread x =
     (op_thread_id x = thread \<and> (op_outcome x = ''dispatching'' \<or> op_outcome x = ''outcome_unknown''))"

section \<open>Start\<close>

definition pin_definition :: "string \<Rightarrow> string \<Rightarrow> unit tx" where
  "pin_definition thread digest =
     query_row (find_conversation thread) NoRows (\<lambda>v.
     case cv_definition_digest v of
       Some pin \<Rightarrow> guard (pin = digest) ErrDefinition (return ())
     | None \<Rightarrow>
         query definition_current (\<lambda>found.
         exec (\<lambda>db. case found of None \<Rightarrow> db\<lparr>definition_current := Some digest\<rparr> | Some _ \<Rightarrow> db) (
         guard (found = None \<or> found = Some digest) ErrDefinition (
         exec (update_conversation thread (\<lambda>v. v\<lparr>cv_definition_digest := Some digest\<rparr>)) (return ())))))"

definition start_where :: "string \<Rightarrow> run_row \<Rightarrow> bool" where
  "start_where journey r = (journey = [] \<or> rn_journey_id r = None \<or> rn_journey_id r = Some journey)"

definition start_body :: "Owner \<Rightarrow> string \<Rightarrow> string \<Rightarrow> json tx" where
  "start_body ow journey digest =
     query (\<lambda>db. list_ex (unresolved (ow_thread ow)) (operations db)) (\<lambda>open_calls.
     guard (\<not> open_calls) ErrOutcomeUnknown (
     call (pin_definition (ow_thread ow) digest) (\<lambda>_.
     query_row (find_conversation (ow_thread ow)) NoRows (\<lambda>v.
     query_row (find_run (ow_thread ow) (ow_run ow)) ErrDefinition (\<lambda>r.
     guard (start_where journey r) ErrDefinition (
     exec (update_run (ow_thread ow) (ow_run ow)
            (\<lambda>r. r\<lparr>rn_journey_id := (if journey = [] then rn_journey_id r else Some journey),
                   rn_definition_digest := Some digest\<rparr>)) (
     return (cv_history v))))))))"

definition Start :: "Owner \<Rightarrow> string \<Rightarrow> string \<Rightarrow> int \<Rightarrow> db \<Rightarrow> (journal_error + json) \<times> db" where
  "Start ow journey digest now db =
     (if length digest \<noteq> 64 then (Inl ErrDefinition, db)
      else owned ow now (start_body ow journey digest) db)"

section \<open>Finish\<close>

definition finish_event :: "string \<Rightarrow> RunState \<Rightarrow> Event option \<Rightarrow> Event" where
  "finish_event run state terminal =
     (case terminal of
        Some e \<Rightarrow> e\<lparr>e_RunID := run\<rparr>
      | None \<Rightarrow> event run (if state = RunAuthRequired then ''auth_required'' else ''run.'' @ state_string state))"

definition completed_events :: "string \<Rightarrow> string \<Rightarrow> string \<Rightarrow> string \<Rightarrow> string \<Rightarrow> unit tx" where
  "completed_events thread run answer callID tool =
     call (if callID = [] then return ()
           else appendEvent thread ((event run ''tool.completed'')\<lparr>e_CallID := callID, e_ToolName := tool\<rparr>)) (\<lambda>_.
     appendEvent thread ((event run ''message.completed'')\<lparr>e_Answer := answer\<rparr>))"

definition finish_body ::
  "Owner \<Rightarrow> RunState \<Rightarrow> bytes \<Rightarrow> string \<Rightarrow> string \<Rightarrow> string \<Rightarrow> Event option \<Rightarrow> unit tx" where
  "finish_body ow state history answer callID tool terminal =
     (let thread = ow_thread ow; run = ow_run ow in
      query_row (find_run thread run) NoRows (\<lambda>r.
      query (\<lambda>db. list_ex (pending_command thread run) (commands db)) (\<lambda>pending.
      guard (\<not> (state = RunCompleted \<and> pending)) ErrPending (
      call (if state = RunCompleted then return ()
            else call (markOperationsUnknown thread run) (\<lambda>_. disposePending thread run state)) (\<lambda>_.
      call (if history = [] \<or> rn_definition_digest r = None then return ()
            else case parse_json history of None \<Rightarrow> fail DecodeError
                 | Some h \<Rightarrow> set_history thread h (return ())) (\<lambda>_.
      call (if state = RunCompleted then completed_events thread run answer callID tool else return ()) (\<lambda>_.
      exec (update_run thread run (\<lambda>r. r\<lparr>rn_state := state, rn_answer := answer\<rparr>)) (
      appendEvent thread (finish_event run state terminal)))))))))"

definition finish ::
  "Owner \<Rightarrow> RunState \<Rightarrow> bytes \<Rightarrow> string \<Rightarrow> string \<Rightarrow> string \<Rightarrow> Event option \<Rightarrow> int \<Rightarrow> db \<Rightarrow>
     (journal_error + unit) \<times> db" where
  "finish ow state history answer callID tool terminal now =
     owned ow now (finish_body ow state history answer callID tool terminal)"

definition Finish ::
  "Owner \<Rightarrow> RunState \<Rightarrow> bytes \<Rightarrow> string \<Rightarrow> string \<Rightarrow> string \<Rightarrow> int \<Rightarrow> db \<Rightarrow> (journal_error + unit) \<times> db" where
  "Finish ow state history answer callID tool now db =
     (if state \<noteq> RunCompleted \<and> state \<noteq> RunFailed \<and> state \<noteq> RunAuthRequired \<and> state \<noteq> RunDependencyUnavailable
      then (Inl ErrState, db)
      else finish ow state history answer callID tool None now db)"

definition FinishFailed :: "Owner \<Rightarrow> bytes \<Rightarrow> string \<Rightarrow> int \<Rightarrow> db \<Rightarrow> (journal_error + unit) \<times> db" where
  "FinishFailed ow history reason now db =
     (if reason \<noteq> ''journey_unavailable'' \<and> reason \<noteq> ''policy_conflict'' \<and> reason \<noteq> ''activation_refused''
      then (Inl ErrState, db)
      else finish ow RunFailed history [] [] [] (Some ((event [] ''run.failed'')\<lparr>e_Reason := reason\<rparr>)) now db)"

text \<open>A positive wait is rounded up to whole seconds.\<close>

definition retry_seconds :: "int \<Rightarrow> int" where
  "retry_seconds retryAfter = (if retryAfter > 0 then (retryAfter + 999999999) div 1000000000 else 0)"

definition FinishLimitExceeded :: "Owner \<Rightarrow> bytes \<Rightarrow> string \<Rightarrow> int \<Rightarrow> int \<Rightarrow> db \<Rightarrow> (journal_error + unit) \<times> db" where
  "FinishLimitExceeded ow history kind retryAfter now db =
     (if kind \<noteq> ''budget'' \<and> kind \<noteq> ''rate'' then (Inl ErrState, db)
      else finish ow RunLimitExceeded history [] [] []
        (Some ((event [] ''run.limit_exceeded'')\<lparr>e_Reason := kind,
           e_Detail := Some (JObj [(''kind'', JStr kind),
                                   (''retry_after_seconds'', JNum (show_int (retry_seconds retryAfter)))])\<rparr>)) now db)"

section \<open>Scope\<close>

record RunScope =
  sc_ProductVersion :: string
  sc_EndpointID :: string
  sc_Settings :: bytes

definition isJSONObject :: "bytes \<Rightarrow> bool" where
  "isJSONObject raw = (case parse_json raw of Some j \<Rightarrow> is_object j | None \<Rightarrow> False)"

definition scope_body :: "Owner \<Rightarrow> RunScope \<Rightarrow> json \<Rightarrow> unit tx" where
  "scope_body ow scope doc =
     query_row (find_run (ow_thread ow) (ow_run ow)) NoRows (\<lambda>r.
     if rn_product_version r \<noteq> None then
       guard (rn_product_version r = Some (sc_ProductVersion scope) \<and> rn_endpoint_id r = Some (sc_EndpointID scope) \<and>
              map_option canon (rn_settings r) = Some (canon doc)) ErrState (return ())
     else
       exec (update_run (ow_thread ow) (ow_run ow)
              (\<lambda>r. r\<lparr>rn_product_version := Some (sc_ProductVersion scope),
                     rn_endpoint_id := Some (sc_EndpointID scope), rn_settings := Some doc\<rparr>)) (return ()))"

definition RecordRunScope :: "Owner \<Rightarrow> RunScope \<Rightarrow> int \<Rightarrow> db \<Rightarrow> (journal_error + unit) \<times> db" where
  "RecordRunScope ow scope now db =
     (if sc_ProductVersion scope = [] \<or> sc_EndpointID scope = [] \<or> \<not> isJSONObject (sc_Settings scope)
      then (Inl ErrState, db)
      else owned ow now (scope_body ow scope (the (parse_json (sc_Settings scope)))) db)"

definition RecordServerInfo :: "Owner \<Rightarrow> bytes \<Rightarrow> int \<Rightarrow> db \<Rightarrow> (journal_error + unit) \<times> db" where
  "RecordServerInfo ow info now db =
     (if \<not> isJSONObject info then (Inl ErrState, db)
      else owned ow now
        (exec (update_run (ow_thread ow) (ow_run ow) (\<lambda>r. r\<lparr>rn_server_info := parse_json info\<rparr>)) (return ())) db)"

section \<open>Active journeys\<close>

definition pinning_interaction :: "string \<Rightarrow> string \<Rightarrow> interaction_row \<Rightarrow> bool" where
  "pinning_interaction thread run i =
     (ia_thread_id i = thread \<and> ia_kind i = ''approval'' \<and> ia_journey_id i \<noteq> None \<and> ia_journey_id i \<noteq> Some [] \<and>
      (ia_state i = IPending \<or>
       ia_state i = IConsumed \<and> ia_continuation_run_id i = Some run \<and> ia_marker i = Some Decided))"

definition pinning_operation :: "string \<Rightarrow> operation_row \<Rightarrow> bool" where
  "pinning_operation thread x =
     (op_journey_id x \<noteq> None \<and> op_journey_id x \<noteq> Some [] \<and> unresolved thread x)"

definition pinned_journeys :: "string \<Rightarrow> string \<Rightarrow> db \<Rightarrow> string list" where
  "pinned_journeys thread run db = sort (remdups
     (map (\<lambda>i. the (ia_journey_id i)) (filter (pinning_interaction thread run) (interactions db)) @
      map (\<lambda>x. the (op_journey_id x)) (filter (pinning_operation thread) (operations db))))"

definition ActiveJourneys :: "Owner \<Rightarrow> int \<Rightarrow> db \<Rightarrow> (journal_error + string list \<times> string list) \<times> db" where
  "ActiveJourneys ow now = owned ow now
     (query_row (find_conversation (ow_thread ow)) NoRows (\<lambda>v.
      query (pinned_journeys (ow_thread ow) (ow_run ow)) (\<lambda>pinned.
      return (cv_active_journeys v, pinned))))"

definition SetActiveJourneys :: "Owner \<Rightarrow> string list \<Rightarrow> int \<Rightarrow> db \<Rightarrow> (journal_error + unit) \<times> db" where
  "SetActiveJourneys ow active now db =
     (if [] \<in> set active \<or> \<not> distinct active then (Inl ErrState, db)
      else owned ow now
        (exec (update_conversation (ow_thread ow) (\<lambda>v. v\<lparr>cv_active_journeys := active\<rparr>)) (return ())) db)"

section \<open>History truncation and usage\<close>

record HistoryTruncation =
  TurnsDropped :: int
  MessagesDropped :: int
  EstimateBefore :: int
  EstimateAfter :: int
  Budget :: int

definition HistoryTruncated :: "Owner \<Rightarrow> HistoryTruncation \<Rightarrow> int \<Rightarrow> db \<Rightarrow> (journal_error + unit) \<times> db" where
  "HistoryTruncated ow t now db =
     (if TurnsDropped t < 0 \<or> MessagesDropped t < 0 \<or> EstimateBefore t < 0 \<or> EstimateAfter t < 0 \<or> Budget t < 0
      then (Inl ErrState, db)
      else owned ow now
        (appendEvent (ow_thread ow) ((event (ow_run ow) ''history_truncated'')\<lparr>e_Detail := Some (JObj
           [(''budget'', JNum (show_int (Budget t))), (''estimate_after'', JNum (show_int (EstimateAfter t))),
            (''estimate_before'', JNum (show_int (EstimateBefore t))),
            (''messages_dropped'', JNum (show_int (MessagesDropped t))),
            (''turns_dropped'', JNum (show_int (TurnsDropped t)))])\<rparr>)) db)"

record Usage =
  u_Model :: string
  u_Input :: int
  u_Output :: int
  u_Cached :: int
  u_JourneyID :: string

definition next_seq :: "string \<Rightarrow> string \<Rightarrow> db \<Rightarrow> int" where
  "next_seq thread run db =
     fold max (map us_seq (filter (\<lambda>u. us_thread_id u = thread \<and> us_run_id u = run) (usage db))) 0 + 1"

text \<open>The tenant column must not be empty.\<close>

definition RecordUsage :: "Owner \<Rightarrow> Usage \<Rightarrow> int \<Rightarrow> db \<Rightarrow> (journal_error + int) \<times> db" where
  "RecordUsage ow u now db =
     (if u_Input u < 0 \<or> u_Output u < 0 \<or> u_Cached u < 0 then (Inl ErrState, db)
      else owned ow now
        (query (next_seq (ow_thread ow) (ow_run ow)) (\<lambda>seq.
         guard (Tenant (ow_Command ow) \<noteq> [] \<and> Principal (ow_Command ow) \<noteq> []) CheckViolation (
         exec (\<lambda>db. db\<lparr>usage := usage db @
           [\<lparr>us_thread_id = ow_thread ow, us_run_id = ow_run ow, us_seq = seq, us_model = u_Model u,
             us_input_tokens = u_Input u, us_output_tokens = u_Output u, us_cached_tokens = u_Cached u,
             us_tenant = Tenant (ow_Command ow), us_principal = Principal (ow_Command ow),
             us_journey_id = (if u_JourneyID u = [] then None else Some (u_JourneyID u)),
             us_recorded_at = now\<rparr>]\<rparr>) (return seq)))) db)"

record UsageQuery =
  uq_Tenant :: string
  uq_Principal :: string
  uq_Conversation :: string
  uq_Journey :: string
  uq_From :: "int option"
  uq_To :: "int option"

record UsageTotal =
  ut_Model :: string
  ut_Calls :: int
  ut_Input :: int
  ut_Output :: int
  ut_Cached :: int

definition usage_matches :: "UsageQuery \<Rightarrow> usage_row \<Rightarrow> bool" where
  "usage_matches q u =
     (us_tenant u = uq_Tenant q \<and> (uq_Principal q = [] \<or> us_principal u = uq_Principal q) \<and>
      (uq_Conversation q = [] \<or> us_thread_id u = uq_Conversation q) \<and>
      (uq_Journey q = [] \<or> us_journey_id u = Some (uq_Journey q)) \<and>
      (case uq_From q of None \<Rightarrow> True | Some t \<Rightarrow> us_recorded_at u \<ge> t) \<and>
      (case uq_To q of None \<Rightarrow> True | Some t \<Rightarrow> us_recorded_at u < t))"

definition usage_total :: "usage_row list \<Rightarrow> string \<Rightarrow> UsageTotal" where
  "usage_total rows model =
     (let us = filter (\<lambda>u. us_model u = model) rows in
      \<lparr>ut_Model = model, ut_Calls = int (length us), ut_Input = sum_list (map us_input_tokens us),
       ut_Output = sum_list (map us_output_tokens us), ut_Cached = sum_list (map us_cached_tokens us)\<rparr>)"

definition UsageTotals :: "UsageQuery \<Rightarrow> db \<Rightarrow> journal_error + UsageTotal list" where
  "UsageTotals q db =
     (if uq_Tenant q = [] then Inl ErrState
      else let rows = filter (usage_matches q) (usage db) in
        Inr (map (usage_total rows) (sort (remdups (map us_model rows)))))"

end
