(* ===== verification/Settings.thy ===== *)
theory Settings
  imports Json
begin

text \<open>
  \<open>internal/settings\<close>: layered settings, their validation and resolution. A Go map is an
  association list with distinct keys, a pointer that may be nil an option, a
  duration an integer in nanoseconds. The SHA-256 function is a parameter.
\<close>

section \<open>Data\<close>

definition DefaultMaxActiveJourneys :: int where "DefaultMaxActiveJourneys = 2"
definition MinMaxActiveJourneys :: int where "MinMaxActiveJourneys = 1"
definition MaxMaxActiveJourneys :: int where "MaxMaxActiveJourneys = 4"
definition minute :: int where "minute = 60 * 1000000000"
definition DefaultInteractionTTL :: int where "DefaultInteractionTTL = 5 * minute"
definition MinInteractionTTL :: int where "MinInteractionTTL = minute"
definition MaxInteractionTTL :: int where "MaxInteractionTTL = 7 * 24 * 60 * minute"

lemmas settings_consts = DefaultMaxActiveJourneys_def MinMaxActiveJourneys_def MaxMaxActiveJourneys_def
  minute_def DefaultInteractionTTL_def MinInteractionTTL_def MaxInteractionTTL_def

datatype settings_error =
    OutsideActive string | OutsideTTL string | EmptyTenantKey | EmptyUserTenantKey
  | EmptyPrincipalKey string | UserCost string | SettingsUnavailable | ContextDone

record Scope =
  s_Tenant :: string
  s_Principal :: string

record Settings =
  MaxActiveJourneys :: int
  CostProfile :: string
  InteractionTTL :: int
  Digest :: string

record CostLayer =
  cl_Profile :: "string option"

record Layer =
  l_MaxActiveJourneys :: "int option"
  l_Cost :: "CostLayer option"
  l_InteractionTTL :: "int option"

definition no_layer :: Layer where
  "no_layer = \<lparr>l_MaxActiveJourneys = None, l_Cost = None, l_InteractionTTL = None\<rparr>"

record Document =
  d_Default :: Layer
  d_Tenants :: "(string \<times> Layer) list"
  d_Users :: "(string \<times> (string \<times> Layer) list) list"

record Compiled =
  c_def :: Layer
  c_tenants :: "string \<rightharpoonup> Layer"
  c_users :: "string \<rightharpoonup> string \<rightharpoonup> Layer"

section \<open>Operations\<close>

definition checkBounds :: "string \<Rightarrow> Layer \<Rightarrow> settings_error + unit" where
  "checkBounds name l =
     (if (case l_MaxActiveJourneys l of None \<Rightarrow> False
          | Some n \<Rightarrow> n < MinMaxActiveJourneys \<or> n > MaxMaxActiveJourneys) then Inl (OutsideActive name)
      else if (case l_InteractionTTL l of None \<Rightarrow> False
          | Some d \<Rightarrow> d < MinInteractionTTL \<or> d > MaxInteractionTTL) then Inl (OutsideTTL name)
      else Inr ())"

definition apply_layer :: "Settings \<Rightarrow> Layer \<Rightarrow> Settings" where
  "apply_layer s l =
     (let s1 = (case l_MaxActiveJourneys l of None \<Rightarrow> s | Some n \<Rightarrow> s\<lparr>MaxActiveJourneys := n\<rparr>);
          s2 = (case l_Cost l of None \<Rightarrow> s1
                | Some c \<Rightarrow> (case cl_Profile c of None \<Rightarrow> s1 | Some p \<Rightarrow> s1\<lparr>CostProfile := p\<rparr>))
      in case l_InteractionTTL l of None \<Rightarrow> s2 | Some d \<Rightarrow> s2\<lparr>InteractionTTL := d\<rparr>)"

definition digest_doc :: "int \<Rightarrow> string \<Rightarrow> int \<Rightarrow> json" where
  "digest_doc maxActive profile ttl = JObj
     [(''cost'', JObj [(''profile'', JStr profile)]), (''interaction_ttl'', JNum (show_int ttl)),
      (''max_active_journeys'', JNum (show_int maxActive))]"

definition digestOf :: "(bytes \<Rightarrow> string) \<Rightarrow> int \<Rightarrow> string \<Rightarrow> int \<Rightarrow> string" where
  "digestOf sha maxActive profile ttl = sha (print_json (digest_doc maxActive profile ttl))"

definition Merge :: "(bytes \<Rightarrow> string) \<Rightarrow> Layer \<Rightarrow> Layer \<Rightarrow> Layer \<Rightarrow> Settings" where
  "Merge sha def tenant user =
     (let s0 = \<lparr>MaxActiveJourneys = DefaultMaxActiveJourneys, CostProfile = [],
                InteractionTTL = DefaultInteractionTTL, Digest = []\<rparr>;
          s1 = apply_layer (apply_layer s0 def) tenant;
          s2 = (case l_MaxActiveJourneys user of None \<Rightarrow> s1
                | Some n \<Rightarrow> if n < MaxActiveJourneys s1 then s1\<lparr>MaxActiveJourneys := n\<rparr> else s1);
          s3 = (case l_InteractionTTL user of None \<Rightarrow> s2
                | Some d \<Rightarrow> if d < InteractionTTL s2 then s2\<lparr>InteractionTTL := d\<rparr> else s2)
      in s3\<lparr>Digest := digestOf sha (MaxActiveJourneys s3) (CostProfile s3) (InteractionTTL s3)\<rparr>)"

fun check_tenants :: "(string \<rightharpoonup> Layer) \<Rightarrow> string list \<Rightarrow> settings_error + unit" where
  "check_tenants m [] = Inr ()"
| "check_tenants m (t # ts) =
     (if t = [] then Inl EmptyTenantKey
      else and_then (checkBounds t (the (m t))) (\<lambda>_. check_tenants m ts))"

fun check_principals :: "string \<Rightarrow> (string \<rightharpoonup> Layer) \<Rightarrow> string list \<Rightarrow> settings_error + unit" where
  "check_principals t m [] = Inr ()"
| "check_principals t m (p # ps) =
     (if p = [] then Inl (EmptyPrincipalKey t)
      else and_then (checkBounds p (the (m p))) (\<lambda>_.
           if l_Cost (the (m p)) \<noteq> None then Inl (UserCost p) else check_principals t m ps))"

fun check_users :: "(string \<rightharpoonup> (string \<times> Layer) list) \<Rightarrow> string list \<Rightarrow> settings_error + unit" where
  "check_users m [] = Inr ()"
| "check_users m (t # ts) =
     (if t = [] then Inl EmptyUserTenantKey
      else and_then (check_principals t (map_of (the (m t))) (sorted_keys (the (m t)))) (\<lambda>_. check_users m ts))"

definition Compile :: "Document \<Rightarrow> settings_error + Compiled" where
  "Compile doc =
     and_then (checkBounds ''default'' (d_Default doc)) (\<lambda>_.
     and_then (check_tenants (map_of (d_Tenants doc)) (sorted_keys (d_Tenants doc))) (\<lambda>_.
     and_then (check_users (map_of (d_Users doc)) (sorted_keys (d_Users doc))) (\<lambda>_.
       Inr \<lparr>c_def = d_Default doc, c_tenants = map_of (d_Tenants doc),
            c_users = map_option map_of \<circ> map_of (d_Users doc)\<rparr>)))"

text \<open>A lookup of a missing key gives the zero \<open>Layer\<close>.\<close>

definition layer_at :: "(string \<rightharpoonup> Layer) \<Rightarrow> string \<Rightarrow> Layer" where
  "layer_at m k = (case m k of None \<Rightarrow> no_layer | Some l \<Rightarrow> l)"

definition Resolve :: "(bytes \<Rightarrow> string) \<Rightarrow> Compiled \<Rightarrow> bool \<Rightarrow> Scope \<Rightarrow> settings_error + Settings" where
  "Resolve sha c cancelled scope =
     (if cancelled then Inl ContextDone
      else if s_Tenant scope = [] then Inl SettingsUnavailable
      else Inr (Merge sha (c_def c) (layer_at (c_tenants c) (s_Tenant scope))
             (case c_users c (s_Tenant scope) of None \<Rightarrow> no_layer | Some m \<Rightarrow> layer_at m (s_Principal scope))))"

text \<open>\<open>Mutable\<close>: a replaceable document with an injected failure.\<close>

record Mutable =
  m_c :: Compiled
  m_fail :: bool

definition NewMutable :: "Document \<Rightarrow> settings_error + Mutable" where
  "NewMutable doc = and_then (Compile doc) (\<lambda>c. Inr \<lparr>m_c = c, m_fail = False\<rparr>)"

definition Mutable_Set :: "Mutable \<Rightarrow> Document \<Rightarrow> (settings_error + unit) \<times> Mutable" where
  "Mutable_Set m doc =
     (case Compile doc of Inl e \<Rightarrow> (Inl e, m) | Inr c \<Rightarrow> (Inr (), m\<lparr>m_c := c\<rparr>))"

definition Mutable_Fail :: "Mutable \<Rightarrow> bool \<Rightarrow> Mutable" where
  "Mutable_Fail m failing = m\<lparr>m_fail := failing\<rparr>"

definition Mutable_Resolve :: "(bytes \<Rightarrow> string) \<Rightarrow> Mutable \<Rightarrow> bool \<Rightarrow> Scope \<Rightarrow> settings_error + Settings" where
  "Mutable_Resolve sha m cancelled scope = (if m_fail m then Inl SettingsUnavailable else Resolve sha (m_c m) cancelled scope)"

text \<open>The record the journal stores with a run.\<close>

definition Record :: "Settings \<Rightarrow> bytes" where
  "Record s = print_json (JObj
     [(''max_active_journeys'', JNum (show_int (MaxActiveJourneys s))),
      (''cost'', JObj [(''profile'', JStr (CostProfile s))]),
      (''interaction_ttl'', JNum (show_int (InteractionTTL s))), (''digest'', JStr (Digest s))])"

section \<open>Bounds\<close>

definition layer_ok :: "Layer \<Rightarrow> bool" where
  "layer_ok l = (checkBounds [] l = Inr ())"

lemma checkBounds_ok [simp]: "checkBounds name l = Inr () \<longleftrightarrow> layer_ok l"
  by (auto simp: layer_ok_def checkBounds_def)

definition in_bounds :: "Settings \<Rightarrow> bool" where
  "in_bounds s =
     (MinMaxActiveJourneys \<le> MaxActiveJourneys s \<and> MaxActiveJourneys s \<le> MaxMaxActiveJourneys \<and>
      MinInteractionTTL \<le> InteractionTTL s \<and> InteractionTTL s \<le> MaxInteractionTTL)"

definition compiled_ok :: "Compiled \<Rightarrow> bool" where
  "compiled_ok c =
     (layer_ok (c_def c) \<and> (\<forall>l \<in> ran (c_tenants c). layer_ok l) \<and>
      (\<forall>m \<in> ran (c_users c). \<forall>l \<in> ran m. layer_ok l \<and> l_Cost l = None))"

lemma no_layer_ok [simp]: "layer_ok no_layer"
  by (simp add: layer_ok_def no_layer_def checkBounds_def)

lemma in_bounds_apply [intro]: "in_bounds s \<Longrightarrow> layer_ok l \<Longrightarrow> in_bounds (apply_layer s l)"
  by (auto simp: in_bounds_def apply_layer_def layer_ok_def checkBounds_def Let_def split: option.splits if_splits)

lemma in_bounds_Merge:
  assumes "layer_ok def" "layer_ok tenant" "layer_ok user"
  shows "in_bounds (Merge sha def tenant user)"
proof -
  define s0 where "s0 = \<lparr>MaxActiveJourneys = DefaultMaxActiveJourneys, CostProfile = [],
                InteractionTTL = DefaultInteractionTTL, Digest = []\<rparr>"
  have "in_bounds s0" by (simp add: s0_def in_bounds_def settings_consts)
  with assms have b: "in_bounds (apply_layer (apply_layer s0 def) tenant)" by blast
  from b assms(3) show ?thesis
    unfolding Merge_def s0_def [symmetric] Let_def
    by (auto simp: in_bounds_def layer_ok_def checkBounds_def split: option.splits if_splits)
qed

lemma check_tenants_ok: "check_tenants m ts = Inr () \<Longrightarrow> t \<in> set ts \<Longrightarrow> layer_ok (the (m t))"
  by (induction ts) (auto simp: and_then_Inr_iff split: if_splits)

lemma check_principals_ok:
  "check_principals t m ps = Inr () \<Longrightarrow> p \<in> set ps \<Longrightarrow> layer_ok (the (m p)) \<and> l_Cost (the (m p)) = None"
  by (induction ps) (auto simp: and_then_Inr_iff split: if_splits)

lemma check_users_ok:
  "check_users m ts = Inr () \<Longrightarrow> t \<in> set ts \<Longrightarrow>
     check_principals t (map_of (the (m t))) (sorted_keys (the (m t))) = Inr ()"
  by (induction ts) (auto simp: and_then_Inr_iff split: if_splits)

lemma map_of_key: "map_of kvs k = Some v \<Longrightarrow> k \<in> fst ` set kvs"
  by (metis map_of_eq_None_iff option.simps(3))

lemma Compile_ok:
  assumes "Compile doc = Inr c"
  shows "compiled_ok c"
proof -
  from assms have d: "layer_ok (d_Default doc)"
    and t: "check_tenants (map_of (d_Tenants doc)) (sorted_keys (d_Tenants doc)) = Inr ()"
    and u: "check_users (map_of (d_Users doc)) (sorted_keys (d_Users doc)) = Inr ()"
    and c: "c = \<lparr>c_def = d_Default doc, c_tenants = map_of (d_Tenants doc),
            c_users = map_option map_of \<circ> map_of (d_Users doc)\<rparr>"
    by (auto simp: Compile_def and_then_Inr_iff)
  have "layer_ok l" if "map_of (d_Tenants doc) k = Some l" for k l
    using check_tenants_ok [OF t, of k] map_of_key [OF that] that by simp
  moreover have "layer_ok l \<and> l_Cost l = None"
    if "map_of (d_Users doc) k = Some m" "map_of m p = Some l" for k m p l
    using check_principals_ok [OF check_users_ok [OF u, of k], of p] map_of_key [OF that(1)]
      map_of_key [OF that(2)] that by simp
  ultimately show ?thesis using d by (auto simp: compiled_ok_def c ran_def)
qed

lemma layer_at_ok: "(\<And>l. l \<in> ran m \<Longrightarrow> layer_ok l) \<Longrightarrow> layer_ok (layer_at m k)"
  by (auto simp: layer_at_def intro: ranI split: option.splits)

lemma Resolve_bounds:
  assumes "compiled_ok c" "Resolve sha c cancelled scope = Inr s"
  shows "in_bounds s"
proof -
  have "layer_ok (layer_at (c_tenants c) (s_Tenant scope))"
    using assms(1) by (intro layer_at_ok) (simp add: compiled_ok_def)
  moreover have "layer_ok (case c_users c (s_Tenant scope) of None \<Rightarrow> no_layer
      | Some m \<Rightarrow> layer_at m (s_Principal scope))"
    using assms(1) ranI [of "c_users c" "s_Tenant scope"]
    by (auto simp: compiled_ok_def split: option.splits intro!: layer_at_ok)
  ultimately show ?thesis
    using assms by (auto simp: Resolve_def compiled_ok_def intro: in_bounds_Merge split: if_splits)
qed

section \<open>The settings port\<close>

text \<open>A source of settings, in states of its own: what it resolves is within the bounds, and it does
  not resolve for the empty tenant.\<close>

locale settings_source =
  fixes resolve :: "'st \<Rightarrow> bool \<Rightarrow> Scope \<Rightarrow> settings_error + Settings"
    and ready :: "'st \<Rightarrow> bool"
  assumes resolve_bounds: "ready st \<Longrightarrow> resolve st cancelled scope = Inr s \<Longrightarrow> in_bounds s"
    and resolve_tenant: "s_Tenant scope = [] \<Longrightarrow> \<exists>e. resolve st cancelled scope = Inl e"
begin

lemma run_limits:
  assumes "ready st" "resolve st cancelled scope = Inr s"
  shows "1 \<le> MaxActiveJourneys s \<and> MaxActiveJourneys s \<le> 4 \<and> 60000000000 \<le> InteractionTTL s \<and>
    InteractionTTL s \<le> 604800000000000 \<and> s_Tenant scope \<noteq> []"
  using resolve_bounds [OF assms] resolve_tenant [of scope st cancelled] assms(2)
  by (auto simp: in_bounds_def settings_consts)

end

interpretation compiled: settings_source "Resolve sha" compiled_ok for sha
  by unfold_locales (auto simp: Resolve_bounds, simp add: Resolve_def)

interpretation mutable: settings_source "Mutable_Resolve sha" "\<lambda>m. compiled_ok (m_c m)" for sha
  by unfold_locales (auto simp: Mutable_Resolve_def dest: Resolve_bounds split: if_splits, simp add: Resolve_def)

text \<open>Settings resolved from a document that compiled stay within the bounds: one to four
  active journeys, and an interaction time limit between one minute and seven days; there are no
  settings for the empty tenant.\<close>

theorem Resolve_within_bounds:
  assumes "Compile doc = Inr c" "Resolve sha c cancelled scope = Inr s"
  shows "1 \<le> MaxActiveJourneys s \<and> MaxActiveJourneys s \<le> 4 \<and> 60000000000 \<le> InteractionTTL s \<and>
    InteractionTTL s \<le> 604800000000000 \<and> s_Tenant scope \<noteq> []"
  using compiled.run_limits [OF Compile_ok [OF assms(1)] assms(2)] .

definition example_document :: Document where
  "example_document = \<lparr>d_Default = no_layer\<lparr>l_MaxActiveJourneys := Some 3\<rparr>,
     d_Tenants = [(''acme'', no_layer\<lparr>l_InteractionTTL := Some 120000000000\<rparr>)],
     d_Users = [(''acme'', [(''ann'', no_layer\<lparr>l_MaxActiveJourneys := Some 4\<rparr>)])]\<rparr>"

theorem Resolve_within_bounds_witness:
  "\<exists>c s. Compile example_document = Inr c \<and>
     Resolve (\<lambda>b. b) c False \<lparr>s_Tenant = ''acme'', s_Principal = ''ann''\<rparr> = Inr s \<and> MaxActiveJourneys s \<le> 4"
proof -
  have "isl (Compile example_document) = False" by code_simp
  then obtain c where c: "Compile example_document = Inr c" by (cases "Compile example_document") auto
  have "\<exists>s. Resolve (\<lambda>b. b) c False \<lparr>s_Tenant = ''acme'', s_Principal = ''ann''\<rparr> = Inr s"
    by (simp add: Resolve_def)
  then obtain s where s: "Resolve (\<lambda>b. b) c False \<lparr>s_Tenant = ''acme'', s_Principal = ''ann''\<rparr> = Inr s" ..
  from Resolve_within_bounds [OF c s] c s show ?thesis by blast
qed

section \<open>A user layer only narrows\<close>

text \<open>The user layer only narrows: the limits are the minimum of what the tenant layer gives and
  what the user asks for, and the cost profile does not depend on the user layer.\<close>

theorem Merge_user_narrows:
  "MaxActiveJourneys (Merge sha def tenant user) =
     (case l_MaxActiveJourneys user of None \<Rightarrow> MaxActiveJourneys (Merge sha def tenant no_layer)
      | Some n \<Rightarrow> min n (MaxActiveJourneys (Merge sha def tenant no_layer))) \<and>
   InteractionTTL (Merge sha def tenant user) =
     (case l_InteractionTTL user of None \<Rightarrow> InteractionTTL (Merge sha def tenant no_layer)
      | Some d \<Rightarrow> min d (InteractionTTL (Merge sha def tenant no_layer))) \<and>
   CostProfile (Merge sha def tenant user) = CostProfile (Merge sha def tenant no_layer)"
  by (auto simp: Merge_def Let_def no_layer_def min_def split: option.splits)

text \<open>The digest identifies the applied values: resolved settings with the same digest agree in every
  value, unless the two digest documents collide under the hash.\<close>

theorem Merge_digest_identifies:
  assumes "s = Merge sha a b c" "t = Merge sha a' b' c'" "Digest s = Digest t"
  shows "s = t \<or> collides sha (print_json (digest_doc (MaxActiveJourneys s) (CostProfile s) (InteractionTTL s)))
    (print_json (digest_doc (MaxActiveJourneys t) (CostProfile t) (InteractionTTL t)))"
proof (cases "print_json (digest_doc (MaxActiveJourneys s) (CostProfile s) (InteractionTTL s)) =
    print_json (digest_doc (MaxActiveJourneys t) (CostProfile t) (InteractionTTL t))")
  case True
  then have "digest_doc (MaxActiveJourneys s) (CostProfile s) (InteractionTTL s) =
      digest_doc (MaxActiveJourneys t) (CostProfile t) (InteractionTTL t)"
    by (rule print_json_inject [rotated 2]) (simp_all add: digest_doc_def)
  then have "MaxActiveJourneys s = MaxActiveJourneys t" "CostProfile s = CostProfile t"
    "InteractionTTL s = InteractionTTL t"
    by (auto simp: digest_doc_def dest: show_int_inject)
  with assms(3) have "s = t" by (intro Settings.Settings.equality) simp_all
  then show ?thesis ..
next
  case False
  have "Digest (Merge sha x y z) = digestOf sha (MaxActiveJourneys (Merge sha x y z))
      (CostProfile (Merge sha x y z)) (InteractionTTL (Merge sha x y z))" for x y z
    by (simp add: Merge_def Let_def)
  with assms False show ?thesis by (simp add: collides_def digestOf_def)
qed

theorem Merge_digest_identifies_witness:
  "\<not> Digest (Merge (\<lambda>b. b) no_layer no_layer no_layer) =
   Digest (Merge (\<lambda>b. b) no_layer (no_layer\<lparr>l_MaxActiveJourneys := Some 1\<rparr>) no_layer)"
proof
  let ?s = "Merge (\<lambda>b. b) no_layer no_layer no_layer"
    and ?t = "Merge (\<lambda>b. b) no_layer (no_layer\<lparr>l_MaxActiveJourneys := Some 1\<rparr>) no_layer"
  assume "Digest ?s = Digest ?t"
  from Merge_digest_identifies [OF refl refl this] have "?s = ?t" by (simp add: collides_def)
  then have "MaxActiveJourneys ?s = MaxActiveJourneys ?t" by simp
  then show False by (simp add: Merge_def Let_def apply_layer_def no_layer_def settings_consts)
qed

end
