(* ===== verification/Journal_Interactions.thy ===== *)
theory Journal_Interactions
  imports Journal_Runs Settings
begin

text \<open>
  Approvals and clarifications (\<open>internal/journal/interactions.go\<close>) and the binding of an approval to
  the call it was given for (\<open>binding.go\<close>).
\<close>

section \<open>Binding\<close>

definition domain_tag :: "string \<Rightarrow> string" where
  "domain_tag s = ''az-agent-platform/'' @ s @ [CHR 0x00]"

definition bindingDomain :: string where "bindingDomain = domain_tag ''approval-binding/v2''"
definition nameDigestDomain :: string where "nameDigestDomain = domain_tag ''remote-name/v1''"
definition schemaDomain :: string where "schemaDomain = domain_tag ''input-schema/v1''"

definition domainDigest :: "libs \<Rightarrow> string \<Rightarrow> bytes \<Rightarrow> string" where
  "domainDigest lib tag data = lib_sha256 lib (tag @ data)"

record CallBinding =
  cb_JourneyID :: string
  cb_OperationKey :: string
  cb_NameDigest :: string
  cb_SchemaDigest :: string
  cb_Arguments :: bytes
  cb_ProductVersion :: string
  cb_Principal :: string
  cb_Conversation :: string
  cb_DefinitionSet :: string

definition canonicalBinding :: "CallBinding \<Rightarrow> json \<Rightarrow> json" where
  "canonicalBinding b args = JObj
     [(''journey_id'', JStr (cb_JourneyID b)), (''operation_key'', JStr (cb_OperationKey b)),
      (''name_digest'', JStr (cb_NameDigest b)), (''schema_digest'', JStr (cb_SchemaDigest b)),
      (''arguments'', canon args), (''product_version'', JStr (cb_ProductVersion b)),
      (''principal'', JStr (cb_Principal b)), (''conversation'', JStr (cb_Conversation b)),
      (''definition_set'', JStr (cb_DefinitionSet b))]"

definition BindCall :: "libs \<Rightarrow> CallBinding \<Rightarrow> journal_error + string" where
  "BindCall lib b =
     (if cb_OperationKey b = [] \<or> cb_NameDigest b = [] \<or> cb_SchemaDigest b = [] \<or> cb_ProductVersion b = [] \<or>
         cb_Principal b = [] \<or> cb_Conversation b = [] \<or> length (cb_DefinitionSet b) \<noteq> 64
      then Inl ErrState
      else case parse_json (cb_Arguments b) of
        Some (JObj kvs) \<Rightarrow> Inr (domainDigest lib bindingDomain (print_json (canonicalBinding b (JObj kvs))))
      | _ \<Rightarrow> Inl ErrState)"

definition NameDigest :: "libs \<Rightarrow> string \<Rightarrow> string" where
  "NameDigest lib name = domainDigest lib nameDigestDomain name"

definition SchemaDigest :: "libs \<Rightarrow> bytes \<Rightarrow> journal_error + string" where
  "SchemaDigest lib schema =
     (case parse_json (if schema = [] then ''null'' else schema) of
        None \<Rightarrow> Inl ErrState
      | Some v \<Rightarrow> Inr (domainDigest lib schemaDomain (print_json (canon v))))"

section \<open>Wait\<close>

text \<open>The time limit recorded with the run: the field is matched without regard to case, a
  missing, null or non-positive value is the default, and a value that is not a 64-bit integer
  is an error.\<close>

fun ttl_field :: "int \<Rightarrow> (string \<times> json) list \<Rightarrow> int option" where
  "ttl_field t [] = Some t"
| "ttl_field t ((k, v) # kvs) =
     (if fold_key k = ''interaction_ttl'' then
        (case v of
           JNum n \<Rightarrow> (case parse_int64 n of None \<Rightarrow> None | Some t' \<Rightarrow> ttl_field t' kvs)
         | JNull \<Rightarrow> ttl_field t kvs
         | _ \<Rightarrow> None)
      else ttl_field t kvs)"

definition recordedInteractionTTL :: "json option \<Rightarrow> journal_error + int" where
  "recordedInteractionTTL recorded =
     (case recorded of
        None \<Rightarrow> Inr DefaultInteractionTTL
      | Some (JObj kvs) \<Rightarrow>
          (case ttl_field 0 kvs of
             None \<Rightarrow> Inl ErrState
           | Some t \<Rightarrow> Inr (if t \<le> 0 then DefaultInteractionTTL else t))
      | Some JNull \<Rightarrow> Inr DefaultInteractionTTL
      | Some _ \<Rightarrow> Inl ErrState)"

text \<open>The artifact never carries the fields that have columns of their own.\<close>

definition artifact_of :: "Interaction \<Rightarrow> Interaction" where
  "artifact_of i = i\<lparr>i_JourneyID := [], i_OperationKey := [], i_NameDigest := [], i_SchemaDigest := []\<rparr>"

definition wait_binding :: "Owner \<Rightarrow> Interaction \<Rightarrow> string \<Rightarrow> string \<Rightarrow> string \<Rightarrow> CallBinding" where
  "wait_binding ow i version digest who =
     \<lparr>cb_JourneyID = i_JourneyID i, cb_OperationKey = i_OperationKey i, cb_NameDigest = i_NameDigest i,
      cb_SchemaDigest = i_SchemaDigest i, cb_Arguments = pc_Arguments (i_Call i), cb_ProductVersion = version,
      cb_Principal = who, cb_Conversation = ow_thread ow, cb_DefinitionSet = digest\<rparr>"

definition wait_row ::
  "Owner \<Rightarrow> Interaction \<Rightarrow> json \<Rightarrow> json \<Rightarrow> int \<Rightarrow> run_row \<Rightarrow> conversation_row \<Rightarrow> interaction_row" where
  "wait_row ow i checkpoint history expires r v =
     \<lparr>ia_id = i_ID i, ia_thread_id = ow_thread ow, ia_run_id = ow_run ow,
      ia_journey_id = (if i_JourneyID i = [] then rn_journey_id r else Some (i_JourneyID i)),
      ia_definition_digest = the (rn_definition_digest r), ia_kind = i_Kind i,
      ia_artifact = (artifact_of i)\<lparr>i_ExpiresAt := expires\<rparr>, ia_checkpoint = checkpoint, ia_history = history,
      ia_expires_at = expires, ia_state = IPending, ia_continuation_run_id = None, ia_reply = None,
      ia_marker = (if i_Kind i = ''approval'' then Some Requested else None),
      ia_operation_key = i_OperationKey i, ia_name_digest = i_NameDigest i, ia_schema_digest = i_SchemaDigest i,
      ia_product_version = rn_product_version r, ia_catalog_digest = rn_catalog_digest r,
      ia_active_journeys = cv_active_journeys v\<rparr>"

definition wait_body :: "libs \<Rightarrow> Owner \<Rightarrow> Interaction \<Rightarrow> json \<Rightarrow> json \<Rightarrow> int \<Rightarrow> unit tx" where
  "wait_body lib ow i checkpoint history now =
     (let thread = ow_thread ow; run = ow_run ow in
      query (\<lambda>db. list_ex (pending_command thread run) (commands db)) (\<lambda>pending.
      guard (\<not> pending) ErrPending (
      guard (\<not> (i_Kind i = ''approval'' \<and> (i_JourneyID i = [] \<or> i_OperationKey i = []))) ErrState (
      query_row (find_run thread run) NoRows (\<lambda>r.
      query_row (find_conversation thread) NoRows (\<lambda>v.
      case (rn_product_version r, rn_definition_digest r) of
        (Some version, Some digest) \<Rightarrow>
          (case recordedInteractionTTL (rn_settings r) of
             Inl e \<Rightarrow> fail e
           | Inr ttl \<Rightarrow>
               guard (BindCall lib (wait_binding ow i version digest (cv_principal v)) = Inr (pc_Binding (i_Call i)))
                 ErrState (
               insert_interaction (wait_row ow i checkpoint history (now + interval ttl) r v) (
               set_history thread history (
               exec (update_run thread run
                      (\<lambda>r. r\<lparr>rn_state := RunAwaitingInput, rn_owner_id := [], rn_lease_until := now\<rparr>)) (
               appendEvent thread ((event run ''run.awaiting_input'')\<lparr>e_CallID := pc_CallID (i_Call i)\<rparr>))))))
      | _ \<Rightarrow> fail ErrState))))))"

definition Wait :: "libs \<Rightarrow> Owner \<Rightarrow> Interaction \<Rightarrow> bytes \<Rightarrow> bytes \<Rightarrow> int \<Rightarrow> db \<Rightarrow> (journal_error + unit) \<times> db" where
  "Wait lib ow i checkpoint history now db =
     (case Validate i of Inl e \<Rightarrow> (Inl e, db)
      | Inr _ \<Rightarrow>
          (case (parse_json checkpoint, parse_json history) of
             (Some cp, Some h) \<Rightarrow> owned ow now (wait_body lib ow i cp h now) db
           | _ \<Rightarrow> (Inl ErrState, db)))"

section \<open>Reading back\<close>

record Continuation =
  ct_Interaction :: Interaction
  ct_Checkpoint :: json
  ct_History :: json
  ct_Reply :: Reply
  ct_Marker :: "marker option"

definition restore_interaction :: "interaction_row \<Rightarrow> Interaction" where
  "restore_interaction i = (ia_artifact i)
     \<lparr>i_JourneyID := (case ia_journey_id i of None \<Rightarrow> [] | Some j \<Rightarrow> j), i_OperationKey := ia_operation_key i,
      i_NameDigest := ia_name_digest i, i_SchemaDigest := ia_schema_digest i\<rparr>"

definition Continuation_op :: "Owner \<Rightarrow> int \<Rightarrow> db \<Rightarrow> (journal_error + Continuation option) \<times> db" where
  "Continuation_op ow now db =
     (if InteractionID (ow_Command ow) = [] then (Inr None, db)
      else owned ow now
        (query_row (\<lambda>db. find (\<lambda>i. ia_id i = InteractionID (ow_Command ow) \<and> continues (ow_thread ow) (ow_run ow) i)
                          (interactions db)) NoRows (\<lambda>i.
         query_row (\<lambda>_. Option.bind (ia_reply i) reply_of_json) DecodeError (\<lambda>r.
         return (Some \<lparr>ct_Interaction = restore_interaction i, ct_Checkpoint = ia_checkpoint i,
           ct_History = ia_history i, ct_Reply = r, ct_Marker = ia_marker i\<rparr>)))) db)"

definition Interaction_op :: "string \<Rightarrow> string \<Rightarrow> string \<Rightarrow> db \<Rightarrow> Interaction option" where
  "Interaction_op thread who run db =
     (case find_conversation thread db of
        Some v \<Rightarrow>
          if cv_principal v \<noteq> who then None
          else map_option ia_artifact
            (find (\<lambda>i. ia_thread_id i = thread \<and> ia_run_id i = run \<and> ia_state i = IPending) (interactions db))
      | None \<Rightarrow> None)"

section \<open>Supersede\<close>

definition approval_of :: "string \<Rightarrow> string \<Rightarrow> string \<Rightarrow> db \<Rightarrow> interaction_row option" where
  "approval_of thread run iid db =
     find (\<lambda>i. ia_id i = iid \<and> continues thread run i \<and> ia_kind i = ''approval'') (interactions db)"

definition set_marker :: "string \<Rightarrow> string \<Rightarrow> marker \<Rightarrow> db \<Rightarrow> db" where
  "set_marker thread iid m =
     update_interactions (\<lambda>i. ia_id i = iid \<and> ia_thread_id i = thread) (\<lambda>i. i\<lparr>ia_marker := Some m\<rparr>)"

definition supersede :: "string \<Rightarrow> string \<Rightarrow> string \<Rightarrow> unit tx" where
  "supersede thread run iid =
     query_row (approval_of thread run iid) ErrState (\<lambda>i.
     if ia_marker i = Some Superseded then return ()
     else guard (ia_marker i = Some Decided) ErrState (
       exec (set_marker thread iid Superseded) (
       appendEvent thread ((event run ''interaction.superseded'')\<lparr>e_CallID := pc_CallID (i_Call (ia_artifact i))\<rparr>))))"

definition Supersede :: "Owner \<Rightarrow> string \<Rightarrow> int \<Rightarrow> db \<Rightarrow> (journal_error + unit) \<times> db" where
  "Supersede ow iid now = owned ow now (supersede (ow_thread ow) (ow_run ow) iid)"

end
