(* ===== verification/Journal_Operations.thy ===== *)
theory Journal_Operations
  imports Journal_Interactions
begin

text \<open>
  Tool calls (\<open>internal/journal/operations.go\<close>): an attempt is committed before it is dispatched and closed
  with its outcome.
\<close>

definition validPolicy :: "string \<Rightarrow> bool" where
  "validPolicy policy = (policy = ''read_only'' \<or> policy = ''idempotent'' \<or> policy = ''effectful'')"

definition operation_binding :: "Owner \<Rightarrow> Operation \<Rightarrow> string \<Rightarrow> string \<Rightarrow> string \<Rightarrow> CallBinding" where
  "operation_binding ow x version digest who =
     \<lparr>cb_JourneyID = o_JourneyID x, cb_OperationKey = o_OperationKey x, cb_NameDigest = o_NameDigest x,
      cb_SchemaDigest = o_SchemaDigest x, cb_Arguments = o_Arguments x, cb_ProductVersion = version,
      cb_Principal = who, cb_Conversation = ow_thread ow, cb_DefinitionSet = digest\<rparr>"

definition new_operation :: "Owner \<Rightarrow> Operation \<Rightarrow> run_row \<Rightarrow> operation_row" where
  "new_operation ow x r =
     \<lparr>op_call_id = o_CallID x, op_thread_id = ow_thread ow, op_run_id = ow_run ow, op_alias = o_Name x,
      op_operation_key = o_OperationKey x, op_arguments = o_Arguments x, op_binding = o_Binding x,
      op_policy = o_Policy x, op_requires_approval = o_RequiresApproval x, op_outcome = ''dispatching'',
      op_journey_id = (if o_JourneyID x = [] then rn_journey_id r else Some (o_JourneyID x))\<rparr>"

text \<open>The approval a first attempt relies on: consumed by this run, not expired, decided, given for this
  call and this name with the decision \<open>approve\<close>.\<close>

definition approval_row :: "Owner \<Rightarrow> string \<Rightarrow> int \<Rightarrow> db \<Rightarrow> interaction_row option" where
  "approval_row ow approval now db =
     find (\<lambda>i. ia_id i = approval \<and> continues (ow_thread ow) (ow_run ow) i \<and> ia_kind i = ''approval'' \<and>
               ia_expires_at i > now) (interactions db)"

definition approves :: "Operation \<Rightarrow> interaction_row \<Rightarrow> bool" where
  "approves x i =
     ((case Option.bind (ia_reply i) reply_of_json of None \<Rightarrow> False | Some r \<Rightarrow> r_Decision r = ''approve'') \<and>
      pc_CallID (i_Call (ia_artifact i)) = o_CallID x \<and> pc_Name (i_Call (ia_artifact i)) = o_Name x \<and>
      ia_marker i = Some Decided)"

definition approval_matches :: "Operation \<Rightarrow> string \<Rightarrow> interaction_row \<Rightarrow> bool" where
  "approval_matches x expected i =
     ((case ia_journey_id i of None \<Rightarrow> [] | Some j \<Rightarrow> j) = o_JourneyID x \<and>
      pc_Binding (i_Call (ia_artifact i)) = expected)"

definition start_attempt :: "Owner \<Rightarrow> Operation \<Rightarrow> int \<Rightarrow> bool tx" where
  "start_attempt ow x attempt =
     insert_attempt \<lparr>at_call_id = o_CallID x, at_attempt = attempt, at_outcome = ''dispatching''\<rparr> (
     call (appendEvent (ow_thread ow) ((event (ow_run ow) ''tool.started'')
            \<lparr>e_CallID := o_CallID x, e_ToolName := o_Name x\<rparr>)) (\<lambda>_. return False))"

definition first_attempt :: "Owner \<Rightarrow> Operation \<Rightarrow> string \<Rightarrow> string \<Rightarrow> run_row \<Rightarrow> int \<Rightarrow> bool tx" where
  "first_attempt ow x approval expected r now =
     (if o_RequiresApproval x then
        query_row (approval_row ow approval now) ErrState (\<lambda>i.
        guard (approves x i) ErrState (
        if \<not> approval_matches x expected i then
          call (supersede (ow_thread ow) (ow_run ow) approval) (\<lambda>_. return True)
        else
          insert_operation (new_operation ow x r) (
          exec (set_marker (ow_thread ow) approval Dispatched) (start_attempt ow x 1))))
      else insert_operation (new_operation ow x r) (start_attempt ow x 1))"

definition second_attempt :: "Owner \<Rightarrow> Operation \<Rightarrow> int \<Rightarrow> bool tx" where
  "second_attempt ow x attempt =
     query_row (\<lambda>db. find (\<lambda>y. op_call_id y = o_CallID x \<and> op_thread_id y = ow_thread ow \<and> op_run_id y = ow_run ow)
                       (operations db)) NoRows (\<lambda>y.
     guard (op_binding y = o_Binding x \<and> op_policy y = o_Policy x \<and>
            (op_outcome y = ''rejected'' \<or> op_outcome y = ''outcome_unknown'') \<and> o_Policy x \<noteq> ''effectful'') ErrState (
     exec (update_operations (\<lambda>y. op_call_id y = o_CallID x) (\<lambda>y. y\<lparr>op_outcome := ''dispatching''\<rparr>)) (
     start_attempt ow x attempt)))"

definition begin_body :: "libs \<Rightarrow> Owner \<Rightarrow> Operation \<Rightarrow> int \<Rightarrow> string \<Rightarrow> int \<Rightarrow> bool tx" where
  "begin_body lib ow x attempt approval now =
     query_row (find_run (ow_thread ow) (ow_run ow)) NoRows (\<lambda>r.
     query_row (find_conversation (ow_thread ow)) NoRows (\<lambda>v.
     case (rn_product_version r, rn_definition_digest r) of
       (Some version, Some digest) \<Rightarrow>
         guard (BindCall lib (operation_binding ow x version digest (cv_principal v)) = Inr (o_Binding x)) ErrState (
         query (\<lambda>db. list_ex (\<lambda>y. unresolved (ow_thread ow) y \<and> op_call_id y \<noteq> o_CallID x) (operations db)) (\<lambda>other.
         guard (\<not> other) ErrOutcomeUnknown (
         if attempt = 1 then first_attempt ow x approval (o_Binding x) r now else second_attempt ow x attempt)))
     | _ \<Rightarrow> fail ErrState))"

text \<open>A superseded approval commits its marker and is then reported as an error.\<close>

definition BeginAttempt :: "libs \<Rightarrow> Owner \<Rightarrow> Operation \<Rightarrow> int \<Rightarrow> string \<Rightarrow> int \<Rightarrow> db \<Rightarrow> (journal_error + unit) \<times> db" where
  "BeginAttempt lib ow x attempt approval now db =
     (if o_CallID x = [] \<or> attempt < 1 \<or> attempt > 2 \<or> \<not> validPolicy (o_Policy x) \<or>
         o_Policy x \<noteq> ''read_only'' \<and> \<not> o_RequiresApproval x
      then (Inl ErrState, db)
      else case owned ow now (begin_body lib ow x attempt approval now) db of
        (Inl e, db') \<Rightarrow> (Inl e, db')
      | (Inr superseded, db') \<Rightarrow> (if superseded then Inl ErrSuperseded else Inr (), db'))"

definition end_body :: "Owner \<Rightarrow> Operation \<Rightarrow> int \<Rightarrow> string \<Rightarrow> unit tx" where
  "end_body ow x attempt outcome =
     (let p = (\<lambda>y. op_call_id y = o_CallID x \<and> dispatching_of (ow_thread ow) (ow_run ow) y);
          q = (\<lambda>a. at_call_id a = o_CallID x \<and> at_attempt a = attempt \<and> at_outcome a = ''dispatching'')
      in query (\<lambda>db. length (filter p (operations db))) (\<lambda>n.
         exec (update_operations p (\<lambda>y. y\<lparr>op_outcome := outcome\<rparr>)) (
         guard (n = 1) ErrState (
         query (\<lambda>db. length (filter q (attempts db))) (\<lambda>m.
         exec (update_attempts q (\<lambda>a. a\<lparr>at_outcome := outcome\<rparr>)) (
         guard (m = 1) ErrState (
         appendEvent (ow_thread ow) ((event (ow_run ow) (''tool.'' @ outcome))
           \<lparr>e_CallID := o_CallID x, e_ToolName := o_Name x\<rparr>))))))))"

definition EndAttempt :: "Owner \<Rightarrow> Operation \<Rightarrow> int \<Rightarrow> string \<Rightarrow> int \<Rightarrow> db \<Rightarrow> (journal_error + unit) \<times> db" where
  "EndAttempt ow x attempt outcome now db =
     (if outcome \<notin> {''completed'', ''rejected'', ''auth_required'', ''outcome_unknown''} then (Inl ErrState, db)
      else owned ow now (end_body ow x attempt outcome) db)"

end
