(* ===== verification/Journal_Definitions.thy ===== *)
theory Journal_Definitions
  imports Journal_Runs
begin

text \<open>
  Definition sets and their activation (\<open>internal/journal/definitions.go\<close>), catalog snapshots
  (\<open>catalog.go\<close>) and the reading side (\<open>observe.go\<close>). \<open>served\<close>, the digests this replica can serve, is the
  function the caller passes.
\<close>

section \<open>Which digests are in use\<close>

definition busy_interaction :: "db \<Rightarrow> string \<Rightarrow> interaction_row \<Rightarrow> bool" where
  "busy_interaction db thread i =
     (ia_thread_id i = thread \<and>
      (ia_state i = IPending \<or>
       ia_state i = IConsumed \<and>
       list_ex (\<lambda>r. rn_thread_id r = thread \<and> Some (rn_id r) = ia_continuation_run_id i \<and> live (rn_state r)) (runs db)))"

definition busy_conversation :: "db \<Rightarrow> conversation_row \<Rightarrow> bool" where
  "busy_conversation db v =
     (list_ex (busy_interaction db (cv_id v)) (interactions db) \<or>
      list_ex (unresolved (cv_id v)) (operations db))"

definition referencedDigests :: "db \<Rightarrow> string list" where
  "referencedDigests db = remdups
     ((case definition_current db of None \<Rightarrow> [] | Some d \<Rightarrow> [d]) @
      List.map_filter cv_definition_digest (filter (busy_conversation db) (conversations db)))"

definition ReferencedDefinitions :: "db \<Rightarrow> string list" where
  "ReferencedDefinitions db = sort (referencedDigests db)"

definition DefinitionsReady :: "(string \<Rightarrow> bool) \<Rightarrow> db \<Rightarrow> bool" where
  "DefinitionsReady served db = (definition_current db \<noteq> None \<and> list_all served (referencedDigests db))"

definition CurrentDefinition :: "db \<Rightarrow> journal_error + string" where
  "CurrentDefinition db = (case definition_current db of None \<Rightarrow> Inl ErrDefinition | Some d \<Rightarrow> Inr d)"

section \<open>Resolution for a run\<close>

definition conversationIdle :: "Owner \<Rightarrow> db \<Rightarrow> bool" where
  "conversationIdle ow db =
     (InteractionID (ow_Command ow) = [] \<and>
      \<not> (list_ex (\<lambda>i. ia_thread_id i = ow_thread ow \<and> ia_state i = IPending) (interactions db) \<or>
         list_ex (unresolved (ow_thread ow)) (operations db)))"

definition pin_conversation :: "string \<Rightarrow> string \<Rightarrow> db \<Rightarrow> db" where
  "pin_conversation thread digest =
     update_conversation thread (\<lambda>v. v\<lparr>cv_definition_digest := Some digest\<rparr>)"

definition resolve_body :: "Owner \<Rightarrow> (string \<Rightarrow> bool) \<Rightarrow> string tx" where
  "resolve_body ow served =
     query_row (find_conversation (ow_thread ow)) NoRows (\<lambda>v.
     query definition_current (\<lambda>current.
     query (conversationIdle ow) (\<lambda>idle.
     case (cv_definition_digest v, current) of
       (None, None) \<Rightarrow> fail ErrDefinition
     | (None, Some cur) \<Rightarrow>
         guard (served cur) ErrDefinition (exec (pin_conversation (ow_thread ow) cur) (return cur))
     | (Some pin, _) \<Rightarrow>
         (if current \<noteq> None \<and> current \<noteq> Some pin \<and> idle then
            guard (served (the current)) ErrDefinition (
            exec (pin_conversation (ow_thread ow) (the current)) (
            call (appendEvent (ow_thread ow) ((event (ow_run ow) ''definition_changed'')\<lparr>e_Detail := Some (JObj
                   [(''new_digest'', JStr (the current)), (''old_digest'', JStr pin)])\<rparr>)) (\<lambda>_.
            return (the current))))
          else guard (served pin) ErrDefinition (return pin)))))"

definition ResolveDefinition :: "Owner \<Rightarrow> (string \<Rightarrow> bool) option \<Rightarrow> int \<Rightarrow> db \<Rightarrow> (journal_error + string) \<times> db" where
  "ResolveDefinition ow served now db =
     (case served of None \<Rightarrow> (Inl ErrDefinition, db)
      | Some f \<Rightarrow> owned ow now (resolve_body ow f) db)"

section \<open>Activation\<close>

definition activated :: "string \<Rightarrow> db \<Rightarrow> bool" where
  "activated digest db =
     list_ex (\<lambda>s. dset_digest s = digest \<and> dset_activated_at s \<noteq> None) (definition_sets db)"

definition DefinitionActivated :: "string \<Rightarrow> db \<Rightarrow> bool" where
  "DefinitionActivated digest db = activated digest db"

definition markActivated :: "string \<Rightarrow> int \<Rightarrow> db \<Rightarrow> db" where
  "markActivated digest now db =
     db\<lparr>definition_sets := update_where (\<lambda>s. dset_digest s = digest \<and> dset_activated_at s = None)
                            (\<lambda>s. s\<lparr>dset_activated_at := Some now\<rparr>) (definition_sets db)\<rparr>"

definition activate_tx :: "string \<Rightarrow> string \<Rightarrow> (string \<Rightarrow> bool) \<Rightarrow> bool \<Rightarrow> int \<Rightarrow> unit tx" where
  "activate_tx expected candidate served rollback now =
     query definition_current (\<lambda>current.
     if current = Some candidate then exec (markActivated candidate now) (return ())
     else
       query (activated candidate) (\<lambda>earlier.
       guard (rollback \<or> \<not> earlier) ErrDefinitionSuperseded (
       query referencedDigests (\<lambda>refs.
       guard (list_all served refs) ErrDefinition (
       guard (case current of None \<Rightarrow> expected = [] | Some cur \<Rightarrow> served cur \<and> cur = expected) ErrDefinition (
       exec (\<lambda>db. db\<lparr>definition_current := Some candidate\<rparr>) (
       exec (markActivated candidate now) (return ()))))))))"

definition activate ::
  "string \<Rightarrow> string \<Rightarrow> (string \<Rightarrow> bool) option \<Rightarrow> bool \<Rightarrow> int \<Rightarrow> db \<Rightarrow> (journal_error + unit) \<times> db" where
  "activate expected candidate served rollback now db =
     (case served of None \<Rightarrow> (Inl ErrDefinition, db)
      | Some f \<Rightarrow>
          if length candidate \<noteq> 64 \<or> \<not> f candidate then (Inl ErrDefinition, db)
          else begin_func (activate_tx expected candidate f rollback now) db)"

definition ActivateDefinition :: "string \<Rightarrow> string \<Rightarrow> (string \<Rightarrow> bool) option \<Rightarrow> int \<Rightarrow> db \<Rightarrow> (journal_error + unit) \<times> db" where
  "ActivateDefinition expected candidate served = activate expected candidate served False"

definition RollbackDefinition :: "string \<Rightarrow> string \<Rightarrow> (string \<Rightarrow> bool) option \<Rightarrow> int \<Rightarrow> db \<Rightarrow> (journal_error + unit) \<times> db" where
  "RollbackDefinition expected candidate served = activate expected candidate served True"

section \<open>Stored sets\<close>

definition digestPattern :: "string \<Rightarrow> bool" where
  "digestPattern s = (length s = 64 \<and> list_all (\<lambda>c. is_digit c \<or> CHR ''a'' \<le> c \<and> c \<le> CHR ''f'') s)"

definition PutDefinitionSet :: "string \<Rightarrow> (string \<times> bytes) list \<Rightarrow> db \<Rightarrow> (journal_error + unit) \<times> db" where
  "PutDefinitionSet digest files db =
     (if \<not> digestPattern digest \<or> files = [] then (Inl ErrDefinition, db)
      else if [] \<in> fst ` set files then (Inl ErrDefinition, db)
      else begin_func
        (query (\<lambda>db. list_ex (\<lambda>s. dset_digest s = digest) (definition_sets db)) (\<lambda>present.
         if present then return ()
         else exec (\<lambda>db. db\<lparr>definition_sets := definition_sets db @
                 [\<lparr>dset_digest = digest, dset_files = files, dset_activated_at = None\<rparr>]\<rparr>) (return ()))) db)"

definition DefinitionSet_op :: "string \<Rightarrow> db \<Rightarrow> journal_error + (string \<times> bytes) list" where
  "DefinitionSet_op digest db =
     (case find (\<lambda>s. dset_digest s = digest) (definition_sets db) of
        None \<Rightarrow> Inl ErrDefinition
      | Some s \<Rightarrow> Inr (dset_files s))"

section \<open>Catalog snapshots\<close>

definition CatalogDigest :: "libs \<Rightarrow> CatalogSnapshot \<Rightarrow> journal_error + string" where
  "CatalogDigest lib s =
     (case parse_json (cs_Descriptors s) of
        None \<Rightarrow> Inl DecodeError
      | Some d \<Rightarrow> Inr (lib_sha256 lib (print_json (JObj
          [(''tenant'', JStr (cs_Tenant s)), (''principal'', JStr (cs_Principal s)),
           (''product_version'', JStr (cs_ProductVersion s)), (''endpoint_id'', JStr (cs_EndpointID s)),
           (''server_version'', JStr (cs_ServerVersion s)), (''descriptors'', d)]))))"

definition isJSONArray :: "bytes \<Rightarrow> bool" where
  "isJSONArray raw = (case parse_json (trim_space raw) of Some j \<Rightarrow> is_array j | None \<Rightarrow> False)"

definition insert_snapshot :: "CatalogSnapshot \<Rightarrow> db \<Rightarrow> db" where
  "insert_snapshot s db =
     (if list_ex (\<lambda>x. cs_Digest x = cs_Digest s) (catalog_snapshots db) then db
      else db\<lparr>catalog_snapshots := catalog_snapshots db @ [s]\<rparr>)"

definition commit_body :: "Owner \<Rightarrow> CatalogSnapshot \<Rightarrow> int \<Rightarrow> string tx" where
  "commit_body ow snap now =
     (let digest = cs_Digest snap in
      query_row (find_conversation (ow_thread ow)) NoRows (\<lambda>v.
      exec (insert_snapshot snap) (
      exec (update_conversation (ow_thread ow)
             (\<lambda>v. v\<lparr>cv_catalog_digest := Some digest, cv_product_version := Some (cs_ProductVersion snap),
                    cv_catalog_validated_at := Some now\<rparr>)) (
      exec (update_run (ow_thread ow) (ow_run ow) (\<lambda>r. r\<lparr>rn_catalog_digest := Some digest\<rparr>)) (
      case cv_catalog_digest v of
        None \<Rightarrow> return digest
      | Some previous \<Rightarrow>
          if previous = digest then return digest
          else call (appendEvent (ow_thread ow) ((event (ow_run ow) ''catalog_changed'')\<lparr>e_Detail := Some (JObj
              [(''new_digest'', JStr digest), (''new_product_version'', JStr (cs_ProductVersion snap)),
               (''old_digest'', JStr previous),
               (''old_product_version'', JStr (case cv_product_version v of None \<Rightarrow> [] | Some p \<Rightarrow> p))])\<rparr>))
             (\<lambda>_. return digest))))))"

definition CommitSnapshot :: "libs \<Rightarrow> Owner \<Rightarrow> CatalogSnapshot \<Rightarrow> int \<Rightarrow> db \<Rightarrow> (journal_error + string) \<times> db" where
  "CommitSnapshot lib ow snap now db =
     (let c = ow_Command ow in
      if cs_ProductVersion snap = [] \<or> cs_EndpointID snap = [] \<or> \<not> isJSONArray (cs_Descriptors snap)
      then (Inl ErrState, db)
      else if cs_Tenant snap \<noteq> [] \<and> cs_Tenant snap \<noteq> Tenant c \<or> cs_Principal snap \<noteq> [] \<and> cs_Principal snap \<noteq> Principal c
      then (Inl ErrState, db)
      else let s = snap\<lparr>cs_Tenant := Tenant c, cs_Principal := Principal c, cs_CapturedAt := now\<rparr> in
        case CatalogDigest lib s of
          Inl _ \<Rightarrow> (Inl ErrState, db)
        | Inr digest \<Rightarrow> owned ow now (commit_body ow (s\<lparr>cs_Digest := digest\<rparr>) now) db)"

definition RecordRunCatalog :: "Owner \<Rightarrow> string \<Rightarrow> int \<Rightarrow> db \<Rightarrow> (journal_error + unit) \<times> db" where
  "RecordRunCatalog ow digest now = owned ow now
     (query_row (find_conversation (ow_thread ow)) NoRows (\<lambda>v.
      guard (cv_catalog_digest v = Some digest) ErrState (
      exec (update_conversation (ow_thread ow) (\<lambda>v. v\<lparr>cv_catalog_validated_at := Some now\<rparr>)) (
      exec (update_run (ow_thread ow) (ow_run ow) (\<lambda>r. r\<lparr>rn_catalog_digest := Some digest\<rparr>)) (return ())))))"

text \<open>The pin of the conversation with its age, the clock minus the time of its last validation.\<close>

definition ConversationPin :: "Owner \<Rightarrow> int \<Rightarrow> db \<Rightarrow> (journal_error + (CatalogSnapshot \<times> int \<times> int) option) \<times> db" where
  "ConversationPin ow now = owned ow now
     (query_row (find_conversation (ow_thread ow)) NoRows (\<lambda>v.
      query (\<lambda>db. Option.bind (cv_catalog_digest v) (\<lambda>d. find (\<lambda>s. cs_Digest s = d) (catalog_snapshots db))) (\<lambda>found.
      case (found, cv_catalog_validated_at v) of
        (Some s, Some t) \<Rightarrow> return (Some (s, t, now - t))
      | _ \<Rightarrow> return None)))"

section \<open>Observation\<close>

record Run =
  run_ID :: string
  run_State :: RunState
  run_JourneyID :: string
  run_Answer :: string
  run_CommandRunIDs :: "string list"
  run_PendingCommands :: nat
  run_CommandOutcomes :: "(string \<times> string \<times> string) list"
  run_OperationOutcomes :: "(string \<times> string \<times> string) list"
  run_Interaction :: "Interaction option"
  run_ProductVersion :: string
  run_EndpointID :: string
  run_Settings :: "json option"
  run_ServerInfo :: "json option"
  run_CatalogDigest :: string
  run_TerminalReason :: string
  run_TerminalDetail :: "json option"

record Snapshot =
  sn_ThreadID :: string
  sn_Principal :: string
  sn_Watermark :: int
  sn_ActiveJourneys :: "string list"
  sn_Runs :: "Run list"
  sn_Events :: "(int \<times> Event) list"
  sn_RunID :: string
  sn_RunState :: "RunState option"
  sn_JourneyID :: string
  sn_Answer :: string

definition readEvents :: "string \<Rightarrow> int \<Rightarrow> db \<Rightarrow> (int \<times> Event) list" where
  "readEvents thread after db =
     sort_key fst (map (\<lambda>e. (ev_sequence e, ev_event e))
       (filter (\<lambda>e. ev_thread_id e = thread \<and> ev_sequence e > after) (events db)))"

definition Events :: "string \<Rightarrow> string \<Rightarrow> int \<Rightarrow> db \<Rightarrow> journal_error + (int \<times> Event) list" where
  "Events thread who after db =
     (case find_conversation thread db of
        None \<Rightarrow> Inl ErrForbidden
      | Some v \<Rightarrow> if cv_principal v \<noteq> who then Inl ErrForbidden else Inr (readEvents thread after db))"

definition command_outcome :: "command_row \<Rightarrow> string \<times> string \<times> string" where
  "command_outcome k =
     (cm_communication_id k,
      if cm_included k then ''included''
      else if cm_terminal_reason k = [] then ''pending''
      else if cm_terminal_reason k = ''interrupted'' then ''interrupted''
      else if cm_terminal_reason k = ''consumed'' then ''consumed'' else ''rejected'',
      cm_terminal_reason k)"

definition terminal_event :: "string \<Rightarrow> string \<Rightarrow> db \<Rightarrow> Event option" where
  "terminal_event thread run db =
     (case rev (filter (\<lambda>(n, e). e_RunID e = run \<and> (e_Type e = ''run.failed'' \<or> e_Type e = ''run.limit_exceeded''))
             (readEvents thread 0 db)) of
        [] \<Rightarrow> None
      | (n, e) # _ \<Rightarrow> Some e)"

definition or_empty :: "string option \<Rightarrow> string" where
  "or_empty x = (case x of None \<Rightarrow> [] | Some s \<Rightarrow> s)"

definition read_run :: "db \<Rightarrow> run_row \<Rightarrow> Run" where
  "read_run db r =
     (let ks = filter (\<lambda>k. cm_thread_id k = rn_thread_id r \<and> cm_execution_run_id k = rn_id r) (commands db);
          t = terminal_event (rn_thread_id r) (rn_id r) db
      in \<lparr>run_ID = rn_id r, run_State = rn_state r, run_JourneyID = or_empty (rn_journey_id r),
          run_Answer = rn_answer r, run_CommandRunIDs = map cm_run_id ks,
          run_PendingCommands = length (filter (\<lambda>k. \<not> cm_included k \<and> cm_terminal_reason k = []) ks),
          run_CommandOutcomes = map command_outcome ks,
          run_OperationOutcomes = map (\<lambda>x. (op_call_id x, op_alias x, op_outcome x))
            (sort_key op_call_id (filter (\<lambda>x. op_thread_id x = rn_thread_id r \<and> op_run_id x = rn_id r) (operations db))),
          run_Interaction = map_option ia_artifact
            (find (\<lambda>i. ia_thread_id i = rn_thread_id r \<and> ia_run_id i = rn_id r \<and> ia_state i = IPending) (interactions db)),
          run_ProductVersion = or_empty (rn_product_version r), run_EndpointID = or_empty (rn_endpoint_id r),
          run_Settings = rn_settings r, run_ServerInfo = rn_server_info r,
          run_CatalogDigest = or_empty (rn_catalog_digest r),
          run_TerminalReason = (case t of None \<Rightarrow> [] | Some e \<Rightarrow> e_Reason e),
          run_TerminalDetail = (case t of None \<Rightarrow> None | Some e \<Rightarrow> e_Detail e)\<rparr>)"

text \<open>The run, state, journey and answer shown for the conversation are those of the run of the
  latest event.\<close>

definition Snapshot_op :: "string \<Rightarrow> string \<Rightarrow> db \<Rightarrow> journal_error + Snapshot" where
  "Snapshot_op thread who db =
     (case find_conversation thread db of
        None \<Rightarrow> Inl ErrForbidden
      | Some v \<Rightarrow>
          if cv_principal v \<noteq> who then Inl ErrForbidden
          else
            (let rs = map (read_run db) (filter (\<lambda>r. rn_thread_id r = thread) (runs db));
                 es = readEvents thread 0 db;
                 latest = (if es = [] then None
                           else find (\<lambda>r. run_ID r = e_RunID (snd (last es))) rs)
             in Inr \<lparr>sn_ThreadID = thread, sn_Principal = who, sn_Watermark = cv_sequence v,
                     sn_ActiveJourneys = cv_active_journeys v, sn_Runs = rs, sn_Events = es,
                     sn_RunID = (case latest of None \<Rightarrow> [] | Some r \<Rightarrow> run_ID r),
                     sn_RunState = map_option run_State latest,
                     sn_JourneyID = (case latest of None \<Rightarrow> [] | Some r \<Rightarrow> run_JourneyID r),
                     sn_Answer = (case latest of None \<Rightarrow> [] | Some r \<Rightarrow> run_Answer r)\<rparr>))"

end
