(* ===== verification/Journal_Logic.thy ===== *)
theory Journal_Logic
  imports Journal_Operations Journal_Definitions
begin

text \<open>
  Reasoning about transactions. A relation between the database before and after a
  transaction that is reflexive and transitive can be checked statement by statement: the
  locale \<open>tx_relation\<close> gives the rules for the statements and the journal's helpers rely on them.
\<close>

definition moves :: "(db \<Rightarrow> db \<Rightarrow> bool) \<Rightarrow> 'a tx \<Rightarrow> bool" where
  "moves R m = (\<forall>db x db'. m db = Inr (x, db') \<longrightarrow> R db db')"

lemma movesI: "(\<And>db x db'. m db = Inr (x, db') \<Longrightarrow> R db db') \<Longrightarrow> moves R m"
  by (auto simp: moves_def)

lemma movesD: "moves R m \<Longrightarrow> m db = Inr (x, db') \<Longrightarrow> R db db'"
  by (auto simp: moves_def)

locale tx_relation =
  fixes R :: "db \<Rightarrow> db \<Rightarrow> bool"
  assumes tx_refl: "R db db"
    and tx_trans: "R db db1 \<Longrightarrow> R db1 db2 \<Longrightarrow> R db db2"
begin

lemma moves_return [intro!]: "moves R (return x)"
  by (auto simp: moves_def tx_refl)

lemma moves_fail [intro!]: "moves R (fail e)"
  by (auto simp: moves_def)

lemma moves_query [intro!]: "(\<And>x. moves R (k x)) \<Longrightarrow> moves R (query f k)"
  by (auto simp: moves_def)

lemma moves_query_row [intro!]: "(\<And>x. moves R (k x)) \<Longrightarrow> moves R (query_row f e k)"
  by (auto simp: moves_def)

lemma moves_exec: "(\<And>db. R db (f db)) \<Longrightarrow> moves R k \<Longrightarrow> moves R (exec f k)"
  unfolding moves_def exec_ok by (blast intro: tx_trans)

lemma moves_guard [intro!]: "(b \<Longrightarrow> moves R k) \<Longrightarrow> moves R (guard b e k)"
  by (auto simp: moves_def)

lemma moves_call [intro!]: "moves R m \<Longrightarrow> (\<And>x. moves R (k x)) \<Longrightarrow> moves R (call m k)"
  unfolding moves_def call_ok by (blast intro: tx_trans)

lemma moves_for_each [intro!]: "(\<And>x. x \<in> set xs \<Longrightarrow> moves R (f x)) \<Longrightarrow> moves R (for_each xs f)"
  by (induction xs) auto

lemma moves_begin_func: "moves R m \<Longrightarrow> R db (snd (begin_func m db))"
  by (cases m db rule: begin_func_cases) (auto simp: tx_refl dest: movesD)

text \<open>The statements that change nothing.\<close>

lemma moves_lockConversation [intro!]: "moves R (lockConversation t who)"
  unfolding lockConversation_def by blast

lemma moves_lockOwner [intro!]: "moves R (lockOwner ow now)"
  unfolding lockOwner_def Let_def by blast

lemma moves_with_error [intro!]: "moves R m \<Longrightarrow> moves R (with_error g m)"
  by (auto simp: moves_def with_error_def split: sum.splits)

lemma moves_owned: "moves R body \<Longrightarrow> R db (snd (owned ow now body db))"
  unfolding owned_def by (rule moves_begin_func) blast

end

section \<open>What the fence establishes\<close>

lemma find_conversation_ok:
  "find_conversation t db = Some v \<Longrightarrow> v \<in> set (conversations db) \<and> cv_id v = t"
  unfolding find_conversation_def by (auto simp: find_Some_iff)

lemma find_run_ok:
  "find_run t r db = Some x \<Longrightarrow> x \<in> set (runs db) \<and> rn_thread_id x = t \<and> rn_id x = r"
  unfolding find_run_def by (auto simp: find_Some_iff)

lemma find_SomeD: "find p xs = Some x \<Longrightarrow> x \<in> set xs \<and> p x"
  by (auto simp: find_Some_iff)

lemma find_None: "find p xs = None \<longleftrightarrow> (\<forall>x \<in> set xs. \<not> p x)"
  by (auto simp: find_None_iff)

lemma lockOwner_ok:
  "lockOwner ow now db = Inr (u, db') \<longleftrightarrow>
     db' = db \<and>
     (\<exists>v r. find_conversation (ow_thread ow) db = Some v \<and> cv_principal v = Principal (ow_Command ow) \<and>
        find_run (ow_thread ow) (ow_run ow) db = Some r \<and> owns ow now r)"
  by (auto simp: lockOwner_def lockConversation_def Let_def)

text \<open>The owner passes the fence.\<close>

definition fenced :: "Owner \<Rightarrow> int \<Rightarrow> db \<Rightarrow> bool" where
  "fenced ow now db =
     (\<exists>v r. find_conversation (ow_thread ow) db = Some v \<and> cv_principal v = Principal (ow_Command ow) \<and>
        find_run (ow_thread ow) (ow_run ow) db = Some r \<and> owns ow now r)"

lemma lockOwner_fenced: "lockOwner ow now db = Inr (u, db') \<longleftrightarrow> fenced ow now db \<and> db' = db"
  by (auto simp: lockOwner_ok fenced_def)

lemma owned_Inr:
  "owned ow now body db = (Inr x, db') \<longleftrightarrow> fenced ow now db \<and> body db = Inr (x, db')"
  by (auto simp: owned_def begin_func_Inr lockOwner_fenced)

lemma owned_stale: "\<not> fenced ow now db \<Longrightarrow> \<exists>e. owned ow now body db = (Inl e, db)"
proof -
  assume "\<not> fenced ow now db"
  then have "call (lockOwner ow now) (\<lambda>_. body) db \<noteq> Inr r" for r
    by (auto simp: lockOwner_fenced)
  then obtain e where "call (lockOwner ow now) (\<lambda>_. body) db = Inl e"
    by (cases "call (lockOwner ow now) (\<lambda>_. body) db") auto
  then show ?thesis by (simp add: owned_def begin_func_def)
qed

lemma owned_cases:
  obtains (failed) e where "owned ow now body db = (Inl e, db)"
    | (ok) x db' where "owned ow now body db = (Inr x, db')" "fenced ow now db" "body db = Inr (x, db')"
proof (cases "owned ow now body db")
  case (Pair r db')
  show ?thesis
  proof (cases r)
    case (Inl e)
    with Pair have "owned ow now body db = (Inl e, db)"
      by (auto simp: owned_def begin_func_Inl)
    then show ?thesis by (rule failed)
  next
    case (Inr x)
    with Pair owned_Inr [of ow now body db x db'] show ?thesis by (intro ok) auto
  qed
qed

section \<open>Fenced operations\<close>

text \<open>An operation of the owner: with a stale owner it fails and writes nothing.\<close>

locale fenced_operation =
  fixes perform :: "Owner \<Rightarrow> int \<Rightarrow> db \<Rightarrow> (journal_error + 'a) \<times> db"
  assumes stale: "\<not> fenced ow now db \<Longrightarrow> \<exists>e. perform ow now db = (Inl e, db)"
begin

lemma effect_needs_owner:
  assumes "perform ow now db = (r, db')" "(\<exists>x. r = Inr x) \<or> db' \<noteq> db"
  shows "fenced ow now db"
  using stale [of ow now db] assms by (cases "fenced ow now db") auto

end

interpretation Check: fenced_operation Check
proof
  fix ow now db
  assume "\<not> fenced ow now db"
  then show "\<exists>e. Check ow now db = (Inl e, db)"
    using owned_stale [of ow now db "return ()"]
    by (cases "lockOwner ow now db") (auto simp: Check_def begin_func_def lockOwner_fenced)
qed

interpretation Renew: fenced_operation "\<lambda>ow. Renew ow d" for d
  by unfold_locales (auto simp: Renew_def owned_def [symmetric] intro: owned_stale)

interpretation Pending: fenced_operation "Pending lib" for lib
  by unfold_locales (auto simp: Pending_def owned_def [symmetric] intro: owned_stale)

interpretation Included: fenced_operation "\<lambda>ow. Included ow inputs" for inputs
  by unfold_locales (auto simp: Included_def owned_def [symmetric] intro: owned_stale)

interpretation Start: fenced_operation "\<lambda>ow. Start ow journey digest" for journey digest
  by unfold_locales (auto simp: Start_def intro: owned_stale)

interpretation finish: fenced_operation "\<lambda>ow. finish ow state h answer callID tool terminal"
  for state h answer callID tool terminal
  by unfold_locales (auto simp: finish_def intro: owned_stale)

interpretation Finish: fenced_operation "\<lambda>ow. Finish ow state h answer callID tool" for state h answer callID tool
  by unfold_locales (auto simp: Finish_def intro: finish.stale)

interpretation FinishFailed: fenced_operation "\<lambda>ow. FinishFailed ow h reason" for h reason
  by unfold_locales (auto simp: FinishFailed_def intro: finish.stale)

interpretation FinishLimitExceeded: fenced_operation "\<lambda>ow. FinishLimitExceeded ow h kind retry" for h kind retry
  by unfold_locales (auto simp: FinishLimitExceeded_def intro: finish.stale)

interpretation RecordRunScope: fenced_operation "\<lambda>ow. RecordRunScope ow scope" for scope
  by unfold_locales (auto simp: RecordRunScope_def intro: owned_stale)

interpretation RecordServerInfo: fenced_operation "\<lambda>ow. RecordServerInfo ow info" for info
  by unfold_locales (auto simp: RecordServerInfo_def intro: owned_stale)

interpretation ActiveJourneys: fenced_operation ActiveJourneys
  by unfold_locales (auto simp: ActiveJourneys_def intro: owned_stale)

interpretation SetActiveJourneys: fenced_operation "\<lambda>ow. SetActiveJourneys ow active" for active
  by unfold_locales (auto simp: SetActiveJourneys_def intro: owned_stale)

interpretation HistoryTruncated: fenced_operation "\<lambda>ow. HistoryTruncated ow t" for t
  by unfold_locales (auto simp: HistoryTruncated_def intro: owned_stale)

interpretation RecordUsage: fenced_operation "\<lambda>ow. RecordUsage ow u" for u
  by unfold_locales (auto simp: RecordUsage_def intro: owned_stale)

interpretation Wait: fenced_operation "\<lambda>ow. Wait lib ow i cp h" for lib i cp h
  by unfold_locales (auto simp: Wait_def intro: owned_stale split: sum.splits option.splits)

interpretation Supersede: fenced_operation "\<lambda>ow. Supersede ow iid" for iid
  by unfold_locales (auto simp: Supersede_def intro: owned_stale)

interpretation BeginAttempt: fenced_operation "\<lambda>ow. BeginAttempt lib ow x n approval" for lib x n approval
proof
  fix ow now db
  assume "\<not> fenced ow now db"
  from owned_stale [OF this, of "begin_body lib ow x n approval now"]
  show "\<exists>e. BeginAttempt lib ow x n approval now db = (Inl e, db)"
    by (auto simp: BeginAttempt_def)
qed

interpretation EndAttempt: fenced_operation "\<lambda>ow. EndAttempt ow x n outcome" for x n outcome
  by unfold_locales (auto simp: EndAttempt_def intro: owned_stale)

interpretation ResolveDefinition: fenced_operation "\<lambda>ow. ResolveDefinition ow served" for served
  by unfold_locales (auto simp: ResolveDefinition_def intro: owned_stale split: option.splits)

interpretation CommitSnapshot: fenced_operation "\<lambda>ow. CommitSnapshot lib ow snap" for lib snap
  by unfold_locales (auto simp: CommitSnapshot_def Let_def intro: owned_stale split: sum.splits)

interpretation RecordRunCatalog: fenced_operation "\<lambda>ow. RecordRunCatalog ow digest" for digest
  by unfold_locales (auto simp: RecordRunCatalog_def intro: owned_stale)

interpretation ConversationPin: fenced_operation ConversationPin
  by unfold_locales (auto simp: ConversationPin_def intro: owned_stale)

end
