(* ===== verification/Journal_Moves.thy ===== *)
theory Journal_Moves
  imports Journal_Logic
begin

text \<open>
  The journal as a state machine. A \<open>move\<close> is one change of the database as the journal's
  contract allows it: a conversation gains an event, a run advances in its life cycle, an
  approval is decided, a call is dispatched. The operations are refinements: every operation, on
  every branch, is a sequence of moves. Properties of all reachable databases are then
  checked against the moves alone.
\<close>

section \<open>Life cycles\<close>

text \<open>A run is pending, then running, then possibly waits for input, then ends.\<close>

fun rank :: "RunState \<Rightarrow> nat" where
  "rank RunPending = 0"
| "rank RunRunning = 1"
| "rank RunAwaitingInput = 2"
| "rank _ = 3"

definition advances :: "RunState \<Rightarrow> RunState \<Rightarrow> bool" where
  "advances s s' = (s' = s \<or> rank s < rank s' \<and> s' \<noteq> RunRunning)"

text \<open>A run row keeps its identity and epoch, and its scope once it is recorded.\<close>

definition run_step :: "run_row \<Rightarrow> run_row \<Rightarrow> bool" where
  "run_step x y =
     (rn_id y = rn_id x \<and> rn_thread_id y = rn_thread_id x \<and> rn_owner_epoch y = rn_owner_epoch x \<and>
      advances (rn_state x) (rn_state y) \<and>
      (rn_product_version x \<noteq> None \<longrightarrow> rn_product_version y = rn_product_version x \<and>
         rn_endpoint_id y = rn_endpoint_id x \<and> rn_settings y = rn_settings x))"

definition open_command :: "command_row \<Rightarrow> bool" where
  "open_command k = (\<not> cm_included k \<and> cm_terminal_reason k = [])"

definition interaction_core :: "interaction_row \<Rightarrow> interaction_row" where
  "interaction_core i = i\<lparr>ia_state := IPending, ia_continuation_run_id := None, ia_reply := None, ia_marker := None\<rparr>"

definition approved :: "interaction_row \<Rightarrow> bool" where
  "approved i = (case Option.bind (ia_reply i) reply_of_json of None \<Rightarrow> False | Some r \<Rightarrow> r_Decision r = ''approve'')"

definition interaction_step :: "interaction_row \<Rightarrow> interaction_row \<Rightarrow> bool" where
  "interaction_step i j =
     (interaction_core j = interaction_core i \<and>
      (ia_state i = IPending \<and> ia_state j = IExpired \<and>
         ia_marker j = (if ia_kind i = ''approval'' then Some Denied else None)
       \<or> ia_state i = IPending \<and> ia_state j = IConsumed \<and> ia_continuation_run_id j \<noteq> None \<and>
         ia_marker j = (if ia_kind i = ''approval'' then Some (if approved j then Decided else Denied) else None)
       \<or> ia_marker i = Some Decided \<and> j = i\<lparr>ia_marker := Some Superseded\<rparr>))"

section \<open>What a binding covers\<close>

definition row_binding :: "interaction_row \<Rightarrow> string \<Rightarrow> CallBinding" where
  "row_binding i who =
     \<lparr>cb_JourneyID = or_empty (ia_journey_id i), cb_OperationKey = ia_operation_key i,
      cb_NameDigest = ia_name_digest i, cb_SchemaDigest = ia_schema_digest i,
      cb_Arguments = pc_Arguments (i_Call (ia_artifact i)), cb_ProductVersion = or_empty (ia_product_version i),
      cb_Principal = who, cb_Conversation = ia_thread_id i, cb_DefinitionSet = ia_definition_digest i\<rparr>"

definition new_interaction_ok :: "libs \<Rightarrow> db \<Rightarrow> interaction_row \<Rightarrow> bool" where
  "new_interaction_ok lib db i =
     (ia_state i = IPending \<and> ia_continuation_run_id i = None \<and> ia_reply i = None \<and>
      ia_kind i = i_Kind (ia_artifact i) \<and>
      ia_marker i = (if ia_kind i = ''approval'' then Some Requested else None) \<and>
      (ia_kind i = ''approval'' \<longrightarrow>
         (\<exists>v. find_conversation (ia_thread_id i) db = Some v \<and>
            BindCall lib (row_binding i (cv_principal v)) = Inr (pc_Binding (i_Call (ia_artifact i))))))"

definition new_operation_ok :: "libs \<Rightarrow> db \<Rightarrow> operation_row \<Rightarrow> bool" where
  "new_operation_ok lib db x =
     (op_outcome x = ''dispatching'' \<and> validPolicy (op_policy x) \<and>
      (op_policy x \<noteq> ''read_only'' \<longrightarrow> op_requires_approval x) \<and>
      (\<exists>v b. find_conversation (op_thread_id x) db = Some v \<and> BindCall lib b = Inr (op_binding x) \<and>
         cb_OperationKey b = op_operation_key x \<and> cb_Arguments b = op_arguments x \<and>
         cb_Conversation b = op_thread_id x \<and> cb_Principal b = cv_principal v \<and>
         (op_requires_approval x \<longrightarrow> cb_JourneyID b = [] \<or> op_journey_id x = Some (cb_JourneyID b))))"

text \<open>No other call of the conversation is unresolved.\<close>

definition no_other_call :: "db \<Rightarrow> operation_row \<Rightarrow> bool" where
  "no_other_call db x =
     (\<forall>y \<in> set (operations db). unresolved (op_thread_id x) y \<longrightarrow> op_call_id y = op_call_id x)"

text \<open>The approval that allows a call.\<close>

definition approves_call :: "interaction_row \<Rightarrow> operation_row \<Rightarrow> bool" where
  "approves_call i x =
     (ia_kind i = ''approval'' \<and> ia_state i = IConsumed \<and> approved i \<and>
      ia_thread_id i = op_thread_id x \<and> ia_continuation_run_id i = Some (op_run_id x) \<and>
      pc_CallID (i_Call (ia_artifact i)) = op_call_id x \<and> pc_Name (i_Call (ia_artifact i)) = op_alias x \<and>
      pc_Binding (i_Call (ia_artifact i)) = op_binding x)"

definition add_event :: "string \<Rightarrow> int \<Rightarrow> Event \<Rightarrow> db \<Rightarrow> db" where
  "add_event t n e db =
     (update_conversation t (\<lambda>c. c\<lparr>cv_sequence := cv_sequence c + 1\<rparr>) db)
       \<lparr>events := events db @ [\<lparr>ev_thread_id = t, ev_sequence = n, ev_event = e\<rparr>]\<rparr>"

definition first_attempt_row :: "string \<Rightarrow> int \<Rightarrow> attempt_row" where
  "first_attempt_row cid n = \<lparr>at_call_id = cid, at_attempt = n, at_outcome = ''dispatching''\<rparr>"

section \<open>Moves\<close>

inductive move :: "libs \<Rightarrow> db \<Rightarrow> db \<Rightarrow> bool" for lib where
  new_conversation: "find_conversation t db = None \<Longrightarrow>
    move lib db (db\<lparr>conversations := conversations db @ [new_conversation t who]\<rparr>)"
| event: "find_conversation t db = Some v \<Longrightarrow> move lib db (add_event t (cv_sequence v + 1) e db)"
| conversation: "(\<And>c. cv_id (f c) = cv_id c \<and> cv_principal (f c) = cv_principal c \<and>
      cv_sequence (f c) = cv_sequence c \<and> cv_owner_epoch (f c) = cv_owner_epoch c) \<Longrightarrow>
    move lib db (update_conversation t f db)"
| claim: "find_conversation t db = Some v \<Longrightarrow> find_run t r db = Some x \<Longrightarrow> rn_state x = RunPending \<Longrightarrow>
    move lib db
      (update_run t r (\<lambda>x. x\<lparr>rn_state := RunRunning, rn_owner_id := oid, rn_owner_epoch := cv_owner_epoch v + 1,
                             rn_lease_until := l\<rparr>)
        (update_conversation t (\<lambda>v. v\<lparr>cv_owner_epoch := cv_owner_epoch v + 1\<rparr>) db))"
| new_command: "\<forall>k \<in> set (commands db).
      \<not> (cm_thread_id k = cm_thread_id row \<and> cm_communication_id k = cm_communication_id row) \<and>
      cm_run_id k \<noteq> cm_run_id row \<Longrightarrow> open_command row \<Longrightarrow>
    move lib db (db\<lparr>commands := commands db @ [row]\<rparr>)"
| dispose: "\<forall>k \<in> set (commands db). p k \<longrightarrow> open_command k \<Longrightarrow>
    move lib db (update_commands p (\<lambda>k. k\<lparr>cm_terminal_reason := s\<rparr>) db)"
| incl: "\<forall>k \<in> set (commands db). p k \<longrightarrow> open_command k \<Longrightarrow>
    move lib db (update_commands p (\<lambda>k. k\<lparr>cm_included := True\<rparr>) db)"
| new_run: "\<forall>x \<in> set (runs db). rn_id x \<noteq> rn_id row \<and>
      \<not> (live (rn_state x) \<and> rn_thread_id x = rn_thread_id row) \<Longrightarrow>
    rn_state row = RunPending \<Longrightarrow> rn_owner_epoch row = 0 \<Longrightarrow>
    move lib db (db\<lparr>runs := runs db @ [row]\<rparr>)"
| run: "\<forall>x \<in> set (runs db). rn_thread_id x = t \<and> rn_id x = r \<longrightarrow> run_step x (f x) \<Longrightarrow>
    move lib db (update_run t r f db)"
| new_interaction: "\<forall>i \<in> set (interactions db). ia_id i \<noteq> ia_id row \<and>
      \<not> (ia_state i = IPending \<and> ia_thread_id i = ia_thread_id row) \<Longrightarrow> new_interaction_ok lib db row \<Longrightarrow>
    move lib db (db\<lparr>interactions := interactions db @ [row]\<rparr>)"
| interaction: "\<forall>i \<in> set (interactions db). p i \<longrightarrow> interaction_step i (f i) \<Longrightarrow>
    move lib db (update_interactions p f db)"
| dispatch: "\<forall>y \<in> set (operations db). op_call_id y \<noteq> op_call_id x \<Longrightarrow>
    \<forall>a \<in> set (attempts db). \<not> (at_call_id a = op_call_id x \<and> at_attempt a = 1) \<Longrightarrow>
    new_operation_ok lib db x \<Longrightarrow> \<not> op_requires_approval x \<Longrightarrow> no_other_call db x \<Longrightarrow>
    move lib db (db\<lparr>operations := operations db @ [x], attempts := attempts db @ [first_attempt_row (op_call_id x) 1]\<rparr>)"
| dispatch_approved: "\<forall>y \<in> set (operations db). op_call_id y \<noteq> op_call_id x \<Longrightarrow>
    \<forall>a \<in> set (attempts db). \<not> (at_call_id a = op_call_id x \<and> at_attempt a = 1) \<Longrightarrow>
    new_operation_ok lib db x \<Longrightarrow> op_requires_approval x \<Longrightarrow>
    i \<in> set (interactions db) \<Longrightarrow> approves_call i x \<Longrightarrow> ia_marker i = Some Decided \<Longrightarrow> no_other_call db x \<Longrightarrow>
    move lib db ((set_marker (ia_thread_id i) (ia_id i) Dispatched db)
      \<lparr>operations := operations db @ [x], attempts := attempts db @ [first_attempt_row (op_call_id x) 1]\<rparr>)"
| retry: "x \<in> set (operations db) \<Longrightarrow> op_policy x \<noteq> ''effectful'' \<Longrightarrow>
    op_outcome x = ''rejected'' \<or> op_outcome x = ''outcome_unknown'' \<Longrightarrow>
    \<forall>a \<in> set (attempts db). \<not> (at_call_id a = op_call_id x \<and> at_attempt a = 2) \<Longrightarrow> no_other_call db x \<Longrightarrow>
    move lib db ((update_operations (\<lambda>y. op_call_id y = op_call_id x) (\<lambda>y. y\<lparr>op_outcome := ''dispatching''\<rparr>) db)
      \<lparr>attempts := attempts db @ [first_attempt_row (op_call_id x) 2]\<rparr>)"
| outcome: "\<forall>y \<in> set (operations db). p y \<longrightarrow> op_outcome y = ''dispatching'' \<Longrightarrow>
    s \<in> {''completed'', ''rejected'', ''auth_required'', ''outcome_unknown''} \<Longrightarrow>
    move lib db (update_operations p (\<lambda>y. y\<lparr>op_outcome := s\<rparr>) db)"
| attempt: "move lib db (update_attempts p (\<lambda>a. a\<lparr>at_outcome := s\<rparr>) db)"
| usage: "move lib db (db\<lparr>usage := usage db @ [u]\<rparr>)"
| current: "move lib db (db\<lparr>definition_current := d\<rparr>)"
| activated: "move lib db (markActivated d now db)"
| new_set: "\<forall>s \<in> set (definition_sets db). dset_digest s \<noteq> dset_digest row \<Longrightarrow>
    move lib db (db\<lparr>definition_sets := definition_sets db @ [row]\<rparr>)"
| snapshot: "move lib db (insert_snapshot s db)"

inductive_cases moveE: "move lib db db'"

section \<open>Keys\<close>

definition keys_ok :: "db \<Rightarrow> bool" where
  "keys_ok db =
     (distinct (map cv_id (conversations db)) \<and> distinct (map rn_id (runs db)) \<and>
      distinct (map (\<lambda>k. (cm_thread_id k, cm_communication_id k)) (commands db)) \<and>
      distinct (map cm_run_id (commands db)) \<and> distinct (map ia_id (interactions db)) \<and>
      distinct (map op_call_id (operations db)) \<and>
      distinct (map (\<lambda>a. (at_call_id a, at_attempt a)) (attempts db)) \<and>
      (\<forall>i \<in> set (interactions db). ia_kind i = i_Kind (ia_artifact i)))"

lemma update_where_map:
  "(\<And>x. x \<in> set xs \<Longrightarrow> p x \<Longrightarrow> g (f x) = g x) \<Longrightarrow> map g (update_where p f xs) = map g xs"
  by (induction xs) auto

lemma interaction_core_same:
  "interaction_core j = interaction_core i \<Longrightarrow> ia_id j = ia_id i \<and> ia_thread_id j = ia_thread_id i \<and>
     ia_run_id j = ia_run_id i \<and> ia_kind j = ia_kind i \<and> ia_artifact j = ia_artifact i \<and>
     ia_journey_id j = ia_journey_id i \<and> ia_definition_digest j = ia_definition_digest i \<and>
     ia_operation_key j = ia_operation_key i \<and> ia_name_digest j = ia_name_digest i \<and>
     ia_schema_digest j = ia_schema_digest i \<and> ia_product_version j = ia_product_version i"
  by (cases i; cases j) (simp add: interaction_core_def)

lemma interaction_step_core: "interaction_step i j \<Longrightarrow> interaction_core j = interaction_core i"
  by (auto simp: interaction_step_def)

lemma keys_ok_move:
  assumes "move lib db db'" "keys_ok db"
  shows "keys_ok db'"
  using assms
proof (cases rule: move.cases)
  case (new_conversation t who)
  with assms(2) show ?thesis
    by (auto simp: keys_ok_def find_conversation_def find_None new_conversation_def)
next
  case (event t v e)
  with assms(2) show ?thesis
    by (simp add: keys_ok_def add_event_def update_conversation_def update_where_map)
next
  case (conversation f t)
  with assms(2) show ?thesis by (simp add: keys_ok_def update_conversation_def update_where_map)
next
  case (claim t v r x oid l)
  with assms(2) show ?thesis
    by (simp add: keys_ok_def update_conversation_def update_run_def update_where_map)
next
  case (run t r f)
  have "map rn_id (update_where (\<lambda>x. rn_thread_id x = t \<and> rn_id x = r) f (runs db)) = map rn_id (runs db)"
    using run(2) by (intro update_where_map) (auto simp: run_step_def)
  with run(1) assms(2) show ?thesis by (simp add: keys_ok_def update_run_def)
next
  case (interaction p f)
  let ?is = "update_where p f (interactions db)"
  have core: "ia_id (f i) = ia_id i \<and> ia_kind (f i) = ia_kind i \<and> ia_artifact (f i) = ia_artifact i"
    if "i \<in> set (interactions db)" "p i" for i
    using interaction(2) that interaction_core_same [OF interaction_step_core] by blast
  have "map ia_id ?is = map ia_id (interactions db)"
    by (rule update_where_map) (use core in blast)
  moreover have "\<forall>i \<in> set ?is. ia_kind i = i_Kind (ia_artifact i)"
    using assms(2) core by (auto simp: set_update_where keys_ok_def)
  ultimately show ?thesis using interaction(1) assms(2) by (simp add: keys_ok_def update_interactions_def)
next
  case (dispatch_approved x i)
  then show ?thesis using assms(2)
    by (auto simp: keys_ok_def set_marker_def update_interactions_def update_where_map set_update_where
        first_attempt_row_def)
next
  case (retry x)
  then show ?thesis using assms(2)
    by (auto simp: keys_ok_def update_operations_def update_where_map first_attempt_row_def)
qed (auto simp: keys_ok_def table_updates update_where_map new_interaction_ok_def first_attempt_row_def
    markActivated_def insert_snapshot_def)

lemma keys_ok_moves: "(move lib)\<^sup>*\<^sup>* db db' \<Longrightarrow> keys_ok db \<Longrightarrow> keys_ok db'"
  by (induction rule: rtranclp_induct) (auto intro: keys_ok_move)

end
