(* ===== verification/Journal_Refine.thy ===== *)
theory Journal_Refine
  imports Journal_Moves
begin

text \<open>
  Every operation of the journal is a sequence of moves. The helpers are checked statement by
  statement; an update whose justification lies in an earlier read is related to it through the
  statements in between, which leave the row unchanged.
\<close>

definition refines :: "libs \<Rightarrow> db \<Rightarrow> db \<Rightarrow> bool" where
  "refines lib db db' = (keys_ok db \<longrightarrow> (move lib)\<^sup>*\<^sup>* db db')"

lemma refines_trans: "refines lib db db1 \<Longrightarrow> refines lib db1 db2 \<Longrightarrow> refines lib db db2"
  unfolding refines_def using keys_ok_moves by (metis rtranclp_trans)

interpretation mv: tx_relation "refines lib" for lib
proof
  show "refines lib db db" for db by (simp add: refines_def)
qed (rule refines_trans)

lemma refines_move: "(keys_ok db \<Longrightarrow> move lib db db') \<Longrightarrow> refines lib db db'"
  by (auto simp: refines_def)

text \<open>What a statement leaves alone.\<close>

interpretation keep: tx_relation "\<lambda>db db'. f db' = f db" for f
  by unfold_locales auto

lemma keep_exec: "(\<And>db. f (g db) = f db) \<Longrightarrow> moves (\<lambda>db db'. f db' = f db) k \<Longrightarrow> moves (\<lambda>db db'. f db' = f db) (exec g k)"
  by (rule keep.moves_exec)

section \<open>Events\<close>

lemma find_update_conversation:
  assumes "\<And>c. cv_id (f c) = cv_id c"
  shows "find_conversation t (update_conversation t f db) = map_option f (find_conversation t db)"
proof -
  have "find (\<lambda>c. cv_id c = t) (update_where (\<lambda>c. cv_id c = t) f xs) = map_option f (find (\<lambda>c. cv_id c = t) xs)" for xs
    by (induction xs) (auto simp: assms)
  then show ?thesis by (simp add: find_conversation_def update_conversation_def)
qed

lemma appendEvent_ok:
  "appendEvent t e db = Inr (u, db') \<longleftrightarrow>
     (\<exists>v. find_conversation t db = Some v \<and> db' = add_event t (cv_sequence v + 1) e db)"
proof -
  have "events (update_conversation t f db) = events db" for f by (simp add: update_conversation_def)
  then show ?thesis
    by (auto simp: appendEvent_def find_update_conversation add_event_def)
qed

lemma moves_appendEvent [intro!]: "moves (refines lib) (appendEvent t e)"
  by (rule movesI, rule refines_move) (auto simp: appendEvent_ok intro: move.event)

lemma add_event_keeps [simp]:
  "commands (add_event t n e db) = commands db" "runs (add_event t n e db) = runs db"
  "interactions (add_event t n e db) = interactions db" "operations (add_event t n e db) = operations db"
  "attempts (add_event t n e db) = attempts db"
  by (simp_all add: add_event_def update_conversation_def)

lemma update_keeps [simp]:
  "runs (update_conversation t f db) = runs db" "commands (update_conversation t f db) = commands db"
  "interactions (update_conversation t f db) = interactions db" "operations (update_conversation t f db) = operations db"
  "attempts (update_conversation t f db) = attempts db" "events (update_conversation t f db) = events db"
  "conversations (update_run t r g db) = conversations db" "commands (update_run t r g db) = commands db"
  "interactions (update_run t r g db) = interactions db" "operations (update_run t r g db) = operations db"
  "attempts (update_run t r g db) = attempts db" "events (update_run t r g db) = events db"
  "conversations (update_commands pc fc db) = conversations db" "runs (update_commands pc fc db) = runs db"
  "interactions (update_commands pc fc db) = interactions db" "operations (update_commands pc fc db) = operations db"
  "attempts (update_commands pc fc db) = attempts db"
  "conversations (update_interactions pi fi db) = conversations db" "runs (update_interactions pi fi db) = runs db"
  "commands (update_interactions pi fi db) = commands db" "operations (update_interactions pi fi db) = operations db"
  "attempts (update_interactions pi fi db) = attempts db"
  "conversations (update_operations po fo db) = conversations db" "runs (update_operations po fo db) = runs db"
  "commands (update_operations po fo db) = commands db" "interactions (update_operations po fo db) = interactions db"
  "attempts (update_operations po fo db) = attempts db"
  "conversations (update_attempts pa fa db) = conversations db" "runs (update_attempts pa fa db) = runs db"
  "commands (update_attempts pa fa db) = commands db" "interactions (update_attempts pa fa db) = interactions db"
  "operations (update_attempts pa fa db) = operations db"
  by (simp_all add: table_updates)

lemma keep_appendEvent:
  "moves (\<lambda>db db'. runs db' = runs db) (appendEvent t e)"
  "moves (\<lambda>db db'. commands db' = commands db) (appendEvent t e)"
  "moves (\<lambda>db db'. interactions db' = interactions db) (appendEvent t e)"
  by (auto intro!: movesI simp: appendEvent_ok)

section \<open>Helpers\<close>

lemma moves_disposePending [intro!]: "moves (refines lib) (disposePending t r s)"
  unfolding disposePending_def
  by (intro mv.moves_query mv.moves_exec refines_move move.dispose mv.moves_for_each moves_appendEvent)
     (auto simp: pending_command_def open_command_def)

lemma keep_disposePending: "moves (\<lambda>db db'. runs db' = runs db) (disposePending t r s)"
  unfolding disposePending_def
  by (intro keep.moves_query keep_exec keep.moves_for_each keep_appendEvent) simp

lemma moves_markOperationsUnknown [intro!]: "moves (refines lib) (markOperationsUnknown t r)"
  unfolding markOperationsUnknown_def
  by (intro mv.moves_query mv.moves_exec mv.moves_for_each moves_appendEvent)
     (auto intro!: refines_move move.attempt move.outcome simp: dispatching_of_def)

lemma keep_markOperationsUnknown: "moves (\<lambda>db db'. runs db' = runs db) (markOperationsUnknown t r)"
  unfolding markOperationsUnknown_def
  by (intro keep.moves_query keep_exec keep.moves_for_each keep_appendEvent) simp_all

lemma live_advances: "live s \<Longrightarrow> rank s' = 3 \<Longrightarrow> advances s s'"
  by (auto simp: live_def advances_def)

lemma run_step_state: "advances (rn_state x) s \<Longrightarrow> run_step x (x\<lparr>rn_state := s\<rparr>)"
  by (simp add: run_step_def)

lemma run_step_refl [simp]: "run_step x x"
  by (simp add: run_step_def advances_def)

lemma moves_interruptExpired [intro!]: "moves (refines lib) (interruptExpired t c now)"
proof -
  have step: "refines lib db (update_run t r
      (\<lambda>x. if live (rn_state x) then x\<lparr>rn_state := RunInterrupted\<rparr> else x) db)" for r db
    by (intro refines_move move.run) (auto intro!: run_step_state live_advances)
  show ?thesis
    unfolding interruptExpired_def
    by (intro mv.moves_query, simp split: option.split, intro conjI impI allI mv.moves_query)
       (auto intro!: mv.moves_exec step)
qed

lemma moves_set_history [intro!]: "moves (refines lib) k \<Longrightarrow> moves (refines lib) (set_history t h k)"
  unfolding set_history_def by (intro mv.moves_guard mv.moves_exec refines_move move.conversation) auto

lemma moves_close_expired [intro!]: "moves (refines lib) (close_expired l t r)"
proof -
  have step: "refines lib db (update_run t r
      (\<lambda>x. if rn_state x = RunAwaitingInput then x\<lparr>rn_state := RunFailed\<rparr> else x) db)" for db
    by (intro refines_move move.run) (auto simp: advances_def intro: run_step_state)
  show ?thesis
    unfolding close_expired_def
    by (intro mv.moves_query_row, simp split: option.split, intro conjI impI allI)
       (auto intro!: mv.moves_exec step)
qed

lemma expire_row_step: "ia_state i = IPending \<Longrightarrow> interaction_step i (expire_row i)"
  by (simp add: interaction_step_def interaction_core_def expire_row_def)

lemma moves_expireInteractions [intro!]: "moves (refines lib) (expireInteractions l t now)"
  unfolding expireInteractions_def
  by (intro mv.moves_query mv.moves_exec refines_move move.interaction mv.moves_for_each moves_close_expired)
     (auto simp: expiring_def intro: expire_row_step)

section \<open>Ownership\<close>

lemma keys_run_unique:
  "keys_ok db \<Longrightarrow> x \<in> set (runs db) \<Longrightarrow> y \<in> set (runs db) \<Longrightarrow> rn_id x = rn_id y \<Longrightarrow> x = y"
  unfolding keys_ok_def by (meson distinct_map inj_onD)

lemma keys_find_run:
  "keys_ok db \<Longrightarrow> find_run t r db = Some x \<Longrightarrow> y \<in> set (runs db) \<Longrightarrow> rn_id y = r \<Longrightarrow> y = x"
  using find_run_ok [of t r db x] keys_run_unique [of db y x] by simp

lemma find_run_update_conversation [simp]:
  "find_run t r (update_conversation t' f db) = find_run t r db"
  by (simp add: find_run_def)

lemma moves_claim_tx: "moves (refines lib) (claim_tx c oid d now)"
proof (rule movesI)
  fix db ow db'
  assume "claim_tx c oid d now db = Inr (ow, db')"
  then obtain v x w where
    v: "find_conversation (ThreadID c) db = Some v" and
    x: "find_run (ThreadID c) (RunID c) db = Some x" "rn_state x = RunPending" and
    w: "find_conversation (ThreadID c)
      (update_conversation (ThreadID c) (\<lambda>v. v\<lparr>cv_owner_epoch := cv_owner_epoch v + 1\<rparr>) db) = Some w" and
    e: "appendEvent (ThreadID c) (event (RunID c) ''run.started'')
      (update_run (ThreadID c) (RunID c)
        (\<lambda>r. r\<lparr>rn_state := RunRunning, rn_owner_id := oid, rn_owner_epoch := cv_owner_epoch w,
               rn_lease_until := now + interval d\<rparr>)
        (update_conversation (ThreadID c) (\<lambda>v. v\<lparr>cv_owner_epoch := cv_owner_epoch v + 1\<rparr>) db)) = Inr ((), db')"
    by (auto simp: claim_tx_def with_error_def lockConversation_def split: sum.splits)
  from v w have "cv_owner_epoch w = cv_owner_epoch v + 1" by (auto simp: find_update_conversation)
  then have "refines lib db (update_run (ThreadID c) (RunID c)
        (\<lambda>r. r\<lparr>rn_state := RunRunning, rn_owner_id := oid, rn_owner_epoch := cv_owner_epoch w,
               rn_lease_until := now + interval d\<rparr>)
        (update_conversation (ThreadID c) (\<lambda>v. v\<lparr>cv_owner_epoch := cv_owner_epoch v + 1\<rparr>) db))"
    using move.claim [OF v x] by (auto intro: refines_move)
  moreover from e have "refines lib (update_run (ThreadID c) (RunID c)
        (\<lambda>r. r\<lparr>rn_state := RunRunning, rn_owner_id := oid, rn_owner_epoch := cv_owner_epoch w,
               rn_lease_until := now + interval d\<rparr>)
        (update_conversation (ThreadID c) (\<lambda>v. v\<lparr>cv_owner_epoch := cv_owner_epoch v + 1\<rparr>) db)) db'"
    by (rule movesD [OF moves_appendEvent])
  ultimately show "refines lib db db'" by (rule refines_trans)
qed

lemma refines_Claim: "refines lib db (snd (Claim c oid d now db))"
  using mv.moves_begin_func [OF moves_claim_tx] by (simp add: Claim_def mv.tx_refl)

lemma refines_update_run:
  assumes "\<And>x. x \<in> set (runs db) \<Longrightarrow> rn_id x = r \<Longrightarrow> run_step x (f x)"
  shows "refines lib db (update_run t r f db)"
  using assms by (intro refines_move move.run) auto

lemma moves_update_run:
  "(\<And>x. run_step x (f x)) \<Longrightarrow> moves (refines lib) k \<Longrightarrow> moves (refines lib) (exec (update_run t r f) k)"
  by (intro mv.moves_exec refines_update_run)

lemma moves_update_conversation:
  "(\<And>c. cv_id (f c) = cv_id c \<and> cv_principal (f c) = cv_principal c \<and>
      cv_sequence (f c) = cv_sequence c \<and> cv_owner_epoch (f c) = cv_owner_epoch c) \<Longrightarrow>
   moves (refines lib) k \<Longrightarrow> moves (refines lib) (exec (update_conversation t f) k)"
  by (intro mv.moves_exec refines_move move.conversation)

lemma refines_Renew: "refines lib db (snd (Renew ow d now db))"
proof -
  have "moves (refines lib) (exec (update_run t r (\<lambda>x. x\<lparr>rn_lease_until := l\<rparr>)) (return ()))" for t r l
    by (rule moves_update_run) (auto simp: run_step_def advances_def)
  then show ?thesis
    by (auto simp: Renew_def mv.tx_refl intro!: mv.moves_begin_func)
qed

lemma refines_Reap: "refines lib db (snd (Reap l now db))"
proof -
  have tx: "moves (refines lib) (reap_tx l now tr)" for tr
    unfolding reap_tx_def by blast
  have "refines lib db (snd (reap_all l now trs db))" for trs
  proof (induction trs arbitrary: db)
    case (Cons tr trs)
    obtain r db1 where b: "begin_func (reap_tx l now tr) db = (r, db1)" by force
    with mv.moves_begin_func [OF tx [of tr], of db] have "refines lib db db1" by simp
    with Cons.IH [of db1] b show ?case by (cases r) (auto intro: refines_trans)
  qed (simp add: mv.tx_refl)
  then show ?thesis by (simp add: Reap_def)
qed

section \<open>Admission and the inbox\<close>

lemma moves_insert_command [intro!]:
  "open_command row \<Longrightarrow> moves (refines lib) k \<Longrightarrow> moves (refines lib) (insert_command row k)"
proof (rule movesI)
  fix db x db'
  assume "open_command row" "moves (refines lib) k" "insert_command row k db = Inr (x, db')"
  then have "refines lib db (db\<lparr>commands := commands db @ [row]\<rparr>)"
    and "refines lib (db\<lparr>commands := commands db @ [row]\<rparr>) db'"
    by (auto simp: insert_command_def list_ex_iff intro: refines_move move.new_command movesD)
  then show "refines lib db db'" by (rule refines_trans)
qed

lemma moves_insert_run [intro!]:
  assumes "rn_state row = RunPending" "rn_owner_epoch row = 0" "moves (refines lib) k"
  shows "moves (refines lib) (insert_run row k)"
proof (rule movesI)
  fix db x db'
  assume "insert_run row k db = Inr (x, db')"
  then have fresh: "\<forall>x \<in> set (runs db). rn_id x \<noteq> rn_id row \<and> \<not> (live (rn_state x) \<and> rn_thread_id x = rn_thread_id row)"
    and k: "k (db\<lparr>runs := runs db @ [row]\<rparr>) = Inr (x, db')"
    using assms(1) by (auto simp: insert_run_def list_ex_iff live_def)
  have "refines lib db (db\<lparr>runs := runs db @ [row]\<rparr>)"
    using fresh assms(1,2) by (intro refines_move move.new_run)
  moreover have "refines lib (db\<lparr>runs := runs db @ [row]\<rparr>) db'" using assms(3) k by (rule movesD)
  ultimately have "refines lib db (db\<lparr>runs := runs db @ [row]\<rparr>)" and "refines lib (db\<lparr>runs := runs db @ [row]\<rparr>) db'" .
  then show "refines lib db db'" by (rule refines_trans)
qed

lemma refines_ensure_conversation: "refines lib db (ensure_conversation t who db)"
  by (auto simp: ensure_conversation_def mv.tx_refl intro: refines_move move.new_conversation split: option.split)

lemma new_command_open [simp]: "open_command (new_command c e)"
  by (simp add: open_command_def new_command_def)

lemma new_run_simps [simp]:
  "rn_state (new_run r t j d now) = RunPending" "rn_owner_epoch (new_run r t j d now) = 0"
  by (simp_all add: new_run_def)

lemma moves_accept_tx [intro!]: "moves (refines lib) (accept_tx c now)"
  unfolding accept_tx_def Let_def
  by (intro mv.moves_query mv.moves_guard moves_insert_command) auto

lemma moves_admit_tx: "moves (refines lib) (admit_tx l c now)"
  unfolding admit_tx_def
  by (intro mv.moves_exec refines_ensure_conversation mv.moves_call mv.moves_query
      mv.moves_lockConversation)
     (auto split: option.split)

lemma consume_row_step:
  assumes "ia_state i = IPending" "ia_kind i = i_Kind (ia_artifact i)" "reply_of_json doc = Some answer"
  shows "interaction_step i (consume_row c answer doc i)"
  using assms by (simp add: interaction_step_def interaction_core_def consume_row_def approved_def)

lemma keys_interaction_unique:
  "keys_ok db \<Longrightarrow> x \<in> set (interactions db) \<Longrightarrow> y \<in> set (interactions db) \<Longrightarrow> ia_id x = ia_id y \<Longrightarrow> x = y"
  unfolding keys_ok_def by (meson distinct_map inj_onD)

lemma keys_find_interaction:
  assumes "keys_ok db" "find_interaction t iid db = Some i" "j \<in> set (interactions db)" "ia_id j = iid"
  shows "j = i"
proof -
  from assms(2) have "i \<in> set (interactions db)" "ia_id i = iid"
    by (auto simp: find_interaction_def find_Some_iff)
  with keys_interaction_unique [OF assms(1,3)] assms(4) show ?thesis by simp
qed

text \<open>The row that was just inserted is the only one with its key.\<close>

lemma moves_consumed_command:
  assumes "keys_ok db" "\<forall>k \<in> set (commands db). cm_thread_id k = t \<and> cm_communication_id k = cid \<longrightarrow> open_command k"
    "exec (update_commands (\<lambda>k. cm_thread_id k = t \<and> cm_communication_id k = cid)
       (\<lambda>k. k\<lparr>cm_terminal_reason := ''consumed''\<rparr>)) (appendEvent t e) db = Inr (u, db')"
  shows "refines lib db db'"
proof -
  let ?db = "update_commands (\<lambda>k. cm_thread_id k = t \<and> cm_communication_id k = cid)
       (\<lambda>k. k\<lparr>cm_terminal_reason := ''consumed''\<rparr>) db"
  have "refines lib db ?db" using assms(2) by (intro refines_move move.dispose) auto
  moreover have "refines lib ?db db'" using assms(3) by (auto intro: movesD [OF moves_appendEvent])
  ultimately show ?thesis by (rule refines_trans)
qed

lemma refines_consume_tx:
  assumes ok: "keys_ok db" and i: "find_interaction (ThreadID c) (InteractionID c) db = Some i" "ia_state i = IPending"
    and doc: "reply_of_json doc = Some answer" and run: "consume_tx c answer doc i now db = Inr (x, db')"
  shows "refines lib db db'"
proof -
  define db1 where "db1 = db\<lparr>commands := commands db @ [new_command c (RunID c)]\<rparr>"
  define db2 where "db2 = db1\<lparr>runs := runs db1 @ [new_run (RunID c) (ThreadID c) (ia_journey_id i)
      (Some (ia_definition_digest i)) now]\<rparr>"
  define db3 where "db3 = update_interactions (\<lambda>r. ia_thread_id r = ThreadID c \<and> ia_id r = InteractionID c)
      (consume_row c answer doc) db2"
  define db4 where "db4 = update_run (ThreadID c) (ia_run_id i)
      (\<lambda>r. if rn_state r = RunAwaitingInput then r\<lparr>rn_state := RunCompleted\<rparr> else r) db3"
  from run obtain db5 db6 where
    new: "\<forall>k \<in> set (commands db). \<not> (cm_thread_id k = ThreadID c \<and> cm_communication_id k = CommunicationID c) \<and>
        cm_run_id k \<noteq> RunID c" and
    newrun: "\<forall>r \<in> set (runs db). rn_id r \<noteq> RunID c \<and> \<not> (live (rn_state r) \<and> rn_thread_id r = ThreadID c)" and
    e5: "appendEvent (ThreadID c) (event (ia_run_id i) ''interaction.consumed'') db4 = Inr ((), db5)" and
    e6: "appendEvent (ThreadID c)
        ((event (RunID c) ''command.accepted'')\<lparr>e_CommunicationID := CommunicationID c\<rparr>) db5 = Inr ((), db6)" and
    e7: "(if i_Kind (ia_artifact i) = ''approval'' \<and> r_Decision answer = ''approve''
           then exec (update_commands
                  (\<lambda>k. cm_thread_id k = ThreadID c \<and> cm_communication_id k = CommunicationID c)
                  (\<lambda>k. k\<lparr>cm_terminal_reason := ''consumed''\<rparr>))
                (appendEvent (ThreadID c)
                  ((event (RunID c) ''command.consumed'')\<lparr>e_CommunicationID := CommunicationID c\<rparr>))
           else return ()) db6 = Inr ((), db')"
    by (auto simp: consume_tx_def insert_command_def insert_run_def list_ex_iff new_command_def new_run_def live_def
        db1_def db2_def db3_def db4_def)
  have r1: "refines lib db db1" using new unfolding db1_def
    by (intro refines_move move.new_command) (auto simp: new_command_def open_command_def)
  have r2: "refines lib db1 db2" using newrun unfolding db2_def
    by (intro refines_move move.new_run) (auto simp: db1_def new_run_def)
  have "interaction_step j (consume_row c answer doc j)"
    if "j \<in> set (interactions db2)" "ia_id j = InteractionID c" for j
  proof -
    from that have j: "j = i" using keys_find_interaction [OF ok i(1)] by (simp add: db2_def db1_def)
    with that ok i(2) doc show ?thesis
      by (intro consume_row_step) (auto simp: keys_ok_def db2_def db1_def)
  qed
  then have r3: "refines lib db2 db3" unfolding db3_def by (intro refines_move move.interaction) auto
  have r4: "refines lib db3 db4" unfolding db4_def
    by (intro refines_update_run) (auto simp: advances_def intro: run_step_state)
  have r56: "refines lib db4 db6"
    using movesD [OF moves_appendEvent e5] movesD [OF moves_appendEvent e6] by (rule refines_trans)
  have to6: "refines lib db db6"
    using refines_trans [OF r1 refines_trans [OF r2 refines_trans [OF r3 refines_trans [OF r4 r56]]]] .
  then have ok6: "keys_ok db6" using ok keys_ok_moves unfolding refines_def by blast
  have "commands db6 = commands db1"
    using e5 e6 by (auto simp: appendEvent_ok db4_def db3_def db2_def)
  then have "\<forall>k \<in> set (commands db6). cm_thread_id k = ThreadID c \<and> cm_communication_id k = CommunicationID c
      \<longrightarrow> open_command k"
    using new by (auto simp: db1_def)
  then have "refines lib db6 db'"
    using e7 moves_consumed_command [OF ok6] by (cases "i_Kind (ia_artifact i) = ''approval'' \<and> r_Decision answer = ''approve''")
      (auto simp: mv.tx_refl)
  with to6 show ?thesis by (rule refines_trans)
qed

lemma refines_reply_tx:
  assumes "reply_of_json doc = Some answer" "reply_tx l c answer doc now db = Inr (x, db')"
  shows "refines lib db db'"
proof (cases "keys_ok db")
  case True
  show ?thesis
  proof (cases "find_command (ThreadID c) (CommunicationID c) db")
    case None
    with assms(2) obtain i where i: "find_interaction (ThreadID c) (InteractionID c) db = Some i"
      by (auto simp: reply_tx_def lockConversation_def)
    show ?thesis
    proof (cases "\<not> ia_expires_at i > now \<and> ia_state i = IPending")
      case True
      with assms(2) None i obtain u where "expireInteractions l (ThreadID c) now db = Inr (u, db')"
        by (auto simp: reply_tx_def lockConversation_def)
      then show ?thesis by (rule movesD [OF moves_expireInteractions])
    next
      case False
      with assms(2) None i obtain y where p: "ia_state i = IPending" "consume_tx c answer doc i now db = Inr (y, db')"
        by (auto simp: reply_tx_def lockConversation_def)
      show ?thesis by (rule refines_consume_tx [OF \<open>keys_ok db\<close> i p(1) assms(1) p(2)])
    qed
  next
    case (Some k)
    with assms(2) have "db' = db" by (auto simp: reply_tx_def lockConversation_def)
    then show ?thesis by (simp add: mv.tx_refl)
  qed
qed (simp add: refines_def)

lemma refines_Admit: "refines lib db (snd (Admit l c now db))"
proof (cases "InteractionID c = []")
  case True
  have "snd (conflict_result r) = snd r" for r :: "(journal_error + Receipt \<times> bool) \<times> db"
    by (cases r) (auto simp: conflict_result_def split: sum.splits journal_error.splits)
  with True mv.moves_begin_func [OF moves_admit_tx [of lib l c now], of db] show ?thesis
    by (simp add: Admit_def mv.tx_refl)
next
  case False
  show ?thesis
  proof (cases "reply_of_json (the (parse_json (ReplyJSON c)))")
    case (Some answer)
    obtain r db1 where b: "begin_func (reply_tx l c answer (the (parse_json (ReplyJSON c))) now) db = (r, db1)" by force
    have "refines lib db db1"
      using b refines_reply_tx [OF Some] by (cases r) (auto simp: begin_func_Inl begin_func_Inr mv.tx_refl)
    with False Some b show ?thesis
      by (auto simp: Admit_def reply_def DecodeStrict_reply_def mv.tx_refl split: option.splits sum.splits)
  qed (use False in \<open>auto simp: Admit_def reply_def DecodeStrict_reply_def mv.tx_refl split: option.splits\<close>)
qed

lemma refines_Included: "refines lib db (snd (Included ow inputs now db))"
proof -
  have inc: "moves (refines lib) (include_command ow inp)" for inp
    unfolding include_command_def Let_def
    by (intro mv.moves_query mv.moves_exec refines_move move.incl mv.moves_guard moves_appendEvent)
       (auto simp: pending_command_def open_command_def)
  show ?thesis
    unfolding Included_def by (intro mv.moves_begin_func mv.moves_call mv.moves_lockOwner mv.moves_for_each inc)
qed

section \<open>Runs\<close>

lemma moves_pin_definition [intro!]: "moves (refines lib) (pin_definition t d)"
proof -
  have cur: "refines lib db (case found of None \<Rightarrow> db\<lparr>definition_current := Some d\<rparr> | Some (_ :: string) \<Rightarrow> db)" for found db
    by (cases found) (auto simp: mv.tx_refl intro: refines_move move.current)
  show ?thesis
    unfolding pin_definition_def
    by (intro mv.moves_query_row, simp split: option.split, intro conjI impI allI)
       (auto intro!: mv.moves_exec cur moves_update_conversation)
qed

lemma refines_Start: "refines lib db (snd (Start ow j d now db))"
proof -
  have "moves (refines lib) (start_body ow j d)"
    unfolding start_body_def
    by (intro mv.moves_query mv.moves_guard mv.moves_call moves_pin_definition mv.moves_query_row moves_update_run)
       (auto simp: run_step_def advances_def)
  then show ?thesis by (auto simp: Start_def mv.tx_refl intro: mv.moves_owned)
qed

lemma find_run_cong: "runs db' = runs db \<Longrightarrow> find_run t r db' = find_run t r db"
  by (simp add: find_run_def)

text \<open>An update of a run right after it was read.\<close>

lemma refines_read_update:
  assumes "find_run t r db = Some x" "run_step x (f x)"
  shows "refines lib db (update_run t r f db)"
proof (cases "keys_ok db")
  case True
  then show ?thesis
    using keys_find_run [OF True assms(1)] assms(2) by (intro refines_update_run) auto
qed (simp add: refines_def)

lemma refines_finish:
  assumes "rank state = 3"
  shows "refines lib db (snd (finish ow state h answer callID tool terminal now db))"
proof (cases ow now "finish_body ow state h answer callID tool terminal" db rule: owned_cases)
  case (failed e)
  then show ?thesis by (simp add: finish_def mv.tx_refl)
next
  case (ok x db')
  let ?t = "ow_thread ow" and ?r = "ow_run ow"
  from ok(2) obtain r where r: "find_run ?t ?r db = Some r" "rn_state r = RunRunning"
    by (auto simp: fenced_def owns_def)
  from ok(3) r(1) obtain db1 db2 db3 where
    s1: "(if state = RunCompleted then return ()
            else call (markOperationsUnknown ?t ?r) (\<lambda>_. disposePending ?t ?r state)) db = Inr ((), db1)" and
    s2: "(if h = [] \<or> rn_definition_digest r = None then return ()
            else case parse_json h of None \<Rightarrow> fail DecodeError
                 | Some h \<Rightarrow> set_history ?t h (return ())) db1 = Inr ((), db2)" and
    s3: "(if state = RunCompleted then completed_events ?t ?r answer callID tool else return ()) db2 = Inr ((), db3)" and
    s4: "appendEvent ?t (finish_event ?r state terminal)
        (update_run ?t ?r (\<lambda>r. r\<lparr>rn_state := state, rn_answer := answer\<rparr>) db3) = Inr (x, db')"
    by (auto simp: finish_body_def Let_def)
  have "moves (refines lib) (if state = RunCompleted then return ()
            else call (markOperationsUnknown ?t ?r) (\<lambda>_. disposePending ?t ?r state))"
    "moves (\<lambda>db db'. runs db' = runs db) (if state = RunCompleted then return ()
            else call (markOperationsUnknown ?t ?r) (\<lambda>_. disposePending ?t ?r state))"
    by (auto intro: keep_markOperationsUnknown keep_disposePending)
  from this [THEN movesD, OF s1] have m1: "refines lib db db1" "runs db1 = runs db" .
  have m2: "refines lib db1 db2" "runs db2 = runs db1"
    using s2 by (auto simp: mv.tx_refl set_history_def split: if_splits option.splits
        intro!: refines_move move.conversation)
  have "moves (refines lib) (if state = RunCompleted then completed_events ?t ?r answer callID tool else return ())"
    "moves (\<lambda>db db'. runs db' = runs db)
       (if state = RunCompleted then completed_events ?t ?r answer callID tool else return ())"
    by (auto simp: completed_events_def intro: keep_appendEvent)
  from this [THEN movesD, OF s3] have m3: "refines lib db2 db3" "runs db3 = runs db2" .
  have "refines lib db db3" using m1 m2 m3 by (blast intro: refines_trans)
  moreover have "refines lib db db3 \<Longrightarrow> refines lib db db'"
  proof (cases "keys_ok db")
    case True
    assume "refines lib db db3"
    with True have k3: "keys_ok db3" using keys_ok_moves unfolding refines_def by blast
    have "find_run ?t ?r db3 = Some r" using r(1) m1(2) m2(2) m3(2) by (simp add: find_run_def)
    then have "refines lib db3 (update_run ?t ?r (\<lambda>r. r\<lparr>rn_state := state, rn_answer := answer\<rparr>) db3)"
      using r(2) assms by (intro refines_read_update [of _ _ _ r]) (auto simp: run_step_def advances_def)
    with \<open>refines lib db db3\<close> movesD [OF moves_appendEvent s4] show ?thesis by (blast intro: refines_trans)
  qed (simp add: refines_def)
  ultimately show ?thesis using ok(1) by (simp add: finish_def)
qed

lemma refines_Finish: "refines lib db (snd (Finish ow state h answer callID tool now db))"
  using refines_finish [of state] by (auto simp: Finish_def mv.tx_refl)

lemma refines_FinishFailed: "refines lib db (snd (FinishFailed ow h reason now db))"
  using refines_finish [of RunFailed] by (auto simp: FinishFailed_def mv.tx_refl)

lemma refines_FinishLimitExceeded: "refines lib db (snd (FinishLimitExceeded ow h kind retry now db))"
  using refines_finish [of RunLimitExceeded] by (auto simp: FinishLimitExceeded_def mv.tx_refl)

lemma refines_RecordRunScope: "refines lib db (snd (RecordRunScope ow scope now db))"
proof -
  have "moves (refines lib) (scope_body ow scope doc)" for doc
  proof (rule movesI)
    fix db x db'
    assume "scope_body ow scope doc db = Inr (x, db')"
    then obtain r where r: "find_run (ow_thread ow) (ow_run ow) db = Some r" and
      "db' = db \<or> rn_product_version r = None \<and>
        db' = update_run (ow_thread ow) (ow_run ow)
              (\<lambda>r. r\<lparr>rn_product_version := Some (sc_ProductVersion scope),
                     rn_endpoint_id := Some (sc_EndpointID scope), rn_settings := Some doc\<rparr>) db"
      by (auto simp: scope_body_def split: if_splits)
    then show "refines lib db db'"
      using refines_read_update [OF r] by (auto simp: mv.tx_refl run_step_def advances_def)
  qed
  then show ?thesis by (auto simp: RecordRunScope_def mv.tx_refl intro: mv.moves_owned)
qed

lemma refines_RecordServerInfo: "refines lib db (snd (RecordServerInfo ow info now db))"
  by (auto simp: RecordServerInfo_def mv.tx_refl run_step_def advances_def
      intro!: mv.moves_owned moves_update_run)

lemma refines_SetActiveJourneys: "refines lib db (snd (SetActiveJourneys ow active now db))"
  by (auto simp: SetActiveJourneys_def mv.tx_refl intro!: mv.moves_owned moves_update_conversation)

lemma refines_HistoryTruncated: "refines lib db (snd (HistoryTruncated ow tr now db))"
  by (auto simp: HistoryTruncated_def mv.tx_refl intro!: mv.moves_owned)

lemma moves_usage: "moves (refines lib) k \<Longrightarrow> moves (refines lib) (exec (\<lambda>db. db\<lparr>usage := usage db @ [u]\<rparr>) k)"
  by (intro mv.moves_exec refines_move move.usage)

lemma refines_RecordUsage: "refines lib db (snd (RecordUsage ow u now db))"
  by (auto simp: RecordUsage_def mv.tx_refl intro!: mv.moves_owned moves_usage)

section \<open>Definitions and catalogs\<close>

lemma refines_ResolveDefinition: "refines lib db (snd (ResolveDefinition ow served now db))"
proof -
  have pin: "moves (refines lib) k \<Longrightarrow> moves (refines lib) (exec (pin_conversation t d) k)" for t d and k :: "'x tx"
    unfolding pin_conversation_def by (rule moves_update_conversation) auto
  have "moves (refines lib) (resolve_body ow f)" for f
    unfolding resolve_body_def
    by (intro mv.moves_query_row mv.moves_query) (auto split: option.split intro!: pin)
  then show ?thesis by (auto simp: ResolveDefinition_def mv.tx_refl intro: mv.moves_owned split: option.split)
qed

lemma refines_activate: "refines lib db (snd (activate expected candidate served rollback now db))"
proof -
  have "moves (refines lib) (activate_tx expected candidate f rollback now)" for f
    unfolding activate_tx_def
    by (intro mv.moves_query)
       (auto intro!: mv.moves_exec refines_move move.activated move.current)
  then show ?thesis by (auto simp: activate_def mv.tx_refl intro: mv.moves_begin_func split: option.split)
qed

lemma refines_PutDefinitionSet: "refines lib db (snd (PutDefinitionSet d files db))"
proof -
  have "moves (refines lib) (query (\<lambda>db. list_ex (\<lambda>s. dset_digest s = d) (definition_sets db)) (\<lambda>present.
         if present then return ()
         else exec (\<lambda>db. db\<lparr>definition_sets := definition_sets db @
                 [\<lparr>dset_digest = d, dset_files = files, dset_activated_at = None\<rparr>]\<rparr>) (return ())))"
  proof (rule movesI)
    fix db x db'
    assume "query (\<lambda>db. list_ex (\<lambda>s. dset_digest s = d) (definition_sets db)) (\<lambda>present.
         if present then return ()
         else exec (\<lambda>db. db\<lparr>definition_sets := definition_sets db @
                 [\<lparr>dset_digest = d, dset_files = files, dset_activated_at = None\<rparr>]\<rparr>) (return ())) db = Inr (x, db')"
    then show "refines lib db db'"
      by (cases "list_ex (\<lambda>s. dset_digest s = d) (definition_sets db)")
         (auto simp: mv.tx_refl list_ex_iff intro!: refines_move move.new_set)
  qed
  then show ?thesis by (auto simp: PutDefinitionSet_def mv.tx_refl intro: mv.moves_begin_func)
qed

lemma refines_CommitSnapshot: "refines lib db (snd (CommitSnapshot l ow snap now db))"
proof -
  have "moves (refines lib) (commit_body ow s now)" for s
    unfolding commit_body_def Let_def
    by (intro mv.moves_query_row mv.moves_exec [where f = "insert_snapshot s"] refines_move move.snapshot)
       (auto split: option.split intro!: moves_update_conversation moves_update_run simp: run_step_def advances_def)
  then show ?thesis
    by (auto simp: CommitSnapshot_def Let_def mv.tx_refl intro: mv.moves_owned split: sum.split)
qed

lemma refines_RecordRunCatalog: "refines lib db (snd (RecordRunCatalog ow d now db))"
  by (auto simp: RecordRunCatalog_def run_step_def advances_def
      intro!: mv.moves_owned moves_update_conversation moves_update_run)

end
