(* ===== verification/Journal_Calls.thy ===== *)
theory Journal_Calls
  imports Journal_Refine
begin

text \<open>Waiting for input and dispatching calls as moves, and the set of all requests to the journal.\<close>

section \<open>Wait\<close>

lemma wait_row_ok:
  assumes "find_conversation (ow_thread ow) db = Some v"
    "rn_product_version r = Some version" "rn_definition_digest r = Some digest"
    "BindCall lib (wait_binding ow i version digest (cv_principal v)) = Inr (pc_Binding (i_Call i))"
    "\<not> (i_Kind i = ''approval'' \<and> (i_JourneyID i = [] \<or> i_OperationKey i = []))"
  shows "new_interaction_ok lib db (wait_row ow i cp h expires r v)"
  using assms
  by (auto simp: new_interaction_ok_def wait_row_def artifact_of_def row_binding_def wait_binding_def or_empty_def)

lemma refines_wait_body:
  assumes run: "find_run (ow_thread ow) (ow_run ow) db = Some x" "rn_state x = RunRunning"
    and body: "wait_body lib ow i cp h now db = Inr (u, db')"
  shows "refines lib db db'"
proof -
  let ?t = "ow_thread ow" and ?r = "ow_run ow"
  from body run(1) obtain v version digest ttl where
    v: "find_conversation ?t db = Some v" and
    scope: "rn_product_version x = Some version" "rn_definition_digest x = Some digest" and
    bind: "BindCall lib (wait_binding ow i version digest (cv_principal v)) = Inr (pc_Binding (i_Call i))" and
    kind: "\<not> (i_Kind i = ''approval'' \<and> (i_JourneyID i = [] \<or> i_OperationKey i = []))" and
    ins: "insert_interaction (wait_row ow i cp h (now + interval ttl) x v)
        (set_history ?t h
          (exec (update_run ?t ?r (\<lambda>r. r\<lparr>rn_state := RunAwaitingInput, rn_owner_id := [], rn_lease_until := now\<rparr>))
            (appendEvent ?t ((event ?r ''run.awaiting_input'')\<lparr>e_CallID := pc_CallID (i_Call i)\<rparr>)))) db = Inr (u, db')"
    by (auto simp: wait_body_def Let_def)
  let ?row = "wait_row ow i cp h (now + interval ttl) x v"
  define db1 where "db1 = db\<lparr>interactions := interactions db @ [?row]\<rparr>"
  define db2 where "db2 = update_conversation ?t (\<lambda>c. c\<lparr>cv_history := h\<rparr>) db1"
  define db3 where "db3 = update_run ?t ?r (\<lambda>r. r\<lparr>rn_state := RunAwaitingInput, rn_owner_id := [], rn_lease_until := now\<rparr>) db2"
  from ins have fresh: "\<forall>j \<in> set (interactions db). ia_id j \<noteq> ia_id ?row \<and>
      \<not> (ia_state j = IPending \<and> ia_thread_id j = ia_thread_id ?row)"
    and e: "appendEvent ?t ((event ?r ''run.awaiting_input'')\<lparr>e_CallID := pc_CallID (i_Call i)\<rparr>) db3 = Inr (u, db')"
    by (auto simp: insert_interaction_def set_history_def list_ex_iff db1_def db2_def db3_def wait_row_def)
  have r1: "refines lib db db1" unfolding db1_def
    by (intro refines_move move.new_interaction fresh wait_row_ok [OF v scope bind kind])
  have r2: "refines lib db1 db2" unfolding db2_def by (intro refines_move move.conversation) auto
  have "find_run ?t ?r db2 = Some x" using run(1) by (simp add: db2_def db1_def find_run_def)
  then have r3: "refines lib db2 db3" unfolding db3_def
    by (rule refines_read_update) (simp add: run_step_def advances_def run(2))
  show ?thesis
    using refines_trans [OF r1 refines_trans [OF r2 refines_trans [OF r3 movesD [OF moves_appendEvent e]]]] .
qed

lemma refines_Wait: "refines lib db (snd (Wait lib ow i cp h now db))"
proof -
  have "refines lib db (snd (owned ow now (wait_body lib ow i c j now) db))" for c j
  proof (cases ow now "wait_body lib ow i c j now" db rule: owned_cases)
    case (ok x db')
    from ok(2) obtain r where "find_run (ow_thread ow) (ow_run ow) db = Some r" "rn_state r = RunRunning"
      by (auto simp: fenced_def owns_def)
    from refines_wait_body [OF this ok(3)] ok(1) show ?thesis by simp
  qed (simp add: mv.tx_refl)
  then show ?thesis by (auto simp: Wait_def mv.tx_refl split: sum.split option.split)
qed

section \<open>Supersede\<close>

lemma refines_supersede:
  assumes "supersede t r iid db = Inr (u, db')"
  shows "refines lib db db'"
proof (cases "keys_ok db")
  case True
  from assms obtain i where i: "approval_of t r iid db = Some i"
    and c: "db' = db \<or> ia_marker i = Some Decided \<and>
      appendEvent t ((event r ''interaction.superseded'')\<lparr>e_CallID := pc_CallID (i_Call (ia_artifact i))\<rparr>)
        (set_marker t iid Superseded db) = Inr (u, db')"
    by (auto simp: supersede_def split: if_splits)
  from i have mem: "i \<in> set (interactions db)" "ia_id i = iid" by (auto simp: approval_of_def find_Some_iff)
  have step: "refines lib db (set_marker t iid Superseded db)" if "ia_marker i = Some Decided"
  proof -
    have "interaction_step j (j\<lparr>ia_marker := Some Superseded\<rparr>)"
      if "j \<in> set (interactions db)" "ia_id j = iid" for j
      using keys_interaction_unique [OF True that(1) mem(1)] that mem(2) \<open>ia_marker i = Some Decided\<close>
      by (auto simp: interaction_step_def interaction_core_def)
    then show ?thesis unfolding set_marker_def by (intro refines_move move.interaction) auto
  qed
  from c show ?thesis
    using refines_trans [OF step movesD [OF moves_appendEvent]] by (auto simp: mv.tx_refl)
qed (simp add: refines_def)

lemma moves_supersede: "moves (refines lib) (supersede t r iid)"
  by (rule movesI) (rule refines_supersede)

lemma refines_Supersede: "refines lib db (snd (Supersede ow iid now db))"
  unfolding Supersede_def by (intro mv.moves_owned moves_supersede)

section \<open>Attempts\<close>

lemma start_attempt_ok:
  "start_attempt ow x n db = Inr (u, db') \<longleftrightarrow>
     u = False \<and> (\<forall>a \<in> set (attempts db). \<not> (at_call_id a = o_CallID x \<and> at_attempt a = n)) \<and>
     appendEvent (ow_thread ow) ((event (ow_run ow) ''tool.started'')\<lparr>e_CallID := o_CallID x, e_ToolName := o_Name x\<rparr>)
       (db\<lparr>attempts := attempts db @ [first_attempt_row (o_CallID x) n]\<rparr>) = Inr ((), db')"
  by (auto simp: start_attempt_def insert_attempt_def list_ex_iff first_attempt_row_def)

lemma new_operation_row_ok:
  assumes "find_conversation (ow_thread ow) db = Some v"
    "BindCall lib (operation_binding ow x version digest (cv_principal v)) = Inr (o_Binding x)"
    "validPolicy (o_Policy x)" "o_Policy x \<noteq> ''read_only'' \<longrightarrow> o_RequiresApproval x"
  shows "new_operation_ok lib db (new_operation ow x r)"
  unfolding new_operation_ok_def
  using assms
  by (intro conjI exI [of _ v] exI [of _ "operation_binding ow x version digest (cv_principal v)"])
     (auto simp: new_operation_def operation_binding_def)

lemma approval_row_ok:
  assumes "approval_row ow approval now db = Some i" "approves x i" "approval_matches x (o_Binding x) i"
  shows "i \<in> set (interactions db) \<and> ia_id i = approval \<and> ia_thread_id i = ow_thread ow \<and>
    approves_call i (new_operation ow x r) \<and> ia_marker i = Some Decided"
  using assms
  by (auto simp: approval_row_def find_Some_iff approves_def approval_matches_def approves_call_def approved_def
      continues_def new_operation_def)

lemma refines_first_attempt:
  assumes v: "find_conversation (ow_thread ow) db = Some v"
    and bind: "BindCall lib (operation_binding ow x version digest (cv_principal v)) = Inr (o_Binding x)"
    and pol: "validPolicy (o_Policy x)" "o_Policy x \<noteq> ''read_only'' \<longrightarrow> o_RequiresApproval x"
    and free: "\<forall>y \<in> set (operations db). unresolved (ow_thread ow) y \<longrightarrow> op_call_id y = o_CallID x"
    and body: "first_attempt ow x approval (o_Binding x) r now db = Inr (u, db')"
  shows "refines lib db db'"
proof -
  let ?y = "new_operation ow x r"
  note new = new_operation_row_ok [OF v bind pol, of r]
  have y: "op_call_id ?y = o_CallID x" "op_requires_approval ?y = o_RequiresApproval x"
    by (simp_all add: new_operation_def)
  have other: "no_other_call db ?y" using free by (simp add: no_other_call_def new_operation_def)
  consider (plain) "\<not> o_RequiresApproval x" "insert_operation ?y (start_attempt ow x 1) db = Inr (u, db')"
    | (superseded) w where "supersede (ow_thread ow) (ow_run ow) approval db = Inr (w, db')"
    | (approved) i where "o_RequiresApproval x" "approval_row ow approval now db = Some i" "approves x i"
        "approval_matches x (o_Binding x) i"
        "insert_operation ?y (exec (set_marker (ow_thread ow) approval Dispatched) (start_attempt ow x 1)) db = Inr (u, db')"
    using body by (auto simp: first_attempt_def split: if_splits)
  then show ?thesis
  proof cases
    case plain
    let ?db1 = "db\<lparr>operations := operations db @ [?y], attempts := attempts db @ [first_attempt_row (op_call_id ?y) 1]\<rparr>"
    from plain(2) have fresh: "\<forall>z \<in> set (operations db). op_call_id z \<noteq> op_call_id ?y"
      "\<forall>a \<in> set (attempts db). \<not> (at_call_id a = op_call_id ?y \<and> at_attempt a = 1)"
      and e: "appendEvent (ow_thread ow)
        ((event (ow_run ow) ''tool.started'')\<lparr>e_CallID := o_CallID x, e_ToolName := o_Name x\<rparr>) ?db1 = Inr ((), db')"
      by (auto simp: insert_operation_def list_ex_iff start_attempt_ok y)
    have "refines lib db ?db1"
      using plain(1) y by (intro refines_move move.dispatch fresh new other) simp
    from refines_trans [OF this movesD [OF moves_appendEvent e]] show ?thesis .
  next
    case superseded
    then show ?thesis by (rule refines_supersede)
  next
    case approved
    let ?db1 = "(set_marker (ow_thread ow) approval Dispatched db)
      \<lparr>operations := operations db @ [?y], attempts := attempts db @ [first_attempt_row (op_call_id ?y) 1]\<rparr>"
    have [simp]: "attempts (set_marker t a m d) = attempts d" for t a m d
      by (simp add: set_marker_def)
    have swap: "(set_marker t a m (db\<lparr>operations := os\<rparr>))\<lparr>attempts := as\<rparr> =
        (set_marker t a m db)\<lparr>operations := os, attempts := as\<rparr>" for t a m os as
      by (simp add: set_marker_def update_interactions_def)
    from approved(5) have fresh: "\<forall>z \<in> set (operations db). op_call_id z \<noteq> op_call_id ?y"
      "\<forall>a \<in> set (attempts db). \<not> (at_call_id a = op_call_id ?y \<and> at_attempt a = 1)"
      and e: "appendEvent (ow_thread ow)
        ((event (ow_run ow) ''tool.started'')\<lparr>e_CallID := o_CallID x, e_ToolName := o_Name x\<rparr>) ?db1 = Inr ((), db')"
      by (auto simp: insert_operation_def list_ex_iff start_attempt_ok y swap)
    note i = approval_row_ok [OF approved(2-4), of r]
    have "refines lib db ?db1"
      using move.dispatch_approved [OF fresh new _ _ _ _ other, of i] i approved(1) y by (intro refines_move) auto
    from refines_trans [OF this movesD [OF moves_appendEvent e]] show ?thesis .
  qed
qed

lemma refines_second_attempt:
  assumes "second_attempt ow x 2 db = Inr (u, db')"
    "\<forall>y \<in> set (operations db). unresolved (ow_thread ow) y \<longrightarrow> op_call_id y = o_CallID x"
  shows "refines lib db db'"
proof -
  from assms(1) obtain y where y: "y \<in> set (operations db)" "op_call_id y = o_CallID x" "op_policy y \<noteq> ''effectful''"
      "op_outcome y = ''rejected'' \<or> op_outcome y = ''outcome_unknown''" and t: "op_thread_id y = ow_thread ow"
    and s: "start_attempt ow x 2
      (update_operations (\<lambda>y. op_call_id y = o_CallID x) (\<lambda>y. y\<lparr>op_outcome := ''dispatching''\<rparr>) db) = Inr (u, db')"
    by (auto simp: second_attempt_def dest!: find_SomeD)
  let ?db1 = "(update_operations (\<lambda>z. op_call_id z = op_call_id y) (\<lambda>y. y\<lparr>op_outcome := ''dispatching''\<rparr>) db)
      \<lparr>attempts := attempts db @ [first_attempt_row (op_call_id y) 2]\<rparr>"
  from s have fresh: "\<forall>a \<in> set (attempts db). \<not> (at_call_id a = op_call_id y \<and> at_attempt a = 2)"
    and e: "appendEvent (ow_thread ow)
        ((event (ow_run ow) ''tool.started'')\<lparr>e_CallID := o_CallID x, e_ToolName := o_Name x\<rparr>) ?db1 = Inr ((), db')"
    by (auto simp: start_attempt_ok y(2))
  have "no_other_call db y" using assms(2) y(2) t by (simp add: no_other_call_def)
  then have "refines lib db ?db1" by (intro refines_move move.retry fresh y)
  from refines_trans [OF this movesD [OF moves_appendEvent e]] show ?thesis .
qed

lemma refines_BeginAttempt: "refines lib db (snd (BeginAttempt lib ow x n approval now db))"
proof (cases "o_CallID x = [] \<or> n < 1 \<or> n > 2 \<or> \<not> validPolicy (o_Policy x) \<or>
    o_Policy x \<noteq> ''read_only'' \<and> \<not> o_RequiresApproval x")
  case True
  then show ?thesis by (simp add: BeginAttempt_def mv.tx_refl)
next
  case False
  have "refines lib db (snd (owned ow now (begin_body lib ow x n approval now) db))"
  proof (cases ow now "begin_body lib ow x n approval now" db rule: owned_cases)
    case (ok u db')
    from ok(3) obtain r v version digest where v: "find_conversation (ow_thread ow) db = Some v"
      and free: "\<forall>y \<in> set (operations db). unresolved (ow_thread ow) y \<longrightarrow> op_call_id y = o_CallID x"
      and b: "BindCall lib (operation_binding ow x version digest (cv_principal v)) = Inr (o_Binding x)"
      and k: "(if n = 1 then first_attempt ow x approval (o_Binding x) r now else second_attempt ow x n) db = Inr (u, db')"
      by (auto simp: begin_body_def list_ex_iff)
    show ?thesis
    proof (cases "n = 1")
      case True
      with k refines_first_attempt [OF v b _ _ free, of approval r now u db'] False ok(1) show ?thesis by auto
    next
      case n: False
      with False have "n = 2" by linarith
      with k free refines_second_attempt [of ow x db u db'] ok(1) show ?thesis by simp
    qed
  qed (simp add: mv.tx_refl)
  with False show ?thesis by (auto simp: BeginAttempt_def split: prod.splits sum.splits)
qed

lemma refines_EndAttempt: "refines lib db (snd (EndAttempt ow x n outcome now db))"
proof (cases "outcome \<in> {''completed'', ''rejected'', ''auth_required'', ''outcome_unknown''}")
  case True
  have "moves (refines lib) (end_body ow x n outcome)"
    unfolding end_body_def Let_def
    by (intro mv.moves_query mv.moves_exec mv.moves_guard moves_appendEvent refines_move move.outcome [OF _ True] move.attempt)
       (auto simp: dispatching_of_def)
  with True show ?thesis by (auto simp: EndAttempt_def intro: mv.moves_owned)
qed (simp add: EndAttempt_def mv.tx_refl)

end
