(* ===== verification/Journal_System.thy ===== *)
theory Journal_System
  imports Journal_Calls
begin

text \<open>
  All state-changing requests to the journal, the databases they can produce from the empty one,
  and the invariants of these databases.
\<close>

section \<open>Requests\<close>

datatype request =
    ReqAdmit Command
  | ReqClaim Command string int
  | ReqRenew Owner int
  | ReqReap
  | ReqIncluded Owner "Input list"
  | ReqStart Owner string string
  | ReqFinish Owner RunState bytes string string string
  | ReqFinishFailed Owner bytes string
  | ReqFinishLimitExceeded Owner bytes string int
  | ReqRecordRunScope Owner RunScope
  | ReqRecordServerInfo Owner bytes
  | ReqSetActiveJourneys Owner "string list"
  | ReqHistoryTruncated Owner HistoryTruncation
  | ReqRecordUsage Owner Usage
  | ReqWait Owner Interaction bytes bytes
  | ReqSupersede Owner string
  | ReqBeginAttempt Owner Operation int string
  | ReqEndAttempt Owner Operation int string
  | ReqResolveDefinition Owner "(string \<Rightarrow> bool) option"
  | ReqActivate string string "(string \<Rightarrow> bool) option"
  | ReqRollback string string "(string \<Rightarrow> bool) option"
  | ReqPutDefinitionSet string "(string \<times> bytes) list"
  | ReqCommitSnapshot Owner CatalogSnapshot
  | ReqRecordRunCatalog Owner string

fun perform :: "libs \<Rightarrow> request \<Rightarrow> int \<Rightarrow> db \<Rightarrow> db" where
  "perform lib (ReqAdmit c) now db = snd (Admit lib c now db)"
| "perform lib (ReqClaim c oid d) now db = snd (Claim c oid d now db)"
| "perform lib (ReqRenew ow d) now db = snd (Renew ow d now db)"
| "perform lib ReqReap now db = snd (Reap lib now db)"
| "perform lib (ReqIncluded ow inputs) now db = snd (Included ow inputs now db)"
| "perform lib (ReqStart ow j d) now db = snd (Start ow j d now db)"
| "perform lib (ReqFinish ow s h a c t) now db = snd (Finish ow s h a c t now db)"
| "perform lib (ReqFinishFailed ow h r) now db = snd (FinishFailed ow h r now db)"
| "perform lib (ReqFinishLimitExceeded ow h k r) now db = snd (FinishLimitExceeded ow h k r now db)"
| "perform lib (ReqRecordRunScope ow s) now db = snd (RecordRunScope ow s now db)"
| "perform lib (ReqRecordServerInfo ow i) now db = snd (RecordServerInfo ow i now db)"
| "perform lib (ReqSetActiveJourneys ow js) now db = snd (SetActiveJourneys ow js now db)"
| "perform lib (ReqHistoryTruncated ow t) now db = snd (HistoryTruncated ow t now db)"
| "perform lib (ReqRecordUsage ow u) now db = snd (RecordUsage ow u now db)"
| "perform lib (ReqWait ow i cp h) now db = snd (Wait lib ow i cp h now db)"
| "perform lib (ReqSupersede ow i) now db = snd (Supersede ow i now db)"
| "perform lib (ReqBeginAttempt ow x n a) now db = snd (BeginAttempt lib ow x n a now db)"
| "perform lib (ReqEndAttempt ow x n s) now db = snd (EndAttempt ow x n s now db)"
| "perform lib (ReqResolveDefinition ow f) now db = snd (ResolveDefinition ow f now db)"
| "perform lib (ReqActivate e c f) now db = snd (ActivateDefinition e c f now db)"
| "perform lib (ReqRollback e c f) now db = snd (RollbackDefinition e c f now db)"
| "perform lib (ReqPutDefinitionSet d fs) now db = snd (PutDefinitionSet d fs db)"
| "perform lib (ReqCommitSnapshot ow s) now db = snd (CommitSnapshot lib ow s now db)"
| "perform lib (ReqRecordRunCatalog ow d) now db = snd (RecordRunCatalog ow d now db)"

lemma refines_perform: "refines lib db (perform lib req now db)"
  by (cases req)
     (simp_all add: refines_Admit refines_Claim refines_Renew refines_Reap refines_Included refines_Start
       refines_Finish refines_FinishFailed refines_FinishLimitExceeded refines_RecordRunScope
       refines_RecordServerInfo refines_SetActiveJourneys refines_HistoryTruncated refines_RecordUsage
       refines_Wait refines_Supersede refines_BeginAttempt refines_EndAttempt refines_ResolveDefinition
       refines_activate ActivateDefinition_def RollbackDefinition_def refines_PutDefinitionSet
       refines_CommitSnapshot refines_RecordRunCatalog)

text \<open>The databases that requests produce from the empty one, at any times and in any order.\<close>

inductive reachable :: "libs \<Rightarrow> db \<Rightarrow> bool" for lib where
  empty: "reachable lib empty_db"
| step: "reachable lib db \<Longrightarrow> reachable lib (perform lib req now db)"

fun run_requests :: "libs \<Rightarrow> (request \<times> int) list \<Rightarrow> db \<Rightarrow> db" where
  "run_requests lib [] db = db"
| "run_requests lib ((req, now) # reqs) db = run_requests lib reqs (perform lib req now db)"

lemma reachable_requests: "reachable lib db \<Longrightarrow> reachable lib (run_requests lib reqs db)"
proof (induction reqs arbitrary: db)
  case (Cons rq reqs)
  then show ?case by (cases rq) (simp add: reachable.step)
qed simp

lemma keys_ok_empty [simp]: "keys_ok empty_db"
  by (simp add: keys_ok_def empty_db_def)

lemma reachable_moves: "reachable lib db \<Longrightarrow> (move lib)\<^sup>*\<^sup>* empty_db db \<and> keys_ok db"
proof (induction rule: reachable.induct)
  case (step db req now)
  with refines_perform [of lib db req now] have "(move lib)\<^sup>*\<^sup>* db (perform lib req now db)"
    by (simp add: refines_def)
  with step show ?case using keys_ok_moves by (auto intro: rtranclp_trans)
qed simp

text \<open>An invariant of the moves is an invariant of the journal.\<close>

lemma reachable_invariant:
  assumes "reachable lib db" "I empty_db" "\<And>db db'. move lib db db' \<Longrightarrow> keys_ok db \<Longrightarrow> I db \<Longrightarrow> I db'"
  shows "I db"
proof -
  have "(move lib)\<^sup>*\<^sup>* d d' \<Longrightarrow> keys_ok d \<Longrightarrow> I d \<Longrightarrow> I d' \<and> keys_ok d'" for d d'
    by (induction rule: rtranclp_induct) (auto intro: assms(3) keys_ok_move)
  from this [of empty_db db] reachable_moves [OF assms(1)] assms(2) show ?thesis by simp
qed

lemma reachable_relation:
  assumes "reachable lib db" "\<And>d. R d d" "\<And>a b c. R a b \<Longrightarrow> R b c \<Longrightarrow> R a c"
    "\<And>d d'. move lib d d' \<Longrightarrow> keys_ok d \<Longrightarrow> R d d'"
  shows "R db (run_requests lib reqs db)"
proof -
  have mv: "(move lib)\<^sup>*\<^sup>* d d' \<Longrightarrow> keys_ok d \<Longrightarrow> R d d' \<and> keys_ok d'" for d d'
    by (induction rule: rtranclp_induct) (auto intro: assms keys_ok_move)
  have "keys_ok d \<Longrightarrow> R d (run_requests lib reqs d)" for d
  proof (induction reqs arbitrary: d)
    case (Cons rq reqs)
    obtain req now where rq: "rq = (req, now)" by (cases rq)
    from refines_perform [of lib d req now] Cons.prems mv
    have "R d (perform lib req now d)" "keys_ok (perform lib req now d)" by (auto simp: refines_def)
    with Cons.IH rq show ?case by (auto intro: assms(3))
  qed (simp add: assms(2))
  with reachable_moves [OF assms(1)] show ?thesis by simp
qed

lemma in_update_where: "y \<in> set (update_where p f xs) \<longleftrightarrow> (\<exists>x \<in> set xs. y = (if p x then f x else x))"
  by (auto simp: update_where_def)

section \<open>The event log\<close>

text \<open>The events of a conversation are numbered from one without gaps, in the order of the log.\<close>

definition log_ok :: "db \<Rightarrow> bool" where
  "log_ok db =
     ((\<forall>v \<in> set (conversations db). 0 \<le> cv_sequence v \<and>
        map ev_sequence (filter (\<lambda>e. ev_thread_id e = cv_id v) (events db)) = [1..cv_sequence v]) \<and>
      (\<forall>e \<in> set (events db). \<exists>v \<in> set (conversations db). cv_id v = ev_thread_id e))"

lemma log_ok_same_conversations:
  assumes "log_ok db" "events db' = events db" "conversations db' = conversations db"
  shows "log_ok db'"
  using assms by (simp add: log_ok_def)

lemma log_ok_conversations:
  assumes "log_ok db" "events db' = events db" "conversations db' = update_where p f (conversations db)"
    "\<And>c. cv_id (f c) = cv_id c \<and> cv_sequence (f c) = cv_sequence c"
  shows "log_ok db'"
proof -
  have y: "\<exists>x \<in> set (conversations db). cv_id y = cv_id x \<and> cv_sequence y = cv_sequence x"
    if "y \<in> set (conversations db')" for y
    using that assms(4) by (auto simp: assms(3) in_update_where)
  have x: "\<exists>y \<in> set (conversations db'). cv_id y = cv_id x" if "x \<in> set (conversations db)" for x
  proof
    show "(if p x then f x else x) \<in> set (conversations db')" using that by (auto simp: assms(3) in_update_where)
  qed (simp add: assms(4))
  show ?thesis
    unfolding log_ok_def assms(2)
  proof (intro conjI ballI)
    fix v
    assume "v \<in> set (conversations db')"
    with y obtain w where "w \<in> set (conversations db)" "cv_id v = cv_id w" "cv_sequence v = cv_sequence w" by blast
    with assms(1) show "0 \<le> cv_sequence v"
      "map ev_sequence (filter (\<lambda>e. ev_thread_id e = cv_id v) (events db)) = [1..cv_sequence v]"
      by (simp_all add: log_ok_def)
  next
    fix e
    assume "e \<in> set (events db)"
    with assms(1) obtain w where "w \<in> set (conversations db)" "cv_id w = ev_thread_id e" by (auto simp: log_ok_def)
    with x show "\<exists>v \<in> set (conversations db'). cv_id v = ev_thread_id e" by metis
  qed
qed

lemma log_ok_event:
  assumes ok: "log_ok db" and v: "find_conversation t db = Some v"
  shows "log_ok (add_event t (cv_sequence v + 1) e db)"
proof -
  note v' = find_conversation_ok [OF v]
  let ?f = "\<lambda>c. c\<lparr>cv_sequence := cv_sequence c + 1\<rparr>"
  let ?es = "events db @ [\<lparr>ev_thread_id = t, ev_sequence = cv_sequence v + 1, ev_event = e\<rparr>]"
  have seq: "map ev_sequence (filter (\<lambda>e. ev_thread_id e = cv_id w) (events db)) = [1..cv_sequence w]"
    "0 \<le> cv_sequence w" if "w \<in> set (conversations db)" for w
    using ok that by (auto simp: log_ok_def)
  have same: "cv_sequence w = cv_sequence v" if "w \<in> set (conversations db)" "cv_id w = t" for w
  proof -
    have "[1..cv_sequence w] = [1..cv_sequence v]" using seq(1) [OF that(1)] seq(1) [of v] v' that(2) by simp
    then have "length [1..cv_sequence w] = length [1..cv_sequence v]" by simp
    with seq(2) [OF that(1)] seq(2) [of v] v' show ?thesis by simp
  qed
  have "0 \<le> cv_sequence w' \<and> map ev_sequence (filter (\<lambda>e. ev_thread_id e = cv_id w') ?es) = [1..cv_sequence w']"
    if w': "w' \<in> set (update_where (\<lambda>c. cv_id c = t) ?f (conversations db))" for w'
  proof -
    from w' obtain w where w: "w \<in> set (conversations db)" "w' = (if cv_id w = t then ?f w else w)"
      by (auto simp: in_update_where)
    show ?thesis
    proof (cases "cv_id w = t")
      case True
      with same [OF w(1)] seq [OF w(1)] w(2) show ?thesis by (simp add: upto_rec2)
    next
      case False
      with seq [OF w(1)] w(2) show ?thesis by simp
    qed
  qed
  moreover have "\<exists>w \<in> set (update_where (\<lambda>c. cv_id c = t) ?f (conversations db)). cv_id w = ev_thread_id x"
    if x: "x \<in> set ?es" for x
  proof -
    have "\<exists>w \<in> set (conversations db). cv_id w = ev_thread_id x"
      using x ok v' by (auto simp: log_ok_def)
    then obtain w where w: "w \<in> set (conversations db)" "cv_id w = ev_thread_id x" by blast
    have "(if cv_id w = t then ?f w else w) \<in> set (update_where (\<lambda>c. cv_id c = t) ?f (conversations db))"
      using w(1) by (auto simp: in_update_where)
    moreover have "cv_id (if cv_id w = t then ?f w else w) = ev_thread_id x" using w(2) by simp
    ultimately show ?thesis by blast
  qed
  ultimately show ?thesis
    unfolding log_ok_def add_event_def by (simp add: update_conversation_def)
qed

lemma log_ok_move:
  assumes "move lib db db'" "log_ok db"
  shows "log_ok db'"
  using assms
proof (cases rule: move.cases)
  case (new_conversation t who)
  have "filter (\<lambda>e. ev_thread_id e = t) (events db) = []"
    using assms(2) new_conversation(2) by (auto simp: log_ok_def find_conversation_def find_None filter_empty_conv)
  with assms(2) new_conversation(1) show ?thesis
    by (auto simp: log_ok_def new_conversation_def)
next
  case (event t v e)
  with assms(2) show ?thesis by (simp add: log_ok_event)
next
  case (conversation f t)
  with assms(2) show ?thesis by (auto simp: update_conversation_def intro: log_ok_conversations)
next
  case (claim t v r x oid l)
  with assms(2) show ?thesis
    by (auto simp: update_conversation_def update_run_def intro: log_ok_conversations)
qed (auto simp: table_updates set_marker_def markActivated_def insert_snapshot_def intro: log_ok_same_conversations)

lemma log_ok_reachable: "reachable lib db \<Longrightarrow> log_ok db"
  by (rule reachable_invariant [of lib]) (auto intro: log_ok_move, simp add: log_ok_def empty_db_def)

end
