(* ===== verification/Journal_Safety.thy ===== *)
theory Journal_Safety
  imports Journal_System
begin

text \<open>
  The invariants of reachable databases and the safety properties of the journal: who may write,
  what is dispatched, and what never changes again.
\<close>

section \<open>One live run, one owner\<close>

definition runs_ok :: "db \<Rightarrow> bool" where
  "runs_ok db =
     ((\<forall>x \<in> set (runs db). \<forall>y \<in> set (runs db).
         live (rn_state x) \<and> live (rn_state y) \<and> rn_thread_id x = rn_thread_id y \<longrightarrow> rn_id x = rn_id y) \<and>
      (\<forall>x \<in> set (runs db). 0 \<le> rn_owner_epoch x \<and> (rn_state x = RunRunning \<longrightarrow> 0 < rn_owner_epoch x) \<and>
         (0 < rn_owner_epoch x \<longrightarrow>
            (\<exists>v \<in> set (conversations db). cv_id v = rn_thread_id x \<and> rn_owner_epoch x \<le> cv_owner_epoch v))) \<and>
      (\<forall>v \<in> set (conversations db). 0 \<le> cv_owner_epoch v) \<and>
      (\<forall>x \<in> set (runs db). \<forall>y \<in> set (runs db).
         rn_thread_id x = rn_thread_id y \<and> rn_owner_epoch x = rn_owner_epoch y \<and> 0 < rn_owner_epoch x \<longrightarrow>
         rn_id x = rn_id y))"

lemma runs_okD:
  assumes "runs_ok db"
  shows "x \<in> set (runs db) \<Longrightarrow> y \<in> set (runs db) \<Longrightarrow> live (rn_state x) \<Longrightarrow> live (rn_state y) \<Longrightarrow>
      rn_thread_id x = rn_thread_id y \<Longrightarrow> rn_id x = rn_id y"
    and "x \<in> set (runs db) \<Longrightarrow> y \<in> set (runs db) \<Longrightarrow> rn_thread_id x = rn_thread_id y \<Longrightarrow>
      rn_owner_epoch x = rn_owner_epoch y \<Longrightarrow> 0 < rn_owner_epoch x \<Longrightarrow> rn_id x = rn_id y"
    and "x \<in> set (runs db) \<Longrightarrow> 0 \<le> rn_owner_epoch x"
    and "x \<in> set (runs db) \<Longrightarrow> rn_state x = RunRunning \<Longrightarrow> 0 < rn_owner_epoch x"
    and "x \<in> set (runs db) \<Longrightarrow> 0 < rn_owner_epoch x \<Longrightarrow>
      \<exists>v \<in> set (conversations db). cv_id v = rn_thread_id x \<and> rn_owner_epoch x \<le> cv_owner_epoch v"
    and "v \<in> set (conversations db) \<Longrightarrow> 0 \<le> cv_owner_epoch v"
  using assms unfolding runs_ok_def by blast+

lemma run_step_live: "run_step x y \<Longrightarrow> live (rn_state y) \<Longrightarrow> rn_state y = rn_state x"
  by (cases "rn_state x"; cases "rn_state y") (auto simp: run_step_def advances_def live_def)

lemma run_step_running: "run_step x y \<Longrightarrow> rn_state y = RunRunning \<Longrightarrow> rn_state x = RunRunning"
  by (auto simp: run_step_def advances_def)

lemma runs_ok_rows:
  assumes ok: "runs_ok db" and conv: "conversations db' = conversations db"
    and rows: "\<And>y. y \<in> set (runs db') \<Longrightarrow> \<exists>x \<in> set (runs db). run_step x y"
  shows "runs_ok db'"
proof -
  have orig: "\<exists>x' \<in> set (runs db). rn_id x = rn_id x' \<and> rn_thread_id x = rn_thread_id x' \<and>
      rn_owner_epoch x = rn_owner_epoch x' \<and> (live (rn_state x) \<longrightarrow> live (rn_state x'))"
    if "x \<in> set (runs db')" for x
  proof -
    from rows [OF that] obtain x' where x': "x' \<in> set (runs db)" "run_step x' x" by blast
    have "live (rn_state x')" if "live (rn_state x)"
      using run_step_live [OF x'(2) that] that by simp
    with x' show ?thesis by (intro bexI [of _ x']) (auto simp: run_step_def)
  qed
  have a: "rn_id x = rn_id y" if xy: "x \<in> set (runs db')" "y \<in> set (runs db')" and l: "live (rn_state x)" "live (rn_state y)"
    and t: "rn_thread_id x = rn_thread_id y" for x y
  proof -
    from orig [OF xy(1)] l(1) obtain x' where x': "x' \<in> set (runs db)" "rn_id x = rn_id x'"
      "rn_thread_id x = rn_thread_id x'" "live (rn_state x')" by blast
    from orig [OF xy(2)] l(2) obtain y' where y': "y' \<in> set (runs db)" "rn_id y = rn_id y'"
      "rn_thread_id y = rn_thread_id y'" "live (rn_state y')" by blast
    from runs_okD(1) [OF ok x'(1) y'(1) x'(4) y'(4)] x' y' t show ?thesis by simp
  qed
  have b: "rn_id x = rn_id y" if xy: "x \<in> set (runs db')" "y \<in> set (runs db')" and t: "rn_thread_id x = rn_thread_id y"
    and e: "rn_owner_epoch x = rn_owner_epoch y" "0 < rn_owner_epoch x" for x y
  proof -
    from orig [OF xy(1)] obtain x' where x': "x' \<in> set (runs db)" "rn_id x = rn_id x'"
      "rn_thread_id x = rn_thread_id x'" "rn_owner_epoch x = rn_owner_epoch x'" by blast
    from orig [OF xy(2)] obtain y' where y': "y' \<in> set (runs db)" "rn_id y = rn_id y'"
      "rn_thread_id y = rn_thread_id y'" "rn_owner_epoch y = rn_owner_epoch y'" by blast
    from runs_okD(2) [OF ok x'(1) y'(1)] x' y' t e show ?thesis by simp
  qed
  have c: "0 \<le> rn_owner_epoch x \<and> (rn_state x = RunRunning \<longrightarrow> 0 < rn_owner_epoch x) \<and>
         (0 < rn_owner_epoch x \<longrightarrow>
            (\<exists>v \<in> set (conversations db'). cv_id v = rn_thread_id x \<and> rn_owner_epoch x \<le> cv_owner_epoch v))"
    if x: "x \<in> set (runs db')" for x
  proof -
    from rows x obtain x' where x': "x' \<in> set (runs db)" "run_step x' x" by blast
    from x'(2) have "rn_owner_epoch x = rn_owner_epoch x'" "rn_thread_id x = rn_thread_id x'"
      by (simp_all add: run_step_def)
    moreover from x'(2) have "rn_state x = RunRunning \<longrightarrow> rn_state x' = RunRunning"
      using run_step_running by blast
    ultimately have "rn_owner_epoch x = rn_owner_epoch x'" "rn_thread_id x = rn_thread_id x'"
      "rn_state x = RunRunning \<longrightarrow> rn_state x' = RunRunning" by blast+
    with ok x'(1) show ?thesis unfolding runs_ok_def conv by simp
  qed
  from ok a b c show ?thesis unfolding runs_ok_def conv by blast
qed

lemma runs_ok_conversations:
  assumes ok: "runs_ok db" and rows: "runs db' = runs db"
    and conv: "\<And>v. v \<in> set (conversations db) \<Longrightarrow> \<exists>w \<in> set (conversations db'). cv_id w = cv_id v \<and> cv_owner_epoch v \<le> cv_owner_epoch w"
    and pos: "\<And>w. w \<in> set (conversations db') \<Longrightarrow> 0 \<le> cv_owner_epoch w"
  shows "runs_ok db'"
proof -
  have "\<exists>w \<in> set (conversations db'). cv_id w = rn_thread_id x \<and> rn_owner_epoch x \<le> cv_owner_epoch w"
    if "x \<in> set (runs db)" "0 < rn_owner_epoch x" for x
  proof -
    from ok that obtain v where "v \<in> set (conversations db)" "cv_id v = rn_thread_id x" "rn_owner_epoch x \<le> cv_owner_epoch v"
      unfolding runs_ok_def by blast
    with conv show ?thesis by (metis order_trans)
  qed
  with ok pos show ?thesis unfolding runs_ok_def rows by blast
qed

lemma update_conversation_rows:
  assumes "\<And>c. cv_id (f c) = cv_id c \<and> cv_owner_epoch c \<le> cv_owner_epoch (f c)" "v \<in> set (conversations db)"
  shows "\<exists>w \<in> set (conversations (update_conversation t f db)). cv_id w = cv_id v \<and> cv_owner_epoch v \<le> cv_owner_epoch w"
proof
  show "(if cv_id v = t then f v else v) \<in> set (conversations (update_conversation t f db))"
    using assms(2) by (auto simp: update_conversation_def in_update_where)
qed (use assms(1) in auto)

lemma keys_conversation_unique:
  "keys_ok db \<Longrightarrow> x \<in> set (conversations db) \<Longrightarrow> y \<in> set (conversations db) \<Longrightarrow> cv_id x = cv_id y \<Longrightarrow> x = y"
  unfolding keys_ok_def by (meson distinct_map inj_onD)

lemma runs_ok_claim:
  assumes ok: "runs_ok db" and keys: "keys_ok db" and v: "find_conversation t db = Some v"
    and x: "find_run t r db = Some x" "rn_state x = RunPending"
  shows "runs_ok (update_run t r (\<lambda>x. x\<lparr>rn_state := RunRunning, rn_owner_id := oid, rn_owner_epoch := cv_owner_epoch v + 1,
             rn_lease_until := l\<rparr>) (update_conversation t (\<lambda>v. v\<lparr>cv_owner_epoch := cv_owner_epoch v + 1\<rparr>) db))"
    (is "runs_ok ?db'")
proof -
  let ?g = "\<lambda>x. x\<lparr>rn_state := RunRunning, rn_owner_id := oid, rn_owner_epoch := cv_owner_epoch v + 1, rn_lease_until := l\<rparr>"
  let ?db1 = "update_conversation t (\<lambda>v. v\<lparr>cv_owner_epoch := cv_owner_epoch v + 1\<rparr>) db"
  note v' = find_conversation_ok [OF v] and x' = find_run_ok [OF x(1)]
  have ok1: "runs_ok ?db1"
  proof (rule runs_ok_conversations [OF ok])
    show "\<exists>w \<in> set (conversations ?db1). cv_id w = cv_id u \<and> cv_owner_epoch u \<le> cv_owner_epoch w"
      if "u \<in> set (conversations db)" for u
      by (rule update_conversation_rows [OF _ that]) simp
    show "0 \<le> cv_owner_epoch w" if "w \<in> set (conversations ?db1)" for w
      using that ok by (fastforce simp: update_conversation_def in_update_where runs_ok_def)
  qed simp
  have top: "v\<lparr>cv_owner_epoch := cv_owner_epoch v + 1\<rparr> \<in> set (conversations ?db1)"
    using v' by (auto simp: update_conversation_def in_update_where)
  have below: "rn_owner_epoch y \<le> cv_owner_epoch v" if "y \<in> set (runs db)" "rn_thread_id y = t" for y
  proof (cases "0 < rn_owner_epoch y")
    case True
    with ok that obtain w where "w \<in> set (conversations db)" "cv_id w = t" "rn_owner_epoch y \<le> cv_owner_epoch w"
      unfolding runs_ok_def by blast
    with keys_conversation_unique [OF keys _ , of w v] v' show ?thesis by simp
  next
    case False
    with ok v' show ?thesis unfolding runs_ok_def by (meson linorder_not_less order_trans)
  qed
  have rows: "y \<in> set (runs ?db') \<longleftrightarrow> y = ?g x \<or> y \<in> set (runs db) \<and> y \<noteq> x" for y
  proof -
    have "(rn_thread_id z = t \<and> rn_id z = r) = (z = x)" if "z \<in> set (runs db)" for z
      using keys_find_run [OF keys x(1) that] x' by auto
    then show ?thesis using x' by (auto simp: update_run_def in_update_where)
  qed
  have pos: "0 \<le> cv_owner_epoch v" using ok v' unfolding runs_ok_def by blast
  have conv: "conversations ?db' = conversations ?db1" by simp
  have other: "\<not> live (rn_state y) \<and> rn_owner_epoch y \<le> cv_owner_epoch v"
    if "y \<in> set (runs db)" "y \<noteq> x" "rn_thread_id y = t" for y
  proof -
    have "rn_id y \<noteq> rn_id x" using keys_run_unique [OF keys that(1), of x] x' that(2) by blast
    with ok that(1,3) x' x(2) have "\<not> live (rn_state y)" unfolding runs_ok_def by (metis live_def)
    with below that show ?thesis by blast
  qed
  have gx: "rn_id (?g x) = rn_id x" "rn_thread_id (?g x) = t" using x' by simp_all
  show ?thesis
    unfolding runs_ok_def conv
  proof (intro conjI ballI impI)
    fix a b
    assume ab: "a \<in> set (runs ?db')" "b \<in> set (runs ?db')"
      and l: "live (rn_state a) \<and> live (rn_state b) \<and> rn_thread_id a = rn_thread_id b"
    consider "a = ?g x" "b = ?g x" | "a = ?g x" "b \<in> set (runs db)" "b \<noteq> x"
      | "b = ?g x" "a \<in> set (runs db)" "a \<noteq> x" | "a \<in> set (runs db)" "b \<in> set (runs db)"
      using ab unfolding rows by blast
    then show "rn_id a = rn_id b"
      using l other gx runs_okD(1) [OF ok, of a b] by cases auto
  next
    fix a b
    assume ab: "a \<in> set (runs ?db')" "b \<in> set (runs ?db')"
      and e: "rn_thread_id a = rn_thread_id b \<and> rn_owner_epoch a = rn_owner_epoch b \<and> 0 < rn_owner_epoch a"
    have new: "rn_owner_epoch (?g x) = cv_owner_epoch v + 1" by simp
    consider "a = ?g x" "b = ?g x" | "a = ?g x" "b \<in> set (runs db)" "b \<noteq> x"
      | "b = ?g x" "a \<in> set (runs db)" "a \<noteq> x" | "a \<in> set (runs db)" "b \<in> set (runs db)"
      using ab unfolding rows by blast
    then show "rn_id a = rn_id b"
    proof cases
      case 2
      with other [of b] e gx new have "cv_owner_epoch v + 1 \<le> cv_owner_epoch v" by simp
      then show ?thesis by simp
    next
      case 3
      with other [of a] e gx new have "cv_owner_epoch v + 1 \<le> cv_owner_epoch v" by simp
      then show ?thesis by simp
    qed (use runs_okD(2) [OF ok, of a b] e in auto)
  next
    fix a
    assume a: "a \<in> set (runs ?db')"
    then show "0 \<le> rn_owner_epoch a" "rn_state a = RunRunning \<Longrightarrow> 0 < rn_owner_epoch a"
      using pos runs_okD(3,4) [OF ok, of a] unfolding rows by auto
    assume "0 < rn_owner_epoch a"
    then show "\<exists>v \<in> set (conversations ?db1). cv_id v = rn_thread_id a \<and> rn_owner_epoch a \<le> cv_owner_epoch v"
      using a runs_okD(5) [OF ok1, of a] bexI [OF _ top, of "\<lambda>w. cv_id w = rn_thread_id a \<and> rn_owner_epoch a \<le> cv_owner_epoch w"]
        gx v' unfolding rows by auto
  next
    fix w
    assume "w \<in> set (conversations ?db1)"
    then show "0 \<le> cv_owner_epoch w" by (rule runs_okD(6) [OF ok1])
  qed
qed

lemma runs_ok_same:
  "runs_ok db \<Longrightarrow> runs db' = runs db \<Longrightarrow> conversations db' = conversations db \<Longrightarrow> runs_ok db'"
  by (simp only: runs_ok_def)

lemma runs_ok_move:
  assumes "move lib db db'" "keys_ok db" "runs_ok db"
  shows "runs_ok db'"
  using assms(1)
proof (cases rule: move.cases)
  case (new_conversation t who)
  show ?thesis
  proof (rule runs_ok_conversations [OF assms(3)])
    show "0 \<le> cv_owner_epoch w" if "w \<in> set (conversations db')" for w
      using that new_conversation(1) runs_okD(6) [OF assms(3), of w] by (auto simp: new_conversation_def)
    show "\<exists>w \<in> set (conversations db'). cv_id w = cv_id u \<and> cv_owner_epoch u \<le> cv_owner_epoch w"
      if "u \<in> set (conversations db)" for u
      using that new_conversation(1) by (intro bexI [of _ u]) simp_all
  qed (simp add: new_conversation(1))
next
  case (event t v e)
  let ?f = "\<lambda>c. c\<lparr>cv_sequence := cv_sequence c + 1\<rparr>"
  have conv: "conversations db' = conversations (update_conversation t ?f db)"
    by (simp add: event(1) add_event_def)
  show ?thesis
  proof (rule runs_ok_conversations [OF assms(3)])
    show "0 \<le> cv_owner_epoch w" if "w \<in> set (conversations db')" for w
      using that runs_okD(6) [OF assms(3)] unfolding conv update_conversation_def by (auto simp: in_update_where)
    show "\<exists>w \<in> set (conversations db'). cv_id w = cv_id u \<and> cv_owner_epoch u \<le> cv_owner_epoch w"
      if "u \<in> set (conversations db)" for u
      unfolding conv by (rule update_conversation_rows [OF _ that]) simp
  qed (simp add: event(1))
next
  case (conversation f t)
  show ?thesis
  proof (rule runs_ok_conversations [OF assms(3)])
    show "0 \<le> cv_owner_epoch w" if "w \<in> set (conversations db')" for w
      using that runs_okD(6) [OF assms(3)] conversation by (auto simp: update_conversation_def in_update_where)
    show "\<exists>w \<in> set (conversations db'). cv_id w = cv_id u \<and> cv_owner_epoch u \<le> cv_owner_epoch w"
      if "u \<in> set (conversations db)" for u
      unfolding conversation(1) by (rule update_conversation_rows [OF _ that]) (simp add: conversation(2))
  qed (simp add: conversation(1))
next
  case (claim t v r x oid l)
  with runs_ok_claim [OF assms(3,2)] show ?thesis by blast
next
  case (new_run row)
  have rs: "x \<in> set (runs db') \<longleftrightarrow> x \<in> set (runs db) \<or> x = row" for x by (auto simp: new_run(1))
  have cv: "conversations db' = conversations db" by (simp add: new_run(1))
  have old: "\<not> (live (rn_state x) \<and> rn_thread_id x = rn_thread_id row)" if "x \<in> set (runs db)" for x
    using new_run(2) that by blast
  show ?thesis
    unfolding runs_ok_def cv
  proof (intro conjI ballI impI)
    fix x y
    assume "x \<in> set (runs db')" "y \<in> set (runs db')"
      "live (rn_state x) \<and> live (rn_state y) \<and> rn_thread_id x = rn_thread_id y"
    then show "rn_id x = rn_id y"
      unfolding rs using old [of x] old [of y] runs_okD(1) [OF assms(3), of x y] by auto
  next
    fix x y
    assume "x \<in> set (runs db')" "y \<in> set (runs db')"
      "rn_thread_id x = rn_thread_id y \<and> rn_owner_epoch x = rn_owner_epoch y \<and> 0 < rn_owner_epoch x"
    then show "rn_id x = rn_id y"
      unfolding rs using new_run(4) runs_okD(2) [OF assms(3), of x y] by auto
  next
    fix x
    assume x: "x \<in> set (runs db')"
    then show "0 \<le> rn_owner_epoch x" "rn_state x = RunRunning \<Longrightarrow> 0 < rn_owner_epoch x"
      "0 < rn_owner_epoch x \<Longrightarrow> \<exists>v \<in> set (conversations db). cv_id v = rn_thread_id x \<and> rn_owner_epoch x \<le> cv_owner_epoch v"
      unfolding rs using new_run(3,4) runs_okD(3-5) [OF assms(3), of x] by auto
  next
    fix v
    assume "v \<in> set (conversations db)"
    then show "0 \<le> cv_owner_epoch v" by (rule runs_okD(6) [OF assms(3)])
  qed
next
  case (run t r f)
  show ?thesis
  proof (rule runs_ok_rows [OF assms(3)])
    fix y
    assume "y \<in> set (runs db')"
    then obtain x where "x \<in> set (runs db)" "y = (if rn_thread_id x = t \<and> rn_id x = r then f x else x)"
      using run(1) by (auto simp: update_run_def in_update_where)
    with run(2) show "\<exists>x \<in> set (runs db). run_step x y" by (metis run_step_refl)
  qed (simp add: run(1))
qed (use assms(3) in \<open>auto simp: table_updates set_marker_def markActivated_def insert_snapshot_def
      intro: runs_ok_same\<close>)

lemma runs_ok_reachable: "reachable lib db \<Longrightarrow> runs_ok db"
  by (rule reachable_invariant [of lib]) (auto intro: runs_ok_move, simp add: runs_ok_def empty_db_def)

end
