(* ===== verification/Journal_Approvals.thy ===== *)
theory Journal_Approvals
  imports Journal_System
begin

text \<open>
  Approvals and calls in reachable databases: what an approval is bound to, that a call that
  needs an approval has one that was given for exactly this call, and how often a call is sent.
\<close>

section \<open>Rows that stay\<close>

lemma in_update_whereI: "x \<in> set xs \<Longrightarrow> (if p x then f x else x) \<in> set (update_where p f xs)"
  by (auto simp: in_update_where)

definition conversation_kept :: "db \<Rightarrow> db \<Rightarrow> bool" where
  "conversation_kept db db' =
     (\<forall>v \<in> set (conversations db). \<exists>w \<in> set (conversations db'). cv_id w = cv_id v \<and> cv_principal w = cv_principal v)"

lemma conversation_kept_same: "conversations db' = conversations db \<Longrightarrow> conversation_kept db db'"
  by (auto simp: conversation_kept_def)

lemma conversation_kept_update:
  assumes "\<And>c. cv_id (f c) = cv_id c \<and> cv_principal (f c) = cv_principal c"
    "conversations db' = update_where p f (conversations db)"
  shows "conversation_kept db db'"
  unfolding conversation_kept_def assms(2)
proof
  fix v
  assume "v \<in> set (conversations db)"
  from in_update_whereI [OF this, of p f]
  show "\<exists>w \<in> set (update_where p f (conversations db)). cv_id w = cv_id v \<and> cv_principal w = cv_principal v"
    by (rule bexI [rotated]) (simp add: assms(1))
qed

lemma conversation_kept_move: "move lib db db' \<Longrightarrow> conversation_kept db db'"
proof (induction rule: move.induct)
  case (new_conversation t db who)
  then show ?case by (auto simp: conversation_kept_def)
next
  case (event t db v e)
  show ?case
    by (rule conversation_kept_update [of "\<lambda>c. c\<lparr>cv_sequence := cv_sequence c + 1\<rparr>" _ "\<lambda>c. cv_id c = t"])
       (simp_all add: add_event_def update_conversation_def)
next
  case (conversation f db t)
  then show ?case
    by (intro conversation_kept_update [of f _ "\<lambda>c. cv_id c = t"]) (simp_all add: update_conversation_def)
next
  case (claim t db v r x oid l)
  show ?case
    by (rule conversation_kept_update [of "\<lambda>c. c\<lparr>cv_owner_epoch := cv_owner_epoch c + 1\<rparr>" _ "\<lambda>c. cv_id c = t"])
       (simp_all add: update_run_def update_conversation_def)
qed (auto intro!: conversation_kept_same simp: table_updates set_marker_def markActivated_def insert_snapshot_def)

section \<open>Interactions\<close>

definition one_pending :: "db \<Rightarrow> bool" where
  "one_pending db =
     (\<forall>i \<in> set (interactions db). \<forall>j \<in> set (interactions db).
        ia_state i = IPending \<and> ia_state j = IPending \<and> ia_thread_id i = ia_thread_id j \<longrightarrow> ia_id i = ia_id j)"

text \<open>The marker of an approval follows its state; a clarification has none.\<close>

definition marker_ok :: "interaction_row \<Rightarrow> bool" where
  "marker_ok i =
     (if ia_kind i = ''approval'' then
        (case ia_marker i of
           None \<Rightarrow> False
         | Some Requested \<Rightarrow> ia_state i = IPending
         | Some Denied \<Rightarrow> ia_state i \<noteq> IPending
         | Some _ \<Rightarrow> ia_state i = IConsumed \<and> approved i)
      else ia_marker i = None)"

definition bound :: "libs \<Rightarrow> db \<Rightarrow> interaction_row \<Rightarrow> bool" where
  "bound lib db i =
     (\<exists>v \<in> set (conversations db). cv_id v = ia_thread_id i \<and>
        BindCall lib (row_binding i (cv_principal v)) = Inr (pc_Binding (i_Call (ia_artifact i))))"

definition interactions_ok :: "libs \<Rightarrow> db \<Rightarrow> bool" where
  "interactions_ok lib db =
     (\<forall>i \<in> set (interactions db). marker_ok i \<and> (ia_kind i = ''approval'' \<longrightarrow> bound lib db i))"

lemma marker_ok_step:
  assumes "interaction_step i j" "marker_ok i"
  shows "marker_ok j"
proof -
  have k: "ia_kind j = ia_kind i" using interaction_core_same [OF interaction_step_core [OF assms(1)]] by simp
  have a: "approved (i\<lparr>ia_marker := m\<rparr>) = approved i" for m by (simp add: approved_def)
  show ?thesis
    using assms k a by (auto simp: interaction_step_def marker_ok_def split: if_splits)
qed

lemma row_binding_core:
  "interaction_core j = interaction_core i \<Longrightarrow> row_binding j who = row_binding i who"
  using interaction_core_same [of j i] by (simp add: row_binding_def)

lemma bound_kept:
  assumes "bound lib db i" "conversation_kept db db'" "interaction_core j = interaction_core i"
  shows "bound lib db' j"
proof -
  from assms(1) obtain v where v: "v \<in> set (conversations db)" "cv_id v = ia_thread_id i"
    "BindCall lib (row_binding i (cv_principal v)) = Inr (pc_Binding (i_Call (ia_artifact i)))"
    by (auto simp: bound_def)
  from assms(2) v(1) obtain w where w: "w \<in> set (conversations db')" "cv_id w = cv_id v" "cv_principal w = cv_principal v"
    by (auto simp: conversation_kept_def)
  show ?thesis
    unfolding bound_def
  proof (rule bexI [OF _ w(1)])
    show "cv_id w = ia_thread_id j \<and>
        BindCall lib (row_binding j (cv_principal w)) = Inr (pc_Binding (i_Call (ia_artifact j)))"
      using v w interaction_core_same [OF assms(3)] row_binding_core [OF assms(3)] by simp
  qed
qed

lemma interactions_ok_same:
  assumes "interactions_ok lib db" "move lib db db'" "interactions db' = interactions db"
  shows "interactions_ok lib db'"
  using assms bound_kept [OF _ conversation_kept_move [OF assms(2)]] by (auto simp: interactions_ok_def)

lemma interactions_ok_move:
  assumes mv: "move lib db db'" and keys: "keys_ok db" and ok: "interactions_ok lib db"
  shows "interactions_ok lib db'"
  using mv
proof (cases rule: move.cases)
  case (new_interaction row)
  have "marker_ok row \<and> (ia_kind row = ''approval'' \<longrightarrow> bound lib db' row)"
    using new_interaction(1,3) find_conversation_ok
    by (auto simp: new_interaction_ok_def marker_ok_def bound_def)
  moreover have "marker_ok i \<and> (ia_kind i = ''approval'' \<longrightarrow> bound lib db' i)" if "i \<in> set (interactions db)" for i
    using ok that bound_kept [OF _ conversation_kept_move [OF mv] refl, of lib i] by (auto simp: interactions_ok_def)
  ultimately show ?thesis using new_interaction(1) by (auto simp: interactions_ok_def)
next
  case (interaction p f)
  show ?thesis
    unfolding interactions_ok_def
  proof
    fix j
    assume "j \<in> set (interactions db')"
    then obtain i where i: "i \<in> set (interactions db)" "j = (if p i then f i else i)"
      using interaction(1) by (auto simp: update_interactions_def in_update_where)
    have "marker_ok j \<and> interaction_core j = interaction_core i"
      using interaction(2) i ok by (auto simp: interactions_ok_def intro: marker_ok_step interaction_step_core)
    moreover from this have "ia_kind j = ia_kind i" using interaction_core_same by blast
    ultimately show "marker_ok j \<and> (ia_kind j = ''approval'' \<longrightarrow> bound lib db' j)"
      using ok i(1) bound_kept [OF _ conversation_kept_move [OF mv]] by (auto simp: interactions_ok_def)
  qed
next
  case (dispatch_approved x i)
  show ?thesis
    unfolding interactions_ok_def
  proof
    fix j
    assume "j \<in> set (interactions db')"
    then obtain k where k: "k \<in> set (interactions db)"
      "j = (if ia_id k = ia_id i \<and> ia_thread_id k = ia_thread_id i then k\<lparr>ia_marker := Some Dispatched\<rparr> else k)"
      using dispatch_approved(1) by (auto simp: set_marker_def update_interactions_def in_update_where)
    have core: "interaction_core j = interaction_core k" using k(2) by (simp add: interaction_core_def)
    have "marker_ok j"
    proof (cases "ia_id k = ia_id i")
      case True
      with keys_interaction_unique [OF keys k(1) dispatch_approved(6)] have "k = i" by simp
      with k(2) dispatch_approved(7) show ?thesis
        by (simp add: marker_ok_def approves_call_def approved_def)
    next
      case False
      with k ok show ?thesis by (simp add: interactions_ok_def)
    qed
    moreover have "ia_kind j = ia_kind k" using core interaction_core_same by blast
    ultimately show "marker_ok j \<and> (ia_kind j = ''approval'' \<longrightarrow> bound lib db' j)"
      using ok k(1) bound_kept [OF _ conversation_kept_move [OF mv] core] by (auto simp: interactions_ok_def)
  qed
qed (rule interactions_ok_same [OF ok mv], simp add: table_updates add_event_def markActivated_def insert_snapshot_def)+

lemma one_pending_same: "one_pending db \<Longrightarrow> interactions db' = interactions db \<Longrightarrow> one_pending db'"
  by (simp only: one_pending_def)

lemma one_pending_move:
  assumes mv: "move lib db db'" and ok: "one_pending db"
  shows "one_pending db'"
  using mv
proof (cases rule: move.cases)
  case (new_interaction row)
  have new: "ia_state i = IPending \<Longrightarrow> ia_thread_id i \<noteq> ia_thread_id row" if "i \<in> set (interactions db)" for i
    using new_interaction(2) that by blast
  show ?thesis
    unfolding one_pending_def
  proof (intro ballI impI)
    fix i j
    assume ij: "i \<in> set (interactions db')" "j \<in> set (interactions db')"
      and p: "ia_state i = IPending \<and> ia_state j = IPending \<and> ia_thread_id i = ia_thread_id j"
    have "i \<in> set (interactions db) \<and> j \<in> set (interactions db) \<or> i = row \<and> j = row"
      using ij p new [of i] new [of j] by (auto simp: new_interaction(1))
    with ok p show "ia_id i = ia_id j" unfolding one_pending_def by blast
  qed
next
  case (interaction p f)
  have orig: "\<exists>i \<in> set (interactions db). ia_id i = ia_id j \<and> ia_thread_id i = ia_thread_id j \<and> ia_state i = IPending"
    if "j \<in> set (interactions db')" "ia_state j = IPending" for j
  proof -
    from that(1) obtain i where i: "i \<in> set (interactions db)" "j = (if p i then f i else i)"
      using interaction(1) by (auto simp: update_interactions_def in_update_where)
    have "\<not> p i \<or> ia_marker i = Some Decided \<and> f i = i\<lparr>ia_marker := Some Superseded\<rparr>"
      using interaction(2) i that(2) by (auto simp: interaction_step_def)
    with i that(2) show ?thesis by (intro bexI [OF _ i(1)]) (auto split: if_splits)
  qed
  show ?thesis
    unfolding one_pending_def
  proof (intro ballI impI)
    fix i j
    assume ij: "i \<in> set (interactions db')" "j \<in> set (interactions db')"
      and p: "ia_state i = IPending \<and> ia_state j = IPending \<and> ia_thread_id i = ia_thread_id j"
    from orig [OF ij(1)] p obtain i' where "i' \<in> set (interactions db)" "ia_id i' = ia_id i"
      "ia_thread_id i' = ia_thread_id i" "ia_state i' = IPending" by blast
    moreover from orig [OF ij(2)] p obtain j' where "j' \<in> set (interactions db)" "ia_id j' = ia_id j"
      "ia_thread_id j' = ia_thread_id j" "ia_state j' = IPending" by blast
    ultimately show "ia_id i = ia_id j" using ok p unfolding one_pending_def by metis
  qed
next
  case (dispatch_approved x i)
  have "\<exists>k \<in> set (interactions db). ia_id k = ia_id j \<and> ia_thread_id k = ia_thread_id j \<and> ia_state k = ia_state j"
    if "j \<in> set (interactions db')" for j
    using that dispatch_approved(1) by (auto simp: set_marker_def update_interactions_def in_update_where)
  then show ?thesis using ok unfolding one_pending_def by (metis (no_types))
qed (rule one_pending_same [OF ok], simp add: table_updates add_event_def markActivated_def insert_snapshot_def)+

lemma interactions_ok_reachable: "reachable lib db \<Longrightarrow> interactions_ok lib db"
  by (rule reachable_invariant [of lib]) (auto intro: interactions_ok_move, simp add: interactions_ok_def empty_db_def)

lemma one_pending_reachable: "reachable lib db \<Longrightarrow> one_pending db"
  by (rule reachable_invariant [of lib]) (auto intro: one_pending_move, simp add: one_pending_def empty_db_def)

section \<open>Calls\<close>

definition call_bound :: "libs \<Rightarrow> db \<Rightarrow> operation_row \<Rightarrow> bool" where
  "call_bound lib db x =
     (\<exists>v b. v \<in> set (conversations db) \<and> cv_id v = op_thread_id x \<and> BindCall lib b = Inr (op_binding x) \<and>
        cb_OperationKey b = op_operation_key x \<and> cb_Arguments b = op_arguments x \<and>
        cb_Conversation b = op_thread_id x \<and> cb_Principal b = cv_principal v)"

definition call_ok :: "libs \<Rightarrow> db \<Rightarrow> operation_row \<Rightarrow> bool" where
  "call_ok lib db x =
     (call_bound lib db x \<and> (op_policy x \<noteq> ''read_only'' \<longrightarrow> op_requires_approval x) \<and>
      (op_requires_approval x \<longrightarrow>
         (\<exists>i \<in> set (interactions db). approves_call i x \<and> ia_marker i = Some Dispatched)))"

definition calls_ok :: "libs \<Rightarrow> db \<Rightarrow> bool" where
  "calls_ok lib db = (\<forall>x \<in> set (operations db). call_ok lib db x)"

text \<open>Interactions that were dispatched stay as they are.\<close>

definition dispatched_kept :: "db \<Rightarrow> db \<Rightarrow> bool" where
  "dispatched_kept db db' =
     (\<forall>i \<in> set (interactions db). ia_marker i = Some Dispatched \<longrightarrow> ia_state i = IConsumed \<longrightarrow> i \<in> set (interactions db'))"

lemma dispatched_kept_move: "move lib db db' \<Longrightarrow> dispatched_kept db db'"
proof (induction rule: move.induct)
  case (interaction db p f)
  show ?case
    unfolding dispatched_kept_def
  proof (intro ballI impI)
    fix i
    assume i: "i \<in> set (interactions db)" "ia_marker i = Some Dispatched" "ia_state i = IConsumed"
    with interaction have "\<not> p i" by (auto simp: interaction_step_def)
    then show "i \<in> set (interactions (update_interactions p f db))"
      using in_update_whereI [OF i(1), of p f] by (simp add: update_interactions_def)
  qed
next
  case (dispatch_approved db x k)
  show ?case
    unfolding dispatched_kept_def
  proof (intro ballI impI)
    fix i
    assume i: "i \<in> set (interactions db)" "ia_marker i = Some Dispatched" "ia_state i = IConsumed"
    then have "i\<lparr>ia_marker := Some Dispatched\<rparr> = i" by simp
    then show "i \<in> set (interactions ((set_marker (ia_thread_id k) (ia_id k) Dispatched db)
        \<lparr>operations := operations db @ [x], attempts := attempts db @ [first_attempt_row (op_call_id x) 1]\<rparr>))"
      using in_update_whereI [OF i(1), of "\<lambda>j. ia_id j = ia_id k \<and> ia_thread_id j = ia_thread_id k"
          "\<lambda>j. j\<lparr>ia_marker := Some Dispatched\<rparr>"]
      by (auto simp: set_marker_def update_interactions_def split: if_splits)
  qed
qed (auto simp: dispatched_kept_def table_updates add_event_def markActivated_def insert_snapshot_def)

lemma call_bound_kept:
  assumes "call_bound lib db x" "conversation_kept db db'"
  shows "call_bound lib db' (x\<lparr>op_outcome := s\<rparr>)" "call_bound lib db' x"
proof -
  from assms(1) obtain v b where v: "v \<in> set (conversations db)" "cv_id v = op_thread_id x"
    "BindCall lib b = Inr (op_binding x)" "cb_OperationKey b = op_operation_key x" "cb_Arguments b = op_arguments x"
    "cb_Conversation b = op_thread_id x" "cb_Principal b = cv_principal v"
    unfolding call_bound_def by blast
  from assms(2) v(1) obtain w where w: "w \<in> set (conversations db')" "cv_id w = cv_id v" "cv_principal w = cv_principal v"
    by (auto simp: conversation_kept_def)
  show "call_bound lib db' (x\<lparr>op_outcome := s\<rparr>)" "call_bound lib db' x"
    unfolding call_bound_def using v w by (auto intro!: exI [of _ w] exI [of _ b])
qed

lemma call_ok_kept:
  assumes "call_ok lib db x" "conversation_kept db db'" "dispatched_kept db db'"
  shows "call_ok lib db' (x\<lparr>op_outcome := s\<rparr>)" "call_ok lib db' x"
proof -
  have a: "\<exists>i \<in> set (interactions db'). approves_call i x \<and> ia_marker i = Some Dispatched" if "op_requires_approval x"
    using assms(1,3) that unfolding call_ok_def dispatched_kept_def approves_call_def by blast
  have b: "approves_call i (x\<lparr>op_outcome := s\<rparr>) = approves_call i x" for i by (simp add: approves_call_def)
  show "call_ok lib db' (x\<lparr>op_outcome := s\<rparr>)" "call_ok lib db' x"
    using assms(1) a b call_bound_kept [OF _ assms(2)] by (auto simp: call_ok_def)
qed

lemma calls_ok_rows:
  assumes mv: "move lib db db'" and ok: "calls_ok lib db"
    and rows: "\<And>y. y \<in> set (operations db') \<Longrightarrow> call_ok lib db' y \<or>
      (\<exists>x \<in> set (operations db). y = x \<or> (\<exists>s. y = x\<lparr>op_outcome := s\<rparr>))"
  shows "calls_ok lib db'"
  unfolding calls_ok_def
proof
  fix y
  assume "y \<in> set (operations db')"
  from rows [OF this] ok call_ok_kept [OF _ conversation_kept_move [OF mv] dispatched_kept_move [OF mv]]
  show "call_ok lib db' y" by (auto simp: calls_ok_def)
qed

lemma calls_ok_outcome:
  assumes mv: "move lib db db'" and ok: "calls_ok lib db"
    and rows: "operations db' = update_where p (\<lambda>y. y\<lparr>op_outcome := s\<rparr>) (operations db)"
  shows "calls_ok lib db'"
proof (rule calls_ok_rows [OF mv ok])
  fix y
  assume "y \<in> set (operations db')"
  then obtain x where x: "x \<in> set (operations db)" "y = (if p x then x\<lparr>op_outcome := s\<rparr> else x)"
    by (auto simp: rows in_update_where)
  then have "y = x \<or> (\<exists>s. y = x\<lparr>op_outcome := s\<rparr>)" by auto
  with x(1) show "call_ok lib db' y \<or> (\<exists>x \<in> set (operations db). y = x \<or> (\<exists>s. y = x\<lparr>op_outcome := s\<rparr>))" by blast
qed

lemma new_call_bound:
  assumes "new_operation_ok lib db x"
  shows "call_bound lib db x \<and> (op_policy x \<noteq> ''read_only'' \<longrightarrow> op_requires_approval x)"
proof -
  from assms obtain v b where "find_conversation (op_thread_id x) db = Some v" "BindCall lib b = Inr (op_binding x)"
    "cb_OperationKey b = op_operation_key x" "cb_Arguments b = op_arguments x"
    "cb_Conversation b = op_thread_id x" "cb_Principal b = cv_principal v"
    unfolding new_operation_ok_def by blast
  with assms find_conversation_ok show ?thesis unfolding call_bound_def new_operation_ok_def by blast
qed

lemma calls_ok_move:
  assumes mv: "move lib db db'" and ok: "calls_ok lib db"
  shows "calls_ok lib db'"
  using mv
proof (cases rule: move.cases)
  case (dispatch x)
  have "call_ok lib db' x"
    using new_call_bound [OF dispatch(4)] call_bound_kept(2) [OF _ conversation_kept_move [OF mv], of lib x] dispatch(5)
    by (simp add: call_ok_def)
  then show ?thesis by (intro calls_ok_rows [OF mv ok]) (auto simp: dispatch(1))
next
  case (dispatch_approved x i)
  have "i\<lparr>ia_marker := Some Dispatched\<rparr> \<in> set (interactions db')"
    using in_update_whereI [OF dispatch_approved(6), of "\<lambda>j. ia_id j = ia_id i \<and> ia_thread_id j = ia_thread_id i"
        "\<lambda>j. j\<lparr>ia_marker := Some Dispatched\<rparr>"] dispatch_approved(1)
    by (simp add: set_marker_def update_interactions_def)
  moreover have "approves_call (i\<lparr>ia_marker := Some Dispatched\<rparr>) x"
    using dispatch_approved(7) by (simp add: approves_call_def approved_def)
  ultimately have "call_ok lib db' x"
    using new_call_bound [OF dispatch_approved(4)] call_bound_kept(2) [OF _ conversation_kept_move [OF mv], of lib x]
      bexI [of "\<lambda>i. approves_call i x \<and> ia_marker i = Some Dispatched" "i\<lparr>ia_marker := Some Dispatched\<rparr>"]
    by (auto simp: call_ok_def)
  then show ?thesis by (intro calls_ok_rows [OF mv ok]) (auto simp: dispatch_approved(1))
next
  case (retry x)
  show ?thesis by (rule calls_ok_outcome [OF mv ok]) (simp add: retry(1) update_operations_def)
next
  case (outcome p s)
  show ?thesis by (rule calls_ok_outcome [OF mv ok]) (simp add: outcome(1) update_operations_def)
qed (rule calls_ok_rows [OF mv ok], force simp: table_updates add_event_def markActivated_def insert_snapshot_def)+

lemma calls_ok_reachable: "reachable lib db \<Longrightarrow> calls_ok lib db"
  by (rule reachable_invariant [of lib]) (auto intro: calls_ok_move, simp add: calls_ok_def empty_db_def)

section \<open>Attempts\<close>

definition attempt_ok :: "db \<Rightarrow> attempt_row \<Rightarrow> bool" where
  "attempt_ok db a =
     ((at_attempt a = 1 \<or> at_attempt a = 2) \<and>
      (\<exists>x \<in> set (operations db). op_call_id x = at_call_id a \<and> (at_attempt a = 2 \<longrightarrow> op_policy x \<noteq> ''effectful'')))"

definition attempts_ok :: "db \<Rightarrow> bool" where
  "attempts_ok db = (\<forall>a \<in> set (attempts db). attempt_ok db a)"

definition calls_kept :: "db \<Rightarrow> db \<Rightarrow> bool" where
  "calls_kept db db' =
     (\<forall>x \<in> set (operations db). \<exists>y \<in> set (operations db'). op_call_id y = op_call_id x \<and> op_policy y = op_policy x \<and>
        op_thread_id y = op_thread_id x \<and> op_binding y = op_binding x \<and> op_arguments y = op_arguments x)"

lemma calls_kept_update:
  assumes "operations db' = update_where p (\<lambda>y. y\<lparr>op_outcome := s\<rparr>) (operations db)"
  shows "calls_kept db db'"
  unfolding calls_kept_def assms
proof
  fix x
  assume "x \<in> set (operations db)"
  from in_update_whereI [OF this, of p "\<lambda>y. y\<lparr>op_outcome := s\<rparr>"]
  show "\<exists>y \<in> set (update_where p (\<lambda>y. y\<lparr>op_outcome := s\<rparr>) (operations db)). op_call_id y = op_call_id x \<and>
      op_policy y = op_policy x \<and> op_thread_id y = op_thread_id x \<and> op_binding y = op_binding x \<and>
      op_arguments y = op_arguments x"
    by (rule bexI [rotated]) simp
qed

lemma calls_kept_move: "move lib db db' \<Longrightarrow> calls_kept db db'"
  by (induction rule: move.induct)
     (auto intro: calls_kept_update simp: table_updates set_marker_def markActivated_def insert_snapshot_def
       add_event_def, auto simp: calls_kept_def)

lemma attempt_ok_kept:
  assumes "attempt_ok db a" "calls_kept db db'" "at_call_id b = at_call_id a" "at_attempt b = at_attempt a"
  shows "attempt_ok db' b"
  using assms unfolding attempt_ok_def calls_kept_def by metis

lemma attempts_ok_rows:
  assumes mv: "move lib db db'" and ok: "attempts_ok db"
    and rows: "\<And>b. b \<in> set (attempts db') \<Longrightarrow> attempt_ok db' b \<or>
      (\<exists>a \<in> set (attempts db). at_call_id b = at_call_id a \<and> at_attempt b = at_attempt a)"
  shows "attempts_ok db'"
  unfolding attempts_ok_def
proof
  fix b
  assume "b \<in> set (attempts db')"
  from rows [OF this] show "attempt_ok db' b"
    using ok attempt_ok_kept [OF _ calls_kept_move [OF mv]] unfolding attempts_ok_def by blast
qed

lemma attempts_ok_move:
  assumes mv: "move lib db db'" and keys: "keys_ok db" and ok: "attempts_ok db"
  shows "attempts_ok db'"
  using mv
proof (cases rule: move.cases)
  case (dispatch x)
  have "attempt_ok db' (first_attempt_row (op_call_id x) 1)"
    by (auto simp: dispatch(1) attempt_ok_def first_attempt_row_def)
  then show ?thesis by (intro attempts_ok_rows [OF mv ok]) (auto simp: dispatch(1))
next
  case (dispatch_approved x i)
  have "attempt_ok db' (first_attempt_row (op_call_id x) 1)"
    by (auto simp: dispatch_approved(1) attempt_ok_def first_attempt_row_def)
  then show ?thesis by (intro attempts_ok_rows [OF mv ok]) (auto simp: dispatch_approved(1) set_marker_def)
next
  case (retry x)
  from calls_kept_move [OF mv] retry(2) obtain y where "y \<in> set (operations db')" "op_call_id y = op_call_id x"
    "op_policy y = op_policy x" by (auto simp: calls_kept_def)
  with retry(3) have "attempt_ok db' (first_attempt_row (op_call_id x) 2)"
    by (auto simp: attempt_ok_def first_attempt_row_def)
  then show ?thesis by (intro attempts_ok_rows [OF mv ok]) (auto simp: retry(1))
next
  case (attempt p s)
  show ?thesis
  proof (rule attempts_ok_rows [OF mv ok], rule disjI2)
    fix b
    assume "b \<in> set (attempts db')"
    then obtain a where "a \<in> set (attempts db)" "b = (if p a then a\<lparr>at_outcome := s\<rparr> else a)"
      by (auto simp: attempt(1) update_attempts_def in_update_where)
    then show "\<exists>a \<in> set (attempts db). at_call_id b = at_call_id a \<and> at_attempt b = at_attempt a"
      by (intro bexI [of _ a]) auto
  qed
qed (rule attempts_ok_rows [OF mv ok], force simp: table_updates add_event_def markActivated_def insert_snapshot_def)+

lemma attempts_ok_reachable: "reachable lib db \<Longrightarrow> attempts_ok db"
  by (rule reachable_invariant [of lib]) (auto intro: attempts_ok_move, simp add: attempts_ok_def empty_db_def)

section \<open>One unresolved call\<close>

definition one_unresolved :: "db \<Rightarrow> bool" where
  "one_unresolved db =
     (\<forall>x \<in> set (operations db). \<forall>y \<in> set (operations db). \<forall>t.
        unresolved t x \<and> unresolved t y \<longrightarrow> op_call_id x = op_call_id y)"

lemma one_unresolved_rows:
  assumes ok: "one_unresolved db" and keep: "\<And>y t. y \<in> set (operations db') \<Longrightarrow> unresolved t y \<Longrightarrow>
      op_call_id y = c \<and> t = t0 \<or> (\<exists>x \<in> set (operations db). unresolved t x \<and> op_call_id x = op_call_id y)"
    and new: "\<And>x. x \<in> set (operations db) \<Longrightarrow> unresolved t0 x \<Longrightarrow> op_call_id x = c"
  shows "one_unresolved db'"
  unfolding one_unresolved_def
proof (intro ballI allI impI, elim conjE)
  fix x y t
  assume xy: "x \<in> set (operations db')" "y \<in> set (operations db')" "unresolved t x" "unresolved t y"
  have one: "op_call_id a = op_call_id b" if "a \<in> set (operations db)" "b \<in> set (operations db)" "unresolved t a" "unresolved t b"
    for a b t
    using ok that unfolding one_unresolved_def by blast
  from keep [OF xy(1,3)] keep [OF xy(2,4)] show "op_call_id x = op_call_id y"
    using new one by metis
qed

lemma one_unresolved_same: "one_unresolved db \<Longrightarrow> operations db' = operations db \<Longrightarrow> one_unresolved db'"
  by (simp only: one_unresolved_def)

lemma keys_operation:
  assumes "keys_ok db" "x \<in> set (operations db)" "y \<in> set (operations db)" "op_call_id x = op_call_id y"
  shows "x = y"
  using assms unfolding keys_ok_def by (meson distinct_map inj_onD)

lemma one_unresolved_move:
  assumes mv: "move lib db db'" and keys: "keys_ok db" and ok: "one_unresolved db"
  shows "one_unresolved db'"
  using mv
proof (cases rule: move.cases)
  case (dispatch x)
  show ?thesis
    by (rule one_unresolved_rows [OF ok, of _ "op_call_id x" "op_thread_id x"])
       (use dispatch in \<open>auto simp: no_other_call_def unresolved_def\<close>)
next
  case (dispatch_approved x i)
  show ?thesis
    by (rule one_unresolved_rows [OF ok, of _ "op_call_id x" "op_thread_id x"])
       (use dispatch_approved(1,9) in \<open>auto simp: no_other_call_def unresolved_def set_marker_def\<close>)
next
  case (retry x)
  have t: "unresolved t y \<Longrightarrow> t = op_thread_id y" for t y by (simp add: unresolved_def)
  show ?thesis
  proof (rule one_unresolved_rows [OF ok, of _ "op_call_id x" "op_thread_id x"])
    fix y t
    assume y: "y \<in> set (operations db')" "unresolved t y"
    then obtain z where z: "z \<in> set (operations db)"
      "y = (if op_call_id z = op_call_id x then z\<lparr>op_outcome := ''dispatching''\<rparr> else z)"
      by (auto simp: retry(1) update_operations_def in_update_where)
    show "op_call_id y = op_call_id x \<and> t = op_thread_id x \<or>
        (\<exists>x \<in> set (operations db). unresolved t x \<and> op_call_id x = op_call_id y)"
    proof (cases "op_call_id z = op_call_id x")
      case True
      then have "z = x" using retry(2) z(1) keys_operation [OF keys] by blast
      with True z y(2) show ?thesis by (simp add: unresolved_def)
    next
      case False
      with z y show ?thesis by (intro disjI2 bexI [OF _ z(1)]) simp
    qed
  next
    show "op_call_id y = op_call_id x" if "y \<in> set (operations db)" "unresolved (op_thread_id x) y" for y
      using retry(6) that by (simp add: no_other_call_def)
  qed
next
  case (outcome p s)
  have old: "\<exists>x \<in> set (operations db). unresolved t x \<and> op_call_id x = op_call_id y"
    if y: "y \<in> set (operations db')" "unresolved t y" for y t
  proof -
    from y obtain z where "z \<in> set (operations db)" "y = (if p z then z\<lparr>op_outcome := s\<rparr> else z)" "unresolved t y"
      by (auto simp: outcome(1) update_operations_def in_update_where)
    moreover from this outcome(2) have "unresolved t z" by (auto simp: unresolved_def split: if_splits)
    ultimately show ?thesis by (intro bexI [of _ z]) auto
  qed
  then show ?thesis using ok unfolding one_unresolved_def by metis
qed (rule one_unresolved_same [OF ok], simp add: table_updates add_event_def markActivated_def insert_snapshot_def)+

lemma one_unresolved_reachable: "reachable lib db \<Longrightarrow> one_unresolved db"
  by (rule reachable_invariant [of lib]) (auto intro: one_unresolved_move, simp add: one_unresolved_def empty_db_def)

end
