(* ===== verification/Journal_Properties.thy ===== *)
theory Journal_Properties
  imports Journal_Safety Journal_Approvals
begin

text \<open>
  What the journal promises: the fence, the single owner, the event log, idempotent
  admission, the life of a run, and what an approval allows.
\<close>

section \<open>What later requests cannot undo\<close>

definition state_le :: "RunState \<Rightarrow> RunState \<Rightarrow> bool" where
  "state_le s s' = (s' = s \<or> rank s < rank s')"

definition run_later :: "run_row \<Rightarrow> run_row \<Rightarrow> bool" where
  "run_later x y =
     (rn_id y = rn_id x \<and> rn_thread_id y = rn_thread_id x \<and> state_le (rn_state x) (rn_state y) \<and>
      (rn_state x \<noteq> RunPending \<longrightarrow> rn_owner_epoch y = rn_owner_epoch x) \<and>
      (rn_product_version x \<noteq> None \<longrightarrow> rn_product_version y = rn_product_version x \<and>
         rn_endpoint_id y = rn_endpoint_id x \<and> rn_settings y = rn_settings x))"

definition command_later :: "command_row \<Rightarrow> command_row \<Rightarrow> bool" where
  "command_later k k' =
     (cm_thread_id k' = cm_thread_id k \<and> cm_communication_id k' = cm_communication_id k \<and>
      cm_run_id k' = cm_run_id k \<and> cm_payload k' = cm_payload k \<and>
      cm_execution_run_id k' = cm_execution_run_id k \<and> (\<not> open_command k \<longrightarrow> k' = k))"

definition later :: "db \<Rightarrow> db \<Rightarrow> bool" where
  "later db db' =
     (conversation_kept db db' \<and> prefix (events db) (events db') \<and>
      (\<forall>x \<in> set (runs db). \<exists>y \<in> set (runs db'). run_later x y) \<and>
      (\<forall>k \<in> set (commands db). \<exists>k' \<in> set (commands db'). command_later k k'))"

lemma run_later_refl [simp]: "run_later x x"
  by (simp add: run_later_def state_le_def)

lemma run_later_trans: "run_later x y \<Longrightarrow> run_later y z \<Longrightarrow> run_later x z"
  by (cases "rn_state x"; cases "rn_state y") (auto simp: run_later_def state_le_def)

lemma run_step_later: "run_step x y \<Longrightarrow> run_later x y"
  by (auto simp: run_step_def run_later_def advances_def state_le_def)

lemma command_later_refl [simp]: "command_later k k"
  by (simp add: command_later_def)

lemma command_later_trans: "command_later a b \<Longrightarrow> command_later b c \<Longrightarrow> command_later a c"
  by (auto simp: command_later_def)

lemma later_refl: "later db db"
  by (auto simp: later_def conversation_kept_def intro: run_later_refl command_later_refl)

lemma later_trans:
  assumes "later a b" "later b c"
  shows "later a c"
proof -
  have "conversation_kept a c"
    using assms unfolding later_def conversation_kept_def by metis
  moreover have "prefix (events a) (events c)" using assms unfolding later_def by (meson prefix_order.trans)
  moreover have "\<exists>z \<in> set (runs c). run_later x z" if "x \<in> set (runs a)" for x
  proof -
    from assms(1) that obtain y where "y \<in> set (runs b)" "run_later x y" unfolding later_def by blast
    moreover from this assms(2) obtain z where "z \<in> set (runs c)" "run_later y z" unfolding later_def by blast
    ultimately show ?thesis using run_later_trans by blast
  qed
  moreover have "\<exists>k'' \<in> set (commands c). command_later k k''" if "k \<in> set (commands a)" for k
  proof -
    from assms(1) that obtain k' where "k' \<in> set (commands b)" "command_later k k'" unfolding later_def by blast
    moreover from this assms(2) obtain k'' where "k'' \<in> set (commands c)" "command_later k' k''" unfolding later_def by blast
    ultimately show ?thesis using command_later_trans by blast
  qed
  ultimately show ?thesis unfolding later_def by blast
qed

lemma update_rows_later:
  assumes "\<And>x. x \<in> set xs \<Longrightarrow> p x \<Longrightarrow> R x (f x)" "\<And>x. R x x" "x \<in> set xs"
  shows "\<exists>y \<in> set (update_where p f xs). R x y"
  using in_update_whereI [OF assms(3), of p f] assms by (intro bexI [of _ "if p x then f x else x"]) auto

lemma runs_later_move:
  assumes "move lib db db'" "keys_ok db" "x \<in> set (runs db)"
  shows "\<exists>y \<in> set (runs db'). run_later x y"
  using assms(1)
proof (cases rule: move.cases)
  case (claim t v r z l oid)
  let ?g = "\<lambda>y. y\<lparr>rn_state := RunRunning, rn_owner_id := oid, rn_owner_epoch := cv_owner_epoch v + 1, rn_lease_until := l\<rparr>"
  have rows: "runs db' = update_where (\<lambda>y. rn_thread_id y = t \<and> rn_id y = r) ?g (runs db)"
    by (simp only: claim(1)) (simp add: update_run_def)
  have step: "run_later y (?g y)" if "y \<in> set (runs db)" "rn_thread_id y = t \<and> rn_id y = r" for y
  proof -
    have "y = z" using keys_find_run [OF assms(2) claim(3) that(1)] that(2) by blast
    then show ?thesis using claim(4) by (simp add: run_later_def state_le_def)
  qed
  show ?thesis
    unfolding rows by (rule update_rows_later [where R = run_later, OF step run_later_refl assms(3)])
next
  case (run t r f)
  have "run_later y (f y)" if "y \<in> set (runs db)" "rn_thread_id y = t \<and> rn_id y = r" for y
    using run(2) that run_step_later by blast
  from update_rows_later [where R = run_later and f = f, OF this run_later_refl assms(3)] show ?thesis
    by (simp add: run(1) update_run_def)
qed (rule bexI [of _ x], simp, use assms(3) in
    \<open>simp add: table_updates set_marker_def markActivated_def insert_snapshot_def add_event_def\<close>)+

lemma commands_later_move:
  assumes "move lib db db'" "k \<in> set (commands db)"
  shows "\<exists>k' \<in> set (commands db'). command_later k k'"
  using assms(1)
proof (cases rule: move.cases)
  case (dispose p s)
  have "command_later y (y\<lparr>cm_terminal_reason := s\<rparr>)" if "y \<in> set (commands db)" "p y" for y
    using dispose(2) that by (simp add: command_later_def)
  from update_rows_later [where R = command_later and f = "\<lambda>y. y\<lparr>cm_terminal_reason := s\<rparr>" and p = p,
      OF this command_later_refl assms(2)] show ?thesis
    by (simp add: dispose(1) update_commands_def)
next
  case (incl p)
  have "command_later y (y\<lparr>cm_included := True\<rparr>)" if "y \<in> set (commands db)" "p y" for y
    using incl(2) that by (simp add: command_later_def)
  from update_rows_later [where R = command_later and f = "\<lambda>y. y\<lparr>cm_included := True\<rparr>" and p = p,
      OF this command_later_refl assms(2)] show ?thesis
    by (simp add: incl(1) update_commands_def)
qed (rule bexI [of _ k], simp, use assms(2) in
    \<open>simp add: table_updates set_marker_def markActivated_def insert_snapshot_def add_event_def\<close>)+

lemma later_move: "move lib db db' \<Longrightarrow> keys_ok db \<Longrightarrow> later db db'"
proof -
  assume mv: "move lib db db'" and keys: "keys_ok db"
  have "prefix (events db) (events db')"
    using mv by (cases rule: move.cases)
      (simp_all add: table_updates set_marker_def markActivated_def insert_snapshot_def add_event_def)
  then show ?thesis
    using conversation_kept_move [OF mv] runs_later_move [OF mv keys] commands_later_move [OF mv]
    unfolding later_def by blast
qed

lemma later_requests: "reachable lib db \<Longrightarrow> later db (run_requests lib reqs db)"
  by (rule reachable_relation [of lib db later]) (auto intro: later_refl later_trans later_move)

section \<open>The fence\<close>

text \<open>C2. A stale owner has no effect: when the owner's run is not running under the owner's identity and epoch with a
  lease that is still valid, or the conversation belongs to another principal, every operation of the
  owner fails and leaves the database unchanged.\<close>

theorem stale_owner_writes_nothing:
  assumes "\<not> fenced ow now db"
  shows "(\<exists>e. Check ow now db = (Inl e, db)) \<and> (\<exists>e. Renew ow d now db = (Inl e, db)) \<and>
    (\<exists>e. Pending lib ow now db = (Inl e, db)) \<and> (\<exists>e. Included ow inputs now db = (Inl e, db)) \<and>
    (\<exists>e. Start ow journey digest now db = (Inl e, db)) \<and>
    (\<exists>e. Finish ow state h answer callID tool now db = (Inl e, db)) \<and>
    (\<exists>e. FinishFailed ow h reason now db = (Inl e, db)) \<and>
    (\<exists>e. FinishLimitExceeded ow h kind retry now db = (Inl e, db)) \<and>
    (\<exists>e. RecordRunScope ow scope now db = (Inl e, db)) \<and> (\<exists>e. RecordServerInfo ow info now db = (Inl e, db)) \<and>
    (\<exists>e. ActiveJourneys ow now db = (Inl e, db)) \<and> (\<exists>e. SetActiveJourneys ow active now db = (Inl e, db)) \<and>
    (\<exists>e. HistoryTruncated ow trunc now db = (Inl e, db)) \<and> (\<exists>e. RecordUsage ow u now db = (Inl e, db)) \<and>
    (\<exists>e. Wait lib ow i cp h now db = (Inl e, db)) \<and> (\<exists>e. Supersede ow iid now db = (Inl e, db)) \<and>
    (\<exists>e. BeginAttempt lib ow x n approval now db = (Inl e, db)) \<and>
    (\<exists>e. EndAttempt ow x n outcome now db = (Inl e, db)) \<and>
    (\<exists>e. ResolveDefinition ow served now db = (Inl e, db)) \<and>
    (\<exists>e. CommitSnapshot lib ow snap now db = (Inl e, db)) \<and>
    (\<exists>e. RecordRunCatalog ow digest now db = (Inl e, db)) \<and> (\<exists>e. ConversationPin ow now db = (Inl e, db))"
  by (intro conjI Check.stale Renew.stale Pending.stale Included.stale Start.stale Finish.stale FinishFailed.stale
      FinishLimitExceeded.stale RecordRunScope.stale RecordServerInfo.stale ActiveJourneys.stale
      SetActiveJourneys.stale HistoryTruncated.stale RecordUsage.stale Wait.stale Supersede.stale
      BeginAttempt.stale EndAttempt.stale ResolveDefinition.stale CommitSnapshot.stale RecordRunCatalog.stale
      ConversationPin.stale assms)

definition example_command :: Command where
  "example_command = \<lparr>ThreadID = ''t'', RunID = ''r'', CommunicationID = ''c'', Principal = ''p'', Tenant = ''acme'',
     Text = ''hello'', TargetJourney = [], InteractionID = [], ReplyKind = [], ReplyJSON = []\<rparr>"

definition example_owner :: Owner where
  "example_owner = \<lparr>ow_Command = example_command, ow_ID = ''w'', ow_Epoch = 1\<rparr>"

definition example_libs :: libs where
  "example_libs = \<lparr>lib_sha256 = (\<lambda>b. b), lib_append_result = (\<lambda>h cid s. Some h)\<rparr>"

text \<open>A database with one claimed run, and the same database after the lease ran out.\<close>

definition example_requests :: "(request \<times> int) list" where
  "example_requests = [(ReqAdmit example_command, 0), (ReqClaim example_command ''w'' 1000000000, 1000)]"

definition example_db :: db where
  "example_db = run_requests example_libs example_requests empty_db"

lemma example_reachable: "reachable example_libs example_db"
  unfolding example_db_def by (rule reachable_requests) (rule reachable.empty)

lemma example_runs: "map (\<lambda>r. (rn_id r, rn_thread_id r, rn_state r, rn_owner_id r, rn_owner_epoch r, rn_lease_until r)) (runs example_db) =
  [(''r'', ''t'', RunRunning, ''w'', 1, 1001000)]"
  by code_simp

theorem stale_owner_writes_nothing_witness:
  "\<exists>e. Check example_owner 1001000 example_db = (Inl e, example_db)"
proof -
  have "\<not> fenced example_owner 1001000 example_db"
  proof
    assume "fenced example_owner 1001000 example_db"
    then obtain r where "r \<in> set (runs example_db)" "owns example_owner 1001000 r"
      by (auto simp: fenced_def dest!: find_run_ok)
    then have "rn_lease_until r \<in> (\<lambda>(a, b, c, d, e, f). f) ` set (map (\<lambda>r. (rn_id r, rn_thread_id r, rn_state r,
        rn_owner_id r, rn_owner_epoch r, rn_lease_until r)) (runs example_db))" "1001000 < rn_lease_until r"
      by (force simp: owns_def)+
    then show False unfolding example_runs by simp
  qed
  from stale_owner_writes_nothing [OF this, THEN conjunct1] show ?thesis .
qed

section \<open>One owner\<close>

text \<open>C5. At any instant at most one owner can act on a conversation: two owners of the same conversation that
  both pass the fence have the same run, the same identity and the same epoch.\<close>

theorem one_owner:
  assumes "reachable lib db" "fenced a now db" "fenced b now' db" "ow_thread a = ow_thread b"
  shows "ow_run a = ow_run b \<and> ow_ID a = ow_ID b \<and> ow_Epoch a = ow_Epoch b"
proof -
  from assms(2) obtain x where x: "find_run (ow_thread a) (ow_run a) db = Some x" "owns a now x"
    by (auto simp: fenced_def)
  from assms(3) obtain y where y: "find_run (ow_thread b) (ow_run b) db = Some y" "owns b now' y"
    by (auto simp: fenced_def)
  note x' = find_run_ok [OF x(1)] and y' = find_run_ok [OF y(1)]
  have "rn_id x = rn_id y"
    using runs_okD(1) [OF runs_ok_reachable [OF assms(1)], of x y] x' y' x(2) y(2) assms(4)
    by (simp add: owns_def live_def)
  with keys_run_unique [of db x y] reachable_moves [OF assms(1)] x' y' have "x = y" by blast
  with x y x' y' show ?thesis by (simp add: owns_def)
qed

lemma example_fenced: "fenced example_owner 2000 example_db"
proof -
  have "isl (lockOwner example_owner 2000 example_db) = False" by code_simp
  then show ?thesis by (cases "lockOwner example_owner 2000 example_db") (auto simp: lockOwner_fenced)
qed

theorem one_owner_witness:
  "ow_run example_owner = ow_run example_owner \<and> ow_ID example_owner = ow_ID example_owner \<and>
   ow_Epoch example_owner = ow_Epoch example_owner \<and> fenced example_owner 2000 example_db"
  using one_owner [OF example_reachable example_fenced example_fenced refl] example_fenced by blast

text \<open>Ownership cannot come back: once a run waits for input or has ended, no owner of it passes the fence after any
  further requests, and a run that was claimed keeps its epoch, so an owner with another epoch never
  passes the fence either.\<close>

theorem lost_ownership_is_final:
  assumes "reachable lib db" "find_run (ow_thread ow) (ow_run ow) db = Some r"
    "rn_state r \<noteq> RunPending" "rn_state r \<noteq> RunRunning \<or> rn_owner_epoch r \<noteq> ow_Epoch ow"
  shows "\<not> fenced ow now (run_requests lib reqs db)"
proof
  let ?db = "run_requests lib reqs db"
  assume "fenced ow now ?db"
  then obtain y where y: "find_run (ow_thread ow) (ow_run ow) ?db = Some y" "owns ow now y" by (auto simp: fenced_def)
  note r = find_run_ok [OF assms(2)] and y' = find_run_ok [OF y(1)]
  from later_requests [OF assms(1), of reqs] r obtain z where z: "z \<in> set (runs ?db)" "run_later r z"
    by (auto simp: later_def)
  have "keys_ok ?db" using reachable_moves [OF reachable_requests [OF assms(1)]] by blast
  from keys_run_unique [OF this z(1), of y] y' z(2) r have "z = y" by (simp add: run_later_def)
  with z(2) y(2) assms(3,4) show False
    by (cases "rn_state r") (auto simp: run_later_def state_le_def owns_def)
qed

text \<open>The owner of the previous example after it finished its run.\<close>

definition example_finished :: db where
  "example_finished = run_requests example_libs
     (example_requests @ [(ReqIncluded example_owner [\<lparr>in_CommunicationID = ''c'', in_Text = [], in_Digest = [],
        in_Payload = [], in_Materialized = True\<rparr>], 2000),
      (ReqFinish example_owner RunCompleted [] ''hi'' [] [], 3000)]) empty_db"

theorem lost_ownership_is_final_witness:
  "\<exists>r. find_run ''t'' ''r'' example_finished = Some r \<and> rn_state r = RunCompleted \<and>
     \<not> fenced example_owner 4000 (run_requests example_libs example_requests example_finished)"
proof -
  have f: "map_option rn_state (find_run ''t'' ''r'' example_finished) = Some RunCompleted" by code_simp
  then obtain r where r: "find_run ''t'' ''r'' example_finished = Some r" "rn_state r = RunCompleted" by auto
  have o: "ow_thread example_owner = ''t''" "ow_run example_owner = ''r''"
    by (simp_all add: example_owner_def example_command_def)
  have "reachable example_libs example_finished"
    unfolding example_finished_def by (rule reachable_requests) (rule reachable.empty)
  from lost_ownership_is_final [OF this, of example_owner r 4000 example_requests] r o show ?thesis by auto
qed

section \<open>The event log\<close>

lemma filter_upto: "0 \<le> a \<Longrightarrow> filter (\<lambda>n. a < n) [1..b] = [a + 1..b]"
proof (cases "0 \<le> b")
  case True
  assume "0 \<le> a"
  show ?thesis
    using True by (induction b rule: int_ge_induct) (use \<open>0 \<le> a\<close> in \<open>auto simp: upto_rec2\<close>)
qed simp

lemma sort_key_fst_sorted: "sorted (map fst xs) \<Longrightarrow> sort_key fst xs = xs"
  by (simp add: sorted_sort_id sort_key_id_if_sorted)

lemma readEvents_log:
  assumes "reachable lib db" "find_conversation thread db = Some v" "0 \<le> after"
  shows "readEvents thread after db = map (\<lambda>e. (ev_sequence e, ev_event e))
      (filter (\<lambda>e. ev_thread_id e = thread \<and> ev_sequence e > after) (events db))"
    "map fst (readEvents thread after db) = [after + 1..cv_sequence v]"
proof -
  have v: "v \<in> set (conversations db)" "cv_id v = thread" using find_conversation_ok [OF assms(2)] by auto
  let ?es = "filter (\<lambda>e. ev_thread_id e = thread) (events db)"
  have seq: "map ev_sequence ?es = [1..cv_sequence v]"
    using log_ok_reachable [OF assms(1)] v by (auto simp: log_ok_def)
  have "map ev_sequence (filter (\<lambda>e. after < ev_sequence e) ?es) = filter (\<lambda>n. after < n) (map ev_sequence ?es)"
    by (simp add: filter_map comp_def)
  also have "\<dots> = [after + 1..cv_sequence v]" using seq filter_upto [OF assms(3)] by simp
  finally have m: "map fst (map (\<lambda>e. (ev_sequence e, ev_event e))
      (filter (\<lambda>e. ev_thread_id e = thread \<and> ev_sequence e > after) (events db))) = [after + 1..cv_sequence v]"
    by (simp add: comp_def conj_commute)
  then show eq: "readEvents thread after db = map (\<lambda>e. (ev_sequence e, ev_event e))
      (filter (\<lambda>e. ev_thread_id e = thread \<and> ev_sequence e > after) (events db))"
    unfolding readEvents_def by (intro sort_key_fst_sorted) simp
  show "map fst (readEvents thread after db) = [after + 1..cv_sequence v]" unfolding eq using m .
qed

text \<open>C15. The event log is gap-free: the events of a conversation are numbered one to its watermark, so a
  reader that has seen the log up to a number gets exactly the numbers that follow; and no event is
  ever changed or removed.\<close>

theorem event_log:
  assumes "reachable lib db" "find_conversation thread db = Some v" "0 \<le> after"
  shows "map fst (readEvents thread after db) = [after + 1..cv_sequence v] \<and>
    prefix (events db) (events (run_requests lib reqs db))"
  using readEvents_log(2) [OF assms] later_requests [OF assms(1), of reqs] by (simp add: later_def)

theorem event_log_witness:
  "\<exists>v. find_conversation ''t'' example_db = Some v \<and> map fst (readEvents ''t'' 1 example_db) = [2..cv_sequence v]"
proof -
  have "find_conversation ''t'' example_db \<noteq> None" by code_simp
  then obtain v where v: "find_conversation ''t'' example_db = Some v" by blast
  from event_log [OF example_reachable v, of 1 "[]"] v show ?thesis by simp
qed

end
