(* ===== verification/Journal_Admission.thy ===== *)
theory Journal_Admission
  imports Journal_Properties
begin

text \<open>
  Admission of commands and replies (\<open>Admit\<close>): what an accepted command leaves behind, that it is
  accepted once, and that its identifier cannot be reused for another command.
\<close>

section \<open>Admission\<close>

lemma moves_later: "(move lib)\<^sup>*\<^sup>* db db' \<Longrightarrow> keys_ok db \<Longrightarrow> later db db' \<and> keys_ok db'"
  by (induction rule: rtranclp_induct) (auto intro: later_refl later_trans later_move keys_ok_move)

lemma refines_later: "refines lib db db' \<Longrightarrow> keys_ok db \<Longrightarrow> later db db' \<and> keys_ok db'"
  using moves_later by (auto simp: refines_def)

lemma kept_principal:
  assumes "find_conversation t db = Some v" "later db db'" "keys_ok db'"
  shows "\<exists>w. find_conversation t db' = Some w \<and> cv_principal w = cv_principal v"
proof -
  note v = find_conversation_ok [OF assms(1)]
  with assms(2) obtain w where w: "w \<in> set (conversations db')" "cv_id w = t" "cv_principal w = cv_principal v"
    by (auto simp: later_def conversation_kept_def)
  then have "find_conversation t db' \<noteq> None" by (auto simp: find_conversation_def find_None)
  then obtain u where u: "find_conversation t db' = Some u" by blast
  from keys_conversation_unique [OF assms(3), of u w] find_conversation_ok [OF u] w u show ?thesis by simp
qed

lemma keys_find_command:
  assumes "keys_ok db" "k \<in> set (commands db)"
  shows "find_command (cm_thread_id k) (cm_communication_id k) db = Some k"
proof -
  have "find_command (cm_thread_id k) (cm_communication_id k) db \<noteq> None"
    using assms(2) by (auto simp: find_command_def find_None)
  then obtain k' where k': "find_command (cm_thread_id k) (cm_communication_id k) db = Some k'" by blast
  then have m: "k' \<in> set (commands db)" "cm_thread_id k' = cm_thread_id k" "cm_communication_id k' = cm_communication_id k"
    by (auto simp: find_command_def dest: find_SomeD)
  have "inj_on (\<lambda>k. (cm_thread_id k, cm_communication_id k)) (set (commands db))"
    using assms(1) by (simp add: keys_ok_def distinct_map)
  from inj_onD [OF this, of k' k] m assms(2) k' show ?thesis by simp
qed

text \<open>What an accepted command leaves behind.\<close>

definition accepted :: "Command \<Rightarrow> Receipt \<Rightarrow> db \<Rightarrow> bool" where
  "accepted c rc db =
     (\<exists>k v. k \<in> set (commands db) \<and> cm_thread_id k = ThreadID c \<and> cm_communication_id k = CommunicationID c \<and>
        cm_payload k = c \<and> rc = receipt_of c (cm_execution_run_id k) \<and>
        find_conversation (ThreadID c) db = Some v \<and> cv_principal v = Principal c)"

lemma accepted_later:
  assumes "accepted c rc db" "later db db'" "keys_ok db'"
  shows "accepted c rc db'"
proof -
  from assms(1) obtain k v where k: "k \<in> set (commands db)" "cm_thread_id k = ThreadID c"
    "cm_communication_id k = CommunicationID c" "cm_payload k = c" "rc = receipt_of c (cm_execution_run_id k)"
    and v: "find_conversation (ThreadID c) db = Some v" "cv_principal v = Principal c"
    unfolding accepted_def by blast
  from assms(2) k(1) obtain k' where "k' \<in> set (commands db')" "command_later k k'" by (auto simp: later_def)
  with k kept_principal [OF v(1) assms(2,3)] v(2) show ?thesis
    unfolding accepted_def by (intro exI [of _ k']) (auto simp: command_later_def)
qed

lemma keep_commands_accept:
  assumes "accept_tx c now db = Inr ((rc, f), db')"
  shows "\<exists>e. new_command c e \<in> set (commands db') \<and> rc = receipt_of c e"
  using assms
  by (auto simp: accept_tx_def Let_def insert_command_def insert_run_def appendEvent_ok split: if_splits)

lemma locked_refines:
  assumes "moves (refines lib) (k ())" "call (lockConversation t who) k db = Inr (x, db')" "keys_ok db"
  shows "\<exists>v. find_conversation t db' = Some v \<and> cv_principal v = who"
proof -
  from assms(2) obtain v where v: "find_conversation t db = Some v" "cv_principal v = who" "k () db = Inr (x, db')"
    by (auto simp: lockConversation_def)
  from refines_later [OF movesD [OF assms(1) v(3)] assms(3)] kept_principal [OF v(1)] v(2) show ?thesis by auto
qed

lemma admit_tx_accepted:
  assumes "admit_tx lib c now db = Inr ((rc, f), db')" "keys_ok db"
  shows "accepted c rc db'"
proof -
  define db0 where "db0 = ensure_conversation (ThreadID c) (Principal c) db"
  have k0: "keys_ok db0" using refines_later [OF refines_ensure_conversation assms(2)] by (simp add: db0_def)
  let ?k = "\<lambda>_ :: unit. query (find_command (ThreadID c) (CommunicationID c)) (\<lambda>previous.
     case previous of
       Some k \<Rightarrow> guard (cm_payload k = c) ErrConflict (return (receipt_of c (cm_execution_run_id k), False))
     | None \<Rightarrow>
         call (interruptExpired (ThreadID c) [] now) (\<lambda>_.
         call (expireInteractions lib (ThreadID c) now) (\<lambda>_.
         query (pending_interaction (ThreadID c)) (\<lambda>waiting.
         guard (\<not> waiting) ErrBusy (accept_tx c now)))))"
  have m: "moves (refines lib) (?k ())" by (intro mv.moves_query) (auto split: option.split)
  from assms(1) have b: "call (lockConversation (ThreadID c) (Principal c)) ?k db0 = Inr ((rc, f), db')"
    by (simp add: admit_tx_def db0_def)
  from locked_refines [OF m b k0] obtain v where v: "find_conversation (ThreadID c) db' = Some v" "cv_principal v = Principal c"
    by blast
  from b have k: "?k () db0 = Inr ((rc, f), db')" by (auto simp: lockConversation_def)
  show ?thesis
  proof (cases "find_command (ThreadID c) (CommunicationID c) db0")
    case None
    with k obtain db1 where "accept_tx c now db1 = Inr ((rc, f), db')" by auto
    from keep_commands_accept [OF this] v show ?thesis by (auto simp: accepted_def new_command_def)
  next
    case (Some p)
    with k have "db' = db0" "cm_payload p = c" "rc = receipt_of c (cm_execution_run_id p)" by auto
    with v Some show ?thesis unfolding accepted_def by (auto simp: find_command_def dest: find_SomeD)
  qed
qed

lemma consume_tx_command:
  assumes "consume_tx c answer doc i now db = Inr (x, db')"
  shows "\<exists>k \<in> set (commands db'). cm_thread_id k = ThreadID c \<and> cm_communication_id k = CommunicationID c \<and>
     cm_payload k = c \<and> cm_execution_run_id k = RunID c \<and> x = (receipt_of c (RunID c), True)"
proof -
  let ?cs = "commands db @ [new_command c (RunID c)]"
  let ?p = "\<lambda>k. cm_thread_id k = ThreadID c \<and> cm_communication_id k = CommunicationID c"
  let ?f = "\<lambda>k. k\<lparr>cm_terminal_reason := ''consumed''\<rparr>"
  from assms have "commands db' = ?cs \<or> commands db' = update_where ?p ?f ?cs"
    and x: "x = (receipt_of c (RunID c), True)"
    by (auto simp: consume_tx_def insert_command_def insert_run_def appendEvent_ok update_commands_def split: if_splits)
  moreover have "new_command c (RunID c) \<in> set ?cs" by simp
  from in_update_whereI [OF this, of ?p ?f] this
  have "new_command c (RunID c) \<in> set ?cs \<and> ?f (new_command c (RunID c)) \<in> set (update_where ?p ?f ?cs)"
    by (simp add: new_command_def)
  ultimately have "\<exists>k \<in> set (commands db'). k = new_command c (RunID c) \<or> k = ?f (new_command c (RunID c))" by auto
  then obtain k where k: "k \<in> set (commands db')" "k = new_command c (RunID c) \<or> k = ?f (new_command c (RunID c))" by blast
  show ?thesis by (rule bexI [OF _ k(1)]) (use k(2) x in \<open>auto simp: new_command_def\<close>)
qed

lemma reply_tx_accepted:
  assumes "reply_tx lib c answer doc now db = Inr ((rc, f, False), db')" "keys_ok db" "reply_of_json doc = Some answer"
  shows "accepted c rc db'"
proof -
  from assms(1) obtain v where v: "find_conversation (ThreadID c) db = Some v" "cv_principal v = Principal c"
    by (auto simp: reply_tx_def lockConversation_def)
  note r = refines_later [OF refines_reply_tx [OF assms(3,1), of lib] assms(2)]
  from kept_principal [OF v(1)] r v(2) obtain w where
    w: "find_conversation (ThreadID c) db' = Some w" "cv_principal w = Principal c" by auto
  show ?thesis
  proof (cases "find_command (ThreadID c) (CommunicationID c) db")
    case None
    with assms(1) obtain i y where "consume_tx c answer doc i now db = Inr (y, db')" "rc = fst y"
      by (auto simp: reply_tx_def lockConversation_def split: if_splits)
    with consume_tx_command [OF this(1)] w show ?thesis by (force simp: accepted_def)
  next
    case (Some p)
    with assms(1) have "db' = db" "cm_payload p = c" "rc = receipt_of c (cm_execution_run_id p)"
      by (auto simp: reply_tx_def lockConversation_def)
    with w Some show ?thesis unfolding accepted_def by (auto simp: find_command_def dest: find_SomeD)
  qed
qed

lemma conflict_result_Inr: "conflict_result r = (Inr x, db') \<longleftrightarrow> r = (Inr x, db')"
  by (auto simp: conflict_result_def split: prod.splits sum.splits journal_error.splits)

lemma Admit_accepted:
  assumes "Admit lib c now db = (Inr (rc, f), db')" "keys_ok db"
  shows "accepted c rc db'"
proof (cases "InteractionID c = []")
  case True
  with assms(1) have "admit_tx lib c now db = Inr ((rc, f), db')"
    by (auto simp: Admit_def conflict_result_Inr begin_func_Inr split: if_splits)
  then show ?thesis by (rule admit_tx_accepted) (rule assms(2))
next
  case False
  with assms(1) obtain doc answer where "parse_json (ReplyJSON c) = Some doc" "DecodeStrict_reply (ReplyJSON c) = Some answer"
    "reply_tx lib c answer doc now db = Inr ((rc, f, False), db')"
    by (auto simp: Admit_def reply_def begin_func_def split: if_splits option.splits sum.splits)
  with reply_tx_accepted [OF this(3) assms(2)] show ?thesis by (simp add: DecodeStrict_reply_def)
qed

lemma Admit_again:
  assumes "accepted c rc db" "keys_ok db" "Admit lib c now0 db0 = (Inr r, db1)"
  shows "Admit lib c now db = (Inr (rc, False), db)"
proof -
  from assms(1) obtain k v where k: "k \<in> set (commands db)" "cm_thread_id k = ThreadID c"
    "cm_communication_id k = CommunicationID c" "cm_payload k = c" "rc = receipt_of c (cm_execution_run_id k)"
    and v: "find_conversation (ThreadID c) db = Some v" "cv_principal v = Principal c"
    unfolding accepted_def by blast
  have f: "find_command (ThreadID c) (CommunicationID c) db = Some k"
    using keys_find_command [OF assms(2) k(1)] k by simp
  show ?thesis
  proof (cases "InteractionID c = []")
    case True
    have "admit_tx lib c now db = Inr ((rc, False), db)"
      using f v k by (simp add: admit_tx_def ensure_conversation_def lockConversation_def)
    with True assms(3) show ?thesis
      by (auto simp: Admit_def begin_func_def conflict_result_def split: if_splits)
  next
    case False
    with assms(3) obtain doc answer where d: "parse_json (ReplyJSON c) = Some doc"
      "DecodeStrict_reply (ReplyJSON c) = Some answer"
      by (auto simp: Admit_def reply_def split: if_splits option.splits)
    have "reply_tx lib c answer doc now db = Inr ((rc, False, False), db)"
      using f v k by (simp add: reply_tx_def lockConversation_def)
    with False d assms(3) show ?thesis
      by (auto simp: Admit_def reply_def begin_func_def split: if_splits)
  qed
qed



text \<open>A communication identifier stands for one command: admitting a different command under an identifier that was
  accepted before is refused and changes nothing, whatever happened in between.\<close>

theorem Admit_conflict:
  assumes "reachable lib db" "Admit lib c now db = (Inr r, db')" "db'' = run_requests lib reqs db'"
    "ThreadID d = ThreadID c" "CommunicationID d = CommunicationID c" "d \<noteq> c"
  shows "\<exists>e. Admit lib d now' db'' = (Inl e, db'') \<and> e \<in> {ErrConflict, ErrForbidden, ErrState}"
proof -
  obtain receipt fresh where r: "r = (receipt, fresh)" by force
  have keys: "keys_ok db" using reachable_moves [OF assms(1)] by blast
  have r1: "reachable lib db'" using reachable.step [OF assms(1), of "ReqAdmit c" now] assms(2) by simp
  have keys'': "keys_ok db''" using reachable_moves [OF reachable_requests [OF r1]] assms(3) by blast
  have "accepted c receipt db''"
    using accepted_later [OF Admit_accepted [OF _ keys] later_requests [OF r1]] assms(2,3) r keys'' by auto
  then obtain k v where k: "k \<in> set (commands db'')" "cm_thread_id k = ThreadID c"
    "cm_communication_id k = CommunicationID c" "cm_payload k = c"
    and v: "find_conversation (ThreadID c) db'' = Some v" "cv_principal v = Principal c"
    unfolding accepted_def by blast
  have f: "find_command (ThreadID d) (CommunicationID d) db'' = Some k"
    using keys_find_command [OF keys'' k(1)] k assms(4,5) by simp
  have bad: "cm_payload k \<noteq> d" using k(4) assms(6) by simp
  have a: "\<exists>e. admit_tx lib d now' db'' = Inl e \<and> e \<in> {ErrConflict, ErrForbidden}"
    using f v bad assms(4)
    by (simp add: admit_tx_def ensure_conversation_def lockConversation_def tx_defs)
  have b: "\<exists>e. reply_tx lib d answer doc now' db'' = Inl e \<and> e \<in> {ErrConflict, ErrForbidden}" for answer doc
    using f v bad assms(4) by (simp add: reply_tx_def lockConversation_def tx_defs)
  show ?thesis
  proof (cases "InteractionID d = []")
    case True
    with a show ?thesis by (auto simp: Admit_def begin_func_def conflict_result_def)
  next
    case False
    have "reply lib d now' db'' = (Inl ErrState, db'') \<or>
        (\<exists>answer doc. reply lib d now' db'' = (case begin_func (reply_tx lib d answer doc now') db'' of
             (Inl e, db') \<Rightarrow> (Inl e, db')
           | (Inr (receipt, fresh, expired), db') \<Rightarrow>
               (if expired then Inl ErrExpired else Inr (receipt, fresh), db')))"
      by (auto simp: reply_def split: option.splits)
    then show ?thesis
    proof
      assume "\<exists>answer doc. reply lib d now' db'' = (case begin_func (reply_tx lib d answer doc now') db'' of
             (Inl e, db') \<Rightarrow> (Inl e, db')
           | (Inr (receipt, fresh, expired), db') \<Rightarrow>
               (if expired then Inl ErrExpired else Inr (receipt, fresh), db'))"
      then obtain answer doc where e: "reply lib d now' db'' = (case begin_func (reply_tx lib d answer doc now') db'' of
             (Inl e, db') \<Rightarrow> (Inl e, db')
           | (Inr (receipt, fresh, expired), db') \<Rightarrow>
               (if expired then Inl ErrExpired else Inr (receipt, fresh), db'))" by blast
      from b [of answer doc] obtain e' where "reply_tx lib d answer doc now' db'' = Inl e'"
        "e' \<in> {ErrConflict, ErrForbidden}" by blast
      with e False show ?thesis by (auto simp: Admit_def begin_func_def)
    qed (use False in \<open>simp add: Admit_def\<close>)
  qed
qed

theorem Admit_conflict_witness:
  "\<exists>e. Admit example_libs (example_command\<lparr>Text := ''bye''\<rparr>) 5000 example_db = (Inl e, example_db) \<and>
     e \<in> {ErrConflict, ErrForbidden, ErrState}"
proof -
  obtain r db' where a: "Admit example_libs example_command 0 empty_db = (r, db')" by force
  have "isl (fst (Admit example_libs example_command 0 empty_db)) = False" by code_simp
  with a obtain x where x: "Admit example_libs example_command 0 empty_db = (Inr x, db')" by (cases r) auto
  have "example_command\<lparr>Text := ''bye''\<rparr> \<noteq> example_command" by (simp add: example_command_def)
  from Admit_conflict [OF reachable.empty x refl _ _ this, of 5000 "[(ReqClaim example_command ''w'' 1000000000, 1000)]"] a
  show ?thesis by (auto simp: example_db_def example_requests_def)
qed

end
