(* ===== verification/Journal_Life.thy ===== *)
theory Journal_Life
  imports Journal_Admission
begin

text \<open>
  The life of a run: an accepted command finds an owner, a run only moves forward, and what \<open>Finish\<close>
  leaves behind.
\<close>

section \<open>An accepted command gets an owner\<close>

lemma keys_find_run_row:
  assumes "keys_ok db" "x \<in> set (runs db)"
  shows "find_run (rn_thread_id x) (rn_id x) db = Some x"
proof -
  have "find_run (rn_thread_id x) (rn_id x) db \<noteq> None"
    using assms(2) by (auto simp: find_run_def find_None)
  then obtain y where y: "find_run (rn_thread_id x) (rn_id x) db = Some y" by blast
  with keys_run_unique [OF assms(1) _ assms(2), of y] find_run_ok [OF y] show ?thesis by simp
qed

lemma keys_claim_command:
  assumes "keys_ok db" "new_command c (RunID c) \<in> set (commands db)"
  shows "claim_command c db = Some (new_command c (RunID c))"
proof -
  have "claim_command c db \<noteq> None"
    using bexI [OF _ assms(2), of "\<lambda>k. cm_thread_id k = ThreadID c \<and> cm_run_id k = RunID c \<and> cm_execution_run_id k = RunID c"]
    by (auto simp: claim_command_def find_None new_command_def)
  then obtain k where k: "claim_command c db = Some k" by blast
  then have "k \<in> set (commands db)" "cm_run_id k = RunID c" by (auto simp: claim_command_def dest: find_SomeD)
  moreover have "inj_on cm_run_id (set (commands db))" using assms(1) by (simp add: keys_ok_def distinct_map)
  moreover have "cm_run_id (new_command c (RunID c)) = RunID c" by (simp add: new_command_def)
  ultimately have "k = new_command c (RunID c)" using assms(2) by (metis inj_onD)
  with k show ?thesis by simp
qed

lemma find_run_update:
  assumes "\<And>x. rn_thread_id (f x) = rn_thread_id x \<and> rn_id (f x) = rn_id x"
  shows "find_run t r (update_run t r f db) = map_option f (find_run t r db)"
proof -
  have "find (\<lambda>x. rn_thread_id x = t \<and> rn_id x = r) (update_where (\<lambda>x. rn_thread_id x = t \<and> rn_id x = r) f xs) =
      map_option f (find (\<lambda>x. rn_thread_id x = t \<and> rn_id x = r) xs)" for xs
    by (induction xs) (auto simp: update_where_def assms)
  then show ?thesis by (simp add: find_run_def update_run_def)
qed

lemma find_conversation_add_event:
  "find_conversation t (add_event t n e db) = map_option (\<lambda>v. v\<lparr>cv_sequence := cv_sequence v + 1\<rparr>) (find_conversation t db)"
proof -
  have "find_conversation t (add_event t n e db) =
      find_conversation t (update_conversation t (\<lambda>v. v\<lparr>cv_sequence := cv_sequence v + 1\<rparr>) db)"
    by (simp add: find_conversation_def add_event_def)
  then show ?thesis by (simp add: find_update_conversation)
qed

lemma claim_succeeds:
  assumes "keys_ok db" "find_conversation (ThreadID c) db = Some v" "cv_principal v = Principal c"
    "new_command c (RunID c) \<in> set (commands db)" "find_run (ThreadID c) (RunID c) db = Some r"
    "rn_state r = RunPending" "now < rn_lease_until r" "oid \<noteq> []" "1000000 \<le> d"
  shows "\<exists>ow db'. Claim c oid d now db = (Inr ow, db') \<and> fenced ow now db'"
proof -
  let ?w = "v\<lparr>cv_owner_epoch := cv_owner_epoch v + 1\<rparr>"
  let ?f = "\<lambda>r. r\<lparr>rn_state := RunRunning, rn_owner_id := oid, rn_owner_epoch := cv_owner_epoch ?w,
               rn_lease_until := now + interval d\<rparr>"
  let ?db1 = "update_conversation (ThreadID c) (\<lambda>v. v\<lparr>cv_owner_epoch := cv_owner_epoch v + 1\<rparr>) db"
  let ?db2 = "update_run (ThreadID c) (RunID c) ?f ?db1"
  let ?ow = "\<lparr>ow_Command = c, ow_ID = oid, ow_Epoch = cv_owner_epoch ?w\<rparr>"
  have w: "find_conversation (ThreadID c) ?db1 = Some ?w" using assms(2) by (simp add: find_update_conversation)
  then have w2: "find_conversation (ThreadID c) ?db2 = Some ?w" by (simp add: find_conversation_def update_run_def)
  let ?e = "event (RunID c) ''run.started''"
  let ?db3 = "add_event (ThreadID c) (cv_sequence v + 1) ?e ?db2"
  have e: "appendEvent (ThreadID c) ?e ?db2 = Inr ((), ?db3)"
    using w2 by (simp add: appendEvent_ok)
  have "with_error g (lockConversation (ThreadID c) (Principal c)) db = Inr ((), db)" for g
    using assms(2,3) by (simp add: with_error_def lockConversation_def tx_defs)
  then have "claim_tx c oid d now db = Inr (?ow, ?db3)"
    using assms(5-7) keys_claim_command [OF assms(1,4)] w e
    by (simp add: claim_tx_def new_command_def)
  then have "Claim c oid d now db = (Inr ?ow, ?db3)"
    using assms(8,9) by (simp add: Claim_def begin_func_def)
  moreover have "fenced ?ow now ?db3"
  proof -
    have "find_run (ThreadID c) (RunID c) ?db3 = find_run (ThreadID c) (RunID c) ?db2"
      by (rule find_run_cong) simp
    also have "\<dots> = Some (?f r)" using assms(5) by (subst find_run_update) simp_all
    finally have "find_run (ThreadID c) (RunID c) ?db3 = Some (?f r)" .
    moreover have "0 < interval d" using assms(9) by (simp add: interval_def)
    moreover have "find_conversation (ThreadID c) ?db3 = Some (?w\<lparr>cv_sequence := cv_sequence ?w + 1\<rparr>)"
      using w2 by (simp add: find_conversation_add_event)
    ultimately show ?thesis using assms(3) by (simp add: fenced_def owns_def)
  qed
  ultimately show ?thesis by blast
qed

lemma accept_fresh:
  assumes "accept_tx c now db = Inr ((rc, True), db')"
  shows "new_command c (RunID c) \<in> set (commands db') \<and>
    new_run (RunID c) (ThreadID c) None None now \<in> set (runs db')"
  using assms
  by (cases "live_run (ThreadID c) db")
     (auto simp: accept_tx_def Let_def insert_command_def insert_run_def appendEvent_ok)

text \<open>An accepted command is executed: when the admission of a command created a run, a worker that claims
  it within the fifteen seconds of the initial lease, for at least a millisecond, becomes its owner and passes the fence.\<close>

theorem Admit_then_Claim:
  assumes "reachable lib db" "InteractionID c = []" "Admit lib c now db = (Inr (receipt, True), db')"
    "oid \<noteq> []" "1000000 \<le> d" "now' < now + 15000000"
  shows "\<exists>ow db''. Claim c oid d now' db' = (Inr ow, db'') \<and> fenced ow now' db''"
proof -
  have keys: "keys_ok db" using reachable_moves [OF assms(1)] by blast
  have keys': "keys_ok db'"
    using reachable_moves [OF reachable.step [OF assms(1), of "ReqAdmit c" now]] assms(3) by simp
  from Admit_accepted [OF assms(3) keys] obtain v where v: "find_conversation (ThreadID c) db' = Some v"
    "cv_principal v = Principal c" by (auto simp: accepted_def)
  from assms(2,3) obtain db1 where "accept_tx c now db1 = Inr ((receipt, True), db')"
    by (auto simp: Admit_def conflict_result_def begin_func_Inr begin_func_def admit_tx_def
        split: if_splits sum.splits journal_error.splits option.splits)
  from accept_fresh [OF this] have c: "new_command c (RunID c) \<in> set (commands db')"
    and r: "new_run (RunID c) (ThreadID c) None None now \<in> set (runs db')" by blast+
  have "find_run (ThreadID c) (RunID c) db' = Some (new_run (RunID c) (ThreadID c) None None now)"
    using keys_find_run_row [OF keys' r] by (simp add: new_run_def)
  from claim_succeeds [OF keys' v c this _ _ assms(4,5)] assms(6) show ?thesis by (simp add: new_run_def)
qed

theorem Admit_then_Claim_witness:
  "\<exists>db' ow db''. Claim example_command ''w'' 1000000000 1000 db' = (Inr ow, db'') \<and> fenced ow 1000 db''"
proof -
  obtain r db' where a: "Admit example_libs example_command 0 empty_db = (r, db')" by force
  have "case fst (Admit example_libs example_command 0 empty_db) of Inl _ \<Rightarrow> False | Inr (_, f) \<Rightarrow> f" by code_simp
  with a obtain receipt where "Admit example_libs example_command 0 empty_db = (Inr (receipt, True), db')"
    by (auto split: sum.splits)
  from Admit_then_Claim [OF reachable.empty _ this, of "''w''" 1000000000 1000] show ?thesis
    by (auto simp: example_command_def)
qed

section \<open>The life of a run\<close>

text \<open>C28. A run only moves forward: after any further requests it still exists, its state is the same or a later one of
  its life cycle (so a run that ended keeps its state), and the product version, the endpoint and the
  settings it was first given never change.\<close>

theorem run_moves_forward:
  assumes "reachable lib db" "find_run t r db = Some x"
  shows "\<exists>y. find_run t r (run_requests lib reqs db) = Some y \<and>
    (rn_state y = rn_state x \<or> rank (rn_state x) < rank (rn_state y)) \<and>
    (rn_product_version x = None \<or> rn_product_version y = rn_product_version x \<and>
       rn_endpoint_id y = rn_endpoint_id x \<and> rn_settings y = rn_settings x)"
proof -
  note x = find_run_ok [OF assms(2)]
  from later_requests [OF assms(1), of reqs] x obtain y where y: "y \<in> set (runs (run_requests lib reqs db))"
    "run_later x y" by (auto simp: later_def)
  have "keys_ok (run_requests lib reqs db)" using reachable_moves [OF reachable_requests [OF assms(1)]] by blast
  from keys_find_run_row [OF this y(1)] y(2) x show ?thesis
    by (auto simp: run_later_def state_le_def)
qed

theorem run_moves_forward_witness:
  "\<exists>y. find_run ''t'' ''r'' (run_requests example_libs [(ReqReap, 2000000)] example_db) = Some y \<and>
     rn_state y \<noteq> RunPending"
proof -
  have "map_option rn_state (find_run ''t'' ''r'' example_db) = Some RunRunning" by code_simp
  then obtain x where x: "find_run ''t'' ''r'' example_db = Some x" "rn_state x = RunRunning" by auto
  from run_moves_forward [OF example_reachable x(1), of "[(ReqReap, 2000000)]"] x(2) show ?thesis by force
qed

section \<open>Finishing a run\<close>

text \<open>Events leave the commands and the calls alone.\<close>

definition rows :: "db \<Rightarrow> command_row list \<times> operation_row list \<times> run_row list" where
  "rows db = (commands db, operations db, runs db)"

lemma keep_rows_event: "moves (\<lambda>db db'. rows db' = rows db) (appendEvent t e)"
  by (auto intro!: movesI simp: appendEvent_ok rows_def)

lemma keep_rows_events: "moves (\<lambda>db db'. rows db' = rows db) (for_each xs (\<lambda>x. appendEvent t (h x)))"
  by (intro keep.moves_for_each keep_rows_event)

lemma disposePending_rows:
  assumes "disposePending t r s db = Inr (u, db')"
  shows "rows db' = (update_where (pending_command t r) (\<lambda>c. c\<lparr>cm_terminal_reason := state_string s\<rparr>) (commands db),
    operations db, runs db)"
proof -
  let ?db = "update_commands (pending_command t r) (\<lambda>c. c\<lparr>cm_terminal_reason := state_string s\<rparr>) db"
  from assms have "rows db' = rows ?db"
    unfolding disposePending_def query_ok exec_ok by (rule movesD [OF keep_rows_events])
  then show ?thesis by (simp add: rows_def update_commands_def)
qed

lemma markOperationsUnknown_rows:
  assumes "markOperationsUnknown t r db = Inr (u, db')"
  shows "rows db' = (commands db,
    update_where (dispatching_of t r) (\<lambda>x. x\<lparr>op_outcome := ''outcome_unknown''\<rparr>) (operations db), runs db)"
proof -
  let ?db = "update_operations (dispatching_of t r) (\<lambda>x. x\<lparr>op_outcome := ''outcome_unknown''\<rparr>)
    (update_attempts (\<lambda>a. at_outcome a = ''dispatching'' \<and>
       list_ex (\<lambda>x. op_call_id x = at_call_id a \<and> op_thread_id x = t \<and> op_run_id x = r) (operations db))
       (\<lambda>a. a\<lparr>at_outcome := ''outcome_unknown''\<rparr>) db)"
  from assms have "rows db' = rows ?db"
    unfolding markOperationsUnknown_def query_ok exec_ok by (rule movesD [OF keep_rows_events])
  then show ?thesis by (simp add: rows_def table_updates)
qed

lemma state_string_nonempty [simp]: "state_string s \<noteq> []"
  by (cases s) simp_all

lemma updated_none:
  assumes "\<And>x. p x \<Longrightarrow> \<not> p (f x)"
  shows "\<not> list_ex p (update_where p f xs)"
  using assms by (induction xs) auto

lemma none_pending:
  "\<not> list_ex (pending_command t r) (update_where (pending_command t r) (\<lambda>c. c\<lparr>cm_terminal_reason := state_string s\<rparr>) ks)"
  by (rule updated_none) (simp add: pending_command_def)

lemma none_dispatching:
  "\<not> list_ex (dispatching_of t r) (update_where (dispatching_of t r) (\<lambda>x. x\<lparr>op_outcome := ''outcome_unknown''\<rparr>) xs)"
  by (rule updated_none) (simp add: dispatching_of_def)

lemma finish_body_rows:
  assumes "finish_body ow state h answer callID tool terminal db = Inr (u, db')"
  shows "\<not> list_ex (pending_command (ow_thread ow) (ow_run ow)) (commands db') \<and>
    (state \<noteq> RunCompleted \<longrightarrow> \<not> list_ex (dispatching_of (ow_thread ow) (ow_run ow)) (operations db')) \<and>
    find_run (ow_thread ow) (ow_run ow) db' =
      map_option (\<lambda>r. r\<lparr>rn_state := state, rn_answer := answer\<rparr>) (find_run (ow_thread ow) (ow_run ow) db)"
proof -
  let ?t = "ow_thread ow" and ?r = "ow_run ow" and ?f = "\<lambda>r. r\<lparr>rn_state := state, rn_answer := answer\<rparr>"
  have s0: "state = RunCompleted \<longrightarrow> \<not> list_ex (pending_command ?t ?r) (commands db)"
    using assms by (auto simp: finish_body_def Let_def)
  from assms obtain r where "find_run ?t ?r db = Some r" by (auto simp: finish_body_def Let_def)
  with assms obtain db1 db2 db3 where
    s1: "(if state = RunCompleted then return ()
            else call (markOperationsUnknown ?t ?r) (\<lambda>_. disposePending ?t ?r state)) db = Inr ((), db1)" and
    s2: "(if h = [] \<or> rn_definition_digest r = None then return ()
            else case parse_json h of None \<Rightarrow> fail DecodeError
                 | Some h \<Rightarrow> set_history ?t h (return ())) db1 = Inr ((), db2)" and
    s3: "(if state = RunCompleted then completed_events ?t ?r answer callID tool else return ()) db2 = Inr ((), db3)" and
    s4: "appendEvent ?t (finish_event ?r state terminal) (update_run ?t ?r ?f db3) = Inr (u, db')"
    by (auto simp: finish_body_def Let_def)
  have "rows db2 = rows db1" using s2 by (auto simp: rows_def set_history_def split: if_splits option.splits)
  moreover have "moves (\<lambda>db db'. rows db' = rows db)
      (if state = RunCompleted then completed_events ?t ?r answer callID tool else return ())"
    by (auto simp: completed_events_def intro: keep_rows_event)
  from movesD [OF this s3] have "rows db3 = rows db2" .
  moreover have last: "rows db' = rows (update_run ?t ?r ?f db3)" by (rule movesD [OF keep_rows_event s4])
  ultimately have same: "commands db' = commands db1" "operations db' = operations db1" "runs db3 = runs db1"
    by (simp_all add: rows_def)
  have "find_run ?t ?r db' = find_run ?t ?r (update_run ?t ?r ?f db3)" using last by (intro find_run_cong) (simp add: rows_def)
  then have run: "find_run ?t ?r db' = map_option ?f (find_run ?t ?r db1)"
    by (simp add: find_run_update find_run_cong [OF same(3)])
  show ?thesis
  proof (cases "state = RunCompleted")
    case True
    with s0 s1 same run show ?thesis by simp
  next
    case False
    with s1 obtain db0 where d: "markOperationsUnknown ?t ?r db = Inr ((), db0)" "disposePending ?t ?r state db0 = Inr ((), db1)"
      by auto
    note mo = markOperationsUnknown_rows [OF d(1)] and dp = disposePending_rows [OF d(2)]
    have "find_run ?t ?r db1 = find_run ?t ?r db" using mo dp by (intro find_run_cong) (simp add: rows_def)
    with mo dp same run none_pending none_dispatching show ?thesis by (simp add: rows_def)
  qed
qed

text \<open>C29. A run that is finished leaves nothing open: after a successful \<open>Finish\<close> the run has the given state and
  answer, none of its commands is pending, unless it completed none of its calls is still being sent (a call
  cut short is recorded as unknown), and its owner no longer passes the fence.\<close>

theorem Finish_settles:
  assumes "Finish ow state h answer callID tool now db = (Inr u, db')"
  shows "(\<exists>x. find_run (ow_thread ow) (ow_run ow) db' = Some x \<and> rn_state x = state \<and> rn_answer x = answer) \<and>
    \<not> list_ex (pending_command (ow_thread ow) (ow_run ow)) (commands db') \<and>
    (state = RunCompleted \<or> \<not> list_ex (dispatching_of (ow_thread ow) (ow_run ow)) (operations db')) \<and>
    \<not> fenced ow now' db'"
proof -
  from assms have body: "finish_body ow state h answer callID tool None db = Inr (u, db')" "fenced ow now db"
    and state: "rank state = 3"
    by (auto simp: Finish_def finish_def owned_Inr split: if_splits)
  from body(2) obtain r where "find_run (ow_thread ow) (ow_run ow) db = Some r" by (auto simp: fenced_def)
  with finish_body_rows [OF body(1)] obtain x where x: "find_run (ow_thread ow) (ow_run ow) db' = Some x"
    "rn_state x = state \<and> rn_answer x = answer" by auto
  with state have "\<not> fenced ow now' db'" by (auto simp: fenced_def owns_def)
  then show ?thesis using x finish_body_rows [OF body(1)] by auto
qed

theorem Finish_settles_witness:
  "\<exists>x. find_run ''t'' ''r'' example_finished = Some x \<and> rn_state x = RunCompleted \<and> \<not> fenced example_owner 3000 example_finished"
proof -
  let ?db = "run_requests example_libs (example_requests @ [(ReqIncluded example_owner
    [\<lparr>in_CommunicationID = ''c'', in_Text = [], in_Digest = [], in_Payload = [], in_Materialized = True\<rparr>], 2000)]) empty_db"
  have e: "example_finished = snd (Finish example_owner RunCompleted [] ''hi'' [] [] 3000 ?db)"
    by (simp add: example_finished_def example_requests_def)
  have "isl (fst (Finish example_owner RunCompleted [] ''hi'' [] [] 3000 ?db)) = False" by code_simp
  then obtain u where "Finish example_owner RunCompleted [] ''hi'' [] [] 3000 ?db = (Inr u, example_finished)"
    unfolding e by (cases "Finish example_owner RunCompleted [] ''hi'' [] [] 3000 ?db"; cases "fst (Finish example_owner RunCompleted [] ''hi'' [] [] 3000 ?db)") auto
  from Finish_settles [OF this, of 3000] show ?thesis by (auto simp: example_owner_def example_command_def)
qed

section \<open>Refinement\<close>

text \<open>C10. The operations of the journal refine its specification: whatever requests are made, with whatever clock, the database
  changes only by moves, each of which writes one row of one table or one event as the specification of the tables allows.\<close>

theorem requests_refine_moves:
  assumes "reachable lib db"
  shows "(move lib)\<^sup>*\<^sup>* db (run_requests lib reqs db)"
  using assms
proof (induction reqs arbitrary: db)
  case (Cons rq reqs)
  obtain req now where rq: "rq = (req, now)" by fastforce
  have "keys_ok db" using reachable_moves [OF Cons.prems] by blast
  with refines_perform [of lib db req now] have "(move lib)\<^sup>*\<^sup>* db (perform lib req now db)" by (simp add: refines_def)
  with Cons.IH [OF reachable.step [OF Cons.prems, of req now]] rq show ?case by simp
qed simp

theorem requests_refine_moves_witness:
  "(move example_libs)\<^sup>*\<^sup>* empty_db (run_requests example_libs example_requests empty_db)"
  by (rule requests_refine_moves) (rule reachable.empty)

end
