(* ===== verification/Journal_Pins.thy ===== *)
theory Journal_Pins
  imports Journal_Life
begin

text \<open>
  Definition sets pinned by conversations and moved by activation, the settings recorded with a run,
  and the answers to a question.
\<close>

section \<open>Definition sets\<close>

text \<open>The definition set a run works with is one this replica serves, and the conversation is pinned to it when
  the operation returns; a conversation that was pinned keeps its pin unless it is idle, and then moves to the
  current set.\<close>

theorem ResolveDefinition_pins:
  assumes "ResolveDefinition ow (Some served) now db = (Inr d, db')"
    "find_conversation (ow_thread ow) db = Some v"
  shows "served d \<and> map_option cv_definition_digest (find_conversation (ow_thread ow) db') = Some (Some d) \<and>
    (cv_definition_digest v = Some d \<or>
     definition_current db = Some d \<and> (cv_definition_digest v = None \<or> conversationIdle ow db))"
proof -
  from assms have "resolve_body ow served db = Inr (d, db')" by (simp add: ResolveDefinition_def owned_Inr)
  then show ?thesis
    using assms(2)
    by (cases "cv_definition_digest v"; cases "definition_current db")
       (auto simp: resolve_body_def pin_conversation_def find_update_conversation appendEvent_ok
         find_conversation_add_event split: if_splits)
qed

text \<open>A claimed run in a deployment whose current set is activated.\<close>

definition set_digest :: string where "set_digest = replicate 64 (CHR ''a'')"

definition set_db :: db where
  "set_db = run_requests example_libs ((ReqPutDefinitionSet set_digest [(''a.md'', ''x'')], 0) #
     (ReqActivate [] set_digest (Some (\<lambda>_. True)), 1) # example_requests) empty_db"

theorem ResolveDefinition_pins_witness:
  "\<exists>db'. ResolveDefinition example_owner (Some (\<lambda>_. True)) 2000 set_db = (Inr set_digest, db') \<and>
     map_option cv_definition_digest (find_conversation ''t'' db') = Some (Some set_digest)"
proof -
  have o: "ow_thread example_owner = ''t''" by (simp add: example_owner_def example_command_def)
  have f: "fst (ResolveDefinition example_owner (Some (\<lambda>_. True)) 2000 set_db) = Inr set_digest" by code_simp
  then obtain db' where r: "ResolveDefinition example_owner (Some (\<lambda>_. True)) 2000 set_db = (Inr set_digest, db')"
    by (cases "ResolveDefinition example_owner (Some (\<lambda>_. True)) 2000 set_db") auto
  have "find_conversation ''t'' set_db \<noteq> None" by code_simp
  then obtain v where "find_conversation ''t'' set_db = Some v" by blast
  from ResolveDefinition_pins [OF r, of v] this r o show ?thesis by auto
qed

definition activated_kept :: "db \<Rightarrow> db \<Rightarrow> bool" where
  "activated_kept db db' = (\<forall>d. activated d db \<longrightarrow> activated d db')"

lemma activated_kept_update:
  assumes "definition_sets db' = update_where p f (definition_sets db)"
    "\<And>s. dset_digest (f s) = dset_digest s" "\<And>s. dset_activated_at (f s) \<noteq> None"
  shows "activated_kept db db'"
  unfolding activated_kept_def activated_def assms(1) list_ex_iff
proof (intro allI impI)
  fix d
  assume "\<exists>s \<in> set (definition_sets db). dset_digest s = d \<and> dset_activated_at s \<noteq> None"
  then obtain s where "s \<in> set (definition_sets db)" "dset_digest s = d" "dset_activated_at s \<noteq> None" by blast
  with in_update_whereI [OF this(1), of p f] assms(2,3)
  show "\<exists>s \<in> set (update_where p f (definition_sets db)). dset_digest s = d \<and> dset_activated_at s \<noteq> None"
    by (intro bexI [of _ "if p s then f s else s"]) auto
qed

lemma activated_kept_move: "move lib db db' \<Longrightarrow> activated_kept db db'"
proof (induction rule: move.induct)
  case (activated db d now)
  show ?case
    by (rule activated_kept_update [of _ "\<lambda>s. dset_digest s = d \<and> dset_activated_at s = None"
          "\<lambda>s. s\<lparr>dset_activated_at := Some now\<rparr>"]) (simp_all add: markActivated_def)
qed (auto simp: activated_kept_def activated_def table_updates set_marker_def insert_snapshot_def add_event_def)

lemma activated_kept_requests:
  assumes "reachable lib db" "activated d db"
  shows "activated d (run_requests lib reqs db)"
proof -
  have "activated_kept db (run_requests lib reqs db)"
    by (rule reachable_relation [OF assms(1)]) (auto simp: activated_kept_def dest: activated_kept_move)
  with assms(2) show ?thesis by (simp add: activated_kept_def)
qed

text \<open>C32. Activation only moves forward: once a definition set was activated and another one is current, an ordinary
  activation of it is refused and changes nothing, whatever happened in between; only a rollback brings it back.\<close>

theorem ActivateDefinition_forward:
  assumes "reachable lib db" "activated d db" "db' = run_requests lib reqs db" "definition_current db' \<noteq> Some d"
  shows "\<exists>e. ActivateDefinition expected d served now db' = (Inl e, db') \<and> e \<in> {ErrDefinition, ErrDefinitionSuperseded}"
  using activated_kept_requests [OF assms(1,2), of reqs] assms(3,4)
  by (auto simp: ActivateDefinition_def activate_def begin_func_def activate_tx_def tx_defs split: option.splits)

definition other_digest :: string where "other_digest = replicate 64 (CHR ''b'')"

definition activations :: "(request \<times> int) list" where
  "activations = [(ReqPutDefinitionSet other_digest [(''a.md'', ''y'')], 2),
     (ReqActivate set_digest other_digest (Some (\<lambda>_. True)), 3)]"

theorem ActivateDefinition_forward_witness:
  "\<exists>e. ActivateDefinition other_digest set_digest (Some (\<lambda>_. True)) 4 (run_requests example_libs activations set_db) =
     (Inl e, run_requests example_libs activations set_db) \<and> e \<in> {ErrDefinition, ErrDefinitionSuperseded}"
proof -
  have r: "reachable example_libs set_db" unfolding set_db_def by (rule reachable_requests) (rule reachable.empty)
  have a: "activated set_digest set_db" by code_simp
  have c: "definition_current (run_requests example_libs activations set_db) \<noteq> Some set_digest" by code_simp
  show ?thesis using ActivateDefinition_forward [OF r a refl c] by blast
qed

text \<open>An activation that succeeds is a compare-and-set: it makes the candidate current and marks it activated, and unless it
  was current already, the caller named the set that was current (or none, when there was none) and
  this replica serves every set in use.\<close>

theorem activate_compare_and_set:
  assumes "activate expected candidate (Some served) rollback now db = (Inr u, db')"
  shows "definition_current db' = Some candidate \<and> served candidate \<and>
    (definition_current db = Some candidate \<or>
     definition_current db = (if expected = [] \<and> definition_current db = None then None else Some expected) \<and>
     list_all served (referencedDigests db) \<and> (rollback \<or> \<not> activated candidate db))"
  using assms
  by (auto simp: activate_def begin_func_Inr activate_tx_def markActivated_def split: if_splits option.splits)

theorem activate_compare_and_set_witness:
  "\<exists>db'. activate set_digest other_digest (Some (\<lambda>_. True)) False 3 set_db = (Inr (), db') \<and>
     definition_current db' = Some other_digest"
proof -
  have "isl (fst (activate set_digest other_digest (Some (\<lambda>_. True)) False 3 set_db)) = False" by code_simp
  then obtain db' where a: "activate set_digest other_digest (Some (\<lambda>_. True)) False 3 set_db = (Inr (), db')"
    by (cases "activate set_digest other_digest (Some (\<lambda>_. True)) False 3 set_db"; cases "fst (activate set_digest other_digest (Some (\<lambda>_. True)) False 3 set_db)") auto
  from activate_compare_and_set [OF a] a show ?thesis by blast
qed

section \<open>Settings recorded with a run\<close>

text \<open>The time limit recorded with a run is read back: the settings resolved for a run, stored with it as JSON, give a waiting
  interaction exactly the time limit that was resolved.\<close>

theorem recordedInteractionTTL_Record:
  assumes "Compile doc = Inr c" "Resolve sha c cancelled scope = Inr s"
  shows "\<exists>j. parse_json (Record s) = Some j \<and> recordedInteractionTTL (Some j) = Inr (InteractionTTL s)"
proof -
  let ?j = "JObj [(''max_active_journeys'', JNum (show_int (MaxActiveJourneys s))),
      (''cost'', JObj [(''profile'', JStr (CostProfile s))]),
      (''interaction_ttl'', JNum (show_int (InteractionTTL s))), (''digest'', JStr (Digest s))]"
  have "60000000000 \<le> InteractionTTL s" "InteractionTTL s \<le> 604800000000000"
    using compiled.run_limits [OF Compile_ok [OF assms(1)] assms(2)] by simp_all
  moreover from this have "parse_int64 (show_int (InteractionTTL s)) = Some (InteractionTTL s)"
    by (intro parse_show_int) simp_all
  moreover have "fold_key ''max_active_journeys'' = ''max_active_journeys''" "fold_key ''cost'' = ''cost''"
    "fold_key ''interaction_ttl'' = ''interaction_ttl''" "fold_key ''digest'' = ''digest''" by code_simp+
  ultimately have "recordedInteractionTTL (Some ?j) = Inr (InteractionTTL s)"
    by (simp add: recordedInteractionTTL_def)
  moreover have "parse_json (Record s) = Some ?j"
    unfolding Record_def by (rule parse_print_json) simp
  ultimately show ?thesis by blast
qed

theorem recordedInteractionTTL_Record_witness:
  "\<exists>c s j. Compile example_document = Inr c \<and>
     Resolve (\<lambda>b. b) c False \<lparr>s_Tenant = ''acme'', s_Principal = ''ann''\<rparr> = Inr s \<and>
     parse_json (Record s) = Some j \<and> recordedInteractionTTL (Some j) = Inr (InteractionTTL s)"
proof -
  have "isl (Compile example_document) = False" by code_simp
  then obtain c where c: "Compile example_document = Inr c" by (cases "Compile example_document") auto
  have "\<exists>s. Resolve (\<lambda>b. b) c False \<lparr>s_Tenant = ''acme'', s_Principal = ''ann''\<rparr> = Inr s"
    by (simp add: Resolve_def)
  then obtain s where s: "Resolve (\<lambda>b. b) c False \<lparr>s_Tenant = ''acme'', s_Principal = ''ann''\<rparr> = Inr s" ..
  from recordedInteractionTTL_Record [OF c s] c s show ?thesis by blast
qed

section \<open>Answers\<close>

text \<open>The answer to a question: a text, an offered option, or an option beside a blank text.\<close>

definition answered :: "(string \<times> Answer) list \<Rightarrow> Question \<Rightarrow> bool" where
  "answered m q =
     (\<exists>a. map_of m (q_ID q) = Some a \<and>
        (a_Option a = [] \<and> trim_space (a_Custom a) \<noteq> [] \<and> length (a_Custom a) \<le> 4096 \<or>
         a_Option a \<noteq> [] \<and> a_Custom a = [] \<and> a_Option a \<in> set (map o_Label (q_Options q)) \<or>
         a_Option a \<noteq> [] \<and> a_Custom a \<noteq> [] \<and> trim_space (a_Custom a) = [] \<and> length (a_Custom a) \<le> 4096))"

lemma check_answers_answered: "check_answers m qs \<longleftrightarrow> list_all (answered m) qs"
  unfolding check_answers_iff list_all_iff answered_def ..

text \<open>What a valid reply says: an approval is answered with \<open>approve\<close> or \<open>deny\<close> and the binding of the proposed call; a
  clarification has as many answers as questions, and each question has an answer that is a text of at most 4096 bytes which
  is not blank, or one of the offered options, or any option beside a blank text.\<close>

theorem ValidateReply_iff:
  "ValidateReply i r = Inr () \<longleftrightarrow>
     (if i_Kind i = ''approval'' then
        r_Answers r = [] \<and> r_Binding r = pc_Binding (i_Call i) \<and> (r_Decision r = ''approve'' \<or> r_Decision r = ''deny'')
      else
        r_Decision r = [] \<and> r_Binding r = [] \<and> length (r_Answers r) = length (i_Questions i) \<and>
        list_all (answered (r_Answers r)) (i_Questions i))"
  by (auto simp: ValidateReply_def check_answers_answered)


end
