(* ===== verification/Runtime_History.thy ===== *)
theory Runtime_History
  imports Journal_Runs
begin

text \<open>
  The history that is sent to the model (\<open>internal/runtime/history.go\<close>): messages, the token estimate and the
  removal of the oldest turns. The encoder of the message library is a parameter, \<open>None\<close> when it fails.
\<close>

section \<open>Messages\<close>

datatype Role = RoleUser | RoleAssistant | RoleTool | RoleOther string

text \<open>The results a run appends: maps with string values, maps with any values, an answer to a question, a text, and
  whatever the integration endpoint returned or a stored history holds.\<close>

datatype result =
    StringMap "(string \<times> string) list"
  | AnyMap "(string \<times> json) list"
  | ReplyResult Reply
  | TextResult string
  | RemoteResult json

record FunctionCall =
  fc_CallID :: string
  fc_Name :: string
  fc_Arguments :: bytes
  fc_InformationalOnly :: bool

datatype content =
    CallContent FunctionCall
  | ResultContent string result
  | TextContent string
  | OtherContent json

record message =
  m_Role :: Role
  m_Contents :: "content list"

type_synonym marshal = "message list \<Rightarrow> bytes option"

section \<open>Trimming\<close>

definition bytesPerToken :: nat where "bytesPerToken = 4"

record Truncation =
  tr_TurnsDropped :: nat
  tr_MessagesDropped :: nat
  tr_EstimateBefore :: nat
  tr_EstimateAfter :: nat
  tr_Budget :: int

definition no_truncation :: Truncation where
  "no_truncation = \<lparr>tr_TurnsDropped = 0, tr_MessagesDropped = 0, tr_EstimateBefore = 0, tr_EstimateAfter = 0, tr_Budget = 0\<rparr>"

definition estimateTokens :: "marshal \<Rightarrow> message list \<Rightarrow> nat" where
  "estimateTokens marshal history =
     (case marshal history of None \<Rightarrow> 0 | Some data \<Rightarrow> (length data + bytesPerToken - 1) div bytesPerToken)"

fun turns_after :: "nat \<Rightarrow> message list \<Rightarrow> nat list" where
  "turns_after t [] = []"
| "turns_after t (m # ms) = (let t' = (if m_Role m = RoleUser then Suc t else t) in t' # turns_after t' ms)"

definition turn_of :: "message list \<Rightarrow> nat list" where
  "turn_of history = (case history of [] \<Rightarrow> [] | m # ms \<Rightarrow> 0 # turns_after 0 ms)"

definition turn_count :: "message list \<Rightarrow> nat" where
  "turn_count history = (if history = [] then 1 else Suc (last (turn_of history)))"

text \<open>One pass over the contents: the turn of each call, the units that calls and results tie together, and the
  turns that must be kept.\<close>

record scan =
  sc_unit :: "nat list"
  sc_callTurn :: "string \<rightharpoonup> nat"
  sc_keep :: "bool list"

definition scan_start :: "nat \<Rightarrow> scan" where
  "scan_start turns = \<lparr>sc_unit = [0..<turns], sc_callTurn = Map.empty, sc_keep = (replicate turns False)[turns - 1 := True]\<rparr>"

definition tie_turns :: "nat \<Rightarrow> nat \<Rightarrow> nat list \<Rightarrow> nat list" where
  "tie_turns fr t unit = fold (\<lambda>k u. u[k := u ! fr]) [Suc fr..<Suc t] unit"

fun scan_content :: "(string \<Rightarrow> bool) \<Rightarrow> nat \<Rightarrow> content \<Rightarrow> scan \<Rightarrow> scan" where
  "scan_content protected t (CallContent c) s =
     s\<lparr>sc_callTurn := (sc_callTurn s)(fc_CallID c \<mapsto> t),
       sc_keep := (if protected (fc_CallID c) then (sc_keep s)[t := True] else sc_keep s)\<rparr>"
| "scan_content protected t (ResultContent i r) s =
     (case sc_callTurn s i of
        Some fr \<Rightarrow>
          if fr < t then s\<lparr>sc_unit := tie_turns fr t (sc_unit s)\<rparr> else s
      | None \<Rightarrow> s)"
| "scan_content protected t c s = s"

definition scan_message :: "(string \<Rightarrow> bool) \<Rightarrow> nat \<times> message \<Rightarrow> scan \<Rightarrow> scan" where
  "scan_message protected tm = fold (scan_content protected (fst tm)) (m_Contents (snd tm))"

definition scan_history :: "(string \<Rightarrow> bool) \<Rightarrow> message list \<Rightarrow> scan" where
  "scan_history protected history =
     fold (scan_message protected) (zip (turn_of history) history) (scan_start (turn_count history))"

definition unit_kept :: "scan \<Rightarrow> nat \<Rightarrow> bool" where
  "unit_kept s u = list_ex (\<lambda>t. sc_keep s ! t \<and> sc_unit s ! t = u) [0..<length (sc_keep s)]"

text \<open>The last turn of the unit that holds turn \<open>e\<close>, when \<open>e\<close> belongs to the unit \<open>u\<close>.\<close>

function unit_end :: "nat list \<Rightarrow> nat \<Rightarrow> nat \<Rightarrow> nat" where
  "unit_end unit u e = (if Suc e < length unit \<and> unit ! Suc e = u then unit_end unit u (Suc e) else e)"
  by auto
termination by (relation "measure (\<lambda>(unit, u, e). length unit - e)") auto

declare unit_end.simps [simp del]

record trimming =
  tm_dropped :: "bool list"
  tm_current :: "message list"
  tm_estimate :: nat
  tm_turns :: nat
  tm_messages :: nat

definition remaining :: "message list \<Rightarrow> bool list \<Rightarrow> message list" where
  "remaining history dropped = map snd (filter (\<lambda>(d, m). \<not> d) (zip dropped history))"

definition drop_unit :: "marshal \<Rightarrow> message list \<Rightarrow> nat \<Rightarrow> nat \<Rightarrow> trimming \<Rightarrow> trimming" where
  "drop_unit marshal history start e p =
     (let within = map (\<lambda>t. start \<le> t \<and> t \<le> e) (turn_of history);
          dropped = map2 (\<lambda>d w. d \<or> w) (tm_dropped p) within;
          current = remaining history dropped
      in \<lparr>tm_dropped = dropped, tm_current = current, tm_estimate = estimateTokens marshal current,
          tm_turns = tm_turns p + (e - start + 1), tm_messages = tm_messages p + length (filter (\<lambda>w. w) within)\<rparr>)"

lemma unit_end_ge: "e \<le> unit_end unit u e"
proof (induction unit u e rule: unit_end.induct)
  case (1 unit u e)
  then show ?case by (subst unit_end.simps) (auto dest: Suc_leD)
qed

function drop_units :: "marshal \<Rightarrow> message list \<Rightarrow> int \<Rightarrow> scan \<Rightarrow> nat \<Rightarrow> trimming \<Rightarrow> trimming" where
  "drop_units marshal history budget s start p =
     (if start < length (sc_unit s) \<and> int (tm_estimate p) > budget then
        (let u = sc_unit s ! start; e = unit_end (sc_unit s) u start in
         drop_units marshal history budget s (Suc e)
           (if unit_kept s u then p else drop_unit marshal history start e p))
      else p)"
  by auto
termination
proof (relation "measure (\<lambda>(marshal, history, budget, s, start, p). length (sc_unit s) - start)", goal_cases)
  case (2 marshal history budget s start p u e)
  then show ?case using unit_end_ge [of start "sc_unit s" u] by auto
qed simp

declare drop_units.simps [simp del]

definition trim_start :: "marshal \<Rightarrow> message list \<Rightarrow> trimming" where
  "trim_start marshal history =
     \<lparr>tm_dropped = replicate (length history) False, tm_current = history,
      tm_estimate = estimateTokens marshal history, tm_turns = 0, tm_messages = 0\<rparr>"

definition trimHistory :: "marshal \<Rightarrow> message list \<Rightarrow> int \<Rightarrow> (string \<Rightarrow> bool) \<Rightarrow> message list \<times> Truncation" where
  "trimHistory marshal history budget protected =
     (if budget \<le> 0 \<or> history = [] \<or> int (estimateTokens marshal history) \<le> budget then (history, no_truncation)
      else let p = drop_units marshal history budget (scan_history protected history) 0 (trim_start marshal history) in
        if tm_turns p = 0 then (history, no_truncation)
        else (tm_current p,
              \<lparr>tr_TurnsDropped = tm_turns p, tr_MessagesDropped = tm_messages p,
               tr_EstimateBefore = estimateTokens marshal history, tr_EstimateAfter = tm_estimate p, tr_Budget = budget\<rparr>))"

text \<open>Which messages are left out, by position: the identity of a message is its place in the history.\<close>

definition trim_dropped :: "marshal \<Rightarrow> message list \<Rightarrow> int \<Rightarrow> (string \<Rightarrow> bool) \<Rightarrow> bool list" where
  "trim_dropped marshal history budget protected =
     (if budget \<le> 0 \<or> history = [] \<or> int (estimateTokens marshal history) \<le> budget then replicate (length history) False
      else tm_dropped (drop_units marshal history budget (scan_history protected history) 0 (trim_start marshal history)))"

section \<open>Turns\<close>

lemma length_turns_after [simp]: "length (turns_after t ms) = length ms"
  by (induction ms arbitrary: t) (auto simp: Let_def)

lemma length_turn_of [simp]: "length (turn_of h) = length h"
  by (auto simp: turn_of_def split: list.splits)

lemma turns_after_nth:
  "i < length ms \<Longrightarrow> turns_after t ms ! i =
     (if m_Role (ms ! i) = RoleUser then Suc ((t # turns_after t ms) ! i) else (t # turns_after t ms) ! i)"
proof (induction ms arbitrary: t i)
  case (Cons m ms)
  show ?case
  proof (cases i)
    case (Suc k)
    then show ?thesis using Cons.IH [of k "if m_Role m = RoleUser then Suc t else t"] Cons.prems
      by (cases k) (auto simp: Let_def)
  qed (simp add: Let_def)
qed simp

lemma turn_of_Suc:
  "Suc i < length h \<Longrightarrow> turn_of h ! Suc i = (if m_Role (h ! Suc i) = RoleUser then Suc (turn_of h ! i) else turn_of h ! i)"
  using turns_after_nth [of i "tl h" 0] by (cases h) (auto simp: turn_of_def)

lemma sorted_turn_of: "sorted (turn_of h)"
proof -
  have "turn_of h ! i \<le> turn_of h ! Suc i" if "Suc i < length h" for i using turn_of_Suc [OF that] by simp
  then show ?thesis by (simp add: sorted_iff_nth_Suc)
qed

lemma turn_of_less: "i < length h \<Longrightarrow> turn_of h ! i < turn_count h"
proof -
  assume i: "i < length h"
  then have "turn_of h ! i \<le> turn_of h ! (length h - 1)" using sorted_turn_of by (intro sorted_nth_mono) auto
  with i show ?thesis by (auto simp: turn_count_def last_conv_nth simp flip: length_0_conv)
qed

text \<open>Messages up to the end that hold no later user message are in the last turn.\<close>

lemma last_turn:
  assumes "i < length h" "\<And>k. i < k \<Longrightarrow> k < length h \<Longrightarrow> m_Role (h ! k) \<noteq> RoleUser"
  shows "turn_of h ! i = turn_count h - 1"
proof -
  have "turn_of h ! k = turn_of h ! i" if "i \<le> k" "k < length h" for k
    using that
  proof (induction k rule: dec_induct)
    case (step n)
    then show ?case using turn_of_Suc [of n h] assms(2) [of "Suc n"] by simp
  qed simp
  from this [of "length h - 1"] assms(1) show ?thesis by (auto simp: turn_count_def last_conv_nth simp flip: length_0_conv)
qed

section \<open>Units\<close>

lemma fold_copy:
  "fold (\<lambda>k u. u[k := u ! a]) [Suc a..<Suc b] u =
     map (\<lambda>k. if a < k \<and> k \<le> b then u ! a else u ! k) [0..<length u]"
proof (induction b)
  case 0
  have "map (\<lambda>k. if a < k \<and> k \<le> 0 then u ! a else u ! k) [0..<length u] = map ((!) u) [0..<length u]" by simp
  then show ?case by (simp add: map_nth)
next
  case (Suc b)
  show ?case
  proof (cases "Suc a < Suc (Suc b)")
    case True
    then have "fold (\<lambda>k u. u[k := u ! a]) [Suc a..<Suc (Suc b)] u =
        (let w = map (\<lambda>k. if a < k \<and> k \<le> b then u ! a else u ! k) [0..<length u] in w[Suc b := w ! a])"
      using Suc by (simp add: Let_def)
    also have "\<dots> = map (\<lambda>k. if a < k \<and> k \<le> Suc b then u ! a else u ! k) [0..<length u]"
      using True by (cases "a < length u") (auto simp: Let_def intro!: nth_equalityI simp: nth_list_update le_Suc_eq)
    finally show ?thesis .
  next
    case False
    then have "map (\<lambda>k. if a < k \<and> k \<le> Suc b then u ! a else u ! k) [0..<length u] = map ((!) u) [0..<length u]" by auto
    with False show ?thesis by (simp add: map_nth)
  qed
qed

lemma tie_turns_map:
  "tie_turns a b u = map (\<lambda>k. if a < k \<and> k \<le> b then u ! a else u ! k) [0..<length u]"
  unfolding tie_turns_def by (rule fold_copy)

lemma length_tie_turns [simp]: "length (tie_turns a b u) = length u"
  by (simp add: tie_turns_map)

lemma sorted_map_upt: "(\<And>a b. a \<le> b \<Longrightarrow> b < n \<Longrightarrow> f a \<le> (f b :: nat)) \<Longrightarrow> sorted (map f [0..<n])"
  by (simp add: sorted_iff_nth_mono)

lemma length_scan [simp]:
  "length (sc_unit (scan_content protected t c s)) = length (sc_unit s)"
  "length (sc_keep (scan_content protected t c s)) = length (sc_keep s)"
  by (cases c; simp split: option.splits)+

text \<open>Up to turn \<open>t\<close> the units are ranges of turns; later turns are their own units.\<close>

definition units_ok :: "nat \<Rightarrow> scan \<Rightarrow> bool" where
  "units_ok t s \<longleftrightarrow> sorted (sc_unit s) \<and> (\<forall>k < length (sc_unit s). sc_unit s ! k \<le> k) \<and>
     (\<forall>k < length (sc_unit s). t < k \<longrightarrow> sc_unit s ! k = k) \<and>
     (\<forall>i fr. sc_callTurn s i = Some fr \<longrightarrow> fr \<le> t)"

definition tied :: "scan \<Rightarrow> nat \<Rightarrow> nat \<Rightarrow> bool" where
  "tied s a b \<longleftrightarrow> sc_unit s ! a = sc_unit s ! b"

lemma units_ok_later: "units_ok t s \<Longrightarrow> t \<le> t' \<Longrightarrow> units_ok t' s"
  unfolding units_ok_def by (meson le_trans less_le_trans not_less)

lemma units_ok_content:
  assumes "units_ok t s"
  shows "units_ok t (scan_content protected t c s)"
proof (cases c)
  case (ResultContent i r)
  note ok = assms [unfolded units_ok_def]
  show ?thesis
  proof (cases "\<exists>fr. sc_callTurn s i = Some fr \<and> fr < t")
    case True
    then obtain fr where f: "sc_callTurn s i = Some fr" "fr < t" by blast
    let ?u = "\<lambda>k. if fr < k \<and> k \<le> t then sc_unit s ! fr else sc_unit s ! k"
    have mono: "sc_unit s ! a \<le> sc_unit s ! b" if "a \<le> b" "b < length (sc_unit s)" for a b
      using ok that by (simp add: sorted_nth_mono)
    have "?u a \<le> ?u b" if "a \<le> b" "b < length (sc_unit s)" for a b
      using mono [OF that] mono [of fr b] mono [of a fr] that by auto
    then have "sorted (map ?u [0..<length (sc_unit s)])" by (rule sorted_map_upt)
    moreover have "\<forall>k. fr < k \<and> k \<le> t \<longrightarrow> k < length (sc_unit s) \<longrightarrow> sc_unit s ! fr \<le> k"
      using ok mono [of fr] by (meson le_trans less_imp_le)
    ultimately show ?thesis using ResultContent f ok by (simp add: units_ok_def tie_turns_map)
  next
    case False
    with ResultContent assms show ?thesis by (auto split: option.splits)
  qed
qed (use assms in \<open>auto simp: units_ok_def\<close>)

lemma tied_content:
  assumes "units_ok t s" "tied s a b" "a \<le> b" "b < length (sc_unit s)" "b \<le> t"
  shows "tied (scan_content protected t c s) a b"
proof (cases c)
  case (ResultContent i r)
  have mono: "sc_unit s ! x \<le> sc_unit s ! y" if "x \<le> y" "y < length (sc_unit s)" for x y
    using assms(1) that by (simp add: units_ok_def sorted_nth_mono)
  show ?thesis
  proof (cases "\<exists>fr. sc_callTurn s i = Some fr \<and> fr < t")
    case True
    then obtain fr where "sc_callTurn s i = Some fr" "fr < t" by blast
    with ResultContent assms mono [of a fr] mono [of fr b] show ?thesis by (auto simp: tied_def tie_turns_map)
  next
    case False
    with ResultContent assms show ?thesis by (auto split: option.splits)
  qed
qed (use assms in \<open>auto simp: tied_def\<close>)


definition is_call_of :: "string \<Rightarrow> content \<Rightarrow> bool" where
  "is_call_of i c \<longleftrightarrow> (case c of CallContent f \<Rightarrow> fc_CallID f = i | _ \<Rightarrow> False)"

definition has_call :: "string \<Rightarrow> message \<Rightarrow> bool" where
  "has_call i m \<longleftrightarrow> list_ex (is_call_of i) (m_Contents m)"

definition has_result :: "string \<Rightarrow> message \<Rightarrow> bool" where
  "has_result i m \<longleftrightarrow> list_ex (\<lambda>c. case c of ResultContent j r \<Rightarrow> j = i | _ \<Rightarrow> False) (m_Contents m)"

lemma callTurn_content:
  "sc_callTurn (scan_content protected t c s) i = (if is_call_of i c then Some t else sc_callTurn s i)"
  by (cases c) (auto simp: is_call_of_def split: option.splits)

lemma set_true: "xs ! k \<Longrightarrow> xs[t := True] ! k"
  by (cases "t < length xs") (auto simp: nth_list_update list_update_beyond)

lemma keep_content:
  "sc_keep s ! k \<Longrightarrow> sc_keep (scan_content protected t c s) ! k"
  by (cases c) (auto simp: set_true split: option.splits)

lemma keep_call:
  "is_call_of i c \<Longrightarrow> protected i \<Longrightarrow> t < length (sc_keep s) \<Longrightarrow> sc_keep (scan_content protected t c s) ! t"
  by (cases c) (auto simp: is_call_of_def)

text \<open>The same for whole messages, by the contents.\<close>

lemma scan_contents:
  assumes "units_ok t s" "t < length (sc_unit s)" "length (sc_keep s) = length (sc_unit s)"
  shows "units_ok t (fold (scan_content protected t) cs s) \<and>
    length (sc_unit (fold (scan_content protected t) cs s)) = length (sc_unit s) \<and>
    length (sc_keep (fold (scan_content protected t) cs s)) = length (sc_unit s) \<and>
    (\<forall>a b. tied s a b \<longrightarrow> a \<le> b \<longrightarrow> b \<le> t \<longrightarrow> tied (fold (scan_content protected t) cs s) a b) \<and>
    (\<forall>k. sc_keep s ! k \<longrightarrow> sc_keep (fold (scan_content protected t) cs s) ! k) \<and>
    (\<forall>i. sc_callTurn (fold (scan_content protected t) cs s) i = (if list_ex (is_call_of i) cs then Some t else sc_callTurn s i)) \<and>
    (\<forall>i. list_ex (is_call_of i) cs \<longrightarrow> protected i \<longrightarrow> sc_keep (fold (scan_content protected t) cs s) ! t)"
  using assms
proof (induction cs arbitrary: s)
  case (Cons c cs)
  let ?s = "scan_content protected t c s"
  note IH = Cons.IH [OF units_ok_content [OF Cons.prems(1)], of protected c]
  have "\<forall>a b. tied s a b \<longrightarrow> a \<le> b \<longrightarrow> b \<le> t \<longrightarrow> tied ?s a b"
    using tied_content [OF Cons.prems(1)] Cons.prems(2) by auto
  then show ?case using IH Cons.prems
    by (auto simp: callTurn_content keep_content keep_call)
qed simp


text \<open>And for the messages of a history, whose turns never go down.\<close>

definition scan_ok :: "nat \<Rightarrow> nat \<Rightarrow> scan \<Rightarrow> bool" where
  "scan_ok turns t s \<longleftrightarrow> units_ok t s \<and> length (sc_unit s) = turns \<and> length (sc_keep s) = turns"

lemma scan_message:
  assumes "scan_ok turns t' s" "t' \<le> t" "t < turns"
  shows "scan_ok turns t (scan_message protected (t, m) s)"
    "tied s a b \<Longrightarrow> a \<le> b \<Longrightarrow> b \<le> t \<Longrightarrow> tied (scan_message protected (t, m) s) a b"
    "sc_keep s ! k \<Longrightarrow> sc_keep (scan_message protected (t, m) s) ! k"
    "sc_callTurn (scan_message protected (t, m) s) i = (if has_call i m then Some t else sc_callTurn s i)"
    "has_call i m \<Longrightarrow> protected i \<Longrightarrow> sc_keep (scan_message protected (t, m) s) ! t"
  using scan_contents [of t s protected "m_Contents m"] units_ok_later [of t' s t] assms
  by (simp_all add: scan_ok_def scan_message_def has_call_def)

lemma scan_result:
  assumes ok: "scan_ok turns t' s" "t' \<le> t" "t < turns" and c: "sc_callTurn s i = Some fr" "fr \<le> t"
    and m: "has_result i m" "\<not> has_call i m"
  shows "tied (scan_message protected (t, m) s) fr t"
proof -
  obtain xs c ys where split: "m_Contents m = xs @ c # ys" "case c of ResultContent j r \<Rightarrow> j = i | _ \<Rightarrow> False"
    using m(1) by (auto simp: has_result_def list_ex_iff dest!: split_list)
  then obtain r where r: "c = ResultContent i r" by (cases c) auto
  let ?s = "fold (scan_content protected t) xs s"
  have u: "units_ok t s" using units_ok_later ok by (auto simp: scan_ok_def)
  have pre: "units_ok t ?s" "length (sc_unit ?s) = turns" "length (sc_keep ?s) = turns" "sc_callTurn ?s i = Some fr"
    using scan_contents [OF u, of protected xs] ok m(2) split(1) c(1) by (auto simp: scan_ok_def has_call_def)
  have "tied (scan_content protected t c ?s) fr t"
    using r pre c(2) ok(3) by (cases "fr = t") (auto simp: tied_def tie_turns_map)
  moreover have "units_ok t (scan_content protected t c ?s)" using units_ok_content [OF pre(1)] .
  ultimately show ?thesis
    using scan_contents [of t "scan_content protected t c ?s" protected ys] pre c(2) ok(3) split(1)
    by (simp add: scan_message_def)
qed

lemma scan_messages:
  assumes "scan_ok turns t' s" "sorted (t' # map fst ps)" "\<forall>p \<in> set ps. fst p < turns"
  shows "scan_ok turns (last (t' # map fst ps)) (fold (scan_message protected) ps s) \<and>
    (\<forall>a b. tied s a b \<longrightarrow> a \<le> b \<longrightarrow> b \<le> t' \<longrightarrow> tied (fold (scan_message protected) ps s) a b) \<and>
    (\<forall>k. sc_keep s ! k \<longrightarrow> sc_keep (fold (scan_message protected) ps s) ! k) \<and>
    (\<forall>i. (\<forall>p \<in> set ps. \<not> has_call i (snd p)) \<longrightarrow> sc_callTurn (fold (scan_message protected) ps s) i = sc_callTurn s i)"
  using assms
proof (induction ps arbitrary: s t')
  case (Cons p ps)
  obtain t m where p: "p = (t, m)" by (cases p)
  have t: "t' \<le> t" "t < turns" using Cons.prems p by auto
  note step = scan_message [OF Cons.prems(1) t, where protected = protected and m = m]
  have "scan_ok turns (last (t # map fst ps)) (fold (scan_message protected) ps (scan_message protected (t, m) s)) \<and>
    (\<forall>a b. tied (scan_message protected (t, m) s) a b \<longrightarrow> a \<le> b \<longrightarrow> b \<le> t \<longrightarrow>
       tied (fold (scan_message protected) ps (scan_message protected (t, m) s)) a b) \<and>
    (\<forall>k. sc_keep (scan_message protected (t, m) s) ! k \<longrightarrow>
       sc_keep (fold (scan_message protected) ps (scan_message protected (t, m) s)) ! k) \<and>
    (\<forall>i. (\<forall>p \<in> set ps. \<not> has_call i (snd p)) \<longrightarrow>
       sc_callTurn (fold (scan_message protected) ps (scan_message protected (t, m) s)) i =
       sc_callTurn (scan_message protected (t, m) s) i)"
    using Cons.IH [OF step(1)] Cons.prems p by auto
  then show ?case using step t p by (auto simp del: last.simps simp: last_ConsR)
qed auto


lemma scan_start_ok: "0 < turns \<Longrightarrow> scan_ok turns 0 (scan_start turns)"
  by (auto simp: scan_ok_def scan_start_def units_ok_def)

lemma turn_count_pos: "0 < turn_count h"
  by (simp add: turn_count_def)

text \<open>Splitting the pass at a message.\<close>

lemma scan_history_ok:
  "\<exists>t. scan_ok (turn_count h) t (scan_history protected h)"
  "sc_keep (scan_history protected h) ! (turn_count h - 1)"
proof -
  have ps: "sorted (0 # map fst (zip (turn_of h) h))" "\<forall>p \<in> set (zip (turn_of h) h). fst p < turn_count h"
    using sorted_turn_of [of h] turn_of_less [of _ h] by (auto simp: set_zip)
  note m = scan_messages [OF scan_start_ok [OF turn_count_pos] ps, of protected]
  show "\<exists>t. scan_ok (turn_count h) t (scan_history protected h)" using m unfolding scan_history_def by blast
  have "sc_keep (scan_start (turn_count h)) ! (turn_count h - 1)" using turn_count_pos [of h] by (simp add: scan_start_def)
  with m show "sc_keep (scan_history protected h) ! (turn_count h - 1)" unfolding scan_history_def by blast
qed

lemma sorted_last_le: "sorted (x # xs @ y # ys) \<Longrightarrow> last (x # xs) \<le> y"
  by (cases xs rule: rev_cases) (auto simp: sorted_append)

lemma scan_split:
  assumes "i < length h"
  obtains s t' where "scan_ok (turn_count h) t' s" "t' \<le> turn_of h ! i"
    "scan_history protected h = fold (scan_message protected) (zip (drop (Suc i) (turn_of h)) (drop (Suc i) h))
       (scan_message protected (turn_of h ! i, h ! i) s)"
proof -
  let ?z = "zip (turn_of h) h"
  let ?s = "fold (scan_message protected) (take i ?z) (scan_start (turn_count h))"
  have z: "?z = take i ?z @ (turn_of h ! i, h ! i) # drop (Suc i) ?z" using id_take_nth_drop [of i ?z] assms by simp
  have fst: "map fst (take i ?z) = take i (turn_of h)" by (simp flip: take_map)
  have ps: "sorted (0 # map fst (take i ?z))" "\<forall>p \<in> set (take i ?z). fst p < turn_count h"
    using sorted_turn_of [of h] turn_of_less [of _ h] fst by (auto simp: set_zip sorted_wrt_take dest!: in_set_takeD)
  let ?t = "last (0 # map fst (take i ?z))"
  have "?t \<le> turn_of h ! i"
  proof (cases "i = 0")
    case False
    then have "?t = turn_of h ! (i - 1)" using assms by (auto simp: fst last_conv_nth take_eq_Nil simp flip: length_0_conv)
    then show ?thesis using sorted_turn_of assms by (simp add: sorted_nth_mono)
  qed simp
  moreover have "scan_ok (turn_count h) ?t ?s"
    using scan_messages [OF scan_start_ok [OF turn_count_pos] ps, of protected] by blast
  moreover have "scan_history protected h = fold (scan_message protected) (zip (drop (Suc i) (turn_of h)) (drop (Suc i) h))
       (scan_message protected (turn_of h ! i, h ! i) ?s)"
    unfolding scan_history_def by (subst z) (simp add: drop_zip)
  ultimately show ?thesis using that by blast
qed

lemma turns_drop:
  assumes "i < length h"
  shows "sorted (turn_of h ! i # map fst (zip (drop (Suc i) (turn_of h)) (drop (Suc i) h)))"
    "\<forall>p \<in> set (zip (drop (Suc i) (turn_of h)) (drop (Suc i) h)). fst p < turn_count h"
proof -
  have "drop i (turn_of h) = turn_of h ! i # drop (Suc i) (turn_of h)" using assms by (simp add: Cons_nth_drop_Suc)
  then show "sorted (turn_of h ! i # map fst (zip (drop (Suc i) (turn_of h)) (drop (Suc i) h)))"
    using sorted_wrt_drop [of "(\<le>)" "turn_of h" i] sorted_turn_of [of h] by simp
  show "\<forall>p \<in> set (zip (drop (Suc i) (turn_of h)) (drop (Suc i) h)). fst p < turn_count h"
    using turn_of_less [of _ h] by (auto simp: set_zip)
qed

lemma protected_kept:
  assumes "i < length h" "has_call c (h ! i)" "protected c"
  shows "sc_keep (scan_history protected h) ! (turn_of h ! i)"
proof -
  from scan_split [OF assms(1)] obtain s t' where s: "scan_ok (turn_count h) t' s" "t' \<le> turn_of h ! i"
    "scan_history protected h = fold (scan_message protected) (zip (drop (Suc i) (turn_of h)) (drop (Suc i) h))
       (scan_message protected (turn_of h ! i, h ! i) s)" .
  note m = scan_message [OF s(1,2) turn_of_less [OF assms(1)], where protected = protected and m = "h ! i"]
  have "sc_keep (scan_message protected (turn_of h ! i, h ! i) s) ! (turn_of h ! i)" using m(5) assms by blast
  then show ?thesis using scan_messages [OF m(1) turns_drop [OF assms(1)], of protected] unfolding s(3) by blast
qed

lemma result_tied:
  assumes "i < j" "j < length h" "has_call c (h ! i)" "has_result c (h ! j)"
    "\<And>k. i < k \<Longrightarrow> k \<le> j \<Longrightarrow> \<not> has_call c (h ! k)"
  shows "tied (scan_history protected h) (turn_of h ! i) (turn_of h ! j)"
proof -
  have i: "i < length h" using assms by simp
  from scan_split [OF i] obtain s t' where s: "scan_ok (turn_count h) t' s" "t' \<le> turn_of h ! i"
    "scan_history protected h = fold (scan_message protected) (zip (drop (Suc i) (turn_of h)) (drop (Suc i) h))
       (scan_message protected (turn_of h ! i, h ! i) s)" .
  let ?z = "zip (drop (Suc i) (turn_of h)) (drop (Suc i) h)" and ?n = "j - Suc i"
  have n: "?n < length ?z" "?z ! ?n = (turn_of h ! j, h ! j)" using assms by auto
  have z: "?z = take ?n ?z @ (turn_of h ! j, h ! j) # drop (Suc ?n) ?z" using n by (metis id_take_nth_drop)
  note m = scan_message [OF s(1,2) turn_of_less [OF i], where protected = protected and m = "h ! i"]
  let ?a = "scan_message protected (turn_of h ! i, h ! i) s"
  have sorted: "sorted (turn_of h ! i # map fst (take ?n ?z @ (turn_of h ! j, h ! j) # drop (Suc ?n) ?z))"
    and less: "\<forall>p \<in> set (take ?n ?z @ (turn_of h ! j, h ! j) # drop (Suc ?n) ?z). fst p < turn_count h"
    using turns_drop [OF i] unfolding z [symmetric] .
  have none: "\<forall>p \<in> set (take ?n ?z). \<not> has_call c (snd p)"
  proof
    fix p assume "p \<in> set (take ?n ?z)"
    then obtain k where "k < ?n" "k < length ?z" "p = ?z ! k" by (auto simp: in_set_conv_nth)
    then show "\<not> has_call c (snd p)" using assms(5) [of "Suc i + k"] assms(1,2) by simp
  qed
  let ?b = "fold (scan_message protected) (take ?n ?z) ?a"
  let ?t = "last (turn_of h ! i # map fst (take ?n ?z))"
  have b: "scan_ok (turn_count h) ?t ?b" "sc_callTurn ?b c = Some (turn_of h ! i)"
    using scan_messages [OF m(1), of "take ?n ?z" protected] none sorted less m(4) assms(3)
    by (auto simp: sorted_append)
  have t: "?t \<le> turn_of h ! j"
    using sorted by (intro sorted_last_le [of _ _ _ "map fst (drop (Suc ?n) ?z)"]) simp
  let ?c = "scan_message protected (turn_of h ! j, h ! j) ?b"
  have le: "turn_of h ! i \<le> turn_of h ! j" using sorted by simp
  have c: "tied ?c (turn_of h ! i) (turn_of h ! j)"
    using scan_result [OF b(1) t turn_of_less [OF assms(2)] b(2) le assms(4)] assms(1,5) by simp
  have "scan_ok (turn_count h) (turn_of h ! j) ?c"
    using scan_message(1) [OF b(1) t turn_of_less [OF assms(2)]] .
  from scan_messages [OF this, of "drop (Suc ?n) ?z" protected] sorted less c le
  have "tied (fold (scan_message protected) (drop (Suc ?n) ?z) ?c) (turn_of h ! i) (turn_of h ! j)"
    by (auto simp: sorted_append)
  moreover have "scan_history protected h = fold (scan_message protected) (drop (Suc ?n) ?z) ?c"
    unfolding s(3) by (subst z) simp
  ultimately show ?thesis by simp
qed


section \<open>The drop loop\<close>

lemma unit_end_spec:
  assumes "e < length unit" "unit ! e = u"
  shows "unit_end unit u e < length unit" "\<And>k. e \<le> k \<Longrightarrow> k \<le> unit_end unit u e \<Longrightarrow> unit ! k = u"
    "Suc (unit_end unit u e) < length unit \<Longrightarrow> unit ! Suc (unit_end unit u e) \<noteq> u"
  using assms
proof (induction unit u e rule: unit_end.induct)
  case (1 unit u e)
  {
    case 1
    then show ?case using "1.IH"(1) by (subst unit_end.simps) auto
  next
    case (2 k)
    then show ?case using "1.IH"(2) [of k]
      by (cases "k = e"; subst (asm) (2) unit_end.simps) (auto split: if_splits)
  next
    case 3
    then show ?case using "1.IH"(3) by (subst unit_end.simps, subst (asm) unit_end.simps) (auto split: if_splits)
  }
qed

text \<open>\<open>D\<close> is the set of dropped turns: whole units before \<open>start\<close>, none of them kept.\<close>

definition drops :: "marshal \<Rightarrow> message list \<Rightarrow> scan \<Rightarrow> nat \<Rightarrow> nat set \<Rightarrow> trimming \<Rightarrow> bool" where
  "drops marshal h s start D p \<longleftrightarrow>
     D \<subseteq> {..<min start (length (sc_unit s))} \<and>
     (\<forall>a b. a < length (sc_unit s) \<longrightarrow> b < length (sc_unit s) \<longrightarrow> tied s a b \<longrightarrow> (a \<in> D \<longleftrightarrow> b \<in> D)) \<and>
     (\<forall>a < length (sc_unit s). a < start \<longrightarrow> (a \<in> D \<longleftrightarrow> \<not> unit_kept s (sc_unit s ! a))) \<and>
     (\<forall>a b. a < start \<longrightarrow> start \<le> b \<longrightarrow> b < length (sc_unit s) \<longrightarrow> \<not> tied s a b) \<and>
     tm_dropped p = map (\<lambda>t. t \<in> D) (turn_of h) \<and> tm_current p = remaining h (tm_dropped p) \<and>
     tm_estimate p = estimateTokens marshal (tm_current p) \<and> tm_turns p = card D \<and>
     tm_messages p = length (filter (\<lambda>d. d) (tm_dropped p))"

lemma map2_map_or: "map2 (\<lambda>d w. d \<or> w) (map f xs) (map g xs) = map (\<lambda>x. f x \<or> g x) xs"
  by (induction xs) auto

lemma length_filter_disjoint:
  "(\<And>x. x \<in> set xs \<Longrightarrow> \<not> (f x \<and> g x)) \<Longrightarrow>
     length (filter (\<lambda>x. f x \<or> g x) xs) = length (filter f xs) + length (filter g xs)"
  by (induction xs) auto

lemma drops_step:
  assumes d: "drops marshal h s start D p" and start: "start < length (sc_unit s)" and mono: "sorted (sc_unit s)"
    and e: "e = unit_end (sc_unit s) (sc_unit s ! start) start"
  shows "\<exists>D'. drops marshal h s (Suc e) D' (if unit_kept s (sc_unit s ! start) then p else drop_unit marshal h start e p)"
proof -
  let ?u = "sc_unit s"
  have ge: "start \<le> e" using unit_end_ge e by simp
  have en: "e < length ?u" "\<And>k. start \<le> k \<Longrightarrow> k \<le> e \<Longrightarrow> ?u ! k = ?u ! start"
    "Suc e < length ?u \<Longrightarrow> ?u ! Suc e \<noteq> ?u ! start"
    unfolding e by (fact unit_end_spec [OF start refl])+
  have later: "?u ! b \<noteq> ?u ! start" if "e < b" "b < length ?u" for b
  proof -
    have "?u ! e \<le> ?u ! Suc e" "?u ! Suc e \<le> ?u ! b" using mono that by (auto intro!: sorted_nth_mono)
    with en(2) [OF ge] en(3) that show ?thesis by fastforce
  qed
  have sep: "?u ! a \<noteq> ?u ! b" if "a \<le> e" "e < b" "b < length ?u" for a b
  proof (cases "a < start")
    case True
    then show ?thesis using d that ge unfolding drops_def tied_def by auto
  next
    case False
    with en(2) [of a] later [of b] that show ?thesis by simp
  qed
  show ?thesis
  proof (cases "unit_kept s (?u ! start)")
    case True
    have "drops marshal h s (Suc e) D p"
      unfolding drops_def
    proof (intro conjI allI impI)
      show "a \<in> D \<longleftrightarrow> \<not> unit_kept s (?u ! a)" if "a < length ?u" "a < Suc e" for a
      proof (cases "a < start")
        case True
        then show ?thesis using that d by (simp add: drops_def)
      next
        case False
        then have "a \<notin> D" "?u ! a = ?u ! start" using that d en(2) [of a] by (auto simp: drops_def)
        then show ?thesis using True by simp
      qed
      show "\<not> tied s a b" if "a < Suc e" "Suc e \<le> b" "b < length ?u" for a b using sep that by (simp add: tied_def)
      show "D \<subseteq> {..<min (Suc e) (length ?u)}" using d ge unfolding drops_def by auto
      show "a \<in> D \<longleftrightarrow> b \<in> D" if "a < length ?u" "b < length ?u" "tied s a b" for a b
        using that d unfolding drops_def by blast
    qed (use d in \<open>simp_all add: drops_def\<close>)
    with True show ?thesis by auto
  next
    case False
    let ?D = "D \<union> {start..e}"
    have D: "D \<subseteq> {..<start}" using d by (auto simp: drops_def)
    then have fin: "finite D" "D \<inter> {start..e} = {}" using finite_subset by auto
    have "drops marshal h s (Suc e) ?D (drop_unit marshal h start e p)"
      unfolding drops_def
    proof (intro conjI allI impI)
      show "?D \<subseteq> {..<min (Suc e) (length ?u)}" using D en(1) ge by auto
      show "a \<in> ?D \<longleftrightarrow> b \<in> ?D" if "a < length ?u" "b < length ?u" "tied s a b" for a b
        using that d sep en(2) later unfolding drops_def tied_def
        by (smt (verit) UnE UnI1 UnI2 atLeastAtMost_iff linorder_not_le)
      show "a \<in> ?D \<longleftrightarrow> \<not> unit_kept s (?u ! a)" if "a < length ?u" "a < Suc e" for a
      proof (cases "a < start")
        case True
        then show ?thesis using that d by (simp add: drops_def)
      next
        case later: False
        then have "a \<in> ?D" "?u ! a = ?u ! start" using that en(2) [of a] by auto
        then show ?thesis using False by simp
      qed
      show "\<not> tied s a b" if "a < Suc e" "Suc e \<le> b" "b < length ?u" for a b using sep that by (simp add: tied_def)
      show "tm_dropped (drop_unit marshal h start e p) = map (\<lambda>t. t \<in> ?D) (turn_of h)"
        using d by (simp add: drop_unit_def Let_def drops_def map2_map_or)
      show "tm_turns (drop_unit marshal h start e p) = card ?D"
        using d fin ge by (simp add: drop_unit_def Let_def drops_def card_Un_disjoint)
      have "length (filter (\<lambda>t. t \<in> D \<or> start \<le> t \<and> t \<le> e) (turn_of h)) =
          length (filter (\<lambda>t. t \<in> D) (turn_of h)) + length (filter (\<lambda>t. start \<le> t \<and> t \<le> e) (turn_of h))"
        using D by (intro length_filter_disjoint) auto
      then show "tm_messages (drop_unit marshal h start e p) = length (filter (\<lambda>d. d) (tm_dropped (drop_unit marshal h start e p)))"
        using d by (simp add: drop_unit_def Let_def drops_def map2_map_or filter_map comp_def)
    qed (simp_all add: drop_unit_def Let_def)
    with False show ?thesis by auto
  qed
qed

lemma drops_loop:
  assumes "drops marshal h s start D p" "sorted (sc_unit s)"
  shows "\<exists>D' start'. drops marshal h s start' D' (drop_units marshal h budget s start p) \<and>
    (int (tm_estimate (drop_units marshal h budget s start p)) \<le> budget \<or> length (sc_unit s) \<le> start')"
  using assms
proof (induction marshal h budget s start p arbitrary: D rule: drop_units.induct)
  case (1 marshal h budget s start p)
  show ?case
  proof (cases "start < length (sc_unit s) \<and> int (tm_estimate p) > budget")
    case True
    let ?e = "unit_end (sc_unit s) (sc_unit s ! start) start"
    from drops_step [OF 1(2) _ 1(3) refl] True obtain D' where
      "drops marshal h s (Suc ?e) D' (if unit_kept s (sc_unit s ! start) then p else drop_unit marshal h start ?e p)" by auto
    from 1(1) [OF True refl refl this 1(3)] True show ?thesis by (subst (1 2) drop_units.simps) (simp add: Let_def)
  next
    case False
    then have "drop_units marshal h budget s start p = p" by (subst drop_units.simps) auto
    with False 1(2) show ?thesis by (intro exI [of _ D] exI [of _ start]) auto
  qed
qed


lemma drops_trim:
  "\<exists>D start. drops marshal h (scan_history protected h) start D
       (drop_units marshal h budget (scan_history protected h) 0 (trim_start marshal h)) \<and>
     (int (tm_estimate (drop_units marshal h budget (scan_history protected h) 0 (trim_start marshal h))) \<le> budget \<or>
      turn_count h \<le> start)"
proof -
  from scan_history_ok(1) [where h = h and protected = protected] obtain t where ok: "scan_ok (turn_count h) t (scan_history protected h)" by blast
  have "map snd (zip (map (\<lambda>t. False) (turn_of h)) h) = h" by simp
  moreover have "filter (\<lambda>(d, m). \<not> d) (zip (map (\<lambda>t. False) (turn_of h)) h) = zip (map (\<lambda>t. False) (turn_of h)) h"
    by (rule filter_True) (auto simp: set_zip)
  ultimately have "drops marshal h (scan_history protected h) 0 {} (trim_start marshal h)"
    by (simp add: drops_def trim_start_def remaining_def map_replicate_const filter_replicate)
  from drops_loop [OF this] ok show ?thesis by (auto simp: scan_ok_def units_ok_def)
qed

lemma remaining_nths: "length ds = length h \<Longrightarrow> remaining h ds = nths h {i. i < length h \<and> \<not> ds ! i}"
proof (induction ds h rule: list_induct2)
  case (Cons d ds m h)
  have "{i. Suc i \<in> {i. i < length (m # h) \<and> \<not> (d # ds) ! i}} = {i. i < length h \<and> \<not> ds ! i}" by auto
  then show ?case using Cons by (simp add: nths_Cons remaining_def)
qed (simp add: remaining_def)

text \<open>What a trimmed history keeps, by index.\<close>

definition trim_keeps :: "(string \<Rightarrow> bool) \<Rightarrow> message list \<Rightarrow> nat set \<Rightarrow> bool" where
  "trim_keeps protected h K \<longleftrightarrow>
     (\<forall>i. Suc i < length h \<longrightarrow> m_Role (h ! Suc i) \<noteq> RoleUser \<longrightarrow> (i \<in> K \<longleftrightarrow> Suc i \<in> K)) \<and>
     (\<forall>i < length h. (\<forall>k. i < k \<longrightarrow> k < length h \<longrightarrow> m_Role (h ! k) \<noteq> RoleUser) \<longrightarrow> i \<in> K) \<and>
     (\<forall>i c. i < length h \<longrightarrow> has_call c (h ! i) \<longrightarrow> protected c \<longrightarrow> i \<in> K) \<and>
     (\<forall>i j c. i < j \<longrightarrow> j < length h \<longrightarrow> has_call c (h ! i) \<longrightarrow> has_result c (h ! j) \<longrightarrow>
        (\<forall>k. i < k \<longrightarrow> k \<le> j \<longrightarrow> \<not> has_call c (h ! k)) \<longrightarrow> (i \<in> K \<longleftrightarrow> j \<in> K))"

lemma drops_keep:
  assumes "drops marshal h (scan_history protected h) start D p"
  shows "trim_keeps protected h {i. i < length h \<and> turn_of h ! i \<notin> D}"
proof -
  let ?s = "scan_history protected h"
  from scan_history_ok [where h = h and protected = protected] obtain t where ok: "scan_ok (turn_count h) t ?s" and
    top: "sc_keep ?s ! (turn_count h - 1)" by blast
  then have len: "length (sc_unit ?s) = turn_count h" "length (sc_keep ?s) = turn_count h" by (auto simp: scan_ok_def)
  have kept: "a \<notin> D" if "sc_keep ?s ! a" "a < turn_count h" for a
  proof
    assume "a \<in> D"
    then have "a < start" using assms by (auto simp: drops_def)
    with that \<open>a \<in> D\<close> assms len have "\<not> unit_kept ?s (sc_unit ?s ! a)" by (simp add: drops_def)
    with that len show False by (auto simp: unit_kept_def list_ex_iff)
  qed
  have same: "turn_of h ! i \<in> D \<longleftrightarrow> turn_of h ! j \<in> D" if "tied ?s (turn_of h ! i) (turn_of h ! j)" "i < length h" "j < length h" for i j
    using that turn_of_less [of i h] turn_of_less [of j h] assms len by (simp add: drops_def)
  show ?thesis
    unfolding trim_keeps_def
  proof (intro conjI allI impI)
    show "i \<in> {i. i < length h \<and> turn_of h ! i \<notin> D}" if "i < length h" "has_call c (h ! i)" "protected c" for i c
      using kept [OF protected_kept [where protected = protected, OF that] turn_of_less [OF that(1)]] that by simp
    show "i \<in> {i. i < length h \<and> turn_of h ! i \<notin> D}"
      if "i < length h" "\<forall>k. i < k \<longrightarrow> k < length h \<longrightarrow> m_Role (h ! k) \<noteq> RoleUser" for i
      using kept [OF top] last_turn [of i h] turn_count_pos [of h] that by simp
    show "i \<in> {i. i < length h \<and> turn_of h ! i \<notin> D} \<longleftrightarrow> j \<in> {i. i < length h \<and> turn_of h ! i \<notin> D}"
      if "i < j" "j < length h" "has_call c (h ! i)" "has_result c (h ! j)" "\<forall>k. i < k \<longrightarrow> k \<le> j \<longrightarrow> \<not> has_call c (h ! k)" for i j c
      using same [OF result_tied [OF that(1-4)]] that by simp
  qed (simp add: turn_of_Suc)
qed

section \<open>Properties\<close>

text \<open>C33. Trimming removes whole turns only, never the latest turn, never a turn with a protected call, and never one of
  a call and its result without the other: what is kept is the history restricted to a set of indexes that
  treats the messages of a turn alike, contains every message after the last user message and every message
  with a protected call, and contains the message of a call exactly when it contains the message of its result.\<close>

theorem trimHistory_keeps:
  "\<exists>K. fst (trimHistory marshal h budget protected) = nths h K \<and> trim_keeps protected h K"
proof -
  have "trim_keeps protected h {..<length h}" by (auto simp: trim_keeps_def)
  moreover have "h = nths h {..<length h}" by (simp add: nths_upt_eq_take)
  ultimately have all: "\<exists>K. h = nths h K \<and> trim_keeps protected h K" by blast
  let ?p = "drop_units marshal h budget (scan_history protected h) 0 (trim_start marshal h)"
  obtain D start where D: "drops marshal h (scan_history protected h) start D ?p"
    using drops_trim by blast
  then have "tm_current ?p = nths h {i. i < length h \<and> turn_of h ! i \<notin> D}"
    using remaining_nths [of "map (\<lambda>t. t \<in> D) (turn_of h)" h] by (simp add: drops_def cong: conj_cong)
  with drops_keep [OF D] show ?thesis
    using all unfolding trimHistory_def Let_def by (auto intro: exI [of _ "{i. i < length h \<and> turn_of h ! i \<notin> D}"])
qed

text \<open>C34. Trimming fits the budget when it can: with a positive budget either the estimate of the result is within it,
  or everything that may be dropped has been dropped; and the report counts the messages that are missing
  and gives the estimates of the two histories.\<close>

theorem trimHistory_fits:
  assumes "0 < budget" "trimHistory marshal h budget protected = (kept, t)"
  shows "(int (estimateTokens marshal kept) \<le> budget \<or>
      kept = map snd (filter (\<lambda>(k, m). unit_kept (scan_history protected h) (sc_unit (scan_history protected h) ! k))
        (zip (turn_of h) h))) \<and>
    tr_MessagesDropped t + length kept = length h \<and>
    (t = no_truncation \<and> kept = h \<or>
     0 < tr_TurnsDropped t \<and> tr_EstimateBefore t = estimateTokens marshal h \<and> budget < int (tr_EstimateBefore t) \<and>
     tr_EstimateAfter t = estimateTokens marshal kept)"
proof -
  let ?s = "scan_history protected h"
  let ?p = "drop_units marshal h budget ?s 0 (trim_start marshal h)"
  obtain D start where D: "drops marshal h ?s start D ?p" and or: "int (tm_estimate ?p) \<le> budget \<or> turn_count h \<le> start"
    using drops_trim by blast
  from scan_history_ok(1) [where h = h and protected = protected] have len: "length (sc_unit ?s) = turn_count h" by (auto simp: scan_ok_def)
  have zip: "map snd (filter (\<lambda>(d, m). \<not> d) (zip (map f ts) xs)) = map snd (filter (\<lambda>(k, m). \<not> f k) (zip ts xs))" for f ts xs
    by (induction ts xs rule: list_induct2') auto
  have cur: "tm_current ?p = map snd (filter (\<lambda>(k, m). k \<notin> D) (zip (turn_of h) h))"
    using D by (simp add: drops_def remaining_def zip)
  have "k \<notin> D \<longleftrightarrow> unit_kept ?s (sc_unit ?s ! k)" if "turn_count h \<le> start" "(k, m) \<in> set (zip (turn_of h) h)" for k m
    using that D len turn_of_less [of _ h] by (fastforce simp: drops_def set_zip)
  then have all: "tm_current ?p = map snd (filter (\<lambda>(k, m). unit_kept ?s (sc_unit ?s ! k)) (zip (turn_of h) h))" if "turn_count h \<le> start"
    using that unfolding cur by (intro arg_cong [of _ _ "map snd"] filter_cong) auto
  have sum: "length (filter (\<lambda>d. d) ds) + length (map snd (filter (\<lambda>(d, m). \<not> d) (zip ds xs))) = length xs"
    if "length ds = length xs" for ds and xs :: "message list" using that by (induction ds xs rule: list_induct2) auto
  have count: "tm_messages ?p + length (tm_current ?p) = length h"
    using D sum [of "tm_dropped ?p" h] by (simp add: drops_def remaining_def)
  have est: "tm_estimate ?p = estimateTokens marshal (tm_current ?p)" using D by (simp add: drops_def)
  have zero: "tm_current ?p = h" if "tm_turns ?p = 0"
  proof -
    have "D = {}" using that D finite_subset [of D "{..<min start (length (sc_unit ?s))}"] by (auto simp: drops_def)
    then show ?thesis using cur by simp
  qed
  show ?thesis
    using assms or all count est zero by (auto simp: trimHistory_def Let_def no_truncation_def split: if_splits)
qed

definition example_history :: "message list" where
  "example_history =
     [\<lparr>m_Role = RoleUser, m_Contents = [TextContent ''a'']\<rparr>,
      \<lparr>m_Role = RoleAssistant, m_Contents = [CallContent \<lparr>fc_CallID = ''c'', fc_Name = ''t'', fc_Arguments = [], fc_InformationalOnly = False\<rparr>]\<rparr>,
      \<lparr>m_Role = RoleTool, m_Contents = [ResultContent ''c'' (TextResult ''r'')]\<rparr>,
      \<lparr>m_Role = RoleUser, m_Contents = [TextContent ''b'']\<rparr>, \<lparr>m_Role = RoleUser, m_Contents = [TextContent ''d'']\<rparr>]"

definition example_marshal :: marshal where
  "example_marshal h = Some (replicate (4 * length h) (CHR ''x''))"

theorem trimHistory_fits_witness:
  "tr_MessagesDropped (snd (trimHistory example_marshal example_history 4 (\<lambda>_. False))) = 3 \<and>
   int (estimateTokens example_marshal (fst (trimHistory example_marshal example_history 4 (\<lambda>_. False)))) \<le> 4"
proof -
  let ?r = "trimHistory example_marshal example_history 4 (\<lambda>_. False)"
  have "tr_MessagesDropped (snd ?r) = 3 \<and> length example_history = 5" by code_simp
  then show ?thesis
    using trimHistory_fits [of 4 example_marshal example_history "\<lambda>_. False" "fst ?r" "snd ?r"]
    by (simp add: estimateTokens_def example_marshal_def bytesPerToken_def)
qed


lemma remaining_all: "remaining h (replicate (length h) False) = h"
  by (induction h) (auto simp: remaining_def)

lemma trim_dropped_kept: "remaining h (trim_dropped marshal h budget protected) = fst (trimHistory marshal h budget protected)"
proof -
  let ?p = "drop_units marshal h budget (scan_history protected h) 0 (trim_start marshal h)"
  obtain D start where D: "drops marshal h (scan_history protected h) start D ?p" using drops_trim by blast
  then have cur: "tm_current ?p = remaining h (tm_dropped ?p)" by (simp add: drops_def)
  have "remaining h (tm_dropped ?p) = h" if "tm_turns ?p = 0"
  proof -
    have "D = {}" using that D finite_subset [of D "{..<min start (length (sc_unit (scan_history protected h)))}"] by (auto simp: drops_def)
    then have "tm_dropped ?p = replicate (length h) False" using D by (simp add: drops_def map_replicate_const)
    then show ?thesis by (simp add: remaining_all)
  qed
  then show ?thesis using cur by (auto simp: trim_dropped_def trimHistory_def remaining_all Let_def)
qed

end
