(* ===== verification/Selectors.thy ===== *)
theory Selectors
  imports Prelude "HOL-Library.Product_Lexorder"
begin

text \<open>
  \<open>internal/definitions/selectors.go\<close>: operation classes, tool selectors, product version
  ranges and the aliases the model sees.

  Version comparison is a three-way comparison (locale \<open>three_way\<close>). The segment
  comparison of the code works on digit strings without converting them, so versions of
  any length compare; \<open>compareSegment_key\<close> shows that it orders numeric segments by their value.
\<close>

section \<open>Classes, selectors and ranges\<close>

datatype Class = ClassUnset | ClassReadOnly | ClassIdempotent | ClassEffectful

record CatalogConfig =
  OperationMetaKey :: string
  CallIDHeader :: string

record Selector =
  Ops :: "string list"
  Tags :: "string list"
  Alias :: string
  ReadOnlyHint :: bool
  SClass :: Class
  ApprovalRequired :: bool

record VersionRange =
  Min :: string
  MaxExclusive :: string

definition VersionRange_IsZero :: "VersionRange \<Rightarrow> bool" where
  "VersionRange_IsZero r = (Min r = [] \<and> MaxExclusive r = [])"

section \<open>Version comparison\<close>

text \<open>\<open>strings.Compare\<close>, and the sign of any comparison in a linear order.\<close>

definition compare :: "'a::linorder \<Rightarrow> 'a \<Rightarrow> int" where
  "compare a b = (if a < b then -1 else if a = b then 0 else 1)"

definition isNumeric :: "string \<Rightarrow> bool" where
  "isNumeric s = (s \<noteq> [] \<and> list_all is_digit s)"

definition trim_zeros :: "string \<Rightarrow> string" where
  "trim_zeros s = dropWhile (\<lambda>c. c = CHR ''0'') s"

definition compareSegment :: "string \<Rightarrow> string \<Rightarrow> int" where
  "compareSegment a b =
     (if isNumeric a \<and> isNumeric b then
        (let a' = trim_zeros a; b' = trim_zeros b
         in if length a' \<noteq> length b' then (if length a' < length b' then -1 else 1)
            else compare a' b')
      else if isNumeric a then -1
      else if isNumeric b then 1
      else compare a b)"

fun lex_compare :: "('a \<Rightarrow> 'a \<Rightarrow> int) \<Rightarrow> 'a list \<Rightarrow> 'a list \<Rightarrow> int" where
  "lex_compare cmp [] [] = 0"
| "lex_compare cmp [] (b # bs) = -1"
| "lex_compare cmp (a # as) [] = 1"
| "lex_compare cmp (a # as) (b # bs) =
     (let c = cmp a b in if c \<noteq> 0 then c else lex_compare cmp as bs)"

definition CompareVersions :: "string \<Rightarrow> string \<Rightarrow> int" where
  "CompareVersions a b = lex_compare compareSegment (split_on CHR ''.'' a) (split_on CHR ''.'' b)"

definition VersionRange_Contains :: "VersionRange \<Rightarrow> string \<Rightarrow> bool" where
  "VersionRange_Contains r v =
     (if Min r \<noteq> [] \<and> CompareVersions v (Min r) < 0 then False
      else if MaxExclusive r \<noteq> [] \<and> CompareVersions v (MaxExclusive r) \<ge> 0 then False
      else True)"

subsection \<open>Numeric segments compare by value\<close>

definition digit_val :: "char \<Rightarrow> nat" where
  "digit_val c = of_char c - 48"

fun decimal :: "string \<Rightarrow> nat" where
  "decimal [] = 0"
| "decimal (c # cs) = digit_val c * 10 ^ length cs + decimal cs"

lemma is_digit_iff: "is_digit c \<longleftrightarrow> 48 \<le> (of_char c :: nat) \<and> (of_char c :: nat) \<le> 57"
  by (simp add: is_digit_def less_eq_char_def)

lemma digit_val_le: "is_digit c \<Longrightarrow> digit_val c \<le> 9"
  unfolding digit_val_def is_digit_iff by linarith

lemma digit_val_zero: "is_digit c \<Longrightarrow> digit_val c = 0 \<longleftrightarrow> c = CHR ''0''"
proof -
  assume "is_digit c"
  then have "digit_val c = 0 \<longleftrightarrow> of_char c = (of_char CHR ''0'' :: nat)"
    by (auto simp: digit_val_def is_digit_iff)
  then show ?thesis by (simp only: of_char_eq_iff)
qed

lemma digit_val_less: "is_digit a \<Longrightarrow> is_digit b \<Longrightarrow> digit_val a < digit_val b \<longleftrightarrow> a < b"
  by (auto simp: digit_val_def is_digit_iff less_char_def)

lemma digit_val_inj: "is_digit a \<Longrightarrow> is_digit b \<Longrightarrow> digit_val a = digit_val b \<longleftrightarrow> a = b"
  by (metis digit_val_less less_irrefl linorder_less_linear)

lemma decimal_bound: "list_all is_digit s \<Longrightarrow> decimal s < 10 ^ length s"
proof (induction s)
  case (Cons c cs)
  then have "digit_val c * 10 ^ length cs + decimal cs < 9 * 10 ^ length cs + 10 ^ length cs"
    using digit_val_le [of c] by (intro add_le_less_mono mult_right_mono) auto
  then show ?case by simp
qed simp

lemma decimal_trim_zeros: "decimal (trim_zeros s) = decimal s"
  by (induction s) (auto simp: trim_zeros_def digit_val_def)

lemma trim_zeros_digits: "list_all is_digit s \<Longrightarrow> list_all is_digit (trim_zeros s)"
  by (auto simp: trim_zeros_def list_all_iff dest: set_dropWhileD)

lemma decimal_lower:
  assumes "list_all is_digit s" "trim_zeros s = c # cs"
  shows "10 ^ length cs \<le> decimal s"
proof -
  have "c \<noteq> CHR ''0''"
    using assms(2) hd_dropWhile [of "\<lambda>c. c = CHR ''0''" s] by (auto simp: trim_zeros_def)
  moreover have "is_digit c"
    using trim_zeros_digits [OF assms(1)] assms(2) by simp
  ultimately have "1 \<le> digit_val c"
    using digit_val_zero [of c] by linarith
  then have "1 * 10 ^ length cs \<le> decimal (trim_zeros s)"
    unfolding assms(2) decimal.simps by (intro trans_le_add1 mult_le_mono1)
  then show ?thesis by (simp add: decimal_trim_zeros)
qed

lemma decimal_shorter:
  assumes "list_all is_digit a" "list_all is_digit b" "length (trim_zeros a) < length (trim_zeros b)"
  shows "decimal a < decimal b"
proof -
  obtain c cs where b: "trim_zeros b = c # cs"
    using assms(3) by (cases "trim_zeros b") auto
  have "decimal a < 10 ^ length (trim_zeros a)"
    using decimal_bound [OF trim_zeros_digits [OF assms(1)]] by (simp add: decimal_trim_zeros)
  also have "\<dots> \<le> 10 ^ length cs"
    using assms(3) b by (intro power_increasing) auto
  also have "\<dots> \<le> decimal b" by (rule decimal_lower [OF assms(2) b])
  finally show ?thesis .
qed

lemma decimal_same_length:
  assumes "length a = length b" "list_all is_digit a" "list_all is_digit b"
  shows "decimal a < decimal b \<longleftrightarrow> a < b"
  using assms
proof (induction a b rule: list_induct2)
  case (Cons x xs y ys)
  have lt: "digit_val u * 10 ^ length us + decimal us < digit_val v * 10 ^ length us + decimal vs"
    if "digit_val u < digit_val v" "list_all is_digit us" for u v us vs
  proof -
    have "digit_val u * 10 ^ length us + decimal us < Suc (digit_val u) * 10 ^ length us"
      using decimal_bound [OF that(2)] by simp
    also have "\<dots> \<le> digit_val v * 10 ^ length us"
      using that(1) by (intro mult_right_mono) auto
    finally show ?thesis by simp
  qed
  show ?case
  proof (cases rule: linorder_cases [of "digit_val x" "digit_val y"])
    case less
    with Cons lt [OF less, of xs ys] show ?thesis by (simp add: digit_val_less)
  next
    case equal
    with Cons show ?thesis by (simp add: digit_val_inj)
  next
    case greater
    with Cons lt [OF greater, of ys xs] digit_val_less [of y x] show ?thesis by auto
  qed
qed simp

lemma decimal_inj:
  assumes "length a = length b" "list_all is_digit a" "list_all is_digit b"
  shows "decimal a = decimal b \<longleftrightarrow> a = b"
  using decimal_same_length [OF assms] decimal_same_length [OF assms(1) [symmetric] assms(3,2)]
  by (metis less_irrefl linorder_less_linear)

text \<open>The key a segment is ordered by: numeric segments first, by value; the others by bytes.\<close>

definition segment_key :: "string \<Rightarrow> bool \<times> nat \<times> string" where
  "segment_key s = (if isNumeric s then (False, decimal s, []) else (True, 0, s))"

lemma compareSegment_key: "compareSegment a b = compare (segment_key a) (segment_key b)"
proof (cases "isNumeric a \<and> isNumeric b")
  case True
  then have d: "list_all is_digit a" "list_all is_digit b" by (auto simp: isNumeric_def)
  show ?thesis
  proof (cases rule: linorder_cases [of "length (trim_zeros a)" "length (trim_zeros b)"])
    case less
    with True decimal_shorter [OF d less] show ?thesis
      by (simp add: compareSegment_def segment_key_def compare_def)
  next
    case greater
    with True decimal_shorter [OF d(2,1) greater] show ?thesis
      by (simp add: compareSegment_def segment_key_def compare_def)
  next
    case equal
    with True decimal_same_length [OF equal] decimal_inj [OF equal] trim_zeros_digits d
    show ?thesis
      by (simp add: compareSegment_def segment_key_def compare_def decimal_trim_zeros)
  qed
qed (auto simp: compareSegment_def segment_key_def compare_def)

subsection \<open>Three-way comparisons\<close>

locale three_way =
  fixes cmp :: "'a \<Rightarrow> 'a \<Rightarrow> int"
  assumes cmp_anti: "cmp b a = - cmp a b"
    and cmp_trans: "cmp a b \<le> 0 \<Longrightarrow> cmp b c \<le> 0 \<Longrightarrow> cmp a c \<le> 0"
    and cmp_equal: "cmp a b = 0 \<Longrightarrow> cmp a c = cmp b c"
begin

lemma cmp_refl [simp]: "cmp a a = 0"
  using cmp_anti [of a a] by simp

lemma cmp_strict_trans: "cmp a b < 0 \<Longrightarrow> cmp b c \<le> 0 \<Longrightarrow> cmp a c < 0"
  using cmp_trans [of a b c] cmp_trans [of b c a] cmp_anti [of a c] cmp_anti [of a b] by fastforce

lemma cmp_strict_trans2: "cmp a b \<le> 0 \<Longrightarrow> cmp b c < 0 \<Longrightarrow> cmp a c < 0"
  using cmp_trans [of a b c] cmp_trans [of c a b] cmp_anti [of a c] cmp_anti [of b c] by fastforce

text \<open>A three-way comparison of elements gives one of lists, element by element.\<close>

lemma lex_anti: "lex_compare cmp bs as = - lex_compare cmp as bs"
proof (induction as arbitrary: bs)
  case Nil
  then show ?case by (cases bs) auto
next
  case (Cons a as)
  show ?case
  proof (cases bs)
    case (Cons b bs')
    with Cons.IH [of bs'] cmp_anti [of b a] show ?thesis by (auto simp: Let_def)
  qed simp
qed

lemma lex_equal: "lex_compare cmp as bs = 0 \<Longrightarrow> lex_compare cmp as cs = lex_compare cmp bs cs"
proof (induction as arbitrary: bs cs)
  case Nil
  then show ?case by (cases bs) auto
next
  case (Cons a as)
  then obtain b bs' where bs: "bs = b # bs'" by (cases bs) auto
  show ?case
  proof (cases cs)
    case Nil
    with bs show ?thesis by simp
  next
    case (Cons c cs')
    with Cons.prems Cons.IH [of bs' cs'] bs show ?thesis
      by (auto simp: Let_def cmp_equal [of a b c] split: if_splits)
  qed
qed

lemma lex_trans:
  "lex_compare cmp as bs \<le> 0 \<Longrightarrow> lex_compare cmp bs cs \<le> 0 \<Longrightarrow> lex_compare cmp as cs \<le> 0"
proof (induction as arbitrary: bs cs)
  case Nil
  then show ?case by (cases cs) auto
next
  case (Cons a as)
  then obtain b bs' where bs: "bs = b # bs'" by (cases bs) auto
  with Cons.prems obtain c cs' where cs: "cs = c # cs'" by (cases cs) auto
  have ab: "cmp a b \<le> 0" and bc: "cmp b c \<le> 0"
    using Cons.prems bs cs by (auto simp: Let_def split: if_splits)
  show ?case
  proof (cases "cmp a b = 0 \<and> cmp b c = 0")
    case True
    then have "cmp a c = 0" using cmp_equal [of a b c] by simp
    with True Cons bs cs show ?thesis by (auto simp: Let_def)
  next
    case False
    then have "cmp a c < 0"
      using ab bc cmp_strict_trans [of a b c] cmp_strict_trans2 [of a b c] by fastforce
    with cs show ?thesis by simp
  qed
qed

lemma lex_three_way: "three_way (lex_compare cmp)"
  by unfold_locales (use lex_anti lex_trans lex_equal in blast)+

end

lemma compare_anti: "compare b a = - compare a b"
  by (auto simp: compare_def)

lemma compare_le_0 [simp]: "compare a b \<le> 0 \<longleftrightarrow> a \<le> b"
  by (auto simp: compare_def)

lemma compare_eq_0 [simp]: "compare a b = 0 \<longleftrightarrow> a = b"
  by (auto simp: compare_def)

interpretation segment: three_way compareSegment
proof
  show "compareSegment b a = - compareSegment a b" for a b
    unfolding compareSegment_key by (rule compare_anti)
  show "compareSegment a c \<le> 0" if "compareSegment a b \<le> 0" "compareSegment b c \<le> 0" for a b c
    using that unfolding compareSegment_key compare_le_0 by (rule order_trans)
  show "compareSegment a c = compareSegment b c" if "compareSegment a b = 0" for a b c
    using that unfolding compareSegment_key compare_eq_0 by (rule arg_cong)
qed

interpretation version: three_way CompareVersions
proof
  show "CompareVersions b a = - CompareVersions a b" for a b
    unfolding CompareVersions_def by (rule three_way.cmp_anti [OF segment.lex_three_way])
  show "CompareVersions a b \<le> 0 \<Longrightarrow> CompareVersions b c \<le> 0 \<Longrightarrow> CompareVersions a c \<le> 0" for a b c
    unfolding CompareVersions_def by (rule three_way.cmp_trans [OF segment.lex_three_way])
  show "CompareVersions a b = 0 \<Longrightarrow> CompareVersions a c = CompareVersions b c" for a b c
    unfolding CompareVersions_def by (rule three_way.cmp_equal [OF segment.lex_three_way])
qed

subsection \<open>Ranges\<close>

text \<open>Versions compare as a total preorder: the sign flips when the arguments are swapped, and
  \<open>CompareVersions a b \<le> 0\<close> is transitive, so a half-open range holds every version between
  two versions it holds, and two adjacent ranges never hold the same version.\<close>

theorem version_ranges:
  "CompareVersions b a = - CompareVersions a b \<and>
   (VersionRange_Contains r u \<and> VersionRange_Contains r w \<and>
      CompareVersions u v \<le> 0 \<and> CompareVersions v w \<le> 0 \<longrightarrow> VersionRange_Contains r v) \<and>
   (MaxExclusive r \<noteq> [] \<and> Min r' = MaxExclusive r \<and> VersionRange_Contains r v \<longrightarrow>
      \<not> VersionRange_Contains r' v)"
proof (intro conjI impI)
  show "CompareVersions b a = - CompareVersions a b" by (rule version.cmp_anti)
next
  assume h: "VersionRange_Contains r u \<and> VersionRange_Contains r w \<and>
    CompareVersions u v \<le> 0 \<and> CompareVersions v w \<le> 0"
  have "CompareVersions v (Min r) \<ge> 0" if "Min r \<noteq> []"
    using h that version.cmp_trans [of "Min r" u v] version.cmp_anti [of "Min r" u]
      version.cmp_anti [of "Min r" v] by (auto simp: VersionRange_Contains_def split: if_splits)
  moreover have "CompareVersions v (MaxExclusive r) < 0" if "MaxExclusive r \<noteq> []"
    using h that version.cmp_strict_trans2 [of v w "MaxExclusive r"]
    by (auto simp: VersionRange_Contains_def split: if_splits)
  ultimately show "VersionRange_Contains r v" by (auto simp: VersionRange_Contains_def)
next
  assume "MaxExclusive r \<noteq> [] \<and> Min r' = MaxExclusive r \<and> VersionRange_Contains r v"
  then show "\<not> VersionRange_Contains r' v"
    by (auto simp: VersionRange_Contains_def split: if_splits)
qed

theorem version_ranges_witness:
  "VersionRange_Contains \<lparr>Min = ''2026.2'', MaxExclusive = ''2027.1''\<rparr> ''2026.10'' \<and>
   \<not> VersionRange_Contains \<lparr>Min = ''2027.1'', MaxExclusive = []\<rparr> ''2026.10''"
proof -
  let ?r = "\<lparr>Min = ''2026.2'', MaxExclusive = ''2027.1''\<rparr>"
  have "VersionRange_Contains ?r ''2026.10''" by code_simp
  with version_ranges [of _ _ ?r _ _ "''2026.10''" "\<lparr>Min = ''2027.1'', MaxExclusive = []\<rparr>"]
  show ?thesis by simp
qed

text \<open>Numeric version segments are compared by their numeric value, however long they are and
  whatever leading zeros they carry; a numeric segment sorts before any other segment.\<close>

theorem compareSegment_by_value:
  "(isNumeric a \<and> isNumeric b \<longrightarrow> compareSegment a b = compare (decimal a) (decimal b)) \<and>
   (isNumeric a \<and> \<not> isNumeric b \<longrightarrow> compareSegment a b = -1) \<and>
   (\<not> isNumeric a \<and> \<not> isNumeric b \<longrightarrow> compareSegment a b = compare a b)"
  by (auto simp: compareSegment_key segment_key_def compare_def)

theorem compareSegment_by_value_witness: "compareSegment ''0010'' ''9'' = compare (10::nat) 9"
proof -
  have "isNumeric ''0010'' \<and> isNumeric ''9''" by code_simp
  moreover have "decimal ''0010'' = 10" "decimal ''9'' = 9" by code_simp+
  ultimately show ?thesis using compareSegment_by_value [of "''0010''" "''9''"] by simp
qed

section \<open>Aliases\<close>

definition alias_char :: "char \<Rightarrow> bool" where
  "alias_char c = (is_lower c \<or> is_upper c \<or> is_digit c \<or> c = CHR ''_'')"

definition ValidAlias :: "string \<Rightarrow> bool" where
  "ValidAlias s =
     (if length s < 1 \<or> length s > 64 then False
      else list_all (\<lambda>(i, c). is_lower c \<or> is_upper c \<or> c = CHR ''_'' \<or> (is_digit c \<and> i > 0))
             (enumerate 0 s))"

definition AliasFor :: "string \<Rightarrow> string \<times> bool" where
  "AliasFor op =
     (let alias = map (\<lambda>c. if alias_char c then c else CHR ''_'') op in (alias, ValidAlias alias))"

definition IsReservedToolName :: "string \<Rightarrow> bool" where
  "IsReservedToolName name =
     (name = ''request_user_input'' \<or> name = ''read_skill_resource'' \<or> name = ''activate_journey'')"

lemma list_all_enumerate:
  "list_all (\<lambda>(i, c). P c \<or> (Q c \<and> i > 0)) (enumerate n s) \<longleftrightarrow>
     (case s of [] \<Rightarrow> True | c # cs \<Rightarrow> (P c \<or> (Q c \<and> n > 0)) \<and> list_all (\<lambda>c. P c \<or> Q c) cs)"
proof -
  have pos: "list_all (\<lambda>(i, c). P c \<or> (Q c \<and> i > 0)) (enumerate (Suc m) t) =
      list_all (\<lambda>c. P c \<or> Q c) t" for m t
    by (induction t arbitrary: m) auto
  show ?thesis by (cases s) (simp_all add: pos)
qed

text \<open>The regular expression \<open>^[A-Za-z_][A-Za-z0-9_]{0,63}$\<close> of the comment.\<close>

lemma ValidAlias_iff:
  "ValidAlias s \<longleftrightarrow> length s \<le> 64 \<and>
     (case s of [] \<Rightarrow> False | c # cs \<Rightarrow> alias_char c \<and> \<not> is_digit c \<and> list_all alias_char cs)"
proof -
  have disj: "is_digit c \<Longrightarrow> \<not> is_lower c \<and> \<not> is_upper c \<and> c \<noteq> CHR ''_''" for c
    by (auto simp: is_digit_def is_lower_def is_upper_def less_eq_char_def)
  have "ValidAlias s \<longleftrightarrow> 1 \<le> length s \<and> length s \<le> 64 \<and>
      list_all (\<lambda>(i, c). (is_lower c \<or> is_upper c \<or> c = CHR ''_'') \<or> (is_digit c \<and> i > 0)) (enumerate 0 s)"
    by (auto simp: ValidAlias_def Suc_le_eq)
  then show ?thesis
    unfolding list_all_enumerate using disj
    by (cases s) (auto simp: alias_char_def list_all_iff)
qed

lemma AliasFor_chars: "list_all alias_char (fst (AliasFor op))"
  by (auto simp: AliasFor_def Let_def list_all_iff alias_char_def)

lemma length_AliasFor [simp]: "length (fst (AliasFor op)) = length op"
  by (simp add: AliasFor_def Let_def)

text \<open>An alias derived from an operation key has the key's length, is its own derived alias, and is
  valid exactly when the key is not empty, has at most 64 bytes and does not start with a
  digit; the flag \<open>AliasFor\<close> returns says so.\<close>

theorem AliasFor_spec:
  "length (fst (AliasFor op)) = length op \<and>
   fst (AliasFor (fst (AliasFor op))) = fst (AliasFor op) \<and>
   snd (AliasFor op) = ValidAlias (fst (AliasFor op)) \<and>
   (snd (AliasFor op) \<longleftrightarrow> op \<noteq> [] \<and> length op \<le> 64 \<and> \<not> is_digit (hd op))"
proof -
  have idem: "fst (AliasFor (fst (AliasFor op))) = fst (AliasFor op)"
    by (simp add: AliasFor_def Let_def alias_char_def)
  have "snd (AliasFor op) \<longleftrightarrow> op \<noteq> [] \<and> length op \<le> 64 \<and> \<not> is_digit (hd op)"
  proof (cases op)
    case (Cons c cs)
    have "list_all alias_char (map (\<lambda>c. if alias_char c then c else CHR ''_'') cs)"
      by (auto simp: list_all_iff alias_char_def)
    moreover have "alias_char CHR ''_''" "\<not> is_digit CHR ''_''" "is_digit c \<Longrightarrow> alias_char c"
      by (simp_all add: alias_char_def is_digit_def less_eq_char_def)
    ultimately show ?thesis
      unfolding Cons AliasFor_def Let_def ValidAlias_iff by (cases "alias_char c") auto
  qed (simp add: AliasFor_def ValidAlias_def)
  with idem show ?thesis by (simp add: AliasFor_def Let_def)
qed

end
