(* ===== verification/Definitions.thy ===== *)
theory Definitions
  imports Selectors
begin

text \<open>
  \<open>internal/definitions\<close>: the compiled journey (\<open>journey.go\<close>, \<open>skill.go\<close>), the compilation of the
  catalog configuration, of version ranges and of tool selectors (\<open>compile.go\<close>), and the two
  consistency checks over a whole definition set.

  A raw YAML field that may be absent is an option; the compiler's error messages are the
  constructors of \<open>compile_error\<close>, in the order the code tests them.
\<close>

section \<open>Compiled definitions\<close>

record SkillFile =
  sf_Name :: string
  sf_Digest :: string
  sf_Data :: bytes

record SkillPackage =
  sp_Name :: string
  sp_Description :: string
  sp_Disabled :: bool
  sp_AllowSupportingFiles :: bool
  sp_Instructions :: SkillFile
  sp_Supporting :: "(string \<times> SkillFile) list"
  sp_Digest :: string

record Journey =
  j_ID :: string
  j_Description :: string
  j_Prompt :: string
  j_Skills :: "SkillPackage list"
  j_Digest :: string
  j_Tools :: "Selector list"
  j_Deny :: "string list"
  j_MaxTools :: int
  j_ProductVersions :: VersionRange
  j_Catalog :: CatalogConfig
  j_Skill :: string

text \<open>A class as the string the code has for it.\<close>

fun class_string :: "Class \<Rightarrow> string" where
  "class_string ClassUnset = []"
| "class_string ClassReadOnly = ''read_only''"
| "class_string ClassIdempotent = ''idempotent''"
| "class_string ClassEffectful = ''effectful''"

section \<open>Raw configuration\<close>

record rawCatalog =
  rc_OperationMetaKey :: string
  rc_CallIDHeader :: string

record rawTool =
  rt_Op :: "string list option"
  rt_Tags :: "string list option"
  rt_Alias :: string
  rt_ReadOnly :: bool
  rt_Class :: string
  rt_Approval :: string

record rawJourney =
  rj_ID :: string
  rj_Skill :: string
  rj_ProductVersions :: VersionRange
  rj_Tools :: "rawTool list"
  rj_Deny :: "string list"
  rj_MaxTools :: "int option"

datatype tool_error =
    OneOfOpAndTags | InvalidClass | IdempotentNeedsHeader | InvalidApproval
  | OpEmpty | OpEmptyAlternative | OpSelectedTwice | OpAlsoDenied
  | AliasNeeded | AliasInvalid | AliasTaken
  | ClassOnTags | AliasOnTags | TagsEmpty | TagsDuplicate

datatype compile_error =
    MetaKeyRequired | InvalidCallIDHeader
  | VersionWhitespace | VersionEmptySegment | VersionMinNotLower
  | ToolsEmpty | DenyInvalid | ToolError nat tool_error
  | AliasOpsConflict string string string
  | PolicyConflict string string string

section \<open>Catalog configuration and version ranges\<close>

definition validHeaderToken :: "string \<Rightarrow> bool" where
  "validHeaderToken s = (list_all is_tchar s \<and> s \<noteq> [])"

definition compileCatalog :: "rawCatalog \<Rightarrow> compile_error + CatalogConfig" where
  "compileCatalog raw =
     (if rc_OperationMetaKey raw = [] \<or> trim_space (rc_OperationMetaKey raw) = [] then Inl MetaKeyRequired
      else if rc_CallIDHeader raw \<noteq> [] then
        (if \<not> validHeaderToken (rc_CallIDHeader raw) then Inl InvalidCallIDHeader
         else Inr \<lparr>OperationMetaKey = rc_OperationMetaKey raw,
                   CallIDHeader = canonical_header_key (rc_CallIDHeader raw)\<rparr>)
      else Inr \<lparr>OperationMetaKey = rc_OperationMetaKey raw, CallIDHeader = []\<rparr>)"

definition check_bound :: "string \<Rightarrow> compile_error + unit" where
  "check_bound v =
     (if v = [] then Inr ()
      else if has_space v then Inl VersionWhitespace
      else if [] \<in> set (split_on CHR ''.'' v) then Inl VersionEmptySegment
      else Inr ())"

definition validateVersionRange :: "VersionRange \<Rightarrow> compile_error + unit" where
  "validateVersionRange r =
     and_then (check_bound (Min r)) (\<lambda>_.
     and_then (check_bound (MaxExclusive r)) (\<lambda>_.
       if Min r \<noteq> [] \<and> MaxExclusive r \<noteq> [] \<and> CompareVersions (Min r) (MaxExclusive r) \<ge> 0
       then Inl VersionMinNotLower else Inr ()))"

section \<open>Tool selectors\<close>

definition parse_class :: "string \<Rightarrow> Class option" where
  "parse_class s =
     (if s = [] then Some ClassUnset
      else if s = ''read_only'' then Some ClassReadOnly
      else if s = ''idempotent'' then Some ClassIdempotent
      else if s = ''effectful'' then Some ClassEffectful
      else None)"

fun compile_deny :: "string list \<Rightarrow> string list \<Rightarrow> compile_error + string list" where
  "compile_deny deny [] = Inr deny"
| "compile_deny deny (k # ks) =
     (if k = [] \<or> k \<in> set deny then Inl DenyInvalid else compile_deny (deny @ [k]) ks)"

fun check_ops :: "string list \<Rightarrow> string list \<Rightarrow> string list \<Rightarrow> tool_error + string list" where
  "check_ops denied seenOps [] = Inr seenOps"
| "check_ops denied seenOps (k # ks) =
     (if k = [] then Inl OpEmptyAlternative
      else if k \<in> set seenOps then Inl OpSelectedTwice
      else if k \<in> set denied then Inl OpAlsoDenied
      else check_ops denied (seenOps @ [k]) ks)"

fun check_tags :: "string list \<Rightarrow> string list \<Rightarrow> tool_error + unit" where
  "check_tags seen [] = Inr ()"
| "check_tags seen (x # xs) =
     (if x = [] \<or> x \<in> set seen then Inl TagsDuplicate else check_tags (x # seen) xs)"

definition tool_alias :: "string \<Rightarrow> string list \<Rightarrow> tool_error + string" where
  "tool_alias alias ops =
     (if alias = [] then
        (if length ops > 1 then Inl AliasNeeded else Inr (fst (AliasFor (hd ops))))
      else Inr alias)"

text \<open>
  One iteration of the loop of \<open>compileTools\<close>: the operation keys and the aliases seen so
  far are its state. \<open>hd ops\<close> in \<open>tool_alias\<close> is read only after the emptiness check below.
\<close>

definition compile_tool ::
  "CatalogConfig \<Rightarrow> string list \<Rightarrow> string list \<times> string list \<Rightarrow> rawTool \<Rightarrow>
     tool_error + Selector \<times> string list \<times> string list" where
  "compile_tool catalog denied st rt =
     (if (rt_Op rt \<noteq> None) = (rt_Tags rt \<noteq> None) then Inl OneOfOpAndTags
      else case parse_class (rt_Class rt) of None \<Rightarrow> Inl InvalidClass | Some cl \<Rightarrow>
        if cl = ClassIdempotent \<and> CallIDHeader catalog = [] then Inl IdempotentNeedsHeader
        else if rt_Approval rt \<noteq> [] \<and> rt_Approval rt \<noteq> ''required'' then Inl InvalidApproval
        else
          let sel = \<lparr>Ops = [], Tags = [], Alias = [], ReadOnlyHint = rt_ReadOnly rt, SClass = cl,
                     ApprovalRequired = (rt_Approval rt = ''required'')\<rparr>
          in case rt_Op rt of
            Some ops \<Rightarrow>
              if ops = [] then Inl OpEmpty
              else and_then (check_ops denied (fst st) ops) (\<lambda>seenOps.
                   and_then (tool_alias (rt_Alias rt) ops) (\<lambda>alias.
                     if \<not> ValidAlias alias then Inl AliasInvalid
                     else if IsReservedToolName alias \<or> alias \<in> set (snd st) then Inl AliasTaken
                     else Inr (sel\<lparr>Alias := alias, Ops := ops\<rparr>, seenOps, alias # snd st)))
          | None \<Rightarrow>
              if rt_Class rt \<noteq> [] then Inl ClassOnTags
              else if rt_Alias rt \<noteq> [] then Inl AliasOnTags
              else if the (rt_Tags rt) = [] then Inl TagsEmpty
              else and_then (check_tags [] (the (rt_Tags rt))) (\<lambda>_.
                     Inr (sel\<lparr>Tags := the (rt_Tags rt)\<rparr>, st)))"

fun compile_tool_list ::
  "CatalogConfig \<Rightarrow> string list \<Rightarrow> nat \<Rightarrow> string list \<times> string list \<Rightarrow> rawTool list \<Rightarrow>
     compile_error + Selector list" where
  "compile_tool_list catalog denied i st [] = Inr []"
| "compile_tool_list catalog denied i st (rt # rts) =
     (case compile_tool catalog denied st rt of
        Inl e \<Rightarrow> Inl (ToolError (i + 1) e)
      | Inr (sel, st') \<Rightarrow>
          and_then (compile_tool_list catalog denied (i + 1) st' rts) (\<lambda>sels. Inr (sel # sels)))"

definition compileTools :: "CatalogConfig \<Rightarrow> rawJourney \<Rightarrow> compile_error + Selector list \<times> string list" where
  "compileTools catalog rj =
     (if rj_Tools rj = [] then Inl ToolsEmpty
      else and_then (compile_deny [] (rj_Deny rj)) (\<lambda>deny.
           and_then (compile_tool_list catalog deny 0 ([], []) (rj_Tools rj)) (\<lambda>tools.
             Inr (tools, deny))))"

subsection \<open>What the compiler guarantees of its selectors\<close>

definition selector_wf :: "CatalogConfig \<Rightarrow> string list \<Rightarrow> Selector \<Rightarrow> bool" where
  "selector_wf catalog deny s =
     ((Ops s = [] \<longrightarrow> Tags s \<noteq> [] \<and> [] \<notin> set (Tags s) \<and> distinct (Tags s) \<and> Alias s = [] \<and>
          SClass s = ClassUnset) \<and>
      (Ops s \<noteq> [] \<longrightarrow> Tags s = [] \<and> [] \<notin> set (Ops s) \<and> set (Ops s) \<inter> set deny = {} \<and>
          ValidAlias (Alias s) \<and> \<not> IsReservedToolName (Alias s)) \<and>
      (SClass s = ClassIdempotent \<longrightarrow> CallIDHeader catalog \<noteq> []))"

definition op_aliases :: "Selector list \<Rightarrow> string list" where
  "op_aliases sels = map Alias (filter (\<lambda>s. Ops s \<noteq> []) sels)"

definition selected_ops :: "Selector list \<Rightarrow> string list" where
  "selected_ops sels = concat (map Ops sels)"

definition selectors_wf :: "CatalogConfig \<Rightarrow> string list \<Rightarrow> Selector list \<Rightarrow> bool" where
  "selectors_wf catalog deny sels =
     (list_all (selector_wf catalog deny) sels \<and> distinct (selected_ops sels) \<and>
      distinct (op_aliases sels) \<and> distinct deny \<and> [] \<notin> set deny)"

lemma compile_deny_ok:
  "compile_deny deny ks = Inr r \<Longrightarrow> distinct deny \<Longrightarrow> [] \<notin> set deny \<Longrightarrow>
     r = deny @ ks \<and> distinct r \<and> [] \<notin> set r"
  by (induction deny ks rule: compile_deny.induct) (auto split: if_splits)

lemma check_ops_ok:
  "check_ops denied seen ks = Inr r \<Longrightarrow>
     r = seen @ ks \<and> distinct ks \<and> set ks \<inter> set seen = {} \<and> set ks \<inter> set denied = {} \<and> [] \<notin> set ks"
  by (induction denied seen ks rule: check_ops.induct) (auto split: if_splits)

lemma check_tags_ok:
  "check_tags seen xs = Inr r \<Longrightarrow> distinct xs \<and> [] \<notin> set xs \<and> set xs \<inter> set seen = {}"
  by (induction seen xs rule: check_tags.induct) (auto split: if_splits)

lemma compile_tool_op:
  assumes "compile_tool catalog denied (seen, als) rt = Inr (sel, seen', als')" "rt_Op rt = Some ops"
  shows "ops \<noteq> [] \<and> Ops sel = ops \<and> Tags sel = [] \<and> check_ops denied seen ops = Inr seen' \<and>
    ValidAlias (Alias sel) \<and> \<not> IsReservedToolName (Alias sel) \<and> Alias sel \<notin> set als \<and>
    als' = Alias sel # als \<and> (SClass sel = ClassIdempotent \<longrightarrow> CallIDHeader catalog \<noteq> [])"
  using assms
  by (simp add: compile_tool_def Let_def and_then_Inr_iff split: if_splits option.splits) auto

lemma compile_tool_tags:
  assumes "compile_tool catalog denied (seen, als) rt = Inr (sel, seen', als')" "rt_Op rt = None"
  shows "Ops sel = [] \<and> Tags sel \<noteq> [] \<and> check_tags [] (Tags sel) = Inr () \<and> Alias sel = [] \<and>
    SClass sel = ClassUnset \<and> seen' = seen \<and> als' = als"
  using assms
  by (simp add: compile_tool_def parse_class_def Let_def and_then_Inr_iff split: if_splits option.splits) auto

lemma compile_tool_ok:
  assumes "compile_tool catalog denied (seen, als) rt = Inr (sel, seen', als')"
  shows "selector_wf catalog denied sel \<and> distinct (Ops sel) \<and> set (Ops sel) \<inter> set seen = {} \<and>
    seen' = seen @ Ops sel \<and>
    (if Ops sel = [] then als' = als else als' = Alias sel # als \<and> Alias sel \<notin> set als)"
proof (cases "rt_Op rt")
  case None
  with compile_tool_tags [OF assms] show ?thesis
    by (auto simp: selector_wf_def dest: check_tags_ok)
next
  case (Some ops)
  with compile_tool_op [OF assms Some] check_ops_ok [of denied seen ops seen'] show ?thesis
    by (auto simp: selector_wf_def)
qed

lemma compile_tool_list_ok:
  assumes "compile_tool_list catalog denied i (seen, als) rts = Inr sels"
  shows "list_all (selector_wf catalog denied) sels \<and> distinct (selected_ops sels) \<and>
    set (selected_ops sels) \<inter> set seen = {} \<and> distinct (op_aliases sels) \<and>
    set (op_aliases sels) \<inter> set als = {} \<and> length sels = length rts"
  using assms
proof (induction rts arbitrary: i seen als sels)
  case Nil
  then show ?case by (simp add: selected_ops_def op_aliases_def)
next
  case (Cons rt rts)
  then obtain sel seen' als' rest where
    tool: "compile_tool catalog denied (seen, als) rt = Inr (sel, seen', als')" and
    rest: "compile_tool_list catalog denied (i + 1) (seen', als') rts = Inr rest" and
    sels: "sels = sel # rest"
    by (auto simp: and_then_Inr_iff split: sum.splits)
  note t = compile_tool_ok [OF tool] and IH = Cons.IH [OF rest]
  from t IH show ?case
    by (auto simp: sels selected_ops_def op_aliases_def split: if_splits)
qed

text \<open>C38. Compiled selectors are well formed: each selects either operations or tags; an operation
  selector has a valid, unreserved alias; no operation key is empty, denied or selected
  twice in the journey; no alias is used twice; a tag selector carries no class and no
  alias; an idempotent class is accepted only with a call-identifier header.\<close>

theorem compileTools_wf:
  assumes "compileTools catalog rj = Inr (tools, deny)"
  shows "selectors_wf catalog deny tools \<and> deny = rj_Deny rj \<and> length tools = length (rj_Tools rj) \<and>
    tools \<noteq> []"
proof -
  from assms have ne: "rj_Tools rj \<noteq> []" and d: "compile_deny [] (rj_Deny rj) = Inr deny"
    and t: "compile_tool_list catalog deny 0 ([], []) (rj_Tools rj) = Inr tools"
    by (auto simp: compileTools_def and_then_Inr_iff split: if_splits)
  from compile_deny_ok [OF d] compile_tool_list_ok [OF t] ne show ?thesis
    by (auto simp: selectors_wf_def)
qed

definition example_catalog :: CatalogConfig where
  "example_catalog = \<lparr>OperationMetaKey = ''operation_key'', CallIDHeader = []\<rparr>"

definition example_raw_journey :: rawJourney where
  "example_raw_journey =
     \<lparr>rj_ID = ''vacation'', rj_Skill = ''skills/vacation'',
      rj_ProductVersions = \<lparr>Min = [], MaxExclusive = []\<rparr>,
      rj_Tools =
        [\<lparr>rt_Op = Some [''leave.balance''], rt_Tags = None, rt_Alias = [], rt_ReadOnly = False,
          rt_Class = ''read_only'', rt_Approval = []\<rparr>,
         \<lparr>rt_Op = None, rt_Tags = Some [''leave''], rt_Alias = [], rt_ReadOnly = True,
          rt_Class = [], rt_Approval = ''required''\<rparr>],
      rj_Deny = [''leave.cancel''], rj_MaxTools = None\<rparr>"

theorem compileTools_wf_witness:
  "\<exists>tools. compileTools example_catalog example_raw_journey = Inr (tools, [''leave.cancel'']) \<and>
     selectors_wf example_catalog [''leave.cancel''] tools"
proof -
  let ?tools = "[\<lparr>Ops = [''leave.balance''], Tags = [], Alias = ''leave_balance'', ReadOnlyHint = False,
       SClass = ClassReadOnly, ApprovalRequired = False\<rparr>,
      \<lparr>Ops = [], Tags = [''leave''], Alias = [], ReadOnlyHint = True, SClass = ClassUnset,
       ApprovalRequired = True\<rparr>]"
  have "compileTools example_catalog example_raw_journey = Inr (?tools, [''leave.cancel''])"
    by code_simp
  with compileTools_wf [OF this] show ?thesis by blast
qed

text \<open>The catalog compiler accepts exactly the configurations with a non-blank operation metadata key
  and a call-identifier header that is empty or an HTTP token; the header it stores is the
  canonical spelling.\<close>

theorem compileCatalog_spec:
  "(\<exists>c. compileCatalog raw = Inr c) \<longleftrightarrow>
     trim_space (rc_OperationMetaKey raw) \<noteq> [] \<and>
     (rc_CallIDHeader raw = [] \<or> is_token (rc_CallIDHeader raw))"
  by (auto simp: compileCatalog_def validHeaderToken_def is_token_def trim_space_def)

section \<open>Consistency of a definition set\<close>

record DefinitionSet =
  ds_catalog :: CatalogConfig
  ds_conversationPrompt :: string
  ds_digest :: string
  ds_order :: "string list"
  ds_journeys :: "string \<rightharpoonup> Journey"

text \<open>The tools of a journey of the set; a Go map lookup of a missing key gives the zero \<open>Journey\<close>.\<close>

definition set_tools :: "DefinitionSet \<Rightarrow> string \<Rightarrow> Selector list" where
  "set_tools ds i = (case ds_journeys ds i of None \<Rightarrow> [] | Some j \<Rightarrow> j_Tools j)"

definition Set_Journeys :: "DefinitionSet \<Rightarrow> Journey list" where
  "Set_Journeys ds = List.map_filter (ds_journeys ds) (ds_order ds)"

definition Set_Journey :: "DefinitionSet \<Rightarrow> string \<Rightarrow> Journey option" where
  "Set_Journey ds i = ds_journeys ds i"

subsection \<open>One alias, one operation list\<close>

fun alias_scan ::
  "(string \<rightharpoonup> string \<times> string) \<Rightarrow> (string \<times> Selector) list \<Rightarrow> compile_error + unit" where
  "alias_scan m [] = Inr ()"
| "alias_scan m ((jid, s) # rest) =
     (if Alias s = [] then alias_scan m rest
      else let enc = join [CHR 0x00] (Ops s) in
        case m (Alias s) of
          None \<Rightarrow> alias_scan (m(Alias s \<mapsto> (enc, jid))) rest
        | Some (prev, first) \<Rightarrow>
            if prev \<noteq> enc then Inl (AliasOpsConflict (Alias s) first jid) else alias_scan m rest)"

text \<open>The nested loops run over the journeys in identifier order and over their selectors.\<close>

definition set_selectors :: "DefinitionSet \<Rightarrow> (string \<times> Selector) list" where
  "set_selectors ds = concat (map (\<lambda>i. map (Pair i) (set_tools ds i)) (sort (ds_order ds)))"

definition checkAliasOps :: "DefinitionSet \<Rightarrow> compile_error + unit" where
  "checkAliasOps ds = alias_scan Map.empty (set_selectors ds)"

lemma set_selectors_iff:
  "(i, s) \<in> set (set_selectors ds) \<longleftrightarrow> i \<in> set (ds_order ds) \<and> s \<in> set (set_tools ds i)"
  by (auto simp: set_selectors_def)

text \<open>A list of key-value pairs that agrees with a map and with itself on every key.\<close>

definition agree :: "('k \<rightharpoonup> 'v) \<Rightarrow> ('k \<times> 'v) list \<Rightarrow> bool" where
  "agree m kvs = (\<exists>g. m \<subseteq>\<^sub>m g \<and> (\<forall>kv \<in> set kvs. g (fst kv) = Some (snd kv)))"

lemma map_le_upd_iff: "m k = None \<Longrightarrow> m(k \<mapsto> v) \<subseteq>\<^sub>m g \<longleftrightarrow> m \<subseteq>\<^sub>m g \<and> g k = Some v"
  by (auto simp: map_le_def dom_def split: if_splits)

lemma agree_Nil [simp]: "agree m []"
  by (auto simp: agree_def intro: map_le_refl)

lemma agree_new: "m k = None \<Longrightarrow> agree m ((k, v) # kvs) = agree (m(k \<mapsto> v)) kvs"
  by (auto simp: agree_def map_le_upd_iff)

lemma agree_old: "m k = Some v' \<Longrightarrow> agree m ((k, v) # kvs) = (v' = v \<and> agree m kvs)"
proof -
  assume m: "m k = Some v'"
  have "g k = Some v'" if "m \<subseteq>\<^sub>m g" for g
    using that m by (metis domI map_le_def)
  then show ?thesis unfolding agree_def by fastforce
qed

lemma agree_empty_iff:
  "agree Map.empty kvs \<longleftrightarrow> (\<forall>k v v'. (k, v) \<in> set kvs \<longrightarrow> (k, v') \<in> set kvs \<longrightarrow> v' = v)"
proof
  assume "agree Map.empty kvs"
  then obtain g where g: "\<forall>kv \<in> set kvs. g (fst kv) = Some (snd kv)" by (auto simp: agree_def)
  show "\<forall>k v v'. (k, v) \<in> set kvs \<longrightarrow> (k, v') \<in> set kvs \<longrightarrow> v' = v"
  proof (intro allI impI)
    fix k v v'
    assume "(k, v) \<in> set kvs" "(k, v') \<in> set kvs"
    with g have "g k = Some v" "g k = Some v'" by fastforce+
    then show "v' = v" by simp
  qed
next
  assume u: "\<forall>k v v'. (k, v) \<in> set kvs \<longrightarrow> (k, v') \<in> set kvs \<longrightarrow> v' = v"
  have "map_of kvs k = Some v" if "(k, v) \<in> set kvs" for k v
    using u that by (metis map_of_SomeD weak_map_of_SomeI)
  then show "agree Map.empty kvs" unfolding agree_def by force
qed

definition alias_entries :: "(string \<times> Selector) list \<Rightarrow> (string \<times> string) list" where
  "alias_entries ps =
     map (\<lambda>(i, s). (Alias s, join [CHR 0x00] (Ops s))) (filter (\<lambda>(i, s). Alias s \<noteq> []) ps)"

lemma alias_scan_ok: "alias_scan m ps = Inr () \<longleftrightarrow> agree (map_option fst \<circ> m) (alias_entries ps)"
proof (induction m ps rule: alias_scan.induct)
  case (2 m jid s rest)
  let ?m = "map_option fst \<circ> m" and ?e = "join [CHR 0x00] (Ops s)"
  consider "Alias s = []" | "Alias s \<noteq> []" "m (Alias s) = None"
    | p f where "Alias s \<noteq> []" "m (Alias s) = Some (p, f)"
    by (cases "m (Alias s)") auto
  then show ?case
  proof cases
    case 1
    with "2.IH"(1) show ?thesis by (simp add: alias_entries_def)
  next
    case 2
    have "map_option fst \<circ> m(Alias s \<mapsto> (?e, jid)) = ?m(Alias s \<mapsto> ?e)" by auto
    with 2 "2.IH"(2) [OF 2(1) refl 2(2)] agree_new [of ?m "Alias s" ?e "alias_entries rest"]
    show ?thesis by (simp add: alias_entries_def Let_def comp_def del: fun_upd_apply)
  next
    case 3
    with "2.IH"(3) [OF 3(1) refl 3(2) refl] show ?thesis
      by (simp add: alias_entries_def Let_def agree_old)
  qed
qed (simp add: alias_entries_def)

lemma alias_entries_iff:
  "(k, v) \<in> set (alias_entries ps) \<longleftrightarrow>
     (\<exists>i s. (i, s) \<in> set ps \<and> Alias s \<noteq> [] \<and> k = Alias s \<and> v = join [CHR 0x00] (Ops s))"
  by (auto simp: alias_entries_def image_iff)

text \<open>A definition set passes the alias check exactly when an alias stands for the same encoded
  operation list in every journey; for operation keys without NUL bytes this is the same
  operation list.\<close>

theorem checkAliasOps_spec:
  "(checkAliasOps ds = Inr () \<longleftrightarrow>
      (\<forall>i \<in> set (ds_order ds). \<forall>j \<in> set (ds_order ds).
         \<forall>s \<in> set (set_tools ds i). \<forall>s' \<in> set (set_tools ds j).
           Alias s \<noteq> [] \<and> Alias s' = Alias s \<longrightarrow> join [CHR 0x00] (Ops s') = join [CHR 0x00] (Ops s))) \<and>
   (\<forall>a b. a \<noteq> [] \<and> b \<noteq> [] \<and> (\<forall>k \<in> set a \<union> set b. CHR 0x00 \<notin> set k) \<longrightarrow>
      join [CHR 0x00] a = join [CHR 0x00] b \<longrightarrow> a = b)"
proof
  show "\<forall>a b. a \<noteq> [] \<and> b \<noteq> [] \<and> (\<forall>k \<in> set a \<union> set b. CHR 0x00 \<notin> set k) \<longrightarrow>
      join [CHR 0x00] a = join [CHR 0x00] b \<longrightarrow> a = b"
    using join_inject [of "CHR 0x00"] by blast
  show "checkAliasOps ds = Inr () \<longleftrightarrow>
      (\<forall>i \<in> set (ds_order ds). \<forall>j \<in> set (ds_order ds).
         \<forall>s \<in> set (set_tools ds i). \<forall>s' \<in> set (set_tools ds j).
           Alias s \<noteq> [] \<and> Alias s' = Alias s \<longrightarrow> join [CHR 0x00] (Ops s') = join [CHR 0x00] (Ops s))"
    (is "?ok \<longleftrightarrow> ?spec")
  proof
    assume ?ok
    show ?spec
    proof (intro ballI impI, elim conjE)
      fix i j s s'
      assume "i \<in> set (ds_order ds)" "s \<in> set (set_tools ds i)" "Alias s \<noteq> []"
        "j \<in> set (ds_order ds)" "s' \<in> set (set_tools ds j)" "Alias s' = Alias s"
      then have "(Alias s, join [CHR 0x00] (Ops s)) \<in> set (alias_entries (set_selectors ds))"
        "(Alias s, join [CHR 0x00] (Ops s')) \<in> set (alias_entries (set_selectors ds))"
        by (auto simp: alias_entries_iff set_selectors_iff) metis+
      with \<open>?ok\<close> show "join [CHR 0x00] (Ops s') = join [CHR 0x00] (Ops s)"
        by (auto simp: checkAliasOps_def alias_scan_ok comp_def agree_empty_iff)
    qed
  next
    assume ?spec
    have "v' = v" if "(k, v) \<in> set (alias_entries (set_selectors ds))"
      "(k, v') \<in> set (alias_entries (set_selectors ds))" for k v v'
    proof -
      from that obtain i s j s' where h: "i \<in> set (ds_order ds)" "s \<in> set (set_tools ds i)"
        "j \<in> set (ds_order ds)" "s' \<in> set (set_tools ds j)" "Alias s \<noteq> [] \<and> Alias s' = Alias s"
        and v: "v = join [CHR 0x00] (Ops s)" "v' = join [CHR 0x00] (Ops s')"
        unfolding alias_entries_iff set_selectors_iff by auto
      from \<open>?spec\<close> h have "join [CHR 0x00] (Ops s') = join [CHR 0x00] (Ops s)" by blast
      with v show ?thesis by simp
    qed
    then show ?ok
      by (simp add: checkAliasOps_def alias_scan_ok comp_def agree_empty_iff)
  qed
qed

subsection \<open>One operation key, one policy\<close>

record effectivePolicy =
  ep_class :: Class
  ep_approval :: bool

fun policyClassRank :: "Class \<Rightarrow> nat" where
  "policyClassRank ClassReadOnly = 0"
| "policyClassRank ClassIdempotent = 1"
| "policyClassRank c = 2"

definition policy_step ::
  "Selector \<Rightarrow> string \<Rightarrow> (string \<rightharpoonup> effectivePolicy) \<Rightarrow> (string \<rightharpoonup> effectivePolicy)" where
  "policy_step s key out =
     (let cl = (if SClass s = ClassUnset then ClassEffectful else SClass s);
          next = \<lparr>ep_class = cl, ep_approval = ApprovalRequired s\<rparr>
      in case out key of
           None \<Rightarrow> out(key \<mapsto> next)
         | Some prev \<Rightarrow>
             out(key \<mapsto> \<lparr>ep_class = (if policyClassRank (ep_class prev) > policyClassRank cl
                                     then ep_class prev else cl),
                         ep_approval = (ApprovalRequired s \<or> ep_approval prev)\<rparr>))"

definition finish_policy :: "effectivePolicy \<Rightarrow> effectivePolicy" where
  "finish_policy p = p\<lparr>ep_approval := (ep_approval p \<or> ep_class p \<noteq> ClassReadOnly)\<rparr>"

definition tools_policies :: "Selector list \<Rightarrow> string \<rightharpoonup> effectivePolicy" where
  "tools_policies tools = map_option finish_policy \<circ>
     fold (\<lambda>s out. fold (policy_step s) (Ops s) out) tools Map.empty"

definition journeyPolicies :: "Journey \<Rightarrow> string \<rightharpoonup> effectivePolicy" where
  "journeyPolicies j = tools_policies (j_Tools j)"

text \<open>The policy one operation selector gives its keys.\<close>

definition selector_policy :: "Selector \<Rightarrow> effectivePolicy" where
  "selector_policy s =
     (let cl = (if SClass s = ClassUnset then ClassEffectful else SClass s)
      in \<lparr>ep_class = cl, ep_approval = (ApprovalRequired s \<or> cl \<noteq> ClassReadOnly)\<rparr>)"

lemma policy_fold_other: "k \<notin> set ks \<Longrightarrow> fold (policy_step s) ks out k = out k"
  by (induction ks arbitrary: out) (auto simp: policy_step_def Let_def split: option.splits)

lemma policy_fold_dom: "dom (fold (policy_step s) ks out) = set ks \<union> dom out"
  by (induction ks arbitrary: out) (auto simp: policy_step_def Let_def split: option.splits)

lemma policy_fold_new:
  assumes "distinct ks" "k \<in> set ks" "out k = None"
  shows "map_option finish_policy (fold (policy_step s) ks out k) = Some (selector_policy s)"
  using assms
proof (induction ks arbitrary: out)
  case (Cons x xs)
  show ?case
  proof (cases "k = x")
    case True
    with Cons.prems have "fold (policy_step s) (x # xs) out k = policy_step s x out k"
      by (simp add: policy_fold_other)
    moreover have "map_option finish_policy (policy_step s x out k) = Some (selector_policy s)"
      using True Cons.prems(3)
      by (simp add: policy_step_def selector_policy_def finish_policy_def Let_def)
    ultimately show ?thesis by (simp only:)
  next
    case False
    then have "policy_step s x out k = out k"
      by (auto simp: policy_step_def Let_def split: option.splits)
    with False Cons show ?thesis by simp
  qed
qed simp

lemma tools_fold_dom:
  "dom (fold (\<lambda>s out. fold (policy_step s) (Ops s) out) tools out) = set (selected_ops tools) \<union> dom out"
  by (induction tools arbitrary: out) (auto simp: policy_fold_dom selected_ops_def)

lemma dom_tools_policies: "dom (tools_policies tools) = set (selected_ops tools)"
  using tools_fold_dom [of tools Map.empty] by (auto simp: tools_policies_def dom_def)

lemma tools_fold_other:
  "k \<notin> set (selected_ops tools) \<Longrightarrow>
     fold (\<lambda>s out. fold (policy_step s) (Ops s) out) tools out k = out k"
  by (induction tools arbitrary: out) (auto simp: selected_ops_def policy_fold_other)

lemma tools_policies_selector:
  assumes "distinct (selected_ops tools)" "s \<in> set tools" "k \<in> set (Ops s)"
  shows "tools_policies tools k = Some (selector_policy s)"
proof -
  have "map_option finish_policy
      (fold (\<lambda>s out. fold (policy_step s) (Ops s) out) tools out k) = Some (selector_policy s)"
    if "out k = None" for out
    using assms that
  proof (induction tools arbitrary: out)
    case (Cons t ts)
    from Cons.prems have d: "distinct (Ops t)" "distinct (selected_ops ts)"
      "set (Ops t) \<inter> set (selected_ops ts) = {}"
      by (auto simp: selected_ops_def)
    show ?case
    proof (cases "k \<in> set (Ops t)")
      case True
      with d have nk: "k \<notin> set (selected_ops ts)" by auto
      with Cons.prems have "s = t" by (auto simp: selected_ops_def)
      with nk True d Cons.prems show ?thesis
        by (simp add: tools_fold_other policy_fold_new)
    next
      case False
      with Cons.prems have "s \<in> set ts" by auto
      from Cons.IH [OF d(2) this Cons.prems(3), of "fold (policy_step t) (Ops t) out"]
      show ?thesis using False Cons.prems(4) by (simp add: policy_fold_other)
    qed
  qed simp
  from this [of Map.empty] show ?thesis by (simp add: tools_policies_def)
qed

fun conflict_scan ::
  "(string \<Rightarrow> effectivePolicy option) \<Rightarrow> string \<Rightarrow> string \<Rightarrow> string list \<Rightarrow> compile_error + unit" where
  "conflict_scan pol key first [] = Inr ()"
| "conflict_scan pol key first (i # is) =
     (case pol i of
        None \<Rightarrow> conflict_scan pol key first is
      | Some p \<Rightarrow>
          if first = [] then conflict_scan pol key i is
          else if Some p \<noteq> pol first then Inl (PolicyConflict key first i)
          else conflict_scan pol key first is)"

fun conflict_scan_keys ::
  "(string \<Rightarrow> string \<Rightarrow> effectivePolicy option) \<Rightarrow> string list \<Rightarrow> string list \<Rightarrow> compile_error + unit" where
  "conflict_scan_keys pol is [] = Inr ()"
| "conflict_scan_keys pol is (key # keys) =
     and_then (conflict_scan (\<lambda>i. pol i key) key [] is) (\<lambda>_. conflict_scan_keys pol is keys)"

definition checkPolicyConflicts :: "DefinitionSet \<Rightarrow> compile_error + unit" where
  "checkPolicyConflicts ds =
     (let is = sort (ds_order ds);
          keys = sort (remdups (concat (map (\<lambda>i. selected_ops (set_tools ds i)) is)))
      in conflict_scan_keys (\<lambda>i. tools_policies (set_tools ds i)) is keys)"

lemma conflict_scan_first:
  assumes "first \<noteq> []"
  shows "conflict_scan pol key first is = Inr () \<longleftrightarrow>
    (\<forall>i \<in> set is. pol i \<noteq> None \<longrightarrow> pol i = pol first)"
  using assms by (induction "is") (auto split: option.splits)

lemma conflict_scan_ok:
  assumes "[] \<notin> set is"
  shows "conflict_scan pol key [] is = Inr () \<longleftrightarrow>
    (\<forall>i \<in> set is. \<forall>j \<in> set is. pol i \<noteq> None \<longrightarrow> pol j \<noteq> None \<longrightarrow> pol i = pol j)"
  using assms
proof (induction "is")
  case (Cons i "is")
  show ?case
  proof (cases "pol i")
    case None
    with Cons show ?thesis by simp
  next
    case (Some p)
    with Cons.prems have "conflict_scan pol key [] (i # is) = conflict_scan pol key i is" by simp
    also have "\<dots> = Inr () \<longleftrightarrow> (\<forall>j \<in> set is. pol j \<noteq> None \<longrightarrow> pol j = pol i)"
      using Cons.prems by (intro conflict_scan_first) auto
    also have "\<dots> \<longleftrightarrow> (\<forall>a \<in> set (i # is). \<forall>b \<in> set (i # is).
        pol a \<noteq> None \<longrightarrow> pol b \<noteq> None \<longrightarrow> pol a = pol b)"
    proof
      assume all: "\<forall>j \<in> set is. pol j \<noteq> None \<longrightarrow> pol j = pol i"
      then have "pol a = pol i" if "a \<in> set (i # is)" "pol a \<noteq> None" for a
        using that by auto
      then show "\<forall>a \<in> set (i # is). \<forall>b \<in> set (i # is).
          pol a \<noteq> None \<longrightarrow> pol b \<noteq> None \<longrightarrow> pol a = pol b"
        by (intro ballI impI) (metis (no_types))
    qed (use Some in auto)
    finally show ?thesis .
  qed
qed simp

lemma conflict_scan_keys_ok:
  "conflict_scan_keys pol is keys = Inr () \<longleftrightarrow>
     (\<forall>key \<in> set keys. conflict_scan (\<lambda>i. pol i key) key [] is = Inr ())"
  by (induction keys) (auto simp: and_then_Inr_iff)

text \<open>A definition set (whose journey identifiers are not empty) passes the policy check exactly when
  every operation key that two of its journeys select has the same class and the same
  approval requirement in both.\<close>

theorem checkPolicyConflicts_spec:
  assumes "[] \<notin> set (ds_order ds)"
  shows "checkPolicyConflicts ds = Inr () \<longleftrightarrow>
    (\<forall>i \<in> set (ds_order ds). \<forall>j \<in> set (ds_order ds). \<forall>key p q.
       tools_policies (set_tools ds i) key = Some p \<and> tools_policies (set_tools ds j) key = Some q
         \<longrightarrow> p = q)"
proof -
  let ?pol = "\<lambda>i. tools_policies (set_tools ds i)"
  have dom: "key \<in> (\<Union>i \<in> set (ds_order ds). set (selected_ops (set_tools ds i)))"
    if "i \<in> set (ds_order ds)" "?pol i key = Some p" for i key p
    using that dom_tools_policies [of "set_tools ds i"] by blast
  have "checkPolicyConflicts ds = Inr () \<longleftrightarrow>
      (\<forall>key \<in> (\<Union>i \<in> set (ds_order ds). set (selected_ops (set_tools ds i))).
        \<forall>i \<in> set (ds_order ds). \<forall>j \<in> set (ds_order ds).
          ?pol i key \<noteq> None \<longrightarrow> ?pol j key \<noteq> None \<longrightarrow> ?pol i key = ?pol j key)"
    using assms
    by (simp add: checkPolicyConflicts_def Let_def conflict_scan_keys_ok conflict_scan_ok)
  also have "\<dots> \<longleftrightarrow> (\<forall>i \<in> set (ds_order ds). \<forall>j \<in> set (ds_order ds). \<forall>key p q.
       ?pol i key = Some p \<and> ?pol j key = Some q \<longrightarrow> p = q)"
  proof (intro iffI ballI allI impI, elim conjE)
    fix i j key p q
    assume all: "\<forall>key \<in> (\<Union>i \<in> set (ds_order ds). set (selected_ops (set_tools ds i))).
        \<forall>i \<in> set (ds_order ds). \<forall>j \<in> set (ds_order ds).
          ?pol i key \<noteq> None \<longrightarrow> ?pol j key \<noteq> None \<longrightarrow> ?pol i key = ?pol j key"
      and i: "i \<in> set (ds_order ds)" "?pol i key = Some p"
      and j: "j \<in> set (ds_order ds)" "?pol j key = Some q"
    from all dom [OF i] i j have "?pol i key = ?pol j key" by blast
    with i j show "p = q" by simp
  next
    fix i j key
    assume all: "\<forall>i \<in> set (ds_order ds). \<forall>j \<in> set (ds_order ds). \<forall>key p q.
        ?pol i key = Some p \<and> ?pol j key = Some q \<longrightarrow> p = q"
      and ij: "i \<in> set (ds_order ds)" "j \<in> set (ds_order ds)"
      and "?pol i key \<noteq> None" "?pol j key \<noteq> None"
    then obtain p q where pq: "?pol i key = Some p" "?pol j key = Some q" by auto
    with all ij have "p = q" by blast
    with pq show "?pol i key = ?pol j key" by simp
  qed
  finally show ?thesis .
qed

definition example_set :: DefinitionSet where
  "example_set =
     (let j = \<lparr>j_ID = ''a'', j_Description = ''d'', j_Prompt = [], j_Skills = [], j_Digest = [],
                j_Tools = [\<lparr>Ops = [''leave.balance''], Tags = [], Alias = ''leave_balance'', ReadOnlyHint = False,
                           SClass = ClassReadOnly, ApprovalRequired = False\<rparr>],
                j_Deny = [], j_MaxTools = 15, j_ProductVersions = \<lparr>Min = [], MaxExclusive = []\<rparr>,
                j_Catalog = example_catalog, j_Skill = ''skills/a''\<rparr>
      in \<lparr>ds_catalog = example_catalog, ds_conversationPrompt = [], ds_digest = [],
          ds_order = [''b'', ''a''], ds_journeys = [''a'' \<mapsto> j, ''b'' \<mapsto> j\<lparr>j_ID := ''b''\<rparr>]\<rparr>)"

theorem checkPolicyConflicts_spec_witness: "checkPolicyConflicts example_set = Inr ()"
proof -
  have order: "ds_order example_set = [''b'', ''a'']" by (simp add: example_set_def Let_def)
  have same: "set_tools example_set ''a'' = set_tools example_set ''b''"
    by (simp add: example_set_def Let_def set_tools_def)
  have "[] \<notin> set (ds_order example_set)" by (simp add: order)
  from checkPolicyConflicts_spec [OF this] show ?thesis by (auto simp add: order same)
qed

theorem checkAliasOps_spec_witness: "checkAliasOps example_set = Inr ()"
proof -
  have order: "ds_order example_set = [''b'', ''a'']" by (simp add: example_set_def Let_def)
  have tools: "\<exists>s. set_tools example_set ''a'' = [s] \<and> set_tools example_set ''b'' = [s]"
    by (simp add: example_set_def Let_def set_tools_def)
  show ?thesis
    by (rule checkAliasOps_spec [THEN conjunct1, THEN iffD2]) (use tools in \<open>auto simp add: order\<close>)
qed

end
