(* ===== verification/Catalog.thy ===== *)
theory Catalog
  imports Definitions Journal_Reply
begin

text \<open>
  The resolution of journeys against a tool catalog (\<open>internal/catalog/descriptor.go\<close> and \<open>resolve.go\<close>):
  tool descriptors, the selection of tools by the reviewed selectors of a journey, the reasons why a
  journey cannot be served, and the check that journeys agree on the policy of a shared tool.
\<close>

section \<open>Descriptors\<close>

record Descriptor =
  dr_Name :: string
  dr_Description :: string
  dr_InputSchema :: "json option"
  dr_Meta :: "(string \<times> json) list"
  dr_ReadOnlyHint :: bool
  dr_Raw :: json

datatype descriptor_error = NotAnArray | MalformedDescriptor nat | NamelessDescriptor nat

text \<open>A number decodes into a \<open>float64\<close> unless it rounds to infinity: \<open>m * 10^e\<close> with
  \<open>m\<close> the digits of the literal reaches \<open>2^1024 - 2^970\<close>.\<close>

definition float_limit :: nat where
  "float_limit = 2 ^ 1024 - 2 ^ 970"

definition number_parts :: "string \<Rightarrow> nat \<times> int" where
  "number_parts n =
     (let body = (if take 1 n = ''-'' then drop 1 n else n);
          mant = takeWhile (\<lambda>c. c \<noteq> CHR ''e'' \<and> c \<noteq> CHR ''E'') body;
          rest = drop (length mant + 1) body;
          frac = drop 1 (dropWhile is_digit mant);
          digits = filter is_digit mant;
          exponent = (case rest of [] \<Rightarrow> 0
            | c # s \<Rightarrow> if c = CHR ''-'' then - int (parse_nat s) else if c = CHR ''+'' then int (parse_nat s) else int (parse_nat rest))
      in (parse_nat digits, exponent - int (length frac)))"

definition float_ok :: "string \<Rightarrow> bool" where
  "float_ok n =
     (case number_parts n of (m, e) \<Rightarrow>
        if 0 \<le> e then m = 0 \<or> e < 400 \<and> m * 10 ^ nat e < float_limit
        else m < float_limit * 10 ^ nat (- e))"

fun any_ok :: "json \<Rightarrow> bool" where
  "any_ok (JNum n) = float_ok n"
| "any_ok (JArr vs) = list_all any_ok vs"
| "any_ok (JObj kvs) = list_all (\<lambda>kv. any_ok (snd kv)) kvs"
| "any_ok _ = True"

record raw_descriptor =
  rd_Name :: string
  rd_Description :: string
  rd_InputSchema :: "json option"
  rd_Meta :: "(string \<times> json) list"
  rd_Annotations :: "json option"

fun merge_members :: "(string \<times> json) list \<Rightarrow> (string \<times> json) list \<Rightarrow> (string \<times> json) list" where
  "merge_members m [] = m"
| "merge_members m ((k, v) # kvs) = merge_members (set_key k v m) kvs"

text \<open>The \<open>annotations\<close> object as far as it is read: the value of \<open>readOnlyHint\<close>.\<close>

fun decode_annotations :: "json \<Rightarrow> (string \<times> json) list \<Rightarrow> json option" where
  "decode_annotations hint [] = Some hint"
| "decode_annotations hint ((k, v) # kvs) =
     (if fold_key k = ''readonlyhint'' then (if any_ok v then decode_annotations v kvs else None)
      else decode_annotations hint kvs)"

fun decode_descriptor :: "raw_descriptor \<Rightarrow> (string \<times> json) list \<Rightarrow> raw_descriptor option" where
  "decode_descriptor d [] = Some d"
| "decode_descriptor d ((k, v) # kvs) =
     (if fold_key k = ''name'' then
        (case decode_string (rd_Name d) v of None \<Rightarrow> None
         | Some s \<Rightarrow> decode_descriptor (d\<lparr>rd_Name := s\<rparr>) kvs)
      else if fold_key k = ''description'' then
        (case decode_string (rd_Description d) v of None \<Rightarrow> None
         | Some s \<Rightarrow> decode_descriptor (d\<lparr>rd_Description := s\<rparr>) kvs)
      else if fold_key k = ''inputschema'' then decode_descriptor (d\<lparr>rd_InputSchema := Some v\<rparr>) kvs
      else if fold_key k = ''_meta'' then
        (case v of
           JNull \<Rightarrow> decode_descriptor (d\<lparr>rd_Meta := []\<rparr>) kvs
         | JObj ms \<Rightarrow> if any_ok v then decode_descriptor (d\<lparr>rd_Meta := merge_members (rd_Meta d) ms\<rparr>) kvs else None
         | _ \<Rightarrow> None)
      else if fold_key k = ''annotations'' then
        (case v of
           JNull \<Rightarrow> decode_descriptor (d\<lparr>rd_Annotations := None\<rparr>) kvs
         | JObj ms \<Rightarrow>
             (case decode_annotations (case rd_Annotations d of None \<Rightarrow> JNull | Some h \<Rightarrow> h) ms of
                None \<Rightarrow> None
              | Some h \<Rightarrow> decode_descriptor (d\<lparr>rd_Annotations := Some h\<rparr>) kvs)
         | _ \<Rightarrow> None)
      else decode_descriptor d kvs)"

definition no_descriptor :: raw_descriptor where
  "no_descriptor = \<lparr>rd_Name = [], rd_Description = [], rd_InputSchema = None, rd_Meta = [], rd_Annotations = None\<rparr>"

definition parse_descriptor :: "nat \<Rightarrow> json \<Rightarrow> descriptor_error + Descriptor" where
  "parse_descriptor i element =
     (case (case element of JObj kvs \<Rightarrow> decode_descriptor no_descriptor kvs
            | JNull \<Rightarrow> Some no_descriptor | _ \<Rightarrow> None) of
        None \<Rightarrow> Inl (MalformedDescriptor i)
      | Some d \<Rightarrow>
          if rd_Name d = [] then Inl (NamelessDescriptor i)
          else Inr \<lparr>dr_Name = rd_Name d, dr_Description = rd_Description d, dr_InputSchema = rd_InputSchema d,
                    dr_Meta = rd_Meta d, dr_ReadOnlyHint = (rd_Annotations d = Some (JBool True)), dr_Raw = element\<rparr>)"

fun parse_elements :: "nat \<Rightarrow> json list \<Rightarrow> descriptor_error + Descriptor list" where
  "parse_elements i [] = Inr []"
| "parse_elements i (e # es) =
     and_then (parse_descriptor i e) (\<lambda>d. and_then (parse_elements (i + 1) es) (\<lambda>ds. Inr (d # ds)))"

definition ParseDescriptors :: "bytes \<Rightarrow> descriptor_error + Descriptor list" where
  "ParseDescriptors raw =
     (case parse_json raw of
        Some (JArr elements) \<Rightarrow> parse_elements 0 elements
      | _ \<Rightarrow> Inl NotAnArray)"

section \<open>Selection\<close>

record CatalogView =
  cw_Digest :: string
  cw_ProductVersion :: string
  cw_EndpointID :: string
  cw_ServerVersion :: string
  cw_Tools :: "Descriptor list"

datatype Reason =
    ReasonMissing | ReasonAmbiguous | ReasonCollision | ReasonInvalidAlias | ReasonMaxTools
  | ReasonVersion | ReasonPolicyConflict

type_synonym Unavailable = "Reason \<times> string"

record Tool =
  t_Alias :: string
  t_OperationKey :: string
  t_RemoteName :: string
  t_Description :: string
  t_InputSchema :: "json option"
  t_Class :: Class
  t_RequiresApproval :: bool

record Resolution =
  res_JourneyID :: string
  res_Tools :: "Tool list"
  res_Unavailable :: "Unavailable list"

definition Available :: "Resolution \<Rightarrow> bool" where
  "Available r = (length (res_Unavailable r) = 0)"

record selection =
  opClass :: Class
  opAlias :: string
  fromOp :: bool
  approval :: bool

definition no_selection :: selection where
  "no_selection = \<lparr>opClass = ClassUnset, opAlias = [], fromOp = False, approval = False\<rparr>"

definition selection_alias :: "selection \<Rightarrow> string \<Rightarrow> string" where
  "selection_alias s key = (if fromOp s \<and> opAlias s \<noteq> [] then opAlias s else fst (AliasFor key))"

definition selection_class :: "selection \<Rightarrow> Class" where
  "selection_class s = (if fromOp s \<and> opClass s \<noteq> ClassUnset then opClass s else ClassEffectful)"

definition meta_string :: "string \<Rightarrow> Descriptor \<Rightarrow> string option" where
  "meta_string k d = (case map_of (dr_Meta d) k of Some (JStr s) \<Rightarrow> Some s | _ \<Rightarrow> None)"

text \<open>The operation key of a selectable tool, empty for the others.\<close>

definition tool_key :: "string \<Rightarrow> string list \<Rightarrow> Descriptor \<Rightarrow> string" where
  "tool_key metaKey deny d =
     (case meta_string metaKey d of
        Some key \<Rightarrow> if key \<noteq> [] \<and> key \<notin> set deny then key else []
      | None \<Rightarrow> [])"

definition tag_list :: "Descriptor \<Rightarrow> string list" where
  "tag_list d =
     (case map_of (dr_Meta d) ''tags'' of
        Some (JArr vs) \<Rightarrow> List.map_filter (\<lambda>v. case v of JStr s \<Rightarrow> Some s | _ \<Rightarrow> None) vs
      | _ \<Rightarrow> [])"

definition hasAllTags :: "Descriptor \<Rightarrow> string list \<Rightarrow> bool" where
  "hasAllTags d want = list_all (\<lambda>tag. tag \<in> set (tag_list d)) want"

text \<open>What resolution has found so far: the selected tools by index and the reasons against the journey.\<close>

record progress =
  selected :: "nat \<rightharpoonup> selection"
  unavailable :: "Unavailable list"

definition add :: "Reason \<Rightarrow> string \<Rightarrow> progress \<Rightarrow> progress" where
  "add reason operation p =
     (if (reason, operation) \<in> set (unavailable p) then p
      else p\<lparr>unavailable := unavailable p @ [(reason, operation)]\<rparr>)"

definition choose_tool :: "nat \<Rightarrow> Selector \<Rightarrow> progress \<Rightarrow> progress" where
  "choose_tool i s p =
     (let old = (case selected p i of None \<Rightarrow> no_selection | Some x \<Rightarrow> x);
          new = old\<lparr>approval := approval old \<or> ApprovalRequired s\<rparr>
      in p\<lparr>selected := (selected p)(i \<mapsto>
           (if Ops s \<noteq> [] then new\<lparr>opClass := SClass s, opAlias := Alias s, fromOp := True\<rparr> else new))\<rparr>)"

definition op_candidates :: "Descriptor list \<Rightarrow> string list \<Rightarrow> Selector \<Rightarrow> string \<Rightarrow> nat list" where
  "op_candidates tools keys s key =
     filter (\<lambda>i. keys ! i \<noteq> [] \<and> keys ! i = key \<and> (\<not> ReadOnlyHint s \<or> dr_ReadOnlyHint (tools ! i))) [0..<length tools]"

text \<open>The first alternative with a candidate wins.\<close>

fun select_op :: "Descriptor list \<Rightarrow> string list \<Rightarrow> Selector \<Rightarrow> string list \<Rightarrow> progress \<Rightarrow> progress" where
  "select_op tools keys s [] p = add ReasonMissing (hd (Ops s)) p"
| "select_op tools keys s (key # alternatives) p =
     (case op_candidates tools keys s key of
        [] \<Rightarrow> select_op tools keys s alternatives p
      | [i] \<Rightarrow> choose_tool i s p
      | _ \<Rightarrow> add ReasonAmbiguous key p)"

definition select_ops :: "Descriptor list \<Rightarrow> string list \<Rightarrow> Selector list \<Rightarrow> progress \<Rightarrow> progress" where
  "select_ops tools keys ss p = fold (\<lambda>s. select_op tools keys s (Ops s)) (filter (\<lambda>s. Ops s \<noteq> []) ss) p"

definition tag_matches :: "Descriptor list \<Rightarrow> string list \<Rightarrow> Selector \<Rightarrow> nat list" where
  "tag_matches tools keys s =
     filter (\<lambda>i. keys ! i \<noteq> [] \<and> (\<not> ReadOnlyHint s \<or> dr_ReadOnlyHint (tools ! i)) \<and> hasAllTags (tools ! i) (Tags s))
       [0..<length tools]"

definition select_tags :: "Descriptor list \<Rightarrow> string list \<Rightarrow> Selector list \<Rightarrow> progress \<Rightarrow> progress" where
  "select_tags tools keys ss p =
     fold (\<lambda>s. fold (\<lambda>i. choose_tool i s) (tag_matches tools keys s)) (filter (\<lambda>s. Ops s = [] \<and> Tags s \<noteq> []) ss) p"

definition selected_indexes :: "Descriptor list \<Rightarrow> progress \<Rightarrow> nat list" where
  "selected_indexes tools p = filter (\<lambda>i. selected p i \<noteq> None) [0..<length tools]"

definition selected_keys :: "Descriptor list \<Rightarrow> string list \<Rightarrow> progress \<Rightarrow> string list" where
  "selected_keys tools keys p = sort (remdups (map (\<lambda>i. keys ! i) (selected_indexes tools p)))"

definition key_tools :: "Descriptor list \<Rightarrow> string list \<Rightarrow> progress \<Rightarrow> string \<Rightarrow> nat list" where
  "key_tools tools keys p key = filter (\<lambda>i. keys ! i = key) (selected_indexes tools p)"

definition check_ambiguous :: "Descriptor list \<Rightarrow> string list \<Rightarrow> progress \<Rightarrow> progress" where
  "check_ambiguous tools keys p =
     fold (\<lambda>key q. if length (key_tools tools keys p key) > 1 then add ReasonAmbiguous key q else q)
       (selected_keys tools keys p) p"

text \<open>One selected tool against the aliases seen so far.\<close>

definition check_alias ::
  "string \<times> string \<Rightarrow> (string \<rightharpoonup> string) \<times> progress \<Rightarrow> (string \<rightharpoonup> string) \<times> progress" where
  "check_alias ka op =
     (case (ka, op) of ((key, alias), (owner, p)) \<Rightarrow>
        if \<not> ValidAlias alias then (owner, add ReasonInvalidAlias key p)
        else if IsReservedToolName alias then (owner, add ReasonCollision alias p)
        else (owner(alias \<mapsto> key),
              (case owner alias of Some k \<Rightarrow> if k \<noteq> key then add ReasonCollision alias p else p | None \<Rightarrow> p)))"

definition key_aliases :: "Descriptor list \<Rightarrow> string list \<Rightarrow> progress \<Rightarrow> (string \<times> string) list" where
  "key_aliases tools keys p =
     concat (map (\<lambda>key. map (\<lambda>i. (key, selection_alias (the (selected p i)) key)) (key_tools tools keys p key))
       (selected_keys tools keys p))"

definition check_aliases :: "Descriptor list \<Rightarrow> string list \<Rightarrow> progress \<Rightarrow> progress" where
  "check_aliases tools keys p = snd (fold check_alias (key_aliases tools keys p) (Map.empty, p))"

definition defaultMaxTools :: int where "defaultMaxTools = 15"

definition check_max :: "Descriptor list \<Rightarrow> int \<Rightarrow> progress \<Rightarrow> progress" where
  "check_max tools n p =
     (if int (length (selected_indexes tools p)) > (if n \<le> 0 then defaultMaxTools else n) then add ReasonMaxTools [] p else p)"

definition resolved_tool :: "Descriptor list \<Rightarrow> string list \<Rightarrow> progress \<Rightarrow> nat \<Rightarrow> Tool" where
  "resolved_tool tools keys p i =
     (let d = tools ! i; sel = the (selected p i) in
      \<lparr>t_Alias = selection_alias sel (keys ! i), t_OperationKey = keys ! i, t_RemoteName = dr_Name d,
       t_Description = dr_Description d, t_InputSchema = dr_InputSchema d, t_Class = selection_class sel,
       t_RequiresApproval = (selection_class sel \<noteq> ClassReadOnly \<or> approval sel)\<rparr>)"

definition select_all :: "Journey \<Rightarrow> Descriptor list \<Rightarrow> string list \<Rightarrow> progress" where
  "select_all journey tools keys =
     select_tags tools keys (j_Tools journey)
       (select_ops tools keys (j_Tools journey) \<lparr>selected = Map.empty, unavailable = []\<rparr>)"

definition Resolve_journey :: "Journey \<Rightarrow> CatalogView \<Rightarrow> string \<Rightarrow> Resolution" where
  "Resolve_journey journey snapshot metaKey =
     (if \<not> VersionRange_IsZero (j_ProductVersions journey) \<and>
         \<not> VersionRange_Contains (j_ProductVersions journey) (cw_ProductVersion snapshot)
      then \<lparr>res_JourneyID = j_ID journey, res_Tools = [], res_Unavailable = [(ReasonVersion, [])]\<rparr>
      else
        let tools = cw_Tools snapshot;
            keys = map (tool_key metaKey (j_Deny journey)) tools;
            p = check_max tools (j_MaxTools journey) (check_aliases tools keys (check_ambiguous tools keys
                  (select_all journey tools keys)))
        in if unavailable p \<noteq> [] then \<lparr>res_JourneyID = j_ID journey, res_Tools = [], res_Unavailable = unavailable p\<rparr>
           else \<lparr>res_JourneyID = j_ID journey,
                 res_Tools = sort_key t_Alias (map (resolved_tool tools keys p) (selected_indexes tools p)),
                 res_Unavailable = []\<rparr>)"

section \<open>Policies across journeys\<close>

definition tool_policy :: "Tool \<Rightarrow> Class \<times> bool" where
  "tool_policy t = (t_Class t, t_RequiresApproval t)"

definition noted :: "(Tool \<Rightarrow> string) \<Rightarrow> Resolution list \<Rightarrow> string \<Rightarrow> (Class \<times> bool) list" where
  "noted f rs name =
     remdups (map tool_policy (filter (\<lambda>t. f t = name) (concat (map res_Tools (filter Available rs)))))"

definition conflict_name :: "Resolution list \<Rightarrow> Tool \<Rightarrow> string" where
  "conflict_name rs t =
     (if length (noted t_OperationKey rs (t_OperationKey t)) > 1 then t_OperationKey t
      else if length (noted t_Alias rs (t_Alias t)) > 1 then t_Alias t else [])"

definition conflicts :: "Resolution list \<Rightarrow> Resolution \<Rightarrow> string list" where
  "conflicts rs r = sort (dedup [] (filter (\<lambda>n. n \<noteq> []) (map (conflict_name rs) (res_Tools r))))"

definition check_policy :: "Resolution list \<Rightarrow> Resolution \<Rightarrow> Resolution" where
  "check_policy rs r =
     (if \<not> Available r \<or> conflicts rs r = [] then r
      else r\<lparr>res_Tools := [], res_Unavailable := map (\<lambda>name. (ReasonPolicyConflict, name)) (conflicts rs r)\<rparr>)"

definition CheckPolicies :: "Resolution list \<Rightarrow> Resolution list" where
  "CheckPolicies rs = map (check_policy rs) rs"

end
