(* ===== verification/Headers.thy ===== *)
theory Headers
  imports Settings
begin

text \<open>
  Request headers: the credential that is forwarded to the integration endpoint
  (\<open>internal/credential/credential.go\<close>) and the attribution the cost gate adds to model calls (\<open>internal/cost\<close>:
  \<open>access.go\<close>, \<open>headers.go\<close>, \<open>cost.go\<close>). Both decorate a request; a locale states what a decorator may change.

  An \<open>http.Header\<close> is a map from canonical names to values; a name without values is absent.
\<close>

section \<open>Header maps\<close>

type_synonym Header = "string \<Rightarrow> string list"

definition no_header :: Header where "no_header = (\<lambda>_. [])"

definition header_del :: "string \<Rightarrow> Header \<Rightarrow> Header" where
  "header_del name h = h(canonical_header_key name := [])"

definition header_add :: "string \<Rightarrow> string \<Rightarrow> Header \<Rightarrow> Header" where
  "header_add name v h = h(canonical_header_key name := h (canonical_header_key name) @ [v])"

definition header_set :: "string \<Rightarrow> string \<Rightarrow> Header \<Rightarrow> Header" where
  "header_set name v h = h(canonical_header_key name := [v])"

lemma canonical_go_idem: "canonical_go up (canonical_go up s) = canonical_go up s"
proof (induction s arbitrary: up)
  case (Cons c s)
  have up: "to_upper (to_upper c) = to_upper c" and low: "to_lower (to_lower c) = to_lower c"
    unfolding to_upper_def to_lower_def is_lower_def is_upper_def less_eq_char_def
    by (auto simp: of_char_of take_bit_eq_mod)
  show ?case using Cons up low by (simp add: Let_def)
qed simp

lemma tchar_case: "is_tchar c \<Longrightarrow> is_tchar (to_upper c) \<and> is_tchar (to_lower c)"
  unfolding is_tchar_def is_alnum_def to_upper_def to_lower_def is_lower_def is_upper_def is_digit_def less_eq_char_def
  by (auto simp: of_char_of take_bit_eq_mod)

lemma tchar_canonical: "list_all is_tchar s \<Longrightarrow> list_all is_tchar (canonical_go up s)"
  by (induction s arbitrary: up) (auto simp: Let_def tchar_case)

lemma canonical_idem [simp]: "canonical_header_key (canonical_header_key s) = canonical_header_key s"
  by (simp add: canonical_header_key_def canonical_go_idem tchar_canonical)

section \<open>Decorators\<close>

text \<open>A decorator replaces its own headers, whatever the request carried, and no others.\<close>

locale decorator =
  fixes decorate :: "'d \<Rightarrow> Header \<Rightarrow> Header"
    and names :: "'d \<Rightarrow> string set"
  assumes others: "k \<notin> names d \<Longrightarrow> decorate d h k = h k"
    and own: "k \<in> names d \<Longrightarrow> decorate d h k = decorate d g k"
begin

lemma decorate_twice: "decorate d (decorate d h) = decorate d h"
proof
  fix k
  show "decorate d (decorate d h) k = decorate d h k"
    by (cases "k \<in> names d") (simp_all add: others own [of k d "decorate d h" h])
qed

lemma decorate_commute:
  assumes "names d \<inter> names e = {}"
  shows "decorate d (decorate e h) = decorate e (decorate d h)"
proof
  fix k
  consider "k \<in> names d" "k \<notin> names e" | "k \<notin> names d" using assms by blast
  then show "decorate d (decorate e h) k = decorate e (decorate d h) k"
  proof cases
    case 1
    then show ?thesis using own [of k d "decorate e h" h] others [of k e "decorate d h"] by simp
  next
    case 2
    show ?thesis
    proof (cases "k \<in> names e")
      case True
      then show ?thesis using 2 own [of k e "decorate d h" h] others [of k d "decorate e h"] by simp
    next
      case False
      with 2 show ?thesis by (simp add: others)
    qed
  qed
qed

end

section \<open>Credentials\<close>

datatype name_error = InvalidName

text \<open>A credential holds the forwarded headers, in the order of its names; the empty list is the zero value.\<close>

type_synonym Credential = "(string \<times> string list) list"

fun FromRequest_names :: "Header \<Rightarrow> string list \<Rightarrow> Credential \<Rightarrow> Credential" where
  "FromRequest_names h [] c = c"
| "FromRequest_names h (name # names) c =
     (let key = canonical_header_key name; vs = h key in
      if vs = [] then FromRequest_names h names c
      else FromRequest_names h names (filter (\<lambda>kv. fst kv \<noteq> key) c @ [(key, vs)]))"

definition FromRequest :: "Header option \<Rightarrow> string list \<Rightarrow> Credential" where
  "FromRequest r names = (case r of None \<Rightarrow> [] | Some h \<Rightarrow> if names = [] then [] else FromRequest_names h names [])"

definition Credential_Apply :: "Credential \<Rightarrow> Header \<Rightarrow> Header" where
  "Credential_Apply c h = fold (\<lambda>(name, vs) h. fold (header_add name) vs (header_del name h)) c h"

definition reserved_credential :: "string list" where
  "reserved_credential =
     [''Host'', ''Content-Length'', ''Content-Type'', ''Transfer-Encoding'', ''Connection'', ''Accept'', ''Mcp-Session-Id'',
      ''Mcp-Protocol-Version'', ''Last-Event-Id'', ''Traceparent'', ''Tracestate'']"

fun credential_names :: "string list \<Rightarrow> string list \<Rightarrow> name_error + string list" where
  "credential_names seen [] = Inr []"
| "credential_names seen (part # parts) =
     (let p = trim_chars [CHR '' '', CHR 0x09] part; name = canonical_header_key p in
      if \<not> is_token p \<or> name \<in> set reserved_credential \<or> name \<in> set seen then Inl InvalidName
      else and_then (credential_names (name # seen) parts) (\<lambda>ns. Inr (name # ns)))"

definition ParseHeaderNames :: "string \<Rightarrow> name_error + string list" where
  "ParseHeaderNames value =
     (if trim_space value = [] then Inr [] else credential_names [] (split_on (CHR '','') value))"

lemma fold_header_add:
  "fold (header_add name) vs h = h(canonical_header_key name := h (canonical_header_key name) @ vs)"
  by (induction vs arbitrary: h) (auto simp: header_add_def)

lemma apply_one: "fold (header_add name) vs (header_del name h) = h(canonical_header_key name := vs)"
  by (simp add: fold_header_add header_del_def)

lemma Credential_Apply_value:
  "Credential_Apply c h k =
     (case map_of (rev (map (\<lambda>(n, vs). (canonical_header_key n, vs)) c)) k of None \<Rightarrow> h k | Some vs \<Rightarrow> vs)"
proof (induction c arbitrary: h)
  case (Cons nv c)
  obtain n vs where nv: "nv = (n, vs)" by (cases nv)
  have "Credential_Apply (nv # c) h = Credential_Apply c (h(canonical_header_key n := vs))"
    by (simp add: Credential_Apply_def nv apply_one)
  with Cons show ?case by (auto simp: nv map_add_def split: option.splits)
qed (simp add: Credential_Apply_def)

definition credential_keys :: "Credential \<Rightarrow> string set" where
  "credential_keys c = (canonical_header_key \<circ> fst) ` set c"

lemma map_of_None_keys:
  "map_of (rev (map (\<lambda>(n, vs). (canonical_header_key n, vs)) c)) k = None \<longleftrightarrow> k \<notin> credential_keys c"
  by (force simp: map_of_eq_None_iff credential_keys_def)

interpretation credential: decorator Credential_Apply credential_keys
proof
  fix k :: string and c :: Credential and h g :: Header
  show "k \<notin> credential_keys c \<Longrightarrow> Credential_Apply c h k = h k"
    using map_of_None_keys [of c k] by (simp add: Credential_Apply_value)
  assume "k \<in> credential_keys c"
  with map_of_None_keys [of c k] show "Credential_Apply c h k = Credential_Apply c g k"
    by (auto simp: Credential_Apply_value split: option.splits)
qed

lemma FromRequest_names_spec:
  assumes "distinct (map fst c)" "\<forall>kv \<in> set c. canonical_header_key (fst kv) = fst kv \<and> snd kv = h (fst kv) \<and> snd kv \<noteq> []"
  shows "let c' = FromRequest_names h names c in distinct (map fst c') \<and>
    (\<forall>kv \<in> set c'. canonical_header_key (fst kv) = fst kv \<and> snd kv = h (fst kv) \<and> snd kv \<noteq> []) \<and>
    fst ` set c' = fst ` set c \<union> {k \<in> canonical_header_key ` set names. h k \<noteq> []}"
  using assms
proof (induction names arbitrary: c)
  case (Cons name names)
  let ?key = "canonical_header_key name"
  let ?c = "filter (\<lambda>kv. fst kv \<noteq> ?key) c @ [(?key, h ?key)]"
  show ?case
  proof (cases "h ?key = []")
    case True
    with Cons.IH [OF Cons.prems] show ?thesis by (auto simp: Let_def)
  next
    case False
    have "distinct (map fst ?c)" using Cons.prems(1) by (auto simp: distinct_map_filter)
    moreover have "\<forall>kv \<in> set ?c. canonical_header_key (fst kv) = fst kv \<and> snd kv = h (fst kv) \<and> snd kv \<noteq> []"
      using Cons.prems(2) False by auto
    ultimately have ih: "let c' = FromRequest_names h names ?c in distinct (map fst c') \<and>
      (\<forall>kv \<in> set c'. canonical_header_key (fst kv) = fst kv \<and> snd kv = h (fst kv) \<and> snd kv \<noteq> []) \<and>
      fst ` set c' = fst ` set ?c \<union> {k \<in> canonical_header_key ` set names. h k \<noteq> []}" by (rule Cons.IH)
    have keys: "fst ` set ?c \<union> {k \<in> canonical_header_key ` set names. h k \<noteq> []} =
        fst ` set c \<union> {k \<in> canonical_header_key ` set (name # names). h k \<noteq> []}" using False by auto
    have "FromRequest_names h (name # names) c = FromRequest_names h names ?c" using False by (simp add: Let_def)
    then show ?thesis using ih unfolding keys by simp
  qed
qed (auto simp: Let_def)

text \<open>A forwarded request carries the configured headers of the inbound request and nothing else of it: the header
  of a configured name has the inbound values, every other header is the outbound request's own.\<close>

theorem forwarded_headers:
  "Credential_Apply (FromRequest (Some inbound) names) h k =
     (if k \<in> canonical_header_key ` set names \<and> inbound k \<noteq> [] then inbound k else h k)"
proof -
  let ?c = "FromRequest_names inbound names []"
  have c: "FromRequest (Some inbound) names = ?c" by (cases names) (simp_all add: FromRequest_def)
  note spec = FromRequest_names_spec [of "[]" inbound names, simplified Let_def, simplified]
  have keys: "credential_keys ?c = fst ` set ?c" using spec by (force simp: credential_keys_def)
  show ?thesis
  proof (cases "k \<in> fst ` set ?c")
    case True
    then have "map_of (rev (map (\<lambda>(n, vs). (canonical_header_key n, vs)) ?c)) k \<noteq> None"
      using map_of_None_keys [of ?c k] keys by simp
    then obtain vs where vs: "map_of (rev (map (\<lambda>(n, vs). (canonical_header_key n, vs)) ?c)) k = Some vs" by blast
    from map_of_SomeD [OF vs] have "vs = inbound k" using spec by auto
    with vs True spec c show ?thesis by (auto simp: Credential_Apply_value)
  next
    case False
    with credential.others [of k ?c h] keys spec c show ?thesis by auto
  qed
qed

lemma credential_names_ok:
  assumes "credential_names seen parts = Inr ns"
  shows "distinct ns \<and> (\<forall>n \<in> set ns. is_token n \<and> canonical_header_key n = n \<and> n \<notin> set reserved_credential \<and> n \<notin> set seen)"
  using assms
proof (induction parts arbitrary: seen ns)
  case (Cons part parts)
  let ?p = "trim_chars [CHR '' '', CHR 0x09] part"
  from Cons.prems obtain ms where ms: "credential_names (canonical_header_key ?p # seen) parts = Inr ms" "ns = canonical_header_key ?p # ms"
    and p: "is_token ?p" "canonical_header_key ?p \<notin> set reserved_credential" "canonical_header_key ?p \<notin> set seen"
    by (auto simp: Let_def and_then_Inr_iff split: if_splits)
  have "is_token (canonical_header_key ?p)"
    using p(1) tchar_canonical [of ?p True] by (simp add: is_token_def) (simp add: canonical_header_key_def)
  with Cons.IH [OF ms(1)] ms(2) p show ?case by auto
qed simp

text \<open>The configured credential headers are safe to forward: names that parse are distinct canonical tokens and none
  of them is a transport or protocol header.\<close>

theorem ParseHeaderNames_safe:
  assumes "ParseHeaderNames value = Inr ns"
  shows "distinct ns \<and> list_all (\<lambda>n. is_token n \<and> canonical_header_key n = n \<and> n \<notin> set reserved_credential) ns"
  using credential_names_ok [of "[]" "split_on (CHR '','') value" ns] assms
  by (auto simp: ParseHeaderNames_def list_all_iff split: if_splits)

theorem ParseHeaderNames_safe_witness:
  "ParseHeaderNames ''authorization, x-user'' = Inr [''Authorization'', ''X-User''] \<and> distinct [''Authorization'', ''X-User'']"
proof -
  have "ParseHeaderNames ''authorization, x-user'' = Inr [''Authorization'', ''X-User'']" by code_simp
  from ParseHeaderNames_safe [OF this] this show ?thesis by blast
qed

end
