(* ===== verification/Cost.thy ===== *)
theory Cost
  imports Headers Catalog Journal_Runs
begin

text \<open>
  The cost gate (\<open>internal/cost\<close>): admission decisions, attribution headers, the classification of limit
  rejections, and usage reports over the journal. \<open>any_ok\<close> of the catalog is the decoding of JSON into Go's \<open>any\<close>.
\<close>

section \<open>Decisions\<close>

record Attribution =
  at_Tenant :: string
  at_Principal :: string
  at_Conversation :: string
  at_Run :: string
  at_Journey :: string

datatype LimitKind = LimitUnset | LimitBudget | LimitRate

record LimitError =
  le_Kind :: LimitKind
  le_RetryAfter :: int

record Decision =
  dc_Allow :: bool
  dc_Kind :: LimitKind
  dc_RetryAfter :: int

definition Allow :: Decision where
  "Allow = \<lparr>dc_Allow = True, dc_Kind = LimitUnset, dc_RetryAfter = 0\<rparr>"

definition Deny :: "LimitKind \<Rightarrow> int \<Rightarrow> Decision" where
  "Deny kind retryAfter = \<lparr>dc_Allow = False, dc_Kind = kind, dc_RetryAfter = retryAfter\<rparr>"

definition Decision_Err :: "Decision \<Rightarrow> LimitError option" where
  "Decision_Err d =
     (if dc_Allow d then None
      else Some \<lparr>le_Kind = (if dc_Kind d = LimitUnset then LimitBudget else dc_Kind d), le_RetryAfter = dc_RetryAfter d\<rparr>)"

section \<open>Access\<close>

text \<open>The decoration: a value to set, or the empty value for a header to remove.\<close>

type_synonym Access = "(string \<times> string) list"

definition Access_Apply :: "Access \<Rightarrow> Header \<Rightarrow> Header" where
  "Access_Apply a h = fold (\<lambda>(name, v) h. if v = [] then header_del name h else header_set name v h) a h"

definition access_keys :: "Access \<Rightarrow> string set" where
  "access_keys a = (canonical_header_key \<circ> fst) ` set a"

lemma Access_Apply_value:
  "Access_Apply a h k =
     (case map_of (rev (map (\<lambda>(n, v). (canonical_header_key n, v)) a)) k of
        None \<Rightarrow> h k | Some v \<Rightarrow> if v = [] then [] else [v])"
proof (induction a arbitrary: h)
  case (Cons nv a)
  obtain n v where nv: "nv = (n, v)" by (cases nv)
  have "Access_Apply (nv # a) h = Access_Apply a (h(canonical_header_key n := (if v = [] then [] else [v])))"
    by (simp add: Access_Apply_def nv header_del_def header_set_def)
  with Cons show ?case by (auto simp: nv map_add_def split: option.splits)
qed (simp add: Access_Apply_def)

lemma access_None_keys:
  "map_of (rev (map (\<lambda>(n, v). (canonical_header_key n, v)) a)) k = None \<longleftrightarrow> k \<notin> access_keys a"
  by (force simp: map_of_eq_None_iff access_keys_def)

interpretation access: decorator Access_Apply access_keys
proof
  fix k :: string and a :: Access and h g :: Header
  show "k \<notin> access_keys a \<Longrightarrow> Access_Apply a h k = h k"
    using access_None_keys [of a k] by (simp add: Access_Apply_value)
  assume "k \<in> access_keys a"
  with access_None_keys [of a k] show "Access_Apply a h k = Access_Apply a g k"
    by (auto simp: Access_Apply_value split: option.splits)
qed

section \<open>Header names\<close>

record HeaderNames =
  hn_Tenant :: string
  hn_Principal :: string
  hn_Conversation :: string
  hn_Run :: string
  hn_Journey :: string
  hn_Profile :: string

definition no_names :: HeaderNames where
  "no_names = \<lparr>hn_Tenant = [], hn_Principal = [], hn_Conversation = [], hn_Run = [], hn_Journey = [], hn_Profile = []\<rparr>"

definition DefaultHeaderNames :: HeaderNames where
  "DefaultHeaderNames =
     \<lparr>hn_Tenant = ''X-Agent-Tenant'', hn_Principal = ''X-Agent-Principal'', hn_Conversation = ''X-Agent-Conversation'',
      hn_Run = ''X-Agent-Run'', hn_Journey = ''X-Agent-Journey'', hn_Profile = ''X-Agent-Cost-Profile''\<rparr>"

definition reserved_cost :: "string list" where
  "reserved_cost = reserved_credential @
     [''Authorization'', ''Proxy-Authorization'', ''Cookie'', ''Api-Key'', ''X-Api-Key'']"

text \<open>The six fields in the order of the code.\<close>

definition name_list :: "HeaderNames \<Rightarrow> string list" where
  "name_list n = [hn_Tenant n, hn_Principal n, hn_Conversation n, hn_Run n, hn_Journey n, hn_Profile n]"

fun normalize_list :: "string list \<Rightarrow> string list \<Rightarrow> name_error + string list" where
  "normalize_list seen [] = Inr []"
| "normalize_list seen (p # ps) =
     (if p = [] then and_then (normalize_list seen ps) (\<lambda>qs. Inr (p # qs))
      else let c = canonical_header_key p in
        if \<not> is_token p \<or> c \<in> set reserved_cost \<or> c \<in> set seen then Inl InvalidName
        else and_then (normalize_list (c # seen) ps) (\<lambda>qs. Inr (c # qs)))"

definition normalize :: "HeaderNames \<Rightarrow> name_error + HeaderNames" where
  "normalize n = and_then (normalize_list [] (name_list n)) (\<lambda>qs.
     Inr \<lparr>hn_Tenant = qs ! 0, hn_Principal = qs ! 1, hn_Conversation = qs ! 2, hn_Run = qs ! 3, hn_Journey = qs ! 4,
          hn_Profile = qs ! 5\<rparr>)"

definition set_name :: "string \<Rightarrow> string \<Rightarrow> HeaderNames \<Rightarrow> HeaderNames option" where
  "set_name key name n =
     (if key = ''tenant'' then Some (n\<lparr>hn_Tenant := name\<rparr>)
      else if key = ''principal'' then Some (n\<lparr>hn_Principal := name\<rparr>)
      else if key = ''conversation'' then Some (n\<lparr>hn_Conversation := name\<rparr>)
      else if key = ''run'' then Some (n\<lparr>hn_Run := name\<rparr>)
      else if key = ''journey'' then Some (n\<lparr>hn_Journey := name\<rparr>)
      else if key = ''profile'' then Some (n\<lparr>hn_Profile := name\<rparr>)
      else None)"

definition blanks :: string where "blanks = [CHR '' '', CHR 0x09]"

fun parse_pairs :: "string list \<Rightarrow> string list \<Rightarrow> HeaderNames \<Rightarrow> name_error + HeaderNames" where
  "parse_pairs seen [] n = Inr n"
| "parse_pairs seen (part # parts) n =
     (case cut (CHR ''='') (trim_chars blanks part) of
        None \<Rightarrow> Inl InvalidName
      | Some (k, v) \<Rightarrow>
          let key = trim_chars blanks k; name = trim_chars blanks v in
          if key \<in> set seen then Inl InvalidName
          else case set_name key name n of
            None \<Rightarrow> Inl InvalidName
          | Some m \<Rightarrow> if name = [] then Inl InvalidName else parse_pairs (key # seen) parts m)"

definition Cost_ParseHeaderNames :: "string \<Rightarrow> name_error + HeaderNames" where
  "Cost_ParseHeaderNames value =
     (if trim_space value = [] then Inr DefaultHeaderNames
      else and_then (parse_pairs [] (split_on (CHR '','') value) no_names) normalize)"

definition hasControl :: "string \<Rightarrow> bool" where
  "hasControl s = list_ex (\<lambda>c. c < CHR 0x20 \<or> c = CHR 0x7F) s"

section \<open>Gates\<close>

datatype Gate = Open | Headers HeaderNames

definition NewHeaders :: "HeaderNames \<Rightarrow> name_error + Gate" where
  "NewHeaders names = and_then (normalize names) (\<lambda>n. Inr (Headers n))"

text \<open>\<open>cost.New\<close>: the adapter for a configured kind.\<close>

definition New_gate :: "string \<Rightarrow> string \<Rightarrow> name_error + Gate" where
  "New_gate kind headerSpec =
     (if kind = [] \<or> kind = ''open'' then Inr Open
      else if kind = ''headers'' then and_then (Cost_ParseHeaderNames headerSpec) NewHeaders
      else Inl InvalidName)"

fun Gate_Admit :: "Gate \<Rightarrow> Attribution \<Rightarrow> string \<Rightarrow> Decision" where
  "Gate_Admit Open a profile = Allow"
| "Gate_Admit (Headers n) a profile = Allow"

definition access_values :: "Attribution \<Rightarrow> string \<Rightarrow> string list" where
  "access_values a profile = [at_Tenant a, at_Principal a, at_Conversation a, at_Run a, at_Journey a, profile]"

fun Gate_Access :: "Gate \<Rightarrow> Attribution \<Rightarrow> string \<Rightarrow> Access" where
  "Gate_Access Open a profile = []"
| "Gate_Access (Headers n) a profile =
     map (\<lambda>(name, v). (name, if hasControl v then [] else v))
       (filter (\<lambda>(name, v). name \<noteq> []) (zip (name_list n) (access_values a profile)))"

section \<open>Limit rejections\<close>

definition hasBudget :: "(string \<times> json) list \<Rightarrow> bool" where
  "hasBudget m = (map_of (rev m) ''code'' = Some (JStr ''budget_exceeded'') \<or> map_of (rev m) ''type'' = Some (JStr ''budget_exceeded''))"

text \<open>The last of several members with the same name counts.\<close>

definition bodySignalsBudget :: "bytes \<Rightarrow> bool" where
  "bodySignalsBudget body =
     (case parse_json body of
        Some (JObj doc) \<Rightarrow>
          any_ok (JObj doc) \<and>
          (hasBudget doc \<or> (case map_of (rev doc) ''error'' of Some (JObj inner) \<Rightarrow> hasBudget inner | _ \<Rightarrow> False))
      | _ \<Rightarrow> False)"

text \<open>Outside the development: floating-point arithmetic for \<open>retry-after-ms\<close> (the duration of a text that
  parses to a positive number of milliseconds in range) and HTTP dates.\<close>

record clocks =
  ck_ms :: "string \<Rightarrow> int option"
  ck_date :: "string \<Rightarrow> int option"

definition header_get :: "Header \<Rightarrow> string \<Rightarrow> string" where
  "header_get h k = (case h k of [] \<Rightarrow> [] | v # _ \<Rightarrow> v)"

text \<open>\<open>strconv.ParseInt(v, 10, 64)\<close>: an optional sign and decimal digits, in range.\<close>

definition ParseInt :: "string \<Rightarrow> int option" where
  "ParseInt s =
     (let ds = (if take 1 s = ''-'' \<or> take 1 s = ''+'' then drop 1 s else s);
          n = (if take 1 s = ''-'' then - int (parse_nat ds) else int (parse_nat ds))
      in if ds = [] \<or> \<not> list_all is_digit ds \<or> n < - (2 ^ 63) \<or> n \<ge> 2 ^ 63 then None else Some n)"

definition ParseRetryAfter :: "clocks \<Rightarrow> Header \<Rightarrow> int \<Rightarrow> int" where
  "ParseRetryAfter ck h now =
     (let ms = trim_space (header_get h ''Retry-After-Ms''); v = trim_space (header_get h ''Retry-After'') in
      case (if ms = [] then None else ck_ms ck ms) of
        Some d \<Rightarrow> d
      | None \<Rightarrow>
          if v = [] then 0
          else case ParseInt v of
            Some secs \<Rightarrow> if secs \<le> 0 \<or> secs > (2 ^ 63 - 1) div 1000000000 then 0 else secs * 1000000000
          | None \<Rightarrow>
              (case ck_date ck v of
                 Some t \<Rightarrow> if t - now > 0 then t - now else 0
               | None \<Rightarrow> 0))"

definition ClassifyLimit :: "clocks \<Rightarrow> int \<Rightarrow> Header \<Rightarrow> bytes \<Rightarrow> int \<Rightarrow> LimitError option" where
  "ClassifyLimit ck status h body now =
     (let budget = bodySignalsBudget body in
      if status = 400 \<and> budget then Some \<lparr>le_Kind = LimitBudget, le_RetryAfter = ParseRetryAfter ck h now\<rparr>
      else if status = 429 then
        Some \<lparr>le_Kind = (if budget then LimitBudget else LimitRate), le_RetryAfter = ParseRetryAfter ck h now\<rparr>
      else None)"

section \<open>Usage reports\<close>

record ModelUsage =
  mu_Model :: string
  mu_Calls :: int
  mu_Input :: int
  mu_Output :: int
  mu_Cached :: int

record Report =
  rp_Query :: UsageQuery
  rp_Total :: ModelUsage
  rp_Models :: "ModelUsage list"

definition model_usage :: "UsageTotal \<Rightarrow> ModelUsage" where
  "model_usage t = \<lparr>mu_Model = ut_Model t, mu_Calls = ut_Calls t, mu_Input = ut_Input t, mu_Output = ut_Output t,
     mu_Cached = ut_Cached t\<rparr>"

definition add_usage :: "ModelUsage \<Rightarrow> ModelUsage \<Rightarrow> ModelUsage" where
  "add_usage m acc = acc\<lparr>mu_Calls := mu_Calls acc + mu_Calls m, mu_Input := mu_Input acc + mu_Input m,
     mu_Output := mu_Output acc + mu_Output m, mu_Cached := mu_Cached acc + mu_Cached m\<rparr>"

definition Usage_report :: "UsageQuery \<Rightarrow> db \<Rightarrow> journal_error + Report" where
  "Usage_report q db =
     and_then (UsageTotals q db) (\<lambda>totals.
       let ms = map model_usage totals in
       Inr \<lparr>rp_Query = q,
            rp_Total = fold add_usage ms \<lparr>mu_Model = [], mu_Calls = 0, mu_Input = 0, mu_Output = 0, mu_Cached = 0\<rparr>,
            rp_Models = ms\<rparr>)"

section \<open>Attribution stays in its own headers\<close>

lemma normalize_list_ok:
  assumes "normalize_list seen ps = Inr qs"
  shows "length qs = length ps \<and> (\<forall>q \<in> set qs. q = [] \<or> is_token q \<and> canonical_header_key q = q \<and>
    q \<notin> set reserved_cost \<and> q \<notin> set seen) \<and> distinct (filter (\<lambda>q. q \<noteq> []) qs)"
  using assms
proof (induction ps arbitrary: seen qs)
  case (Cons p ps)
  show ?case
  proof (cases "p = []")
    case True
    with Cons.prems obtain rs where "normalize_list seen ps = Inr rs" "qs = p # rs" by (auto simp: and_then_Inr_iff)
    with Cons.IH True show ?thesis by auto
  next
    case False
    let ?c = "canonical_header_key p"
    from Cons.prems False obtain rs where rs: "normalize_list (?c # seen) ps = Inr rs" "qs = ?c # rs"
      and p: "is_token p" "?c \<notin> set reserved_cost" "?c \<notin> set seen"
      by (auto simp: Let_def and_then_Inr_iff split: if_splits)
    have "is_token ?c" using p(1) tchar_canonical [of p True] by (simp add: is_token_def) (simp add: canonical_header_key_def)
    with Cons.IH [OF rs(1)] rs(2) p False show ?thesis by auto
  qed
qed simp

lemma normalize_ok:
  assumes "normalize n = Inr m"
  shows "(\<forall>q \<in> set (name_list m). q = [] \<or> is_token q \<and> canonical_header_key q = q \<and> q \<notin> set reserved_cost) \<and>
    distinct (filter (\<lambda>q. q \<noteq> []) (name_list m))"
proof -
  from assms obtain qs where qs: "normalize_list [] (name_list n) = Inr qs"
    and m: "m = \<lparr>hn_Tenant = qs ! 0, hn_Principal = qs ! 1, hn_Conversation = qs ! 2, hn_Run = qs ! 3, hn_Journey = qs ! 4,
          hn_Profile = qs ! 5\<rparr>"
    by (auto simp: normalize_def and_then_Inr_iff)
  note ok = normalize_list_ok [OF qs]
  then have "length qs = 6" by (simp add: name_list_def)
  then have "name_list m = qs"
    by (auto simp: m name_list_def numeral_eq_Suc length_Suc_conv)
  with ok show ?thesis by auto
qed

lemma New_gate_names:
  assumes "New_gate kind spec = Inr (Headers n)"
  shows "(\<forall>q \<in> set (name_list n). q = [] \<or> canonical_header_key q = q \<and> q \<notin> set reserved_cost) \<and>
    distinct (filter (\<lambda>q. q \<noteq> []) (name_list n))"
  using assms normalize_ok [of _ n] by (auto simp: New_gate_def NewHeaders_def and_then_Inr_iff split: if_splits)

text \<open>Attribution cannot replace credentials or protocol headers: whatever gate is configured, decorating a request
  leaves every reserved header as it was, and a value with a control character is never sent.\<close>

theorem Gate_Access_safe:
  assumes "New_gate kind spec = Inr g" "k \<in> set reserved_cost"
  shows "Access_Apply (Gate_Access g a profile) h k = h k \<and>
    list_all (\<lambda>(name, v). \<not> hasControl v) (Gate_Access g a profile)"
proof (cases g)
  case Open
  then show ?thesis by (simp add: Access_Apply_def)
next
  case (Headers n)
  note names = New_gate_names [OF assms(1) [unfolded Headers]]
  have "k \<notin> access_keys (Gate_Access g a profile)"
  proof
    assume "k \<in> access_keys (Gate_Access g a profile)"
    then obtain q where "q \<in> set (name_list n)" "q \<noteq> []" "k = canonical_header_key q"
      by (auto simp: Headers access_keys_def dest!: set_zip_leftD)
    with names assms(2) show False by auto
  qed
  moreover have "list_all (\<lambda>(name, v). \<not> hasControl v) (Gate_Access g a profile)"
    by (auto simp: Headers list_all_iff hasControl_def)
  ultimately show ?thesis by (simp add: access.others)
qed

theorem Gate_Access_safe_witness:
  "\<exists>g. New_gate ''headers'' [] = Inr g \<and>
     Access_Apply (Gate_Access g \<lparr>at_Tenant = ''acme'', at_Principal = ''ann'', at_Conversation = ''c'', at_Run = ''r'', at_Journey = []\<rparr> ''gold'')
       (no_header(''Authorization'' := [''secret''])) ''Authorization'' = [''secret'']"
proof -
  have "isl (New_gate ''headers'' []) = False" by code_simp
  then obtain g where g: "New_gate ''headers'' [] = Inr g" by (cases "New_gate ''headers'' []") auto
  have "''Authorization'' \<in> set reserved_cost" by code_simp
  from Gate_Access_safe [OF g this, of "\<lparr>at_Tenant = ''acme'', at_Principal = ''ann'', at_Conversation = ''c'', at_Run = ''r'', at_Journey = []\<rparr>"
      "''gold''" "no_header(''Authorization'' := [''secret''])"] g show ?thesis by simp
qed

section \<open>Limits\<close>

text \<open>A limit rejection waits a bounded time: a response is a limit exactly for status 429, or 400 with a budget signal; the wait
  is never negative, and one given in seconds fits a duration of 64 bits.\<close>

theorem ClassifyLimit_spec:
  assumes "\<And>s d. ck_ms ck s = Some d \<Longrightarrow> 0 \<le> d"
  shows "(ClassifyLimit ck status h body now = None \<longleftrightarrow> \<not> (status = 429 \<or> status = 400 \<and> bodySignalsBudget body)) \<and>
    (case ClassifyLimit ck status h body now of None \<Rightarrow> True
     | Some e \<Rightarrow> 0 \<le> le_RetryAfter e \<and> le_Kind e = (if bodySignalsBudget body then LimitBudget else LimitRate)) \<and>
    (trim_space (header_get h ''Retry-After-Ms'') = [] \<and> ParseInt (trim_space (header_get h ''Retry-After'')) \<noteq> None \<longrightarrow>
       ParseRetryAfter ck h now < 2 ^ 63)"
proof -
  have pos: "0 \<le> ParseRetryAfter ck h now"
    using assms by (auto simp: ParseRetryAfter_def Let_def split: option.splits if_splits)
  have "ParseRetryAfter ck h now < 2 ^ 63"
    if ms: "trim_space (header_get h ''Retry-After-Ms'') = []" and n: "ParseInt (trim_space (header_get h ''Retry-After'')) \<noteq> None"
  proof -
    from n obtain secs where "ParseInt (trim_space (header_get h ''Retry-After'')) = Some secs" by blast
    with ms show ?thesis by (auto simp: ParseRetryAfter_def Let_def)
  qed
  with pos show ?thesis by (auto simp: ClassifyLimit_def Let_def)
qed

theorem ClassifyLimit_spec_witness:
  "ParseRetryAfter \<lparr>ck_ms = (\<lambda>_. None), ck_date = (\<lambda>_. None)\<rparr> (no_header(''Retry-After'' := [''30''])) 0 < 2 ^ 63"
proof -
  have "trim_space (header_get (no_header(''Retry-After'' := [''30''])) ''Retry-After-Ms'') = []"
    "ParseInt (trim_space (header_get (no_header(''Retry-After'' := [''30''])) ''Retry-After'')) \<noteq> None" by code_simp+
  with ClassifyLimit_spec [of "\<lparr>ck_ms = (\<lambda>_. None), ck_date = (\<lambda>_. None)\<rparr>" 429 "no_header(''Retry-After'' := [''30''])" "[]" 0]
  show ?thesis by simp
qed

section \<open>Reports\<close>

lemma fold_add_usage:
  "fold add_usage ms m = m\<lparr>mu_Calls := mu_Calls m + sum_list (map mu_Calls ms), mu_Input := mu_Input m + sum_list (map mu_Input ms),
     mu_Output := mu_Output m + sum_list (map mu_Output ms), mu_Cached := mu_Cached m + sum_list (map mu_Cached ms)\<rparr>"
  by (induction ms arbitrary: m) (simp_all add: add_usage_def)

text \<open>Grouping by model and summing the groups is summing all rows.\<close>

lemma sum_by_group:
  fixes w :: "'a \<Rightarrow> int"
  assumes "distinct ks" "g ` set xs \<subseteq> set ks"
  shows "sum_list (map (\<lambda>k. sum_list (map w (filter (\<lambda>x. g x = k) xs))) ks) = sum_list (map w xs)"
  using assms(2)
proof (induction xs)
  case (Cons x xs)
  have "sum_list (map (\<lambda>k. sum_list (map w (filter (\<lambda>y. g y = k) (x # xs)))) ks) =
      sum_list (map (\<lambda>k. (if k = g x then w x else 0) + sum_list (map w (filter (\<lambda>y. g y = k) xs))) ks)"
    by (rule arg_cong [where f = sum_list], rule map_cong) auto
  also have "\<dots> = sum_list (map (\<lambda>k. if k = g x then w x else 0) ks) + sum_list (map w xs)"
    using Cons by (simp add: sum_list_addf)
  also have "sum_list (map (\<lambda>k. if k = g x then w x else 0) ks) = w x"
    using assms(1) Cons.prems by (subst sum_list_distinct_conv_sum_set) (auto simp: sum.delta)
  finally show ?case by simp
qed simp

text \<open>A usage report adds up: for a tenant, the totals are the number of recorded calls and the sums of their tokens over all
  rows that match the query, and there is one entry per model, in the order of the names.\<close>

theorem Usage_report_totals:
  assumes "uq_Tenant q \<noteq> []" "rows = filter (usage_matches q) (usage db)"
  shows "\<exists>r. Usage_report q db = Inr r \<and> mu_Calls (rp_Total r) = int (length rows) \<and>
    mu_Input (rp_Total r) = sum_list (map us_input_tokens rows) \<and>
    mu_Output (rp_Total r) = sum_list (map us_output_tokens rows) \<and>
    mu_Cached (rp_Total r) = sum_list (map us_cached_tokens rows) \<and>
    map mu_Model (rp_Models r) = sort (remdups (map us_model rows))"
proof -
  let ?ks = "sort (remdups (map us_model rows))"
  have ks: "distinct ?ks" "us_model ` set rows \<subseteq> set ?ks" by auto
  have count: "sum_list (map (\<lambda>k. int (length (filter (\<lambda>u. us_model u = k) rows))) ?ks) = int (length rows)"
    using sum_by_group [OF ks, of "\<lambda>_. 1"] by (simp add: sum_list_triv)
  show ?thesis
    using assms count sum_by_group [OF ks, of us_input_tokens] sum_by_group [OF ks, of us_output_tokens]
      sum_by_group [OF ks, of us_cached_tokens]
    by (simp add: Usage_report_def UsageTotals_def Let_def fold_add_usage comp_def model_usage_def usage_total_def)
qed

theorem Usage_report_totals_witness:
  "\<exists>r. Usage_report \<lparr>uq_Tenant = ''acme'', uq_Principal = [], uq_Conversation = [], uq_Journey = [], uq_From = None, uq_To = None\<rparr> empty_db =
     Inr r \<and> mu_Calls (rp_Total r) = 0"
  using Usage_report_totals [of "\<lparr>uq_Tenant = ''acme'', uq_Principal = [], uq_Conversation = [], uq_Journey = [], uq_From = None, uq_To = None\<rparr>"
      _ empty_db, OF _ refl] by (auto simp: empty_db_def)

end
