(* ===== verification/Tenantdir.thy ===== *)
theory Tenantdir
  imports Prelude
begin

text \<open>
  From a tenant to an endpoint (\<open>internal/tenantdir/tenantdir.go\<close>, \<open>static.go\<close>): the directory maps a tenant to an
  endpoint identifier and the allowlist maps the identifier to a URL. A locale states what a directory promises;
  the in-memory and the static directory are instances.

  The URL parser of the standard library is a parameter: the fields the code reads of its result.
\<close>

section \<open>Directories\<close>

record Entry =
  en_ProductVersion :: string
  en_EndpointID :: string

datatype dir_error = ContextError | EmptyTenant | UnknownTenant | InjectedFailure | InvalidEntry | NotAllowlisted | NoDirectory

definition endpoint_char :: "char \<Rightarrow> bool" where
  "endpoint_char c = (is_alnum c \<or> c = CHR ''.'' \<or> c = CHR ''_'' \<or> c = CHR ''-'')"

definition ValidEndpointID :: "string \<Rightarrow> bool" where
  "ValidEndpointID i = (i \<noteq> [] \<and> length i \<le> 128 \<and> list_all endpoint_char i)"

record MutableDir =
  md_entries :: "string \<rightharpoonup> Entry"
  md_failure :: bool

definition NewMutableDir :: "(string \<times> Entry) list \<Rightarrow> MutableDir" where
  "NewMutableDir es = \<lparr>md_entries = map_of es, md_failure = False\<rparr>"

definition MutableDir_Set :: "MutableDir \<Rightarrow> string \<Rightarrow> Entry \<Rightarrow> MutableDir" where
  "MutableDir_Set m tenant e = m\<lparr>md_entries := (md_entries m)(tenant \<mapsto> e)\<rparr>"

definition MutableDir_Delete :: "MutableDir \<Rightarrow> string \<Rightarrow> MutableDir" where
  "MutableDir_Delete m tenant = m\<lparr>md_entries := (md_entries m)(tenant := None)\<rparr>"

definition MutableDir_Fail :: "MutableDir \<Rightarrow> bool \<Rightarrow> MutableDir" where
  "MutableDir_Fail m b = m\<lparr>md_failure := b\<rparr>"

definition MutableDir_Resolve :: "MutableDir \<Rightarrow> bool \<Rightarrow> string \<Rightarrow> dir_error + Entry" where
  "MutableDir_Resolve m cancelled tenant =
     (if cancelled then Inl ContextError
      else if md_failure m then Inl InjectedFailure
      else if tenant = [] then Inl EmptyTenant
      else case md_entries m tenant of
        None \<Rightarrow> Inl UnknownTenant
      | Some e \<Rightarrow> if en_ProductVersion e = [] \<or> \<not> ValidEndpointID (en_EndpointID e) then Inl InvalidEntry else Inr e)"

text \<open>The static directory after its document was decoded: validation in the order of the names.\<close>

datatype static_error = NoTenants | EmptyName | VersionRequired string | BadEndpoint string

fun static_entries :: "(string \<rightharpoonup> Entry) \<Rightarrow> string list \<Rightarrow> static_error + (string \<times> Entry) list" where
  "static_entries doc [] = Inr []"
| "static_entries doc (name # names) =
     (let e = the (doc name) in
      if name = [] then Inl EmptyName
      else if en_ProductVersion e = [] then Inl (VersionRequired name)
      else if \<not> ValidEndpointID (en_EndpointID e) then Inl (BadEndpoint name)
      else and_then (static_entries doc names) (\<lambda>es. Inr ((name, e) # es)))"

definition ParseStatic_entries :: "(string \<times> Entry) list \<Rightarrow> static_error + (string \<times> Entry) list" where
  "ParseStatic_entries doc =
     (if doc = [] then Inl NoTenants else static_entries (map_of doc) (sorted_keys doc))"

definition Static_Resolve :: "(string \<times> Entry) list \<Rightarrow> bool \<Rightarrow> string \<Rightarrow> dir_error + Entry" where
  "Static_Resolve es cancelled tenant =
     (if cancelled then Inl ContextError
      else if tenant = [] then Inl EmptyTenant
      else case map_of es tenant of None \<Rightarrow> Inl UnknownTenant | Some e \<Rightarrow> Inr e)"

section \<open>The allowlist\<close>

record ParsedURL =
  u_Abs :: bool
  u_Scheme :: string
  u_Hostname :: string
  u_User :: bool
  u_Fragment :: bool
  u_String :: string

type_synonym url_parser = "string \<Rightarrow> ParsedURL option"

datatype allow_error =
    BadID | NoParse string | NotAbsolute string | NoHost string | HasUserinfo string | HasFragment string
  | MissingEquals nat | BadItemID nat | DuplicateID string

definition normalizeURL :: "url_parser \<Rightarrow> string \<Rightarrow> string \<Rightarrow> allow_error + string" where
  "normalizeURL parse i raw =
     (if \<not> ValidEndpointID i then Inl BadID
      else case parse raw of
        None \<Rightarrow> Inl (NoParse i)
      | Some u \<Rightarrow>
          if \<not> u_Abs u \<or> u_Scheme u \<noteq> ''http'' \<and> u_Scheme u \<noteq> ''https'' then Inl (NotAbsolute i)
          else if u_Hostname u = [] then Inl (NoHost i)
          else if u_User u then Inl (HasUserinfo i)
          else if u_Fragment u \<or> CHR ''#'' \<in> set raw then Inl (HasFragment i)
          else Inr (u_String u))"

text \<open>The entries in the order the map is ranged over.\<close>

fun NewAllowlist :: "url_parser \<Rightarrow> (string \<times> string) list \<Rightarrow> allow_error + (string \<times> string) list" where
  "NewAllowlist parse [] = Inr []"
| "NewAllowlist parse ((i, raw) # es) =
     and_then (normalizeURL parse i raw) (\<lambda>u. and_then (NewAllowlist parse es) (\<lambda>us. Inr ((i, u) # us)))"

fun parse_items :: "nat \<Rightarrow> (string \<times> string) list \<Rightarrow> string list \<Rightarrow> allow_error + (string \<times> string) list" where
  "parse_items n es [] = Inr es"
| "parse_items n es (item # items) =
     (case cut (CHR ''='') (trim_space item) of
        None \<Rightarrow> Inl (MissingEquals (n + 1))
      | Some (l, r) \<Rightarrow>
          let i = trim_space l; raw = trim_space r in
          if \<not> ValidEndpointID i then Inl (BadItemID (n + 1))
          else if i \<in> fst ` set es then Inl (DuplicateID i)
          else parse_items (n + 1) (es @ [(i, raw)]) items)"

definition ParseAllowlist :: "url_parser \<Rightarrow> string \<Rightarrow> allow_error + (string \<times> string) list" where
  "ParseAllowlist parse spec =
     (if trim_space spec = [] then Inr []
      else and_then (parse_items 0 [] (split_on (CHR '','') spec)) (NewAllowlist parse))"

record Endpoint =
  ep_id :: string
  ep_url :: string

definition Endpoint_Valid :: "Endpoint \<Rightarrow> bool" where
  "Endpoint_Valid e = (ep_id e \<noteq> [] \<and> ep_url e \<noteq> [])"

definition Allowlist_Endpoint :: "(string \<times> string) list \<Rightarrow> string \<Rightarrow> dir_error + Endpoint" where
  "Allowlist_Endpoint a i =
     (case map_of a i of None \<Rightarrow> Inl NotAllowlisted | Some u \<Rightarrow> Inr \<lparr>ep_id = i, ep_url = u\<rparr>)"

definition Allowlist_IDs :: "(string \<times> string) list \<Rightarrow> string list" where
  "Allowlist_IDs a = sorted_keys a"

text \<open>\<open>Lookup\<close>, the only path from a tenant to a URL. A directory is its \<open>Resolve\<close> for the given context.\<close>

definition Lookup :: "(string \<Rightarrow> dir_error + Entry) option \<Rightarrow> (string \<times> string) list \<Rightarrow> string \<Rightarrow> dir_error + Entry \<times> Endpoint" where
  "Lookup d a tenant =
     (case d of
        None \<Rightarrow> Inl NoDirectory
      | Some resolve \<Rightarrow>
          and_then (resolve tenant) (\<lambda>e. and_then (Allowlist_Endpoint a (en_EndpointID e)) (\<lambda>ep. Inr (e, ep))))"

section \<open>What a directory promises\<close>

locale directory =
  fixes resolve :: "'d \<Rightarrow> bool \<Rightarrow> string \<Rightarrow> dir_error + Entry"
    and ready :: "'d \<Rightarrow> bool"
  assumes resolve_entry: "ready d \<Longrightarrow> resolve d cancelled tenant = Inr e \<Longrightarrow>
      tenant \<noteq> [] \<and> \<not> cancelled \<and> en_ProductVersion e \<noteq> [] \<and> ValidEndpointID (en_EndpointID e)"
begin

lemma lookup_allowlisted:
  assumes "ready d" "Lookup (Some (resolve d cancelled)) a tenant = Inr (e, ep)"
  shows "resolve d cancelled tenant = Inr e \<and> tenant \<noteq> [] \<and> en_ProductVersion e \<noteq> [] \<and>
    ep_id ep = en_EndpointID e \<and> (ep_id ep, ep_url ep) \<in> set a \<and> ValidEndpointID (ep_id ep)"
proof -
  from assms(2) have e: "resolve d cancelled tenant = Inr e" and a: "Allowlist_Endpoint a (en_EndpointID e) = Inr ep"
    by (auto simp: Lookup_def and_then_Inr_iff)
  from a have "ep_id ep = en_EndpointID e" "(ep_id ep, ep_url ep) \<in> set a"
    by (auto simp: Allowlist_Endpoint_def split: option.splits dest: map_of_SomeD)
  with e resolve_entry [OF assms(1) e] show ?thesis by simp
qed

end

interpretation mutable_dir: directory MutableDir_Resolve "\<lambda>_. True"
  by unfold_locales (auto simp: MutableDir_Resolve_def split: if_splits option.splits)

lemma static_entries_ok:
  assumes "static_entries doc names = Inr es"
  shows "(\<forall>(n, e) \<in> set es. n \<noteq> [] \<and> en_ProductVersion e \<noteq> [] \<and> ValidEndpointID (en_EndpointID e) \<and> e = the (doc n)) \<and>
    map fst es = names"
  using assms
proof (induction names arbitrary: es)
  case (Cons n names)
  then obtain fs where "static_entries doc names = Inr fs" "es = (n, the (doc n)) # fs" "n \<noteq> []"
    "en_ProductVersion (the (doc n)) \<noteq> []" "ValidEndpointID (en_EndpointID (the (doc n)))"
    by (auto simp: Let_def and_then_Inr_iff split: if_splits)
  with Cons.IH show ?case by auto
qed simp

interpretation static_dir: directory Static_Resolve "\<lambda>es. \<exists>doc. ParseStatic_entries doc = Inr es"
proof
  fix es :: "(string \<times> Entry) list" and cancelled tenant e
  assume "\<exists>doc. ParseStatic_entries doc = Inr es" "Static_Resolve es cancelled tenant = Inr e"
  then show "tenant \<noteq> [] \<and> \<not> cancelled \<and> en_ProductVersion e \<noteq> [] \<and> ValidEndpointID (en_EndpointID e)"
    by (auto simp: Static_Resolve_def ParseStatic_entries_def split: if_splits option.splits
        dest!: static_entries_ok map_of_SomeD)
qed

lemma NewAllowlist_ok:
  assumes "NewAllowlist parse es = Inr a"
  shows "map fst a = map fst es \<and>
    (\<forall>(i, url) \<in> set a. \<exists>raw u. (i, raw) \<in> set es \<and> parse raw = Some u \<and> url = u_String u \<and> ValidEndpointID i \<and> u_Abs u \<and>
      (u_Scheme u = ''http'' \<or> u_Scheme u = ''https'') \<and> u_Hostname u \<noteq> [] \<and> \<not> u_User u \<and> \<not> u_Fragment u \<and> CHR ''#'' \<notin> set raw)"
  using assms
proof (induction es arbitrary: a)
  case (Cons ir es)
  obtain i raw where ir: "ir = (i, raw)" by (cases ir)
  from Cons.prems obtain url b where b: "normalizeURL parse i raw = Inr url" "NewAllowlist parse es = Inr b" "a = (i, url) # b"
    by (auto simp: ir and_then_Inr_iff)
  from b(1) obtain u where "parse raw = Some u" "url = u_String u" "ValidEndpointID i" "u_Abs u"
      "u_Scheme u = ''http'' \<or> u_Scheme u = ''https''" "u_Hostname u \<noteq> []" "\<not> u_User u" "\<not> u_Fragment u" "CHR ''#'' \<notin> set raw"
    by (auto simp: normalizeURL_def split: if_splits option.splits)
  with Cons.IH [OF b(2)] b(3) show ?case unfolding ir by fastforce
qed simp

text \<open>C36. Only allowlisted URLs are reached: when a lookup in the static directory succeeds, the URL is the allowlist's for the tenant's
  own endpoint identifier, and it came from a configured absolute http or https URL with a host and without user information
  or fragment.\<close>

theorem Lookup_allowlisted:
  assumes "ParseStatic_entries doc = Inr es" "NewAllowlist parse urls = Inr a"
    "Lookup (Some (Static_Resolve es cancelled)) a tenant = Inr (e, ep)"
  shows "map_of es tenant = Some e \<and> ep_id ep = en_EndpointID e \<and> en_ProductVersion e \<noteq> [] \<and>
    (\<exists>raw u. (ep_id ep, raw) \<in> set urls \<and> parse raw = Some u \<and> ep_url ep = u_String u \<and> u_Abs u \<and>
       (u_Scheme u = ''http'' \<or> u_Scheme u = ''https'') \<and> u_Hostname u \<noteq> [] \<and> \<not> u_User u \<and> \<not> u_Fragment u)"
proof -
  have "\<exists>doc. ParseStatic_entries doc = Inr es" using assms(1) by blast
  note l = static_dir.lookup_allowlisted [OF this assms(3)]
  then have "map_of es tenant = Some e" by (auto simp: Static_Resolve_def split: if_splits option.splits)
  moreover from l NewAllowlist_ok [OF assms(2)] have "\<exists>raw u. (ep_id ep, raw) \<in> set urls \<and> parse raw = Some u \<and>
      ep_url ep = u_String u \<and> u_Abs u \<and> (u_Scheme u = ''http'' \<or> u_Scheme u = ''https'') \<and> u_Hostname u \<noteq> [] \<and>
      \<not> u_User u \<and> \<not> u_Fragment u" by blast
  ultimately show ?thesis using l by blast
qed

definition example_parser :: url_parser where
  "example_parser raw = Some \<lparr>u_Abs = True, u_Scheme = ''https'', u_Hostname = ''h'', u_User = False, u_Fragment = False, u_String = raw\<rparr>"

theorem Lookup_allowlisted_witness:
  "\<exists>e ep. Lookup (Some (Static_Resolve [(''acme'', \<lparr>en_ProductVersion = ''1'', en_EndpointID = ''eu''\<rparr>)] False))
     [(''eu'', ''https://h'')] ''acme'' = Inr (e, ep) \<and> ep_id ep = en_EndpointID e"
proof -
  let ?doc = "[(''acme'', \<lparr>en_ProductVersion = ''1'', en_EndpointID = ''eu''\<rparr>)]"
  have p: "ParseStatic_entries ?doc = Inr ?doc" by code_simp
  have n: "NewAllowlist example_parser [(''eu'', ''https://h'')] = Inr [(''eu'', ''https://h'')]" by code_simp
  have "\<exists>r. Lookup (Some (Static_Resolve ?doc False)) [(''eu'', ''https://h'')] ''acme'' = Inr r"
    by (simp add: Lookup_def Static_Resolve_def Allowlist_Endpoint_def)
  then obtain e ep where l: "Lookup (Some (Static_Resolve ?doc False)) [(''eu'', ''https://h'')] ''acme'' = Inr (e, ep)"
    by auto
  from Lookup_allowlisted [OF p n l] l show ?thesis by blast
qed

end
