(* ===== verification/Journeys.thy ===== *)
theory Journeys
  imports Prelude
begin

text \<open>
  \<open>internal/journeys\<close>: the least-recently-used set of active journeys of a conversation
  (\<open>journeys.go\<close>) and the composition of a round's instructions (\<open>compose.go\<close>).

  The interface the runtime relies on is the locale \<open>active_set_port\<close>: what every operation
  keeps of the set, of the limit and of the pinned journeys. Its consequences for arbitrary
  sequences of operations are proved once, in the locale, and the interpretation at the
  end of the first part discharges its laws for the code's operations.
\<close>

section \<open>The active set\<close>

datatype journeys_error = ErrInvalid | ErrRefused

record ActiveSet =
  ids :: "string list"

fun NewActiveSet_go :: "string list \<Rightarrow> string list \<Rightarrow> string list" where
  "NewActiveSet_go acc [] = acc"
| "NewActiveSet_go acc (x # xs) =
     (if x = [] \<or> x \<in> set acc then NewActiveSet_go acc xs else NewActiveSet_go (acc @ [x]) xs)"

definition NewActiveSet :: "string list \<Rightarrow> ActiveSet" where
  "NewActiveSet xs = \<lparr>ids = NewActiveSet_go [] xs\<rparr>"

definition Contains :: "ActiveSet \<Rightarrow> string \<Rightarrow> bool" where
  "Contains a x = (x \<in> set (ids a))"

definition Len :: "ActiveSet \<Rightarrow> int" where
  "Len a = int (length (ids a))"

text \<open>\<open>Remove\<close> returns the removed identifiers in set order and the new set.\<close>

definition Remove :: "string list \<Rightarrow> ActiveSet \<Rightarrow> string list \<times> ActiveSet" where
  "Remove xs a = (filter (\<lambda>x. x \<in> set xs) (ids a), a\<lparr>ids := filter (\<lambda>x. x \<notin> set xs) (ids a)\<rparr>)"

definition Touch :: "string \<Rightarrow> ActiveSet \<Rightarrow> bool \<times> ActiveSet" where
  "Touch x a = (case index_of x (ids a) of
     None \<Rightarrow> (False, a)
   | Some i \<Rightarrow> if i = length (ids a) - 1 then (False, a)
               else (True, a\<lparr>ids := delete_at i (ids a) @ [x]\<rparr>))"

fun victims_go :: "int \<Rightarrow> string list \<Rightarrow> string list \<Rightarrow> string list \<Rightarrow> string list" where
  "victims_go excess pinned vs [] = vs"
| "victims_go excess pinned vs (x # xs) =
     (if excess \<le> int (length vs) then vs
      else if x \<notin> set pinned then victims_go excess pinned (vs @ [x]) xs
      else victims_go excess pinned vs xs)"

definition victims :: "int \<Rightarrow> string list \<Rightarrow> ActiveSet \<Rightarrow> string list \<times> bool" where
  "victims mx pinned a =
     (let excess = int (length (ids a)) - mx;
          vs = victims_go excess pinned [] (ids a)
      in (vs, excess \<le> int (length vs)))"

definition Activate ::
  "string \<Rightarrow> int \<Rightarrow> string list \<Rightarrow> ActiveSet \<Rightarrow> (journeys_error + string list) \<times> ActiveSet" where
  "Activate x limit pinned a =
     (if x = [] \<or> limit < 1 then (Inl ErrInvalid, a)
      else case index_of x (ids a) of
        Some i \<Rightarrow> (Inr [], a\<lparr>ids := delete_at i (ids a) @ [x]\<rparr>)
      | None \<Rightarrow>
         (let (evicted, enough) = victims (limit - 1) pinned a
          in if \<not> enough then (Inl ErrRefused, a)
             else let a' = snd (Remove evicted a) in (Inr evicted, a'\<lparr>ids := ids a' @ [x]\<rparr>)))"

definition Fit :: "int \<Rightarrow> string list \<Rightarrow> ActiveSet \<Rightarrow> (journeys_error + string list) \<times> ActiveSet" where
  "Fit limit pinned a =
     (if limit < 1 then (Inl ErrInvalid, a)
      else let evicted = fst (victims limit pinned a) in (Inr evicted, snd (Remove evicted a)))"

subsection \<open>The representation invariant\<close>

definition active_inv :: "ActiveSet \<Rightarrow> bool" where
  "active_inv a = (distinct (ids a) \<and> [] \<notin> set (ids a))"

lemma active_inv_distinct: "active_inv a \<Longrightarrow> distinct (ids a)"
  by (simp add: active_inv_def)

lemma NewActiveSet_go_inv:
  "distinct acc \<Longrightarrow> [] \<notin> set acc \<Longrightarrow>
     distinct (NewActiveSet_go acc xs) \<and> [] \<notin> set (NewActiveSet_go acc xs)"
  by (induction acc xs rule: NewActiveSet_go.induct) auto

lemma NewActiveSet_inv [simp]: "active_inv (NewActiveSet xs)"
  using NewActiveSet_go_inv [of "[]" xs] by (simp add: NewActiveSet_def active_inv_def)

lemma NewActiveSet_go_append:
  "distinct (acc @ xs) \<Longrightarrow> [] \<notin> set xs \<Longrightarrow> NewActiveSet_go acc xs = acc @ xs"
  by (induction acc xs rule: NewActiveSet_go.induct) auto

lemma NewActiveSet_ids: "active_inv a \<Longrightarrow> ids (NewActiveSet (ids a)) = ids a"
  by (simp add: NewActiveSet_def active_inv_def NewActiveSet_go_append)

subsection \<open>Victims\<close>

text \<open>The loop takes the first unpinned identifiers, up to the excess.\<close>

lemma victims_go_take:
  assumes "int (length vs) \<le> max 0 excess"
  shows "victims_go excess pinned vs xs =
    vs @ take (nat (excess - int (length vs))) (filter (\<lambda>x. x \<notin> set pinned) xs)"
  using assms
proof (induction excess pinned vs xs rule: victims_go.induct)
  case (2 excess pinned vs x xs)
  show ?case
  proof (cases "excess \<le> int (length vs)")
    case True
    then show ?thesis by simp
  next
    case False
    then have "nat (excess - int (length vs)) = Suc (nat (excess - int (length (vs @ [x]))))"
      by (simp add: Suc_nat_eq_nat_zadd1)
    with 2 False show ?thesis by simp
  qed
qed simp

definition unpinned :: "string list \<Rightarrow> ActiveSet \<Rightarrow> string list" where
  "unpinned pinned a = filter (\<lambda>x. x \<notin> set pinned) (ids a)"

definition pinned_active :: "string list \<Rightarrow> ActiveSet \<Rightarrow> string list" where
  "pinned_active pinned a = filter (\<lambda>x. x \<in> set pinned) (ids a)"

lemma length_partition:
  "length (ids a) = length (unpinned pinned a) + length (pinned_active pinned a)"
  using sum_length_filter_compl [of "\<lambda>x. x \<in> set pinned" "ids a"]
  by (simp add: unpinned_def pinned_active_def)

lemma victims_eq:
  "victims mx pinned a =
     (let n = nat (int (length (ids a)) - mx)
      in (take n (unpinned pinned a), n \<le> length (unpinned pinned a)))"
  by (auto simp: victims_def Let_def victims_go_take unpinned_def min_def)

lemma set_take_filter_subset: "set (take n (filter P xs)) \<subseteq> {x \<in> set xs. P x}"
  using set_take_subset [of n "filter P xs"] by auto

lemma length_filter_notin:
  assumes "distinct xs" "distinct ys" "set ys \<subseteq> set xs"
  shows "length (filter (\<lambda>x. x \<notin> set ys) xs) = length xs - length ys"
proof -
  have "length (filter (\<lambda>x. x \<in> set ys) xs) = length ys"
    using assms distinct_card [of ys] distinct_card [of "filter (\<lambda>x. x \<in> set ys) xs"]
    by (simp add: Int_absorb1 flip: Int_def)
  then show ?thesis
    using sum_length_filter_compl [of "\<lambda>x. x \<in> set ys" xs] by simp
qed

lemma length_Remove_victims:
  assumes "active_inv a"
  shows "length (ids (snd (Remove (take n (unpinned pinned a)) a))) =
    length (ids a) - min n (length (unpinned pinned a))"
proof -
  have "set (take n (unpinned pinned a)) \<subseteq> set (ids a)"
    using set_take_filter_subset by (fastforce simp: unpinned_def)
  moreover have "distinct (take n (unpinned pinned a))"
    using assms by (simp add: active_inv_def unpinned_def)
  ultimately show ?thesis
    using assms length_filter_notin [of "ids a" "take n (unpinned pinned a)"]
    by (simp add: Remove_def active_inv_def min.commute)
qed

subsection \<open>Behaviour of the operations\<close>

lemma Touch_ids:
  assumes "active_inv a"
  shows "ids (snd (Touch x a)) =
    (if x \<in> set (ids a) then filter (\<lambda>y. y \<noteq> x) (ids a) @ [x] else ids a)"
proof (cases "index_of x (ids a)")
  case None
  then show ?thesis by (simp add: Touch_def index_of_None)
next
  case (Some i)
  then have i: "i < length (ids a)" "ids a ! i = x" and x: "x \<in> set (ids a)"
    using index_of_Some [OF Some] by auto
  have del: "delete_at i (ids a) = filter (\<lambda>y. y \<noteq> x) (ids a)"
    using assms Some by (simp add: active_inv_def delete_at_distinct)
  have "delete_at i (ids a) @ [x] = ids a" if "i = length (ids a) - 1"
    using that i take_Suc_conv_app_nth [of i "ids a"] by (simp add: delete_at_def)
  with del Some x show ?thesis by (auto simp: Touch_def)
qed

lemma Touch_unchanged: "\<not> fst (Touch x a) \<Longrightarrow> snd (Touch x a) = a"
  by (auto simp: Touch_def split: option.splits)

lemma Activate_active:
  assumes "active_inv a" "x \<in> set (ids a)" "x \<noteq> []" "1 \<le> limit"
  shows "Activate x limit pinned a = (Inr [], a\<lparr>ids := filter (\<lambda>y. y \<noteq> x) (ids a) @ [x]\<rparr>)"
proof -
  obtain i where "index_of x (ids a) = Some i"
    using assms(2) by (cases "index_of x (ids a)") (auto simp: index_of_None)
  with assms show ?thesis by (simp add: Activate_def active_inv_def delete_at_distinct)
qed

lemma Activate_inactive:
  assumes "x \<notin> set (ids a)" "x \<noteq> []" "1 \<le> limit"
  shows "Activate x limit pinned a =
    (let n = nat (int (length (ids a)) + 1 - limit); ev = take n (unpinned pinned a)
     in if length (unpinned pinned a) < n then (Inl ErrRefused, a)
        else (Inr ev, a\<lparr>ids := filter (\<lambda>y. y \<notin> set ev) (ids a) @ [x]\<rparr>))"
proof -
  have "index_of x (ids a) = None" using assms(1) by simp
  with assms(2,3) show ?thesis
    by (simp add: Activate_def victims_eq Remove_def Let_def not_less algebra_simps)
qed

lemma Fit_eq:
  assumes "1 \<le> limit"
  shows "Fit limit pinned a =
    (let ev = take (nat (int (length (ids a)) - limit)) (unpinned pinned a)
     in (Inr ev, a\<lparr>ids := filter (\<lambda>y. y \<notin> set ev) (ids a)\<rparr>))"
  using assms by (simp add: Fit_def victims_eq Remove_def Let_def)

lemma Activate_error_unchanged: "Activate x limit pinned a = (Inl e, a') \<Longrightarrow> a' = a"
  by (auto simp: Activate_def Let_def split: if_splits option.splits prod.splits)

lemma Activate_inv: "active_inv a \<Longrightarrow> active_inv (snd (Activate x limit pinned a))"
proof (cases "x = [] \<or> limit < 1")
  case False
  assume "active_inv a"
  with False show ?thesis
    by (cases "x \<in> set (ids a)")
      (auto simp: Activate_active Activate_inactive active_inv_def Let_def)
qed (simp add: Activate_def)

lemma Fit_inv: "active_inv a \<Longrightarrow> active_inv (snd (Fit limit pinned a))"
  by (auto simp: Fit_def Remove_def active_inv_def Let_def)

lemma Touch_inv: "active_inv a \<Longrightarrow> active_inv (snd (Touch x a))"
  by (subst active_inv_def) (auto simp: Touch_ids active_inv_def)

lemma Remove_inv: "active_inv a \<Longrightarrow> active_inv (snd (Remove xs a))"
  by (simp add: Remove_def active_inv_def)

lemma victims_unpinned: "v \<in> set (take n (unpinned pinned a)) \<Longrightarrow> v \<notin> set pinned"
  using set_take_filter_subset by (fastforce simp: unpinned_def)

lemma Activate_pinned_kept:
  assumes "y \<in> set pinned" "y \<in> set (ids a)"
  shows "y \<in> set (ids (snd (Activate x limit pinned a)))"
proof (cases "x = [] \<or> limit < 1 \<or> x \<in> set (ids a)")
  case True
  then consider "x = [] \<or> limit < 1"
    | i where "index_of x (ids a) = Some i" "\<not> (x = [] \<or> limit < 1)"
    by (cases "index_of x (ids a)") (auto simp: index_of_None)
  then show ?thesis
  proof cases
    case 2
    then have "set (ids a) \<subseteq> insert x (set (delete_at i (ids a)))"
      using index_of_Some [OF 2(1)] id_take_nth_drop [of i "ids a"]
      by (metis delete_at_def list.simps(15) set_append sup_assoc sup_commute insert_is_Un subset_refl)
    with 2 assms show ?thesis by (auto simp: Activate_def)
  qed (use assms in \<open>simp add: Activate_def\<close>)
next
  case False
  with assms show ?thesis
    by (auto simp: Activate_inactive Let_def dest: victims_unpinned)
qed

lemma Fit_pinned_kept:
  assumes "y \<in> set pinned" "y \<in> set (ids a)"
  shows "y \<in> set (ids (snd (Fit limit pinned a)))"
  using assms by (auto simp: Fit_def victims_eq Remove_def Let_def dest: victims_unpinned)

lemma Activate_length:
  assumes "active_inv a" "Activate x limit pinned a = (Inr ev, a')"
  shows "int (length (ids a')) \<le> max limit (int (length (ids a)))"
    and "x \<notin> set (ids a) \<Longrightarrow> int (length (ids a')) \<le> limit"
proof -
  have ok: "x \<noteq> []" "1 \<le> limit"
    using assms(2) by (auto simp: Activate_def split: if_splits)
  show new: "int (length (ids a')) \<le> limit" if "x \<notin> set (ids a)"
  proof -
    define n where "n = nat (int (length (ids a)) + 1 - limit)"
    have n: "n \<le> length (unpinned pinned a)"
      and a': "ids a' = filter (\<lambda>y. y \<notin> set (take n (unpinned pinned a))) (ids a) @ [x]"
      using assms(2) ok that
      by (auto simp: Activate_inactive n_def Let_def split: if_splits)
    have "length (ids a') = Suc (length (ids a) - n)"
      using length_Remove_victims [OF assms(1), of n pinned] n a' by (simp add: Remove_def)
    moreover have "n \<le> length (ids a)"
      using n length_partition [of a pinned] by simp
    ultimately show ?thesis using ok by (simp add: n_def)
  qed
  show "int (length (ids a')) \<le> max limit (int (length (ids a)))"
  proof (cases "x \<in> set (ids a)")
    case True
    then have "length (ids a') = Suc (length (filter (\<lambda>y. y \<noteq> x) (ids a)))"
      using assms ok by (auto simp: Activate_active)
    moreover have "length (filter (\<lambda>y. y \<noteq> x) (ids a)) < length (ids a)"
      using True by (intro length_filter_less) auto
    ultimately show ?thesis by simp
  qed (use new in simp)
qed

lemma Activate_ids:
  assumes "active_inv a" "Activate x limit pinned a = (Inr ev, a')"
  shows "ids a' = filter (\<lambda>y. y \<notin> set ev \<and> y \<noteq> x) (ids a) @ [x]"
proof -
  have ok: "x \<noteq> []" "1 \<le> limit"
    using assms(2) by (auto simp: Activate_def split: if_splits)
  show ?thesis
  proof (cases "x \<in> set (ids a)")
    case True
    with assms ok show ?thesis by (auto simp: Activate_active)
  next
    case False
    with assms(2) ok have "ids a' = filter (\<lambda>y. y \<notin> set ev) (ids a) @ [x]"
      by (auto simp: Activate_inactive Let_def split: if_splits)
    also have "filter (\<lambda>y. y \<notin> set ev) (ids a) = filter (\<lambda>y. y \<notin> set ev \<and> y \<noteq> x) (ids a)"
      using False by (intro filter_cong) auto
    finally show ?thesis .
  qed
qed

lemma Fit_length:
  assumes "active_inv a" "1 \<le> limit"
  shows "int (length (ids (snd (Fit limit pinned a)))) \<le>
    max limit (int (length (pinned_active pinned a)))"
  using length_Remove_victims [OF assms(1), of "nat (int (length (ids a)) - limit)" pinned]
    length_partition [of a pinned] assms(2)
  by (auto simp: Fit_def victims_eq Let_def min_def max_def split: if_splits)

lemma Fit_length_mono: "length (ids (snd (Fit limit pinned a))) \<le> length (ids a)"
  by (simp add: Fit_def Remove_def Let_def)

subsection \<open>The interface the runtime uses\<close>

text \<open>One use of the set by a run, and the state after it.\<close>

datatype journey_use = UseTouch string | UseActivate string | UseFit

fun use_step ::
  "(string \<Rightarrow> 's \<Rightarrow> bool \<times> 's) \<Rightarrow>
   (string \<Rightarrow> int \<Rightarrow> string list \<Rightarrow> 's \<Rightarrow> ('e + string list) \<times> 's) \<Rightarrow>
   (int \<Rightarrow> string list \<Rightarrow> 's \<Rightarrow> ('e + string list) \<times> 's) \<Rightarrow>
   int \<Rightarrow> string list \<Rightarrow> journey_use \<Rightarrow> 's \<Rightarrow> 's" where
  "use_step touch activate fit limit pinned (UseTouch x) s = snd (touch x s)"
| "use_step touch activate fit limit pinned (UseActivate x) s = snd (activate x limit pinned s)"
| "use_step touch activate fit limit pinned UseFit s = snd (fit limit pinned s)"

locale active_set_port =
  fixes order :: "'s \<Rightarrow> string list"
    and invar :: "'s \<Rightarrow> bool"
    and touch :: "string \<Rightarrow> 's \<Rightarrow> bool \<times> 's"
    and activate :: "string \<Rightarrow> int \<Rightarrow> string list \<Rightarrow> 's \<Rightarrow> ('e + string list) \<times> 's"
    and fit :: "int \<Rightarrow> string list \<Rightarrow> 's \<Rightarrow> ('e + string list) \<times> 's"
  assumes invar_distinct: "invar s \<Longrightarrow> distinct (order s)"
    and invar_touch: "invar s \<Longrightarrow> invar (snd (touch x s))"
    and invar_activate: "invar s \<Longrightarrow> invar (snd (activate x limit pinned s))"
    and invar_fit: "invar s \<Longrightarrow> invar (snd (fit limit pinned s))"
    and set_touch: "invar s \<Longrightarrow> set (order (snd (touch x s))) = set (order s)"
    and activate_fails: "invar s \<Longrightarrow> activate x limit pinned s = (Inl e, s') \<Longrightarrow> s' = s"
    and activate_bound: "invar s \<Longrightarrow> activate x limit pinned s = (Inr ev, s') \<Longrightarrow>
          int (length (order s')) \<le> max limit (int (length (order s)))"
    and fit_bound: "invar s \<Longrightarrow> length (order (snd (fit limit pinned s))) \<le> length (order s)"
    and activate_pinned: "invar s \<Longrightarrow> y \<in> set pinned \<Longrightarrow> y \<in> set (order s) \<Longrightarrow>
          y \<in> set (order (snd (activate x limit pinned s)))"
    and fit_pinned: "invar s \<Longrightarrow> y \<in> set pinned \<Longrightarrow> y \<in> set (order s) \<Longrightarrow>
          y \<in> set (order (snd (fit limit pinned s)))"
begin

lemma use_invar: "invar s \<Longrightarrow> invar (use_step touch activate fit limit pinned u s)"
  by (cases u) (auto simp: invar_touch invar_activate invar_fit)

lemma touch_length: "invar s \<Longrightarrow> length (order (snd (touch x s))) = length (order s)"
  by (metis distinct_card invar_distinct invar_touch set_touch)

lemma use_bound:
  assumes "invar s"
  shows "int (length (order (use_step touch activate fit limit pinned u s))) \<le>
    max limit (int (length (order s)))"
proof (cases u)
  case (UseActivate x)
  show ?thesis
  proof (cases "activate x limit pinned s")
    case (Pair r s')
    with assms UseActivate show ?thesis
      by (cases r) (auto dest: activate_fails activate_bound)
  qed
next
  case UseFit
  with assms show ?thesis using fit_bound [of s limit pinned] by auto
qed (use assms in \<open>simp add: touch_length\<close>)

lemma use_pinned:
  "invar s \<Longrightarrow> y \<in> set pinned \<Longrightarrow> y \<in> set (order s) \<Longrightarrow>
     y \<in> set (order (use_step touch activate fit limit pinned u s))"
  by (cases u) (auto simp: set_touch activate_pinned fit_pinned)

text \<open>A pinned journey survives any sequence of uses, and the set never outgrows the limit.\<close>

lemma uses_safe:
  assumes "invar s"
  shows "invar (fold (use_step touch activate fit limit pinned) us s)"
    and "set pinned \<inter> set (order s) \<subseteq>
           set (order (fold (use_step touch activate fit limit pinned) us s))"
    and "int (length (order (fold (use_step touch activate fit limit pinned) us s))) \<le>
           max limit (int (length (order s)))"
  using assms
proof (induction us arbitrary: s)
  case (Cons u us)
  case 1
  then show ?case using Cons.IH(1) use_invar by simp
next
  case (Cons u us)
  case 2
  then show ?case using Cons.IH(2) [OF use_invar] use_pinned by fastforce
next
  case (Cons u us)
  case 3
  then show ?case using Cons.IH(3) [OF use_invar, of s limit pinned u] use_bound [of s limit pinned u]
    by simp
qed auto

end

interpretation aset: active_set_port ids active_inv Touch Activate Fit
proof
  show "length (ids (snd (Fit limit pinned s))) \<le> length (ids s)" for limit pinned s
    by (rule Fit_length_mono)
qed (auto simp: Touch_ids Touch_inv Activate_inv Fit_inv Activate_pinned_kept Fit_pinned_kept
      Activate_length active_inv_distinct dest: Activate_error_unchanged)

subsection \<open>Properties\<close>

text \<open>Activation. With a non-empty identifier and a positive limit, \<open>Activate\<close> either refuses,
  leaving the set as it was, which happens exactly when the journey is not active and at
  least \<open>limit\<close> active journeys are pinned; or it makes the journey the most recently used
  one, keeps the other journeys in their order, evicts no pinned journey, evicts nothing for
  an already active journey, and stays within the limit for a new one.\<close>

theorem Activate_spec:
  assumes "active_inv a" "x \<noteq> []" "1 \<le> limit"
  shows "case Activate x limit pinned a of
      (Inl e, a') \<Rightarrow> e = ErrRefused \<and> a' = a \<and> x \<notin> set (ids a) \<and>
        limit \<le> int (length (pinned_active pinned a))
    | (Inr ev, a') \<Rightarrow> ids a' = filter (\<lambda>y. y \<notin> set ev \<and> y \<noteq> x) (ids a) @ [x] \<and>
        set ev \<subseteq> set (ids a) - set pinned \<and> active_inv a' \<and>
        (if x \<in> set (ids a) then ev = []
         else int (length (ids a')) \<le> limit \<and> int (length (pinned_active pinned a)) < limit)"
proof (cases "x \<in> set (ids a)")
  case True
  with assms show ?thesis
    using Activate_inv [OF assms(1), of x limit pinned] by (auto simp: Activate_active)
next
  case False
  define n where "n = nat (int (length (ids a)) + 1 - limit)"
  have p: "length (unpinned pinned a) < n \<longleftrightarrow> limit \<le> int (length (pinned_active pinned a))"
    using length_partition [of a pinned] by (auto simp: n_def)
  have ev: "set (take n (unpinned pinned a)) \<subseteq> set (ids a) - set pinned"
    using set_take_filter_subset by (fastforce simp: unpinned_def)
  show ?thesis
  proof (cases "length (unpinned pinned a) < n")
    case True
    with False assms p show ?thesis by (simp add: Activate_inactive n_def Let_def)
  next
    case ok: False
    define a' where "a' = a\<lparr>ids := filter (\<lambda>y. y \<notin> set (take n (unpinned pinned a))) (ids a) @ [x]\<rparr>"
    have eq: "Activate x limit pinned a = (Inr (take n (unpinned pinned a)), a')"
      using False assms ok by (simp add: Activate_inactive n_def Let_def a'_def)
    with False ok p ev Activate_ids [OF assms(1) eq] Activate_length(2) [OF assms(1) eq False]
      Activate_inv [OF assms(1), of x limit pinned]
    show ?thesis by (auto simp: a'_def)
  qed
qed

theorem Activate_spec_witness:
  "case Activate ''c'' 2 [''a''] \<lparr>ids = [''a'', ''b'']\<rparr> of
      (Inl e, a') \<Rightarrow> False
    | (Inr ev, a') \<Rightarrow> ids a' = [''a'', ''c''] \<and> ev = [''b'']"
proof -
  have h: "active_inv \<lparr>ids = [''a'', ''b'']\<rparr>" "''c'' \<noteq> []" "1 \<le> (2::int)"
    by (simp_all add: active_inv_def)
  have "Activate ''c'' 2 [''a''] \<lparr>ids = [''a'', ''b'']\<rparr> =
      (Inr [''b''], \<lparr>ids = [''a'', ''c'']\<rparr>)"
    by (simp add: Activate_def victims_def Remove_def Let_def)
  with Activate_spec [OF h, of "[''a'']"] show ?thesis by simp
qed

text \<open>Recency: \<open>used\<close> gives the time of the last use, and the list is in increasing order of it.\<close>

definition recency_ordered :: "(string \<Rightarrow> nat) \<Rightarrow> string list \<Rightarrow> bool" where
  "recency_ordered used xs = sorted_wrt (\<lambda>x y. used x < used y) xs"

lemma recency_filter: "recency_ordered used xs \<Longrightarrow> recency_ordered used (filter P xs)"
  by (simp add: recency_ordered_def sorted_wrt_filter)

lemma recency_append_new:
  assumes "recency_ordered used xs" "x \<notin> set xs" "\<forall>y \<in> set xs. used y < t"
  shows "recency_ordered (used(x := t)) (xs @ [x])"
proof -
  have "sorted_wrt (\<lambda>y z. (used(x := t)) y < (used(x := t)) z) xs"
    using assms(1,2) by (intro sorted_wrt_mono_rel [OF _ assms(1) [unfolded recency_ordered_def]]) auto
  with assms show ?thesis by (auto simp: recency_ordered_def sorted_wrt_append)
qed

lemma take_filter_before:
  assumes "recency_ordered used xs" "v \<in> set (take n (filter P xs))"
    "k \<in> set xs" "P k" "k \<notin> set (take n (filter P xs))"
  shows "used v < used k"
proof -
  let ?ys = "filter P xs"
  have "k \<in> set (take n ?ys @ drop n ?ys)" using assms(3,4) by simp
  then have "k \<in> set (drop n ?ys)" using assms(5) by (simp only: set_append) blast
  moreover have "sorted_wrt (\<lambda>x y. used x < used y) (take n ?ys @ drop n ?ys)"
    using recency_filter [OF assms(1)] by (simp add: recency_ordered_def)
  ultimately show ?thesis using assms(2) unfolding sorted_wrt_append by blast
qed

text \<open>True LRU. If the set is ordered by time of last use, then after a successful activation
  at a later time it is again ordered by time of last use, and every evicted journey was used
  earlier than every unpinned journey that stays.\<close>

theorem Activate_evicts_lru:
  assumes "active_inv a" "recency_ordered used (ids a)" "\<forall>y \<in> set (ids a). used y < t"
    and "Activate x limit pinned a = (Inr ev, a')"
  shows "recency_ordered (used(x := t)) (ids a') \<and>
    (\<forall>v \<in> set ev. \<forall>k \<in> set (ids a'). k \<noteq> x \<longrightarrow> k \<notin> set pinned \<longrightarrow> used v < used k)"
proof
  have ok: "x \<noteq> []" "1 \<le> limit"
    using assms(4) by (auto simp: Activate_def split: if_splits)
  note ids = Activate_ids [OF assms(1,4)]
  show "recency_ordered (used(x := t)) (ids a')"
    unfolding ids using assms(2,3) by (intro recency_append_new recency_filter) auto
  show "\<forall>v \<in> set ev. \<forall>k \<in> set (ids a'). k \<noteq> x \<longrightarrow> k \<notin> set pinned \<longrightarrow> used v < used k"
  proof (cases "x \<in> set (ids a)")
    case True
    with assms ok show ?thesis by (auto simp: Activate_active)
  next
    case False
    then obtain n where "ev = take n (unpinned pinned a)"
      using assms(4) ok by (auto simp: Activate_inactive Let_def split: if_splits)
    then show ?thesis
      using ids assms(2) take_filter_before [of used "ids a" _ n "\<lambda>x. x \<notin> set pinned"]
      by (auto simp: unpinned_def)
  qed
qed

theorem Activate_evicts_lru_witness:
  "recency_ordered ((\<lambda>s. if s = ''a'' then 1 else if s = ''b'' then 2 else 0)(''c'' := 3)) [''b'', ''c'']"
proof -
  let ?used = "\<lambda>s. if s = ''a'' then 1 else if s = ''b'' then 2 else (0::nat)"
  have h: "active_inv \<lparr>ids = [''a'', ''b'']\<rparr>"
    "recency_ordered ?used (ids \<lparr>ids = [''a'', ''b'']\<rparr>)"
    "\<forall>y \<in> set (ids \<lparr>ids = [''a'', ''b'']\<rparr>). ?used y < 3"
    "Activate ''c'' 2 [] \<lparr>ids = [''a'', ''b'']\<rparr> = (Inr [''a''], \<lparr>ids = [''b'', ''c'']\<rparr>)"
    by (simp_all add: active_inv_def recency_ordered_def Activate_def victims_def Remove_def Let_def)
  from Activate_evicts_lru [OF h] show ?thesis by simp
qed

text \<open>Any sequence of touches, activations and fits under one limit and one set of pinned journeys
  keeps every pinned active journey active, keeps the identifiers distinct and non-empty, and
  never lets the set grow beyond the larger of the limit and its initial size.\<close>

theorem active_set_uses_safe:
  assumes "active_inv a"
  shows "let a' = fold (use_step Touch Activate Fit limit pinned) us a in
    active_inv a' \<and> set pinned \<inter> set (ids a) \<subseteq> set (ids a') \<and>
    int (length (ids a')) \<le> max limit (int (length (ids a)))"
  unfolding Let_def using aset.uses_safe [OF assms] by blast

theorem active_set_uses_safe_witness:
  "let a' = fold (use_step Touch Activate Fit 2 [''a''])
      [UseTouch ''a'', UseActivate ''c'', UseFit] \<lparr>ids = [''a'', ''b'']\<rparr>
   in ''a'' \<in> set (ids a')"
proof -
  have "active_inv \<lparr>ids = [''a'', ''b'']\<rparr>" by (simp add: active_inv_def)
  from active_set_uses_safe [OF this, of 2 "[''a'']" "[UseTouch ''a'', UseActivate ''c'', UseFit]"]
  show ?thesis by (auto simp: Let_def)
qed

text \<open>Lowering the limit. \<open>Fit\<close> with a positive limit always succeeds, keeps the order of what
  remains, never evicts a pinned journey, and leaves at most \<open>limit\<close> journeys unless more than
  that many are pinned; then exactly the pinned ones can remain above the limit.\<close>

theorem Fit_spec:
  assumes "active_inv a" "1 \<le> limit"
  shows "\<exists>ev a'. Fit limit pinned a = (Inr ev, a') \<and>
    ids a' = filter (\<lambda>y. y \<notin> set ev) (ids a) \<and> set ev \<inter> set pinned = {} \<and>
    int (length (ids a')) \<le> max limit (int (length (pinned_active pinned a))) \<and>
    (int (length (ids a)) \<le> limit \<longrightarrow> ev = [])"
  using assms Fit_length [OF assms, of pinned]
  by (auto simp: Fit_eq Let_def dest: victims_unpinned)

theorem Fit_spec_witness:
  "\<exists>ev a'. Fit 1 [''b''] \<lparr>ids = [''a'', ''b'', ''c'']\<rparr> = (Inr ev, a') \<and> int (length (ids a')) \<le> 1"
proof -
  have h: "active_inv \<lparr>ids = [''a'', ''b'', ''c'']\<rparr>" "1 \<le> (1::int)"
    by (simp_all add: active_inv_def)
  from Fit_spec [OF h, of "[''b'']"] show ?thesis by (auto simp: pinned_active_def)
qed

section \<open>Composition of the instructions\<close>

record Metadata =
  md_ID :: string
  md_Description :: string

record Instructions =
  in_ID :: string
  in_Body :: string

definition nl :: char where "nl = CHR 10"

definition available_section :: "Metadata list \<Rightarrow> string" where
  "available_section ms =
     ''## Available journeys'' @ [nl] @
     ''Call activate_journey with a journey ID before using that journey'' @ [CHR 39] @ ''s tools.'' @
     concat (map (\<lambda>m. [nl] @ ''- '' @ md_ID m @ '': '' @ md_Description m) ms)"

definition active_section :: "Instructions \<Rightarrow> string" where
  "active_section i =
     (let body = trim_space (in_Body i)
      in ''## Active journey: '' @ in_ID i @ (if body \<noteq> [] then [nl] @ body else []))"

definition Compose :: "string \<Rightarrow> Metadata list \<Rightarrow> Instructions list \<Rightarrow> string" where
  "Compose base available active =
     (let b = trim_space base
      in join [nl, nl]
           ((if b \<noteq> [] then [b] else []) @
            (if available \<noteq> [] then [available_section available] else []) @
            map active_section active))"

lemma nl_in_space_seqs: "[nl] \<in> set space_seqs"
  by (simp add: space_seqs_def nl_def)

lemma trim_space_last: "trim_space s \<noteq> [] \<Longrightarrow> last (trim_space s) \<noteq> nl"
proof
  assume ne: "trim_space s \<noteq> []" and "last (trim_space s) = nl"
  then have "prefix [nl] (rev (trim_space s))"
    by (cases "trim_space s" rule: rev_cases) auto
  moreover have "[nl] \<in> set (map rev space_seqs)"
    using nl_in_space_seqs by force
  ultimately show False
    using trim_left_stops [of "[nl]" "map rev space_seqs"]
    by (simp add: trim_space_def trim_def trim_right_def)
qed

lemma join_not_Nil: "ps \<noteq> [] \<Longrightarrow> last ps \<noteq> [] \<Longrightarrow> join sep ps \<noteq> []"
  by (induction sep ps rule: join.induct) auto

lemma last_join: "ps \<noteq> [] \<Longrightarrow> last ps \<noteq> [] \<Longrightarrow> last (join sep ps) = last (last ps)"
proof (induction sep ps rule: join.induct)
  case (3 sep x y ys)
  then have "join sep (y # ys) \<noteq> []"
    using join_not_Nil [of "y # ys" sep] by simp
  with 3 show ?case by simp
qed auto

text \<open>The instructions never end in a newline, provided no journey identifier and no description
  does (identifiers hold no white space and descriptions are trimmed when definitions are
  compiled).\<close>

theorem Compose_no_trailing_newline:
  assumes "\<forall>m \<in> set available. md_Description m \<noteq> [] \<and> last (md_Description m) \<noteq> nl"
    and "\<forall>i \<in> set active. in_ID i \<noteq> [] \<and> last (in_ID i) \<noteq> nl"
  shows "Compose base available active = [] \<or> last (Compose base available active) \<noteq> nl"
proof -
  define ps where "ps = (if trim_space base \<noteq> [] then [trim_space base] else []) @
    (if available \<noteq> [] then [available_section available] else []) @ map active_section active"
  have act: "active_section i \<noteq> [] \<and> last (active_section i) \<noteq> nl" if "i \<in> set active" for i
    using that assms(2) trim_space_last [of "in_Body i"] by (auto simp: active_section_def Let_def)
  have av: "available_section available \<noteq> [] \<and> last (available_section available) \<noteq> nl"
    if "available \<noteq> []"
    using that assms(1) by (cases available rule: rev_cases) (auto simp: available_section_def)
  have "last ps \<noteq> [] \<and> last (last ps) \<noteq> nl" if "ps \<noteq> []"
    using that act av trim_space_last [of base]
    by (cases active rule: rev_cases) (auto simp: ps_def last_append split: if_splits)
  then show ?thesis
    using last_join [of ps "[nl, nl]"] by (cases "ps = []") (auto simp: Compose_def ps_def Let_def)
qed

theorem Compose_no_trailing_newline_witness:
  "last (Compose [] [] [\<lparr>in_ID = ''a'', in_Body = []\<rparr>]) \<noteq> nl"
proof -
  have "Compose [] [] [\<lparr>in_ID = ''a'', in_Body = []\<rparr>] \<noteq> []"
    by (simp add: Compose_def active_section_def trim_space_def)
  with Compose_no_trailing_newline [of "[]" "[\<lparr>in_ID = ''a'', in_Body = []\<rparr>]" "[]"]
  show ?thesis by (simp add: nl_def)
qed

end
