(* ===== verification/Runtime.thy ===== *)
theory Runtime
  imports Runtime_History Journal_Properties Catalog Cost Tenantdir Journeys
begin

text \<open>
  The world a run works in: the journal's database, which other workers change between two operations of the run,
  the clock, the model, the integration endpoint and the random source. Everything outside the program is an
  \<open>env\<close>, a function of the step at which it is asked; the state of the run, with the cache of compiled definition sets,
  is a \<open>world\<close>.

  Errors keep the identity the code tests with \<open>errors.Is\<close>; their texts are not modelled.
\<close>

section \<open>Errors\<close>

datatype run_error =
    ErrJournal journal_error
  | ErrContext
  | ErrBusinessRejected | ErrAuthRequired | ErrNotPermitted | ErrEndpointUnavailable | ErrNotBound | ErrRemote
  | ErrDependencyUnavailable | ErrJourneyUnavailable | ErrPolicyConflict | ErrActivationRefused
  | ErrLimit LimitError
  | ErrChanged
  | ErrOther string

section \<open>The model and the endpoint\<close>

record ModelTool =
  mt_Name :: string
  mt_Description :: string
  mt_Schema :: "json option"

record ToolResult =
  tr_CallID :: string
  tr_Name :: string
  tr_Value :: result

type_synonym MaterialProvenance = "string \<times> string"

record RequestProvenance =
  rp_Definition :: MaterialProvenance
  rp_System :: MaterialProvenance
  rp_Catalog :: MaterialProvenance
  rp_History :: MaterialProvenance
  rp_Active :: "MaterialProvenance list"
  rp_Pending :: "MaterialProvenance list"
  rp_IncludedInput :: "MaterialProvenance list"
  rp_Skills :: "MaterialProvenance list"

record ModelRequest =
  mq_History :: bytes
  mq_PendingCommands :: "Input list"
  mq_Instructions :: string
  mq_Messages :: "string list"
  mq_ProviderMessages :: "message list"
  mq_Tools :: "ModelTool list"
  mq_ToolResults :: "ToolResult list"
  mq_DefinitionDigest :: string
  mq_ActiveJourneys :: "string list"
  mq_Provenance :: RequestProvenance
  mq_Access :: Access

record ToolCall =
  tc_CallID :: string
  tc_Name :: string
  tc_Arguments :: bytes

record Tokens =
  tk_Model :: string
  tk_Input :: int
  tk_Output :: int
  tk_Cached :: int

record ModelResponse =
  ms_Text :: string
  ms_ToolCalls :: "ToolCall list"
  ms_ToolCall :: "ToolCall option"
  ms_Usage :: Tokens

datatype transport_error = StatusUnauthorized | StatusForbidden | TransportFailed

datatype remote_reply = RemoteFailed transport_error | RemoteIsError | RemoteOK json

text \<open>What is outside the program, at each step. The model says whether it called back before it sent its request, and
  its completion. A fault of the database connection is reported as an error; the transaction may have been
  committed (\<open>Some True\<close>) or not (\<open>Some False\<close>). The last five are the message library: the
  encoding of messages, the messages a completion with these contents becomes, and their texts.\<close>

record env =
  env_lib :: libs
  env_now :: "nat \<Rightarrow> int"
  env_others :: "nat \<Rightarrow> (request \<times> int) list"
  env_fault :: "nat \<Rightarrow> bool option"
  env_done :: "nat \<Rightarrow> bool"
  env_random :: "nat \<Rightarrow> string"
  env_model :: "nat \<Rightarrow> ModelRequest \<Rightarrow> bool \<times> (run_error + ModelResponse)"
  env_connect :: "nat \<Rightarrow> transport_error + string \<times> string"
  env_list :: "nat \<Rightarrow> transport_error + bytes option"
  env_remote :: "nat \<Rightarrow> string \<Rightarrow> bytes \<Rightarrow> remote_reply"
  env_marshal :: marshal
  env_unmarshal :: "bytes \<Rightarrow> message list option"
  env_collect :: "content list \<Rightarrow> message list"
  env_text :: "message \<Rightarrow> string"
  env_answer :: "message list \<Rightarrow> string"

section \<open>The state of a run\<close>

text \<open>One call that was sent to the endpoint: the platform's identifier, the alias, the remote name and
  the arguments.\<close>

record sent =
  st_call :: string
  st_alias :: string
  st_remote :: string
  st_arguments :: bytes

record world =
  w_db :: db
  w_tick :: nat
  w_sent :: "sent list"
  w_broken :: bool
  w_history :: "message list"
  w_active :: ActiveSet
  w_persisted :: "string list"
  w_repairs :: int
  w_calls :: nat
  w_skills :: "MaterialProvenance list"
  w_completions :: nat
  w_sets :: "(string \<times> DefinitionSet) list"

type_synonym 'a run = "world \<Rightarrow> (run_error + 'a) \<times> world"

definition succeed :: "'a \<Rightarrow> 'a run" where "succeed a w = (Inr a, w)"

definition throw :: "run_error \<Rightarrow> 'a run" where "throw e w = (Inl e, w)"

definition bindr :: "'a run \<Rightarrow> ('a \<Rightarrow> 'b run) \<Rightarrow> 'b run" where
  "bindr m k w = (case m w of (Inl e, w') \<Rightarrow> (Inl e, w') | (Inr a, w') \<Rightarrow> k a w')"

text \<open>The result of \<open>m\<close> as a value, error or not.\<close>

definition outcome_of :: "'a run \<Rightarrow> ((run_error + 'a) \<Rightarrow> 'b run) \<Rightarrow> 'b run" where
  "outcome_of m k w = (case m w of (r, w') \<Rightarrow> k r w')"

definition check :: "bool \<Rightarrow> run_error \<Rightarrow> 'b run \<Rightarrow> 'b run" where
  "check b e k = (if b then k else throw e)"

definition from_sum :: "journal_error + 'a \<Rightarrow> 'a run" where
  "from_sum r = (case r of Inl e \<Rightarrow> throw (ErrJournal e) | Inr a \<Rightarrow> succeed a)"

definition read :: "(world \<Rightarrow> 'x) \<Rightarrow> ('x \<Rightarrow> 'a run) \<Rightarrow> 'a run" where
  "read f k w = k (f w) w"

definition modify :: "(world \<Rightarrow> world) \<Rightarrow> 'a run \<Rightarrow> 'a run" where
  "modify f k w = k (f w)"

text \<open>Ask the environment.\<close>

definition ask :: "(nat \<Rightarrow> 'x) \<Rightarrow> ('x \<Rightarrow> 'a run) \<Rightarrow> 'a run" where
  "ask f k w = k (f (w_tick w)) (w\<lparr>w_tick := Suc (w_tick w)\<rparr>)"

text \<open>One operation of the journal, after whatever other workers did since the last one.\<close>

definition journal :: "env \<Rightarrow> (int \<Rightarrow> db \<Rightarrow> (journal_error + 'a) \<times> db) \<Rightarrow> 'a run" where
  "journal env f w =
     (let n = w_tick w;
          db = run_requests (env_lib env) (env_others env n) (w_db w);
          (r, db') = f (env_now env n) db
      in case env_fault env n of
           Some committed \<Rightarrow> (Inl ErrContext, w\<lparr>w_db := (if committed then db' else db), w_tick := Suc n\<rparr>)
         | None \<Rightarrow> ((case r of Inl e \<Rightarrow> Inl (ErrJournal e) | Inr a \<Rightarrow> Inr a), w\<lparr>w_db := db', w_tick := Suc n\<rparr>))"

section \<open>Relations between worlds\<close>

text \<open>A relation that the steps of a run respect is respected by the run.\<close>

definition keeps :: "(world \<Rightarrow> world \<Rightarrow> bool) \<Rightarrow> 'a run \<Rightarrow> bool" where
  "keeps R m \<longleftrightarrow> (\<forall>w. R w (snd (m w)))"

lemma keepsD: "keeps R m \<Longrightarrow> m w = (r, w') \<Longrightarrow> R w w'"
  unfolding keeps_def by (metis snd_conv)

named_theorems keeps_rules \<open>a relation is respected by the statements of a run\<close>

locale world_relation =
  fixes R :: "world \<Rightarrow> world \<Rightarrow> bool"
  assumes refl: "R w w" and trans: "R w w' \<Longrightarrow> R w' w'' \<Longrightarrow> R w w''"
begin

lemma keeps_succeed: "keeps R (succeed a)"
  by (simp add: keeps_def succeed_def refl)

lemma keeps_throw: "keeps R (throw e)"
  by (simp add: keeps_def throw_def refl)

lemma keeps_bindr:
  assumes "keeps R m" "\<And>a. keeps R (k a)"
  shows "keeps R (bindr m k)"
  unfolding keeps_def
proof
  fix w
  obtain r w' where m: "m w = (r, w')" by (cases "m w")
  with keepsD [OF assms(1)] have R: "R w w'" by simp
  show "R w (snd (bindr m k w))"
  proof (cases r)
    case (Inr a)
    then show ?thesis using m R assms(2) [of a] by (auto simp: bindr_def keeps_def intro: trans)
  qed (use m R in \<open>simp add: bindr_def\<close>)
qed

lemma keeps_outcome_of:
  assumes "keeps R m" "\<And>r. keeps R (k r)"
  shows "keeps R (outcome_of m k)"
  using assms by (auto simp: keeps_def outcome_of_def split: prod.split intro: trans dest: keepsD [OF assms(1)])

lemma keeps_check: "(b \<Longrightarrow> keeps R k) \<Longrightarrow> keeps R (check b e k)"
  by (auto simp: check_def keeps_throw)

lemma keeps_from_sum: "keeps R (from_sum r)"
  by (cases r) (simp_all add: from_sum_def keeps_throw keeps_succeed)

lemma keeps_read: "(\<And>x. keeps R (k x)) \<Longrightarrow> keeps R (read f k)"
  by (simp add: keeps_def read_def)

lemma keeps_modify: "(\<And>w. R w (f w)) \<Longrightarrow> keeps R k \<Longrightarrow> keeps R (modify f k)"
  by (auto simp: keeps_def modify_def intro: trans)

lemma keeps_ask: "(\<And>w n. R w (w\<lparr>w_tick := n\<rparr>)) \<Longrightarrow> (\<And>x. keeps R (k x)) \<Longrightarrow> keeps R (ask f k)"
  unfolding keeps_def ask_def using trans by blast

end

text \<open>The database a run leaves is one that requests to the journal produce from the one it found.\<close>

definition requests_between :: "env \<Rightarrow> world \<Rightarrow> world \<Rightarrow> bool" where
  "requests_between env w w' \<longleftrightarrow> (\<exists>reqs. w_db w' = run_requests (env_lib env) reqs (w_db w))"

lemma run_requests_append: "run_requests lib (xs @ ys) db = run_requests lib ys (run_requests lib xs db)"
  by (induction lib xs db rule: run_requests.induct) auto

interpretation req: world_relation "requests_between env" for env
proof
  show "requests_between env w w" for w unfolding requests_between_def by (rule exI [of _ "[]"]) simp
  show "requests_between env w w''" if "requests_between env w w'" "requests_between env w' w''" for w w' w''
    using that unfolding requests_between_def by (metis run_requests_append)
qed

text \<open>An operation of the journal is a request, or only reads.\<close>

definition is_request :: "libs \<Rightarrow> (int \<Rightarrow> db \<Rightarrow> (journal_error + 'a) \<times> db) \<Rightarrow> bool" where
  "is_request lib f \<longleftrightarrow> (\<forall>now db. \<exists>reqs. snd (f now db) = run_requests lib reqs db)"

lemma is_requestI: "(\<And>now db. snd (f now db) = perform lib req now db) \<Longrightarrow> is_request lib f"
  unfolding is_request_def
proof (intro allI)
  fix now db assume "\<And>now db. snd (f now db) = perform lib req now db"
  then show "\<exists>reqs. snd (f now db) = run_requests lib reqs db" by (intro exI [of _ "[(req, now)]"]) simp
qed

lemma is_request_read: "(\<And>now db. snd (f now db) = db) \<Longrightarrow> is_request lib f"
  unfolding is_request_def by (intro allI exI [of _ "[]"]) simp

lemma journal_requests: "is_request (env_lib env) f \<Longrightarrow> keeps (requests_between env) (journal env f)"
  unfolding keeps_def requests_between_def
proof
  fix w :: world assume f: "is_request (env_lib env) f"
  let ?db = "run_requests (env_lib env) (env_others env (w_tick w)) (w_db w)"
  obtain reqs where "snd (f (env_now env (w_tick w)) ?db) = run_requests (env_lib env) reqs ?db"
    using f unfolding is_request_def by blast
  then show "\<exists>reqs. w_db (snd (journal env f w)) = run_requests (env_lib env) reqs (w_db w)"
    by (auto simp: journal_def Let_def split: prod.splits option.splits simp flip: run_requests_append)
qed

section \<open>A concrete environment\<close>

text \<open>Nobody else is working, nothing fails, the model and the endpoint answer at once.\<close>

definition quiet_libs :: libs where
  "quiet_libs = \<lparr>lib_sha256 = (\<lambda>_. ''h''), lib_append_result = (\<lambda>h cid s. Some h)\<rparr>"

definition quiet_response :: ModelResponse where
  "quiet_response = \<lparr>ms_Text = ''ok'', ms_ToolCalls = [], ms_ToolCall = None,
     ms_Usage = \<lparr>tk_Model = ''m'', tk_Input = 1, tk_Output = 1, tk_Cached = 0\<rparr>\<rparr>"

definition quiet_env :: env where
  "quiet_env = \<lparr>env_lib = quiet_libs, env_now = (\<lambda>n. 2000), env_others = (\<lambda>n. []), env_fault = (\<lambda>n. None),
     env_done = (\<lambda>n. False), env_random = show_nat, env_model = (\<lambda>n q. (True, Inr quiet_response)),
     env_connect = (\<lambda>n. Inr (''s'', ''1'')), env_list = (\<lambda>n. Inr (Some ''[]'')), env_remote = (\<lambda>n name args. RemoteOK JNull),
     env_marshal = (\<lambda>h. Some ''[]''), env_unmarshal = (\<lambda>b. Some []),
     env_collect = (\<lambda>cs. [\<lparr>m_Role = RoleAssistant, m_Contents = cs\<rparr>]), env_text = (\<lambda>m. []), env_answer = (\<lambda>ms. ''ok'')\<rparr>"

definition world_of :: "db \<Rightarrow> world" where
  "world_of db = \<lparr>w_db = db, w_tick = 0, w_sent = [], w_broken = False, w_history = [], w_active = \<lparr>ids = []\<rparr>, w_persisted = [],
     w_repairs = 1, w_calls = 0, w_skills = [], w_completions = 0, w_sets = []\<rparr>"

end
