(* ===== verification/Catalog_Safety.thy ===== *)
theory Catalog_Safety
  imports Catalog "HOL-Library.Multiset"
begin

text \<open>
  What resolution guarantees: the tools of an available journey have valid and distinct aliases, are
  selectable and within the limit, and run without approval only where a reviewed selector says so;
  journeys that stay available agree on the policy of every tool they share.
\<close>

section \<open>Reasons only accumulate\<close>

lemma add_simps [simp]:
  "selected (add r x p) = selected p" "set (unavailable (add r x p)) = insert (r, x) (set (unavailable p))"
  by (auto simp: add_def)

lemma add_not_empty [simp]: "unavailable (add r x p) \<noteq> []"
proof
  assume "unavailable (add r x p) = []"
  then have "set (unavailable (add r x p)) = {}" by simp
  then show False by simp
qed

lemma choose_tool_unavailable [simp]: "unavailable (choose_tool i s p) = unavailable p"
  by (simp add: choose_tool_def Let_def)

lemma fold_keeps_reasons:
  assumes "\<And>x p. set (unavailable p) \<subseteq> set (unavailable (f x p))"
  shows "set (unavailable p) \<subseteq> set (unavailable (fold f xs p))"
  using assms by (induction xs arbitrary: p) (auto, blast)

lemma fold_keeps_selected:
  assumes "\<And>x p. selected (f x p) = selected p"
  shows "selected (fold f xs p) = selected p"
  using assms by (induction xs arbitrary: p) simp_all

lemma select_op_reasons: "set (unavailable p) \<subseteq> set (unavailable (select_op tools keys s ks p))"
  by (induction ks arbitrary: p) (auto split: list.splits)

lemma check_ambiguous_selected [simp]: "selected (check_ambiguous tools keys p) = selected p"
  unfolding check_ambiguous_def by (rule fold_keeps_selected) simp

lemma check_alias_selected: "selected (snd (check_alias ka op)) = selected (snd op)"
  by (auto simp: check_alias_def split: prod.splits option.splits)

lemma check_aliases_selected [simp]: "selected (check_aliases tools keys p) = selected p"
proof -
  have "selected (snd (fold check_alias xs op)) = selected (snd op)" for xs op
    by (induction xs arbitrary: op) (simp_all add: check_alias_selected)
  then show ?thesis by (simp add: check_aliases_def)
qed

lemma check_max_selected [simp]: "selected (check_max tools n p) = selected p"
  by (simp add: check_max_def)

lemma selected_indexes_cong: "selected q = selected p \<Longrightarrow> selected_indexes tools q = selected_indexes tools p"
  by (simp add: selected_indexes_def)

section \<open>What selects a tool\<close>

definition selection_ok :: "Selector list \<Rightarrow> string \<Rightarrow> selection \<Rightarrow> bool" where
  "selection_ok ss key sel =
     (fromOp sel \<longrightarrow> (\<exists>s \<in> set ss. key \<in> set (Ops s) \<and> opClass sel = SClass s \<and> opAlias sel = Alias s \<and>
        (ApprovalRequired s \<longrightarrow> approval sel)))"

definition progress_ok :: "Selector list \<Rightarrow> Descriptor list \<Rightarrow> string list \<Rightarrow> progress \<Rightarrow> bool" where
  "progress_ok ss tools keys p =
     (\<forall>i sel. selected p i = Some sel \<longrightarrow> i < length tools \<and> keys ! i \<noteq> [] \<and> selection_ok ss (keys ! i) sel)"

lemma choose_tool_ok:
  assumes "progress_ok ss tools keys p" "i < length tools" "keys ! i \<noteq> []" "s \<in> set ss"
    "Ops s \<noteq> [] \<Longrightarrow> keys ! i \<in> set (Ops s)"
  shows "progress_ok ss tools keys (choose_tool i s p)"
proof -
  let ?old = "case selected p i of None \<Rightarrow> no_selection | Some x \<Rightarrow> x"
  have "selection_ok ss (keys ! i) ?old"
    using assms(1) by (auto simp: progress_ok_def selection_ok_def no_selection_def split: option.splits)
  then have "selection_ok ss (keys ! i) (?old\<lparr>approval := approval ?old \<or> ApprovalRequired s\<rparr>)"
    by (auto simp: selection_ok_def)
  moreover have "selection_ok ss (keys ! i)
      (?old\<lparr>approval := approval ?old \<or> ApprovalRequired s, opClass := SClass s, opAlias := Alias s, fromOp := True\<rparr>)"
    if "Ops s \<noteq> []"
    using assms(4,5) that by (auto simp: selection_ok_def)
  ultimately show ?thesis
    using assms(1-3) by (auto simp: progress_ok_def choose_tool_def Let_def)
qed

lemma add_ok [simp]: "progress_ok ss tools keys (add r x p) = progress_ok ss tools keys p"
  by (simp add: progress_ok_def)

lemma op_candidates_ok:
  "i \<in> set (op_candidates tools keys s key) \<Longrightarrow> i < length tools \<and> keys ! i = key \<and> key \<noteq> []"
  by (auto simp: op_candidates_def)

lemma select_op_ok:
  assumes "progress_ok ss tools keys p" "s \<in> set ss" "set ks \<subseteq> set (Ops s)"
  shows "progress_ok ss tools keys (select_op tools keys s ks p)"
  using assms
proof (induction ks arbitrary: p)
  case (Cons key ks)
  show ?case
  proof (cases "op_candidates tools keys s key")
    case Nil
    with Cons show ?thesis by simp
  next
    case c: (Cons i rest)
    have "i \<in> set (op_candidates tools keys s key)" by (simp add: c)
    from op_candidates_ok [OF this] Cons.prems have "progress_ok ss tools keys (choose_tool i s p)"
      by (intro choose_tool_ok) auto
    with c Cons.prems show ?thesis by (auto split: list.splits)
  qed
qed simp

lemma fold_ok:
  assumes "progress_ok ss tools keys p" "\<And>x p. x \<in> set xs \<Longrightarrow> progress_ok ss tools keys p \<Longrightarrow> progress_ok ss tools keys (f x p)"
  shows "progress_ok ss tools keys (fold f xs p)"
  using assms by (induction xs arbitrary: p) auto

lemma select_all_ok: "progress_ok (j_Tools journey) tools keys (select_all journey tools keys)"
  unfolding select_all_def select_tags_def select_ops_def
proof (intro fold_ok)
  show "progress_ok (j_Tools journey) tools keys \<lparr>selected = Map.empty, unavailable = []\<rparr>" by (simp add: progress_ok_def)
qed (auto intro: select_op_ok choose_tool_ok simp: tag_matches_def)

section \<open>An available journey\<close>

lemma selected_keys_set: "key \<in> set (selected_keys tools keys p) \<longleftrightarrow> (\<exists>i \<in> set (selected_indexes tools p). keys ! i = key)"
  by (auto simp: selected_keys_def)

lemma check_ambiguous_none:
  assumes "unavailable (check_ambiguous tools keys p) = []" "i \<in> set (selected_indexes tools p)" "j \<in> set (selected_indexes tools p)"
    "keys ! i = keys ! j"
  shows "i = j"
proof (rule ccontr)
  let ?f = "\<lambda>key q. if length (key_tools tools keys p key) > 1 then add ReasonAmbiguous key q else q"
  assume "i \<noteq> j"
  have "{i, j} \<subseteq> set (key_tools tools keys p (keys ! i))" using assms(2-4) by (auto simp: key_tools_def)
  then have "card {i, j} \<le> length (key_tools tools keys p (keys ! i))"
    by (meson card_length card_mono finite_set order_trans)
  with \<open>i \<noteq> j\<close> have two: "length (key_tools tools keys p (keys ! i)) > 1" by simp
  have mono: "set (unavailable q) \<subseteq> set (unavailable (fold ?f xs q))" for xs q
    by (rule fold_keeps_reasons) auto
  have "(ReasonAmbiguous, key) \<in> set (unavailable (fold ?f xs q))" if "key \<in> set xs" "length (key_tools tools keys p key) > 1" for xs key q
    using that
  proof (induction xs arbitrary: q)
    case (Cons x xs)
    show ?case
    proof (cases "x = key")
      case True
      with Cons.prems mono [of "add ReasonAmbiguous key q" xs] show ?thesis by auto
    qed (use Cons in auto)
  qed simp
  from this [of "keys ! i" "selected_keys tools keys p" p] two assms(2) have
    "(ReasonAmbiguous, keys ! i) \<in> set (unavailable (check_ambiguous tools keys p))"
    by (auto simp: check_ambiguous_def selected_keys_set)
  with assms(1) show False by simp
qed

lemma check_alias_reasons: "set (unavailable (snd op)) \<subseteq> set (unavailable (snd (check_alias ka op)))"
  by (auto simp: check_alias_def split: prod.splits option.splits)

lemma check_aliases_reasons: "set (unavailable (snd op)) \<subseteq> set (unavailable (snd (fold check_alias kas op)))"
proof (induction kas arbitrary: op)
  case (Cons ka kas)
  then show ?case using check_alias_reasons [of op ka] by (simp, blast)
qed simp

text \<open>The aliases seen so far are owned by the keys they were seen with.\<close>

lemma check_aliases_none:
  assumes "unavailable (snd (fold check_alias kas (owner, p))) = []"
  shows "(\<forall>k a. (k, a) \<in> set kas \<longrightarrow> ValidAlias a \<and> \<not> IsReservedToolName a \<and> (owner a = None \<or> owner a = Some k)) \<and>
    (\<forall>k k' a. (k, a) \<in> set kas \<longrightarrow> (k', a) \<in> set kas \<longrightarrow> k = k')"
  using assms
proof (induction kas arbitrary: owner p)
  case (Cons ka kas)
  obtain k a where ka: "ka = (k, a)" by (cases ka)
  have none: "unavailable (snd (check_alias ka (owner, p))) = []"
    using Cons.prems check_aliases_reasons [of "check_alias ka (owner, p)" kas] by simp
  then have a: "ValidAlias a" "\<not> IsReservedToolName a" "owner a = None \<or> owner a = Some k"
    by (auto simp: ka check_alias_def split: if_splits option.splits)
  then have step: "check_alias ka (owner, p) = (owner(a \<mapsto> k), p)"
    by (auto simp: ka check_alias_def)
  have "unavailable (snd (fold check_alias kas (owner(a \<mapsto> k), p))) = []"
    using Cons.prems by (simp add: step)
  note ih = Cons.IH [OF this]
  have same: "k' = k" if "(k', a) \<in> set kas" for k'
    using conjunct1 [OF ih, rule_format, OF that] by simp
  have old: "ValidAlias a' \<and> \<not> IsReservedToolName a' \<and> (owner a' = None \<or> owner a' = Some k')" if "(k', a') \<in> set kas" for k' a'
    using conjunct1 [OF ih, rule_format, OF that] same [of k'] that a(3) by (cases "a' = a") auto
  have "k' = k''" if "(k', a') \<in> set (ka # kas)" "(k'', a') \<in> set (ka # kas)" for k' k'' a'
    using that same conjunct2 [OF ih] by (auto simp: ka)
  moreover have "ValidAlias a' \<and> \<not> IsReservedToolName a' \<and> (owner a' = None \<or> owner a' = Some k')"
    if "(k', a') \<in> set (ka # kas)" for k' a'
    using that old a by (auto simp: ka)
  ultimately show ?case by blast
qed simp

text \<open>The progress after all checks, and what an available journey says about it.\<close>

definition checked :: "Journey \<Rightarrow> Descriptor list \<Rightarrow> string list \<Rightarrow> progress" where
  "checked journey tools keys =
     check_max tools (j_MaxTools journey) (check_aliases tools keys (check_ambiguous tools keys (select_all journey tools keys)))"

lemma checked_none:
  assumes "unavailable (checked journey tools keys) = []"
  shows "unavailable (check_ambiguous tools keys (select_all journey tools keys)) = []"
    and "unavailable (check_aliases tools keys (check_ambiguous tools keys (select_all journey tools keys))) = []"
    and "int (length (selected_indexes tools (select_all journey tools keys))) \<le>
      (if j_MaxTools journey \<le> 0 then defaultMaxTools else j_MaxTools journey)"
proof -
  let ?a = "check_ambiguous tools keys (select_all journey tools keys)"
  have "int (length (selected_indexes tools (check_aliases tools keys ?a))) \<le>
      (if j_MaxTools journey \<le> 0 then defaultMaxTools else j_MaxTools journey)"
    and none: "unavailable (check_aliases tools keys ?a) = []"
    using assms by (auto simp: checked_def check_max_def split: if_splits)
  then show "int (length (selected_indexes tools (select_all journey tools keys))) \<le>
      (if j_MaxTools journey \<le> 0 then defaultMaxTools else j_MaxTools journey)"
    by (simp add: selected_indexes_cong [of "check_aliases tools keys ?a" "select_all journey tools keys"])
  show "unavailable (check_aliases tools keys ?a) = []" by (rule none)
  with check_aliases_reasons [of "(Map.empty, ?a)" "key_aliases tools keys ?a"] show "unavailable ?a = []"
    by (simp add: check_aliases_def)
qed

lemma checked_selected [simp]: "selected (checked journey tools keys) = selected (select_all journey tools keys)"
  by (simp add: checked_def)

lemma checked_aliases:
  assumes "unavailable (checked journey tools keys) = []" "i \<in> set (selected_indexes tools (checked journey tools keys))"
  defines "al \<equiv> (\<lambda>i. t_Alias (resolved_tool tools keys (checked journey tools keys) i))"
  shows "ValidAlias (al i) \<and> \<not> IsReservedToolName (al i)"
    and "j \<in> set (selected_indexes tools (checked journey tools keys)) \<Longrightarrow> al i = al j \<Longrightarrow> i = j"
    and "j \<in> set (selected_indexes tools (checked journey tools keys)) \<Longrightarrow> keys ! i = keys ! j \<Longrightarrow> i = j"
proof -
  let ?a = "check_ambiguous tools keys (select_all journey tools keys)"
  have idx: "selected_indexes tools (checked journey tools keys) = selected_indexes tools ?a"
    by (rule selected_indexes_cong) simp
  have mem: "(keys ! k, al k) \<in> set (key_aliases tools keys ?a)" if "k \<in> set (selected_indexes tools ?a)" for k
    using that by (force simp: key_aliases_def key_tools_def selected_keys_set al_def resolved_tool_def Let_def)
  have none: "unavailable (snd (fold check_alias (key_aliases tools keys ?a) (Map.empty, ?a))) = []"
    using checked_none(2) [OF assms(1)] by (simp add: check_aliases_def)
  note aliases = check_aliases_none [OF none]
  show "ValidAlias (al i) \<and> \<not> IsReservedToolName (al i)"
    using mem [of i] assms(2) aliases idx by auto
  have amb: "i = j" if "j \<in> set (selected_indexes tools (checked journey tools keys))" "keys ! i = keys ! j" for j
    using check_ambiguous_none [OF checked_none(1) [OF assms(1)], of i j] that assms(2)
    by (simp add: selected_indexes_cong [of "checked journey tools keys" "select_all journey tools keys"])
  then show "j \<in> set (selected_indexes tools (checked journey tools keys)) \<Longrightarrow> keys ! i = keys ! j \<Longrightarrow> i = j" .
  show "i = j" if j: "j \<in> set (selected_indexes tools (checked journey tools keys))" "al i = al j"
  proof -
    have "(keys ! i, al i) \<in> set (key_aliases tools keys ?a)" "(keys ! j, al i) \<in> set (key_aliases tools keys ?a)"
      using mem [of i] mem [of j] j assms(2) idx by auto
    then have "keys ! i = keys ! j" using aliases by blast
    with amb j show ?thesis by blast
  qed
qed

text \<open>What a tool of an available journey may be.\<close>

definition tool_allowed :: "Journey \<Rightarrow> CatalogView \<Rightarrow> string \<Rightarrow> Tool \<Rightarrow> bool" where
  "tool_allowed journey snapshot metaKey t =
     (ValidAlias (t_Alias t) \<and> \<not> IsReservedToolName (t_Alias t) \<and> t_OperationKey t \<noteq> [] \<and> t_OperationKey t \<notin> set (j_Deny journey) \<and>
      (\<exists>d \<in> set (cw_Tools snapshot). meta_string metaKey d = Some (t_OperationKey t) \<and> dr_Name d = t_RemoteName t \<and>
         dr_Description d = t_Description t \<and> dr_InputSchema d = t_InputSchema t) \<and>
      (t_RequiresApproval t \<or> t_Class t = ClassReadOnly \<and>
         (\<exists>s \<in> set (j_Tools journey). t_OperationKey t \<in> set (Ops s) \<and> SClass s = ClassReadOnly \<and> \<not> ApprovalRequired s)))"

lemma resolved_tool_allowed:
  assumes "keys = map (tool_key metaKey (j_Deny journey)) (cw_Tools snapshot)"
    "unavailable (checked journey (cw_Tools snapshot) keys) = []"
    "i \<in> set (selected_indexes (cw_Tools snapshot) (checked journey (cw_Tools snapshot) keys))"
  shows "tool_allowed journey snapshot metaKey (resolved_tool (cw_Tools snapshot) keys (checked journey (cw_Tools snapshot) keys) i)"
proof -
  let ?tools = "cw_Tools snapshot" and ?p = "checked journey (cw_Tools snapshot) keys"
  from assms(3) obtain sel where sel: "selected ?p i = Some sel" "i < length ?tools"
    by (auto simp: selected_indexes_def)
  with select_all_ok [of journey ?tools keys] have ok: "keys ! i \<noteq> []" "selection_ok (j_Tools journey) (keys ! i) sel"
    by (auto simp: progress_ok_def)
  have key: "meta_string metaKey (?tools ! i) = Some (keys ! i)" "keys ! i \<notin> set (j_Deny journey)"
    using ok(1) sel(2) by (auto simp: assms(1) tool_key_def split: option.splits if_splits)
  have "t_RequiresApproval (resolved_tool ?tools keys ?p i) \<or> t_Class (resolved_tool ?tools keys ?p i) = ClassReadOnly \<and>
      (\<exists>s \<in> set (j_Tools journey). keys ! i \<in> set (Ops s) \<and> SClass s = ClassReadOnly \<and> \<not> ApprovalRequired s)"
    using ok(2) sel(1) by (auto simp: resolved_tool_def Let_def selection_class_def selection_ok_def split: if_splits)
  with checked_aliases(1) [OF assms(2,3)] key ok(1) sel(2) show ?thesis
    by (auto simp: tool_allowed_def resolved_tool_def Let_def)
qed

lemma distinct_sort_key: "distinct (map f (sort_key g xs)) = distinct (map f xs)"
proof -
  have "mset (map f (sort_key g xs)) = mset (map f xs)" by simp
  then show ?thesis by (rule mset_eq_imp_distinct_iff)
qed

lemma resolution_tools:
  assumes "Available (Resolve_journey journey snapshot metaKey)" "ts = res_Tools (Resolve_journey journey snapshot metaKey)"
  shows "sorted_wrt (<) (map t_Alias ts) \<and> distinct (map t_OperationKey ts) \<and>
    int (length ts) \<le> (if j_MaxTools journey \<le> 0 then 15 else j_MaxTools journey) \<and>
    list_all (tool_allowed journey snapshot metaKey) ts"
proof -
  let ?tools = "cw_Tools snapshot"
  define keys where "keys = map (tool_key metaKey (j_Deny journey)) ?tools"
  let ?p = "checked journey ?tools keys"
  let ?is = "selected_indexes ?tools ?p"
  from assms have none: "unavailable ?p = []" and ts: "ts = sort_key t_Alias (map (resolved_tool ?tools keys ?p) ?is)"
    by (auto simp: Resolve_journey_def Available_def Let_def keys_def checked_def split: if_splits)
  note al = checked_aliases [OF none]
  have d: "distinct ?is" by (simp add: selected_indexes_def)
  have "inj_on (\<lambda>i. t_Alias (resolved_tool ?tools keys ?p i)) (set ?is)"
    by (rule inj_onI) (use al(2) in blast)
  with d have "distinct (map (\<lambda>i. t_Alias (resolved_tool ?tools keys ?p i)) ?is)" by (simp add: distinct_map)
  then have "distinct (map t_Alias ts)" unfolding ts distinct_sort_key map_map comp_def .
  then have "sorted_wrt (<) (map t_Alias ts)" by (simp add: ts strict_sorted_iff)
  moreover have "inj_on (\<lambda>i. t_OperationKey (resolved_tool ?tools keys ?p i)) (set ?is)"
    by (rule inj_onI) (use al(3) in \<open>auto simp: resolved_tool_def Let_def\<close>)
  with d have "distinct (map (\<lambda>i. t_OperationKey (resolved_tool ?tools keys ?p i)) ?is)" by (simp add: distinct_map)
  then have "distinct (map t_OperationKey ts)" unfolding ts distinct_sort_key map_map comp_def .
  moreover have "int (length ts) \<le> (if j_MaxTools journey \<le> 0 then 15 else j_MaxTools journey)"
    using checked_none(3) [OF none] selected_indexes_cong [of ?p "select_all journey ?tools keys" ?tools]
    by (auto simp: ts defaultMaxTools_def split: if_splits)
  moreover have "list_all (tool_allowed journey snapshot metaKey) ts"
    using resolved_tool_allowed [OF keys_def none] by (auto simp: list_all_iff ts)
  ultimately show ?thesis by blast
qed


definition example_selector :: Selector where
  "example_selector = \<lparr>Ops = [''orders.list''], Tags = [], Alias = ''list_orders'', ReadOnlyHint = False,
     SClass = ClassReadOnly, ApprovalRequired = False\<rparr>"

definition example_journey :: Journey where
  "example_journey = \<lparr>j_ID = ''orders'', j_Description = [], j_Prompt = [], j_Skills = [], j_Digest = [],
     j_Tools = [example_selector], j_Deny = [], j_MaxTools = 0, j_ProductVersions = \<lparr>Min = [], MaxExclusive = []\<rparr>,
     j_Catalog = \<lparr>OperationMetaKey = ''op'', CallIDHeader = []\<rparr>, j_Skill = []\<rparr>"

definition example_tool :: Descriptor where
  "example_tool = \<lparr>dr_Name = ''list'', dr_Description = ''lists'', dr_InputSchema = None,
     dr_Meta = [(''op'', JStr ''orders.list'')], dr_ReadOnlyHint = True, dr_Raw = JNull\<rparr>"

definition example_view :: CatalogView where
  "example_view = \<lparr>cw_Digest = [], cw_ProductVersion = ''1'', cw_EndpointID = ''e'', cw_ServerVersion = ''1'',
     cw_Tools = [example_tool]\<rparr>"


section \<open>Journeys agree on policies\<close>

lemma noted_two:
  assumes "r \<in> set rs" "Available r" "t \<in> set (res_Tools r)" "r' \<in> set rs" "Available r'" "t' \<in> set (res_Tools r')"
    "f t = f t'" "tool_policy t \<noteq> tool_policy t'"
  shows "length (noted f rs (f t)) > 1"
proof -
  have "{tool_policy t, tool_policy t'} \<subseteq> set (noted f rs (f t))"
    using assms by (auto simp: noted_def)
  then have "card {tool_policy t, tool_policy t'} \<le> length (noted f rs (f t))"
    by (meson card_length card_mono finite_set order_trans)
  with assms(8) show ?thesis by simp
qed

lemma policies_agree:
  assumes "r \<in> set (CheckPolicies rs)" "Available r" "t \<in> set (res_Tools r)"
    "r' \<in> set (CheckPolicies rs)" "Available r'" "t' \<in> set (res_Tools r')"
    "t_OperationKey t = t_OperationKey t' \<or> t_Alias t = t_Alias t'" "t_OperationKey t \<noteq> []" "t_Alias t \<noteq> []"
  shows "t_Class t = t_Class t' \<and> t_RequiresApproval t = t_RequiresApproval t' \<and> r \<in> set rs \<and> r' \<in> set rs"
proof -
  have kept: "x \<in> set rs \<and> conflicts rs x = []" if "x \<in> set (CheckPolicies rs)" "Available x" for x
  proof -
    from that(1) obtain y where y: "y \<in> set rs" "x = check_policy rs y" by (auto simp: CheckPolicies_def)
    show ?thesis
    proof (cases "\<not> Available y \<or> conflicts rs y = []")
      case True
      with y that(2) show ?thesis by (auto simp: check_policy_def)
    next
      case False
      with y(2) that(2) show ?thesis by (simp add: check_policy_def Available_def)
    qed
  qed
  note r = kept [OF assms(1,2)] and r' = kept [OF assms(4,5)]
  have "conflict_name rs t = []"
  proof (rule ccontr)
    assume "conflict_name rs t \<noteq> []"
    then have "conflict_name rs t \<in> set (conflicts rs r)" using assms(3) by (auto simp: conflicts_def set_dedup)
    with r show False by simp
  qed
  then have "length (noted t_OperationKey rs (t_OperationKey t)) \<le> 1" "length (noted t_Alias rs (t_Alias t)) \<le> 1"
    using assms(8,9) by (auto simp: conflict_name_def split: if_splits)
  with noted_two [of r rs t r' t' t_OperationKey] noted_two [of r rs t r' t' t_Alias] r r' assms
  have "tool_policy t = tool_policy t'" by fastforce
  with r r' show ?thesis by (simp add: tool_policy_def)
qed

text \<open>Journeys that stay available agree: after the policy check two tools of available journeys with the same operation
  key, or the same alias, have the same class and approval requirement; a journey is only ever made unavailable, and
  the journeys that stay available keep their tools.\<close>

theorem CheckPolicies_agree:
  assumes "r \<in> set (CheckPolicies rs)" "Available r" "t \<in> set (res_Tools r)"
    "r' \<in> set (CheckPolicies rs)" "Available r'" "t' \<in> set (res_Tools r')"
    "t_OperationKey t = t_OperationKey t' \<or> t_Alias t = t_Alias t'" "t_OperationKey t \<noteq> []" "t_Alias t \<noteq> []"
  shows "t_Class t = t_Class t' \<and> t_RequiresApproval t = t_RequiresApproval t' \<and> r \<in> set rs \<and> r' \<in> set rs"
  using policies_agree [OF assms] .

definition example_resolution :: Resolution where
  "example_resolution = Resolve_journey example_journey example_view ''op''"

theorem CheckPolicies_agree_witness:
  "list_all (\<lambda>t. t_Class t = ClassReadOnly) (res_Tools example_resolution) \<and>
   (\<exists>t r. r \<in> set (CheckPolicies [example_resolution]) \<and> t \<in> set (res_Tools r) \<and> t_Class t = ClassReadOnly)"
proof -
  have l: "list_all (\<lambda>t. t_Class t = ClassReadOnly \<and> t_OperationKey t = ''orders.list'' \<and> t_Alias t = ''list_orders'') (res_Tools example_resolution)"
    "length (res_Tools example_resolution) = 1" "Available example_resolution"
    "CheckPolicies [example_resolution] = [example_resolution]" by code_simp+
  then obtain t where t: "t \<in> set (res_Tools example_resolution)" by (cases "res_Tools example_resolution") auto
  have m: "example_resolution \<in> set (CheckPolicies [example_resolution])" using l(4) by simp
  have "t_OperationKey t \<noteq> []" "t_Alias t \<noteq> []" "t_Class t = ClassReadOnly" using l(1) t by (auto simp: list_all_iff)
  with CheckPolicies_agree [OF m l(3) t m l(3) t] m t l(1) show ?thesis by (auto simp: list_all_iff)
qed

section \<open>The order of the reasons\<close>


end
