(* ===== verification/Catalog_Binding.thy ===== *)
theory Catalog_Binding
  imports Runtime Catalog_Safety
begin

text \<open>
  The binding of a run to the integration endpoint (\<open>internal/catalog/binding.go\<close>, \<open>transport.go\<close>): opening it
  records the server, reuses the pinned snapshot of the conversation or lists the tools again, and resolves every
  journey; calls go to the remote tool an alias is bound to. Durations are in microseconds, as in the journal.
\<close>

section \<open>Transport\<close>

definition transport_unavailable :: "transport_error \<Rightarrow> run_error" where
  "transport_unavailable e =
     (if e = StatusUnauthorized \<or> e = StatusForbidden then ErrAuthRequired else ErrEndpointUnavailable)"

text \<open>The headers of one request: the credential, then the call identifier of the request's context, then the trace
  context, which the tracing library writes.\<close>

definition RoundTrip_header :: "Credential \<Rightarrow> string \<Rightarrow> string \<Rightarrow> (Header \<Rightarrow> Header) \<Rightarrow> Header \<Rightarrow> Header" where
  "RoundTrip_header cred callIDHeader callID trace h =
     trace (let h' = Credential_Apply cred h in
       if callIDHeader \<noteq> [] \<and> callID \<noteq> [] then header_set callIDHeader callID h' else h')"

definition RoundTrip_status :: "int \<Rightarrow> transport_error option" where
  "RoundTrip_status status =
     (if status = 401 then Some StatusUnauthorized else if status = 403 then Some StatusForbidden else None)"

section \<open>Opening\<close>

definition DefaultSnapshotTTL :: int where "DefaultSnapshotTTL = 600000000"

record CatalogScope =
  cp_ProductVersion :: string
  cp_Endpoint :: Endpoint

record Binding =
  b_resolutions :: "Resolution list"
  b_byAlias :: "(string \<times> Tool) list"
  b_digest :: string
  b_productVersion :: string
  b_serverName :: string
  b_serverVersion :: string

definition resolve_all :: "DefinitionSet \<Rightarrow> CatalogView \<Rightarrow> Resolution list" where
  "resolve_all ds view =
     CheckPolicies (map (\<lambda>j. Resolve_journey j view (OperationMetaKey (ds_catalog ds))) (Set_Journeys ds))"

fun bind_aliases :: "(string \<times> Tool) list \<Rightarrow> Tool list \<Rightarrow> string + (string \<times> Tool) list" where
  "bind_aliases m [] = Inr m"
| "bind_aliases m (t # ts) =
     (case map_of m (t_Alias t) of
        Some prior \<Rightarrow> if t_RemoteName prior \<noteq> t_RemoteName t then Inl (t_Alias t) else bind_aliases m ts
      | None \<Rightarrow> bind_aliases (m @ [(t_Alias t, t)]) ts)"

definition available_tools :: "Resolution list \<Rightarrow> Tool list" where
  "available_tools rs = concat (map res_Tools (filter Available rs))"

definition server_info :: "string \<times> string \<Rightarrow> bytes" where
  "server_info server = print_json (JObj [(''name'', JStr (fst server)), (''version'', JStr (snd server))])"

definition pin_usable :: "CatalogScope \<Rightarrow> string \<Rightarrow> int \<Rightarrow> CatalogSnapshot \<times> int \<times> int \<Rightarrow> bool" where
  "pin_usable scope serverVersion ttl pin =
     (case pin of (s, validated, age) \<Rightarrow>
        ttl > 0 \<and> age < ttl \<and> cs_ProductVersion s = cp_ProductVersion scope \<and>
        cs_EndpointID s = ep_id (cp_Endpoint scope) \<and> cs_ServerVersion s = serverVersion)"

definition list_tools :: "env \<Rightarrow> CatalogScope \<Rightarrow> Owner \<Rightarrow> string \<Rightarrow> (string \<times> bytes) run" where
  "list_tools env scope ow serverVersion =
     ask (env_list env) (\<lambda>listed.
     case listed of
       Inl e \<Rightarrow> throw (transport_unavailable e)
     | Inr None \<Rightarrow> throw (ErrOther ''encode catalog descriptors'')
     | Inr (Some descriptors) \<Rightarrow>
         bindr (journal env (CommitSnapshot (env_lib env) ow
           \<lparr>cs_Digest = [], cs_Tenant = [], cs_Principal = [], cs_ProductVersion = cp_ProductVersion scope,
            cs_EndpointID = ep_id (cp_Endpoint scope), cs_ServerVersion = serverVersion, cs_Descriptors = descriptors,
            cs_CapturedAt = 0\<rparr>)) (\<lambda>digest.
         succeed (digest, descriptors)))"

text \<open>The snapshot of this run: the pinned one, or a new listing.\<close>

definition snapshot_of ::
  "env \<Rightarrow> CatalogScope \<Rightarrow> Owner \<Rightarrow> string \<Rightarrow> int \<Rightarrow> (string \<times> bytes) run" where
  "snapshot_of env scope ow serverVersion ttl =
     bindr (journal env (ConversationPin ow)) (\<lambda>pin.
     case pin of
       Some p \<Rightarrow>
         if pin_usable scope serverVersion ttl p then
           bindr (journal env (RecordRunCatalog ow (cs_Digest (fst p)))) (\<lambda>_.
           succeed (cs_Digest (fst p), cs_Descriptors (fst p)))
         else list_tools env scope ow serverVersion
     | None \<Rightarrow> list_tools env scope ow serverVersion)"

definition open_session ::
  "env \<Rightarrow> CatalogScope \<Rightarrow> Owner \<Rightarrow> DefinitionSet \<Rightarrow> int \<Rightarrow> string \<times> string \<Rightarrow> Binding run" where
  "open_session env scope ow ds ttl server =
     bindr (journal env (RecordServerInfo ow (server_info server))) (\<lambda>_.
     bindr (snapshot_of env scope ow (snd server) (if ttl = 0 then DefaultSnapshotTTL else ttl)) (\<lambda>snapshot.
     case ParseDescriptors (snd snapshot) of
       Inl _ \<Rightarrow> throw (ErrOther ''catalog snapshot is malformed'')
     | Inr tools \<Rightarrow>
         (let rs = resolve_all ds \<lparr>cw_Digest = fst snapshot, cw_ProductVersion = cp_ProductVersion scope,
                cw_EndpointID = ep_id (cp_Endpoint scope), cw_ServerVersion = snd server, cw_Tools = tools\<rparr>
          in case bind_aliases [] (available_tools rs) of
               Inl _ \<Rightarrow> throw (ErrOther ''alias resolves to different tools across journeys'')
             | Inr m \<Rightarrow> succeed \<lparr>b_resolutions = rs, b_byAlias = m, b_digest = fst snapshot,
                 b_productVersion = cp_ProductVersion scope, b_serverName = fst server, b_serverVersion = snd server\<rparr>)))"

definition Open_binding :: "env \<Rightarrow> CatalogScope \<Rightarrow> Owner \<Rightarrow> DefinitionSet \<Rightarrow> int \<Rightarrow> Binding run" where
  "Open_binding env scope ow ds ttl =
     check (Endpoint_Valid (cp_Endpoint scope)) ErrEndpointUnavailable (
     ask (env_connect env) (\<lambda>server.
     case server of
       Inl e \<Rightarrow> throw (transport_unavailable e)
     | Inr s \<Rightarrow> modify (\<lambda>w. w\<lparr>w_broken := False\<rparr>) (open_session env scope ow ds ttl s)))"

section \<open>Using a binding\<close>

definition Binding_Resolution :: "Binding \<Rightarrow> string \<Rightarrow> Resolution option" where
  "Binding_Resolution b journeyID = find (\<lambda>r. res_JourneyID r = journeyID) (b_resolutions b)"

definition Binding_Tool :: "Binding \<Rightarrow> string \<Rightarrow> string \<Rightarrow> Tool option" where
  "Binding_Tool b journeyID alias =
     (case Binding_Resolution b journeyID of
        None \<Rightarrow> None
      | Some r \<Rightarrow> if \<not> Available r then None else find (\<lambda>t. t_Alias t = alias) (res_Tools r))"

fun dedup_tools :: "string list \<Rightarrow> Tool list \<Rightarrow> Tool list" where
  "dedup_tools seen [] = []"
| "dedup_tools seen (t # ts) =
     (if t_Alias t \<in> set seen then dedup_tools seen ts else t # dedup_tools (t_Alias t # seen) ts)"

text \<open>A schema that does not decode, or is \<open>null\<close>, is left out.\<close>

definition decoded_schema :: "Tool \<Rightarrow> json option" where
  "decoded_schema t = (case t_InputSchema t of
     Some j \<Rightarrow> if j = JNull \<or> \<not> any_ok j then None else Some j | None \<Rightarrow> None)"

definition schema_tool :: "Tool \<Rightarrow> ModelTool" where
  "schema_tool t = \<lparr>mt_Name = t_Alias t, mt_Description = t_Description t, mt_Schema = decoded_schema t\<rparr>"

definition Binding_Tools :: "Binding \<Rightarrow> string list \<Rightarrow> ModelTool list" where
  "Binding_Tools b journeyIDs =
     map schema_tool (dedup_tools []
       (concat (map res_Tools (filter (\<lambda>r. Available r \<and> res_JourneyID r \<in> set journeyIDs) (b_resolutions b)))))"

definition Call :: "env \<Rightarrow> Binding \<Rightarrow> string \<Rightarrow> string \<Rightarrow> bytes \<Rightarrow> json run" where
  "Call env b callID alias arguments =
     (case map_of (b_byAlias b) alias of
        None \<Rightarrow> throw ErrNotBound
      | Some t \<Rightarrow>
          read w_broken (\<lambda>broken.
          check (\<not> broken) ErrAuthRequired (
          modify (\<lambda>w. w\<lparr>w_sent := w_sent w @ [\<lparr>st_call = callID, st_alias = alias, st_remote = t_RemoteName t, st_arguments = arguments\<rparr>]\<rparr>) (
          ask (\<lambda>n. env_remote env n (t_RemoteName t) arguments) (\<lambda>reply.
          case reply of
            RemoteFailed StatusUnauthorized \<Rightarrow> modify (\<lambda>w. w\<lparr>w_broken := True\<rparr>) (throw ErrAuthRequired)
          | RemoteFailed StatusForbidden \<Rightarrow> throw ErrNotPermitted
          | RemoteFailed TransportFailed \<Rightarrow> throw ErrRemote
          | RemoteIsError \<Rightarrow> throw ErrBusinessRejected
          | RemoteOK value \<Rightarrow> succeed value)))))"


section \<open>What a binding may call\<close>

lemma bind_aliases_keeps: "bind_aliases m ts = Inr m' \<Longrightarrow> map_of m a = Some t \<Longrightarrow> map_of m' a = Some t"
  by (induction m ts rule: bind_aliases.induct) (auto split: option.splits if_splits simp: map_add_Some_iff)

lemma bind_aliases_bound:
  "bind_aliases m ts = Inr m' \<Longrightarrow> t \<in> set ts \<Longrightarrow> \<exists>t'. map_of m' (t_Alias t) = Some t' \<and> t_RemoteName t' = t_RemoteName t"
proof (induction m ts rule: bind_aliases.induct)
  case (2 m u ts)
  show ?case
  proof (cases "t = u")
    case True
    show ?thesis
    proof (cases "map_of m (t_Alias u)")
      case None
      then show ?thesis using 2(3) True bind_aliases_keeps [of "m @ [(t_Alias u, u)]" ts m' "t_Alias u" u] by (simp add: map_add_def)
    next
      case (Some prior)
      then show ?thesis using 2(3) True bind_aliases_keeps [of m ts m' "t_Alias u" prior] by (auto split: if_splits)
    qed
  next
    case False
    with 2 show ?thesis by (auto split: option.splits if_splits)
  qed
qed simp

lemma bind_aliases_from:
  "bind_aliases m ts = Inr m' \<Longrightarrow> map_of m' a = Some t \<Longrightarrow> map_of m a = Some t \<or> t \<in> set ts \<and> t_Alias t = a"
  by (induction m ts rule: bind_aliases.induct) (fastforce split: option.splits if_splits simp: map_add_Some_iff)+

text \<open>What opening a binding establishes.\<close>

definition binding_ok :: "DefinitionSet \<Rightarrow> Binding \<Rightarrow> bool" where
  "binding_ok ds b \<longleftrightarrow> (\<exists>view. b_resolutions b = resolve_all ds view \<and> cw_ProductVersion view = b_productVersion b \<and>
     cw_Digest view = b_digest b \<and> bind_aliases [] (available_tools (b_resolutions b)) = Inr (b_byAlias b))"

lemma Open_binding_ok: "Open_binding env scope ow ds ttl w = (Inr b, w') \<Longrightarrow> binding_ok ds b"
  unfolding binding_ok_def
  by (auto simp: Open_binding_def open_session_def check_def throw_def ask_def modify_def bindr_def succeed_def Let_def
      split: sum.splits prod.splits if_splits)

lemma available_resolution:
  assumes "b_resolutions b = resolve_all ds view" "r \<in> set (b_resolutions b)" "Available r" "t \<in> set (res_Tools r)"
  shows "\<exists>j \<in> set (Set_Journeys ds). j_ID j = res_JourneyID r \<and> tool_allowed j view (OperationMetaKey (ds_catalog ds)) t"
proof -
  let ?rs = "map (\<lambda>j. Resolve_journey j view (OperationMetaKey (ds_catalog ds))) (Set_Journeys ds)"
  from assms have r: "r \<in> set (CheckPolicies ?rs)" by (simp add: resolve_all_def)
  then obtain q where q: "q \<in> set ?rs" "r = check_policy ?rs q" by (auto simp: CheckPolicies_def)
  with assms(3) have "r = q" by (auto simp: check_policy_def Available_def split: if_splits)
  with q(1) obtain j where j: "j \<in> set (Set_Journeys ds)" "r = Resolve_journey j view (OperationMetaKey (ds_catalog ds))" by auto
  have "j_ID j = res_JourneyID r" using j(2) by (simp add: Resolve_journey_def Let_def)
  moreover have "list_all (tool_allowed j view (OperationMetaKey (ds_catalog ds))) (res_Tools r)"
    using resolution_tools [of j view "OperationMetaKey (ds_catalog ds)" "res_Tools r"] assms(3) j(2) by simp
  ultimately show ?thesis using j(1) assms(4) by (auto simp: list_all_iff)
qed

lemma Binding_Tool_Some:
  "Binding_Tool b journeyID alias = Some t \<Longrightarrow>
     \<exists>r \<in> set (b_resolutions b). Available r \<and> res_JourneyID r = journeyID \<and> t \<in> set (res_Tools r) \<and> t_Alias t = alias"
  by (force simp: Binding_Tool_def Binding_Resolution_def find_Some_iff split: option.splits if_splits)

lemma find_alias_sorted:
  assumes "binding_ok ds b" "map_of (b_byAlias b) alias = Some t"
  shows "t_Alias t = alias \<and> (\<exists>r \<in> set (b_resolutions b). Available r \<and> t \<in> set (res_Tools r))"
  using assms bind_aliases_from [of "[]" "available_tools (b_resolutions b)" "b_byAlias b" "alias" t]
  by (auto simp: binding_ok_def available_tools_def)


definition example_set :: DefinitionSet where
  "example_set = \<lparr>ds_catalog = \<lparr>OperationMetaKey = ''op'', CallIDHeader = []\<rparr>, ds_conversationPrompt = [],
     ds_digest = replicate 64 (CHR ''a''), ds_order = [''orders''], ds_journeys = [''orders'' \<mapsto> example_journey]\<rparr>"

definition example_scope :: CatalogScope where
  "example_scope = \<lparr>cp_ProductVersion = ''1'', cp_Endpoint = \<lparr>ep_id = ''e'', ep_url = ''u''\<rparr>\<rparr>"

definition listing_env :: env where
  "listing_env = quiet_env\<lparr>env_list := (\<lambda>n. Inr (Some (print_json (JArr [JObj
     [(''name'', JStr ''list''), (''_meta'', JObj [(''op'', JStr ''orders.list'')])]]))))\<rparr>"


end
