(* ===== verification/Runtime_Dispatch.thy ===== *)
theory Runtime_Dispatch
  imports Catalog_Binding
begin

text \<open>
  Planning and dispatch of the calls of a model response (\<open>internal/runtime/dispatch.go\<close>, \<open>tool_policy.go\<close>): the
  tools that are offered, the journey that owns an alias, which calls of a response are executed, and the guarded call,
  which records an attempt in the journal before the endpoint sees it.
\<close>

section \<open>Tools of a round\<close>

definition toolRequestUserInput :: string where "toolRequestUserInput = ''request_user_input''"
definition toolActivateJourney :: string where "toolActivateJourney = ''activate_journey''"
definition toolReadSkillResource :: string where "toolReadSkillResource = ''read_skill_resource''"

definition object_schema :: "string list \<Rightarrow> (string \<times> json) list \<Rightarrow> json" where
  "object_schema required properties = JObj
     [(''additionalProperties'', JBool False), (''properties'', JObj properties),
      (''required'', JArr (map JStr required)), (''type'', JStr ''object'')]"

definition string_schema :: json where "string_schema = JObj [(''type'', JStr ''string'')]"

definition array_schema :: "string \<Rightarrow> string \<Rightarrow> json \<Rightarrow> json" where
  "array_schema least most items = JObj
     [(''items'', items), (''maxItems'', JNum most), (''minItems'', JNum least), (''type'', JStr ''array'')]"

definition question_schema :: json where
  "question_schema = object_schema [''questions''] [(''questions'', array_schema ''1'' ''3''
     (object_schema [''id'', ''header'', ''question'', ''options'']
        [(''header'', JObj [(''maxLength'', JNum ''12''), (''type'', JStr ''string'')]), (''id'', string_schema),
         (''options'', array_schema ''2'' ''3'' (object_schema [''label'', ''description'']
            [(''description'', string_schema), (''label'', string_schema)])),
         (''question'', string_schema)]))]"

definition questionTool :: ModelTool where
  "questionTool = \<lparr>mt_Name = toolRequestUserInput, mt_Description =
     ''Ask one to three structured clarification questions. An answer never approves a business action.'',
     mt_Schema = Some question_schema\<rparr>"

definition activateTool :: "string list \<Rightarrow> ModelTool" where
  "activateTool available = \<lparr>mt_Name = toolActivateJourney, mt_Description =
     ''Activate one available journey so that its tools can be used. Call it with the journey ID before using that journey'' @
     [CHR 39] @ ''s tools.'',
     mt_Schema = Some (object_schema [''journey''] [(''journey'', JObj
       ((if available = [] then [] else [(''enum'', JArr (map JStr available))]) @ [(''type'', JStr ''string'')]))])\<rparr>"

definition readSkillResourceTool :: ModelTool where
  "readSkillResourceTool = \<lparr>mt_Name = toolReadSkillResource,
     mt_Description = ''Read one declared supporting file of an active journey.'',
     mt_Schema = Some (object_schema [''journey'', ''resource''] [(''journey'', string_schema), (''resource'', string_schema)])\<rparr>"

definition resourceSkill :: "Journey \<Rightarrow> string option" where
  "resourceSkill journey =
     map_option sp_Name (find (\<lambda>s. \<not> sp_Disabled s \<and> sp_AllowSupportingFiles s) (j_Skills journey))"

definition offersResources :: "Journey list \<Rightarrow> bool" where
  "offersResources active = list_ex (\<lambda>j. resourceSkill j \<noteq> None) active"

definition roundTools :: "ModelTool list \<Rightarrow> string list \<Rightarrow> Journey list \<Rightarrow> ModelTool list" where
  "roundTools aliasTools available active =
     aliasTools @ [questionTool, activateTool available] @ (if offersResources active then [readSkillResourceTool] else [])"

definition journeyMetadata :: "Journey list \<Rightarrow> Metadata list" where
  "journeyMetadata js = map (\<lambda>j. \<lparr>md_ID = j_ID j, md_Description = j_Description j\<rparr>) js"

definition composeInstructions :: "string \<Rightarrow> Journey list \<Rightarrow> Journey list \<Rightarrow> string" where
  "composeInstructions base available active =
     Compose base (journeyMetadata available) (map (\<lambda>j. \<lparr>in_ID = j_ID j, in_Body = j_Prompt j\<rparr>) active)"

section \<open>Planning\<close>

datatype callKind = callInactive | callActivate | callNotExecuted | callAsk | callReadResource | callAlias

record plannedCall =
  pl_Call :: FunctionCall
  pl_Kind :: callKind
  pl_Journey :: string

definition owningJourney :: "string list \<Rightarrow> (string \<Rightarrow> string \<Rightarrow> bool) \<Rightarrow> string \<Rightarrow> string option" where
  "owningJourney active has alias = find (\<lambda>j. has j alias) (rev active)"

definition plan_call :: "bool \<Rightarrow> bool \<Rightarrow> (string \<Rightarrow> string option) \<Rightarrow> FunctionCall \<Rightarrow> plannedCall" where
  "plan_call activating resources owner c =
     (let step = (\<lambda>k j. \<lparr>pl_Call = c, pl_Kind = k, pl_Journey = j\<rparr>) in
      if fc_Name c = toolActivateJourney then step callActivate []
      else if activating then step callNotExecuted []
      else if fc_Name c = toolRequestUserInput then step callAsk []
      else if fc_Name c = toolReadSkillResource \<and> resources then step callReadResource []
      else case owner (fc_Name c) of Some j \<Rightarrow> step callAlias j | None \<Rightarrow> step callInactive [])"

definition planCalls :: "FunctionCall list \<Rightarrow> bool \<Rightarrow> (string \<Rightarrow> string option) \<Rightarrow> plannedCall list" where
  "planCalls calls resources owner =
     map (plan_call (list_ex (\<lambda>c. fc_Name c = toolActivateJourney) calls) resources owner) calls"

section \<open>The guarded call\<close>

definition call_outcome :: "run_error + json \<Rightarrow> string" where
  "call_outcome r =
     (case r of
        Inr _ \<Rightarrow> ''completed''
      | Inl e \<Rightarrow>
          if e = ErrAuthRequired then ''auth_required''
          else if e = ErrBusinessRejected \<or> e = ErrNotPermitted then ''rejected''
          else ''outcome_unknown'')"

fun guarded_loop :: "env \<Rightarrow> Owner \<Rightarrow> Binding \<Rightarrow> Operation \<Rightarrow> string \<Rightarrow> int list \<Rightarrow> result run" where
  "guarded_loop env ow b x grant [] = throw (ErrJournal ErrOutcomeUnknown)"
| "guarded_loop env ow b x grant (attempt # rest) =
     bindr (journal env (BeginAttempt (env_lib env) ow x attempt grant)) (\<lambda>_.
     outcome_of (Call env b (o_CallID x) (o_Name x) (o_Arguments x)) (\<lambda>r.
     bindr (journal env (EndAttempt ow x attempt (call_outcome r))) (\<lambda>_.
     case r of
       Inr value \<Rightarrow> succeed (RemoteResult value)
     | Inl e \<Rightarrow>
         if call_outcome r = ''auth_required'' then throw e
         else if e = ErrNotPermitted then succeed (AnyMap [(''error'', JStr ''not_permitted'')])
         else if \<not> (o_Policy x = ''read_only'' \<or> o_Policy x = ''idempotent'') \<or> attempt = 2 then
           (if call_outcome r = ''outcome_unknown'' then throw (ErrJournal ErrOutcomeUnknown)
            else succeed (AnyMap [(''error'', JStr ''business_rejected'')]))
         else ask (env_done env) (\<lambda>ended. if ended then throw ErrContext else guarded_loop env ow b x grant rest))))"

definition guardedCall :: "env \<Rightarrow> Owner \<Rightarrow> Binding \<Rightarrow> Operation \<Rightarrow> string \<Rightarrow> result run" where
  "guardedCall env ow b x grant = guarded_loop env ow b x grant [1, 2]"

section \<open>Calls stay on record\<close>

definition same_call_row :: "operation_row \<Rightarrow> operation_row \<Rightarrow> bool" where
  "same_call_row x y \<longleftrightarrow> y = x\<lparr>op_outcome := op_outcome y\<rparr>"

definition attempts_of :: "string \<Rightarrow> db \<Rightarrow> nat" where
  "attempts_of c db = length (filter (\<lambda>a. at_call_id a = c) (attempts db))"

definition calls_recorded :: "db \<Rightarrow> db \<Rightarrow> bool" where
  "calls_recorded db db' \<longleftrightarrow>
     (\<forall>x \<in> set (operations db). \<exists>y \<in> set (operations db'). same_call_row x y) \<and> (\<forall>c. attempts_of c db \<le> attempts_of c db')"

lemma same_call_row_refl [simp]: "same_call_row x x"
  by (simp add: same_call_row_def)

lemma same_call_row_trans: "same_call_row x y \<Longrightarrow> same_call_row y z \<Longrightarrow> same_call_row x z"
  by (cases x; cases y; cases z) (simp add: same_call_row_def)

lemma same_call_row_fields:
  "same_call_row x y \<Longrightarrow> op_call_id y = op_call_id x \<and> op_alias y = op_alias x \<and> op_arguments y = op_arguments x \<and>
     op_policy y = op_policy x \<and> op_requires_approval y = op_requires_approval x \<and> op_thread_id y = op_thread_id x"
  by (cases x; cases y) (simp add: same_call_row_def)

lemma calls_recorded_refl: "calls_recorded db db"
  unfolding calls_recorded_def using same_call_row_refl by blast

lemma calls_recorded_trans: "calls_recorded a b \<Longrightarrow> calls_recorded b c \<Longrightarrow> calls_recorded a c"
  unfolding calls_recorded_def by (meson order_trans same_call_row_trans)

lemma filter_update_attempts:
  "length (filter (\<lambda>a. at_call_id a = c) (update_where p (\<lambda>a. a\<lparr>at_outcome := s\<rparr>) xs)) = length (filter (\<lambda>a. at_call_id a = c) xs)"
  by (induction xs) auto

lemma operations_later_move:
  assumes "move lib db db'" "x \<in> set (operations db)"
  shows "\<exists>y \<in> set (operations db'). same_call_row x y"
  using assms(1)
proof (cases rule: move.cases)
  case (retry z)
  have "same_call_row y (y\<lparr>op_outcome := ''dispatching''\<rparr>)" for y by (simp add: same_call_row_def)
  from update_rows_later [where R = same_call_row and p = "\<lambda>y. op_call_id y = op_call_id z", OF this same_call_row_refl assms(2)] show ?thesis
    by (simp add: retry(1) update_operations_def)
next
  case (outcome p s)
  have "same_call_row y (y\<lparr>op_outcome := s\<rparr>)" for y by (simp add: same_call_row_def)
  from update_rows_later [where R = same_call_row and p = p, OF this same_call_row_refl assms(2)] show ?thesis
    by (simp add: outcome(1) update_operations_def)
qed (rule bexI [of _ x], simp, use assms(2) in
    \<open>simp add: table_updates set_marker_def markActivated_def insert_snapshot_def add_event_def\<close>)+

lemma calls_recorded_move: "move lib db db' \<Longrightarrow> calls_recorded db db'"
proof -
  assume mv: "move lib db db'"
  have "attempts_of c db \<le> attempts_of c db'" for c
    using mv by (cases rule: move.cases)
      (simp_all add: attempts_of_def table_updates set_marker_def markActivated_def insert_snapshot_def add_event_def filter_update_attempts)
  with operations_later_move [OF mv] show ?thesis by (simp add: calls_recorded_def)
qed

lemma calls_recorded_requests: "reachable lib db \<Longrightarrow> calls_recorded db (run_requests lib reqs db)"
  by (rule reachable_relation [of lib db calls_recorded])
     (auto intro: calls_recorded_refl calls_recorded_trans calls_recorded_move)


text \<open>Every call that was sent is on record, and was sent no more often than the record has attempts.\<close>

definition row_on_record :: "string \<Rightarrow> string \<Rightarrow> bytes \<Rightarrow> db \<Rightarrow> bool" where
  "row_on_record callID alias args db \<longleftrightarrow>
     (\<exists>y \<in> set (operations db). op_call_id y = callID \<and> op_alias y = alias \<and> op_arguments y = args)"

definition times_sent :: "string \<Rightarrow> world \<Rightarrow> nat" where
  "times_sent c w = length (filter (\<lambda>s. st_call s = c) (w_sent w))"

definition sent_ok :: "world \<Rightarrow> bool" where
  "sent_ok w \<longleftrightarrow> (\<forall>s \<in> set (w_sent w). row_on_record (st_call s) (st_alias s) (st_arguments s) (w_db w)) \<and>
     (\<forall>c. times_sent c w \<le> attempts_of c (w_db w))"

definition safe :: "env \<Rightarrow> world \<Rightarrow> world \<Rightarrow> bool" where
  "safe env w w' \<longleftrightarrow> requests_between env w w' \<and> (reachable (env_lib env) (w_db w) \<longrightarrow> sent_ok w \<longrightarrow> sent_ok w')"

lemma reachable_between: "requests_between env w w' \<Longrightarrow> reachable (env_lib env) (w_db w) \<Longrightarrow> reachable (env_lib env) (w_db w')"
  unfolding requests_between_def using reachable_requests by metis

lemma recorded_between: "requests_between env w w' \<Longrightarrow> reachable (env_lib env) (w_db w) \<Longrightarrow> calls_recorded (w_db w) (w_db w')"
  unfolding requests_between_def using calls_recorded_requests by metis

lemma row_recorded: "calls_recorded db db' \<Longrightarrow> row_on_record c a args db \<Longrightarrow> row_on_record c a args db'"
  unfolding calls_recorded_def row_on_record_def using same_call_row_fields by metis

interpretation safe: world_relation "safe env" for env
proof
  show "safe env w w" for w by (simp add: safe_def req.refl)
  show "safe env w w''" if "safe env w w'" "safe env w' w''" for w w' w''
    using that req.trans [of env w w' w''] reachable_between unfolding safe_def by blast
qed

lemma sent_ok_recorded: "sent_ok w \<Longrightarrow> calls_recorded (w_db w) (w_db w') \<Longrightarrow> w_sent w' = w_sent w \<Longrightarrow> sent_ok w'"
  unfolding sent_ok_def times_sent_def using row_recorded [of "w_db w" "w_db w'"]
  by (auto simp: calls_recorded_def intro: order_trans)

lemma safe_between: "requests_between env w w' \<Longrightarrow> w_sent w' = w_sent w \<Longrightarrow> safe env w w'"
  unfolding safe_def using sent_ok_recorded recorded_between by blast

lemma safe_same: "w_db w' = w_db w \<Longrightarrow> w_sent w' = w_sent w \<Longrightarrow> safe env w w'"
  by (rule safe_between) (simp_all add: requests_between_def exI [of _ "[]"])

lemma journal_sent [simp]: "w_sent (snd (journal env f w)) = w_sent w"
  by (auto simp: journal_def Let_def split: prod.splits option.splits)

lemma journal_safe: "is_request (env_lib env) f \<Longrightarrow> keeps (safe env) (journal env f)"
  using journal_requests [of env f] unfolding keeps_def by (auto intro: safe_between)

lemma modify_safe: "(\<And>w. w_db (f w) = w_db w \<and> w_sent (f w) = w_sent w) \<Longrightarrow> keeps (safe env) k \<Longrightarrow> keeps (safe env) (modify f k)"
  by (rule safe.keeps_modify) (auto intro: safe_same)

lemma ask_safe: "(\<And>x. keeps (safe env) (k x)) \<Longrightarrow> keeps (safe env) (ask f k)"
  by (rule safe.keeps_ask) (auto intro: safe_same)

lemmas safe_rules = safe.keeps_succeed safe.keeps_throw safe.keeps_bindr safe.keeps_outcome_of safe.keeps_check
  safe.keeps_from_sum safe.keeps_read modify_safe ask_safe journal_safe


section \<open>The guarded call is safe\<close>

lemma appendEvent_tables: "appendEvent t e db = Inr (u, db') \<Longrightarrow> operations db' = operations db \<and> attempts db' = attempts db"
  by (auto simp: appendEvent_def exec_def query_row_def return_def fail_def update_conversation_def split: option.splits)

lemma start_attempt_tables:
  "start_attempt ow x n db = Inr (u, db') \<Longrightarrow> operations db' = operations db \<and>
     attempts db' = attempts db @ [first_attempt_row (o_CallID x) n] \<and> \<not> u"
  by (auto simp: start_attempt_ok dest: appendEvent_tables)

lemma supersede_result: "first_attempt ow x grant b r now db = Inr (u, db') \<Longrightarrow> \<not> u \<Longrightarrow>
    (\<exists>y \<in> set (operations db'). op_call_id y = o_CallID x \<and> op_alias y = o_Name x \<and> op_arguments y = o_Arguments x) \<and>
    attempts db' = attempts db @ [first_attempt_row (o_CallID x) 1]"
  by (auto simp: first_attempt_def insert_operation_def new_operation_def set_marker_def update_interactions_def
      split: if_splits dest!: start_attempt_tables)

lemma BeginAttempt_recorded:
  assumes "BeginAttempt lib ow x n grant now db = (Inr u, db')"
  shows "attempts_of c db' = attempts_of c db + (if c = o_CallID x then 1 else 0)"
    "n = 1 \<Longrightarrow> row_on_record (o_CallID x) (o_Name x) (o_Arguments x) db'"
proof -
  from assms have "owned ow now (begin_body lib ow x n grant now) db = (Inr False, db')"
    by (auto simp: BeginAttempt_def split: if_splits prod.splits sum.splits)
  then obtain r where k: "(if n = 1 then first_attempt ow x grant (o_Binding x) r now else second_attempt ow x n) db = Inr (False, db')"
    by (auto simp: owned_Inr begin_body_def)
  have rows: "attempts db' = attempts db @ [first_attempt_row (o_CallID x) n]"
  proof (cases "n = 1")
    case False
    with k show ?thesis
      by (auto simp: second_attempt_def update_operations_def dest!: start_attempt_tables)
  qed (use k supersede_result [of ow x grant "o_Binding x" r now db False db'] in auto)
  then show "attempts_of c db' = attempts_of c db + (if c = o_CallID x then 1 else 0)"
    by (simp add: attempts_of_def first_attempt_row_def)
  show "row_on_record (o_CallID x) (o_Name x) (o_Arguments x) db'" if "n = 1"
    using that k supersede_result [of ow x grant "o_Binding x" r now db False db'] by (auto simp: row_on_record_def)
qed


lemma Call_world:
  assumes "Call env b c a args w = (r, w')"
  shows "w_db w' = w_db w \<and> (w_sent w' = w_sent w \<or>
    (\<exists>t. map_of (b_byAlias b) a = Some t \<and>
       w_sent w' = w_sent w @ [\<lparr>st_call = c, st_alias = a, st_remote = t_RemoteName t, st_arguments = args\<rparr>]))"
  using assms
  by (auto simp: Call_def read_def check_def modify_def ask_def throw_def succeed_def
      split: option.splits if_splits remote_reply.splits transport_error.splits)

lemma journal_Inr:
  "journal env f w = (Inr a, w') \<longleftrightarrow>
     (\<exists>db'. f (env_now env (w_tick w)) (run_requests (env_lib env) (env_others env (w_tick w)) (w_db w)) = (Inr a, db') \<and>
       env_fault env (w_tick w) = None \<and> w' = w\<lparr>w_db := db', w_tick := Suc (w_tick w)\<rparr>)"
  by (auto simp: journal_def Let_def split: prod.splits option.splits sum.splits)

lemma BeginAttempt_request: "is_request lib (BeginAttempt lib ow x n grant)"
  by (rule is_requestI [of _ _ "ReqBeginAttempt ow x n grant"]) simp

lemma EndAttempt_request: "is_request lib (EndAttempt ow x n s)"
  by (rule is_requestI [of _ _ "ReqEndAttempt ow x n s"]) simp

lemma dispatch_safe:
  assumes start: "journal env (BeginAttempt (env_lib env) ow x n grant) w = (Inr u, w1)"
    and row: "n = 1 \<or> row_on_record (o_CallID x) (o_Name x) (o_Arguments x) (w_db w)"
    and call: "Call env b (o_CallID x) (o_Name x) (o_Arguments x) w1 = (r, w2)"
  shows "safe env w w2"
    "reachable (env_lib env) (w_db w) \<Longrightarrow> row_on_record (o_CallID x) (o_Name x) (o_Arguments x) (w_db w2)"
proof -
  let ?db = "run_requests (env_lib env) (env_others env (w_tick w)) (w_db w)"
  from start have b: "BeginAttempt (env_lib env) ow x n grant (env_now env (w_tick w)) ?db = (Inr u, w_db w1)" "w_sent w1 = w_sent w"
    by (auto simp: journal_Inr)
  note rec = BeginAttempt_recorded [OF b(1)] and c = Call_world [OF call]
  have req: "requests_between env w w1"
    using keepsD [OF journal_requests [OF BeginAttempt_request] start] .
  have recorded: "row_on_record (o_CallID x) (o_Name x) (o_Arguments x) (w_db w1)" if "reachable (env_lib env) (w_db w)"
    using row rec(2) row_recorded [OF recorded_between [OF req that]] by blast
  then show "row_on_record (o_CallID x) (o_Name x) (o_Arguments x) (w_db w2)" if "reachable (env_lib env) (w_db w)" using c that by simp
  have "sent_ok w2" if r: "reachable (env_lib env) (w_db w)" and ok: "sent_ok w"
    unfolding sent_ok_def
  proof (intro conjI allI ballI)
    have kept: "row_on_record (st_call s) (st_alias s) (st_arguments s) (w_db w1)" if "s \<in> set (w_sent w)" for s
      using ok that row_recorded [OF recorded_between [OF req r]] by (simp add: sent_ok_def)
    show "row_on_record (st_call s) (st_alias s) (st_arguments s) (w_db w2)" if "s \<in> set (w_sent w2)" for s
      using that c kept recorded [OF r] b(2) by auto
    show "times_sent cid w2 \<le> attempts_of cid (w_db w2)" for cid
    proof -
      have "times_sent cid w \<le> attempts_of cid ?db"
        using ok calls_recorded_requests [OF r, of "env_others env (w_tick w)"] unfolding sent_ok_def calls_recorded_def
        by (meson order_trans)
      moreover have "times_sent cid w2 \<le> times_sent cid w + (if cid = o_CallID x then 1 else 0)"
        using c b(2) by (auto simp: times_sent_def)
      ultimately show ?thesis using rec(1) [of cid] c by (auto split: if_splits)
    qed
  qed
  moreover have "requests_between env w w2" using req c by (simp add: requests_between_def)
  ultimately show "safe env w w2" by (simp add: safe_def)
qed

lemma guarded_loop_requests: "keeps (requests_between env) (guarded_loop env ow b x grant ns)"
proof (induction ns)
  case (Cons n ns)
  have call: "keeps (requests_between env) (Call env b c a args)" for c a args
    using Call_world [of env b c a args] unfolding keeps_def requests_between_def
    by (intro allI exI [of _ "[]"]) (metis run_requests.simps(1) surjective_pairing)
  have tick: "requests_between env w (w\<lparr>w_tick := n\<rparr>)" for w n
    unfolding requests_between_def by (rule exI [of _ "[]"]) simp
  show ?case
    using Cons
    by (auto intro!: req.keeps_bindr req.keeps_outcome_of req.keeps_throw req.keeps_succeed req.keeps_ask journal_requests
        BeginAttempt_request EndAttempt_request call tick split: sum.split)
qed (simp add: req.keeps_throw)

definition good :: "env \<Rightarrow> world \<Rightarrow> bool" where
  "good env w \<longleftrightarrow> reachable (env_lib env) (w_db w) \<and> sent_ok w"

lemma good_safe: "good env w \<Longrightarrow> safe env w w' \<Longrightarrow> good env w'"
  unfolding good_def safe_def using reachable_between by blast

lemma guarded_loop_step:
  assumes good: "good env w" and row: "n = 1 \<or> row_on_record (o_CallID x) (o_Name x) (o_Arguments x) (w_db w)"
    and tail: "\<And>w. good env w \<Longrightarrow> row_on_record (o_CallID x) (o_Name x) (o_Arguments x) (w_db w) \<Longrightarrow>
      good env (snd (guarded_loop env ow b x grant rest w))"
  shows "good env (snd (guarded_loop env ow b x grant (n # rest) w))"
proof -
  obtain r1 w1 where j: "journal env (BeginAttempt (env_lib env) ow x n grant) w = (r1, w1)" by fastforce
  show ?thesis
  proof (cases r1)
    case (Inl e)
    with j good_safe [OF good keepsD [OF journal_safe [OF BeginAttempt_request] j]] show ?thesis by (simp add: bindr_def)
  next
    case (Inr u)
    obtain r w2 where call: "Call env b (o_CallID x) (o_Name x) (o_Arguments x) w1 = (r, w2)" by fastforce
    note d = dispatch_safe [OF j [unfolded Inr] row call]
    have g2: "good env w2" and row2: "row_on_record (o_CallID x) (o_Name x) (o_Arguments x) (w_db w2)"
      using d good good_safe [OF good d(1)] by (auto simp: good_def)
    obtain r3 w3 where e: "journal env (EndAttempt ow x n (call_outcome r)) w2 = (r3, w3)" by fastforce
    note safe3 = keepsD [OF journal_safe [OF EndAttempt_request] e]
    have g3: "good env w3" using good_safe [OF g2 safe3] .
    have row3: "row_on_record (o_CallID x) (o_Name x) (o_Arguments x) (w_db w3)"
      using row_recorded [OF recorded_between row2] safe3 g2 by (auto simp: safe_def good_def)
    have g4: "good env (w3\<lparr>w_tick := m\<rparr>)" for m using g3 by (simp add: good_def sent_ok_def times_sent_def)
    show ?thesis
      using j Inr call e g3 g4 tail [OF g4] row3
      by (auto simp: bindr_def outcome_of_def throw_def succeed_def ask_def split: sum.split)
  qed
qed

lemma guardedCall_safe: "keeps (safe env) (guardedCall env ow b x grant)"
proof -
  have none: "good env w \<Longrightarrow> good env (snd (guarded_loop env ow b x grant [] w))" for w by (simp add: throw_def)
  have two: "good env (snd (guarded_loop env ow b x grant [2] w))"
    if "good env w" "row_on_record (o_CallID x) (o_Name x) (o_Arguments x) (w_db w)" for w
    by (rule guarded_loop_step [OF that(1) disjI2 [OF that(2)] none])
  have "good env (snd (guarded_loop env ow b x grant [1, 2] w))" if "good env w" for w
    by (rule guarded_loop_step [OF that disjI1 [OF refl] two])
  with guarded_loop_requests [of env ow b x grant "[1, 2]"] show ?thesis
    unfolding keeps_def safe_def guardedCall_def good_def by blast
qed

end
