(* ===== verification/Skills.thy ===== *)
theory Skills
  imports Definitions
begin

text \<open>
  Skill material of a journey (\<open>internal/skills/source.go\<close>): only files that were declared and compiled are read, and only
  while they still have the digest they were compiled with. SHA-256 in hexadecimal is a parameter.
\<close>

datatype skill_error = SkillUnavailable | SkillChanged

record SkillMetadata =
  sm_Name :: string
  sm_Description :: string
  sm_Digest :: string

record Material =
  ma_Name :: string
  ma_Resource :: string
  ma_SkillDigest :: string
  ma_FileDigest :: string
  ma_Body :: bytes

text \<open>A later package of the same name replaces an earlier one.\<close>

definition Source_New :: "Journey \<Rightarrow> string \<rightharpoonup> SkillPackage" where
  "Source_New journey = map_of (rev (map (\<lambda>s. (sp_Name s, s)) (j_Skills journey)))"

definition Source_Catalog :: "Journey \<Rightarrow> SkillMetadata list" where
  "Source_Catalog journey =
     map (\<lambda>s. \<lparr>sm_Name = sp_Name s, sm_Description = sp_Description s, sm_Digest = sp_Digest s\<rparr>)
       (filter (\<lambda>s. \<not> sp_Disabled s) (List.map_filter (Source_New journey) (sort (remdups (map sp_Name (j_Skills journey))))))"

definition Source_Read :: "(bytes \<Rightarrow> string) \<Rightarrow> (string \<rightharpoonup> SkillPackage) \<Rightarrow> string \<Rightarrow> string \<Rightarrow> skill_error + Material" where
  "Source_Read sha source name resource =
     (case source name of
        None \<Rightarrow> Inl SkillUnavailable
      | Some skill \<Rightarrow>
          if sp_Disabled skill then Inl SkillUnavailable
          else
            (let found =
               (if resource = [] \<or> resource = ''SKILL.md'' then Some (''SKILL.md'', sp_Instructions skill)
                else if \<not> sp_AllowSupportingFiles skill then None
                else map_option (\<lambda>f. (resource, f)) (map_of (sp_Supporting skill) resource))
             in case found of
                  None \<Rightarrow> Inl SkillUnavailable
                | Some (res, file) \<Rightarrow>
                    if sha (sf_Data file) \<noteq> sf_Digest file then Inl SkillChanged
                    else Inr \<lparr>ma_Name = sp_Name skill, ma_Resource = res, ma_SkillDigest = sp_Digest skill,
                              ma_FileDigest = sf_Digest file, ma_Body = sf_Data file\<rparr>))"

lemma Source_New_Some: "Source_New journey name = Some s \<Longrightarrow> s \<in> set (j_Skills journey) \<and> sp_Name s = name"
  by (auto simp: Source_New_def dest!: map_of_SomeD)

text \<open>Reading skill material returns only compiled bytes that still have their digest: the material comes from an enabled
  package of the journey, is either its instructions or, where the package allows it, a supporting file declared under
  the requested name, and the digest reported with it is the digest of the bytes returned.\<close>

theorem Source_Read_declared:
  assumes "Source_Read sha (Source_New journey) name resource = Inr m"
  shows "\<exists>s f. s \<in> set (j_Skills journey) \<and> sp_Name s = name \<and> \<not> sp_Disabled s \<and> ma_Body m = sf_Data f \<and>
    ma_FileDigest m = sha (ma_Body m) \<and> ma_FileDigest m = sf_Digest f \<and>
    (f = sp_Instructions s \<and> ma_Resource m = ''SKILL.md'' \<and> resource \<in> {[], ''SKILL.md''} \<or>
     sp_AllowSupportingFiles s \<and> map_of (sp_Supporting s) resource = Some f \<and> ma_Resource m = resource)"
proof -
  from assms obtain s where s: "Source_New journey name = Some s" "\<not> sp_Disabled s"
    by (auto simp: Source_Read_def split: option.splits if_splits)
  from assms s show ?thesis
    using Source_New_Some [OF s(1)]
    by (intro exI [of _ s]) (auto simp: Source_Read_def Let_def split: if_splits option.splits)
qed

definition example_package :: SkillPackage where
  "example_package = \<lparr>sp_Name = ''k'', sp_Description = ''d'', sp_Disabled = False, sp_AllowSupportingFiles = True,
     sp_Instructions = \<lparr>sf_Name = ''SKILL.md'', sf_Digest = ''x'', sf_Data = ''x''\<rparr>,
     sp_Supporting = [(''a.md'', \<lparr>sf_Name = ''a.md'', sf_Digest = ''y'', sf_Data = ''y''\<rparr>)], sp_Digest = []\<rparr>"

definition skilled_journey :: Journey where
  "skilled_journey = \<lparr>j_ID = ''j'', j_Description = [], j_Prompt = [], j_Skills = [example_package], j_Digest = [],
     j_Tools = [], j_Deny = [], j_MaxTools = 0, j_ProductVersions = \<lparr>Min = [], MaxExclusive = []\<rparr>,
     j_Catalog = \<lparr>OperationMetaKey = ''op'', CallIDHeader = []\<rparr>, j_Skill = []\<rparr>"

theorem Source_Read_declared_witness:
  "\<exists>m f. Source_Read (\<lambda>b. b) (Source_New skilled_journey) ''k'' ''a.md'' = Inr m \<and> ma_Body m = sf_Data f \<and>
     map_of (sp_Supporting example_package) ''a.md'' = Some f"
proof -
  have "\<not> isl (Source_Read (\<lambda>b. b) (Source_New skilled_journey) ''k'' ''a.md'')" by code_simp
  then obtain m where m: "Source_Read (\<lambda>b. b) (Source_New skilled_journey) ''k'' ''a.md'' = Inr m"
    by (auto simp: isl_def) (metis Inl_Inr_False sumE)
  from Source_Read_declared [OF m] m show ?thesis by (auto simp: skilled_journey_def)
qed

end
