(* ===== verification/Runtime_Agent.thy ===== *)
theory Runtime_Agent
  imports Runtime_Dispatch Skills Settings
begin

text \<open>
  The conversation agent of a run (\<open>internal/runtime/interactions.go\<close>, first part, and \<open>modelRun\<close> of
  \<open>run.go\<close>): the active set and its persistence, the binding of a call, the built-in tools, and one request to the
  model. The active set, the history and the counters of a run are in the \<open>world\<close>, so that they outlive an error.
\<close>

section \<open>Input, output and the conversation\<close>

record RunInput =
  ri_Owner :: Owner
  ri_Iteration :: nat
  ri_History :: bytes
  ri_ThreadID :: string
  ri_RunID :: string
  ri_Principal :: string
  ri_Tenant :: string
  ri_Text :: string
  ri_TargetJourney :: string
  ri_DefinitionDigest :: string
  ri_Credential :: Credential
  ri_ProductVersion :: string
  ri_Endpoint :: Endpoint
  ri_Settings :: Settings
  ri_Attribution :: Attribution
  ri_Access :: Access

record RunOutput =
  ro_Waiting :: bool
  ro_History :: bytes
  ro_JourneyID :: string
  ro_Answer :: string
  ro_CallID :: string
  ro_ToolName :: string

record conversation =
  co_set :: DefinitionSet
  co_cat :: Binding
  co_available :: "Journey list"
  co_limit :: int

definition touch :: "string \<Rightarrow> 'a run \<Rightarrow> 'a run" where
  "touch journeyID = modify (\<lambda>w. w\<lparr>w_active := snd (Touch journeyID (w_active w))\<rparr>)"

definition flush :: "env \<Rightarrow> RunInput \<Rightarrow> unit run" where
  "flush env inp =
     read (\<lambda>w. ids (w_active w)) (\<lambda>order.
     read w_persisted (\<lambda>persisted.
     if order = persisted then succeed ()
     else bindr (journal env (SetActiveJourneys (ri_Owner inp) order)) (\<lambda>_.
          modify (\<lambda>w. w\<lparr>w_persisted := order\<rparr>) (succeed ()))))"

definition conv_journey :: "conversation \<Rightarrow> string \<Rightarrow> Journey option" where
  "conv_journey conv i = find (\<lambda>j. j_ID j = i) (co_available conv)"

definition isAvailable :: "conversation \<Rightarrow> string \<Rightarrow> bool" where
  "isAvailable conv i = (conv_journey conv i \<noteq> None)"

definition availableIDs :: "conversation \<Rightarrow> string list" where
  "availableIDs conv = map j_ID (co_available conv)"

definition activeJourneys :: "conversation \<Rightarrow> ActiveSet \<Rightarrow> Journey list" where
  "activeJourneys conv active = List.map_filter (conv_journey conv) (ids active)"

definition alias_owner :: "conversation \<Rightarrow> ActiveSet \<Rightarrow> string \<Rightarrow> string option" where
  "alias_owner conv active = owningJourney (ids active) (\<lambda>j a. Binding_Tool (co_cat conv) j a \<noteq> None)"

section \<open>Bindings of calls\<close>

record callBinding =
  kb_journeyID :: string
  kb_operationKey :: string
  kb_nameDigest :: string
  kb_schemaDigest :: string
  kb_binding :: string

definition bindCall ::
  "libs \<Rightarrow> conversation \<Rightarrow> RunInput \<Rightarrow> string \<Rightarrow> string \<Rightarrow> string \<Rightarrow> bytes \<Rightarrow> bytes \<Rightarrow> journal_error + callBinding" where
  "bindCall lib conv inp journeyID operationKey remoteName schema arguments =
     and_then (SchemaDigest lib schema) (\<lambda>schemaDigest.
     and_then (BindCall lib \<lparr>cb_JourneyID = journeyID, cb_OperationKey = operationKey, cb_NameDigest = NameDigest lib remoteName,
         cb_SchemaDigest = schemaDigest, cb_Arguments = arguments, cb_ProductVersion = ri_ProductVersion inp,
         cb_Principal = ri_Principal inp, cb_Conversation = ri_ThreadID inp, cb_DefinitionSet = ds_digest (co_set conv)\<rparr>) (\<lambda>d.
     Inr \<lparr>kb_journeyID = journeyID, kb_operationKey = operationKey, kb_nameDigest = NameDigest lib remoteName,
          kb_schemaDigest = schemaDigest, kb_binding = d\<rparr>))"

definition bindTool :: "libs \<Rightarrow> conversation \<Rightarrow> RunInput \<Rightarrow> string \<Rightarrow> Tool \<Rightarrow> bytes \<Rightarrow> journal_error + callBinding" where
  "bindTool lib conv inp journeyID t arguments =
     bindCall lib conv inp journeyID (t_OperationKey t) (t_RemoteName t)
       (case t_InputSchema t of None \<Rightarrow> [] | Some j \<Rightarrow> print_json j) arguments"

definition bindClarification :: "libs \<Rightarrow> conversation \<Rightarrow> RunInput \<Rightarrow> bytes \<Rightarrow> journal_error + callBinding" where
  "bindClarification lib conv inp arguments =
     bindCall lib conv inp [] toolRequestUserInput toolRequestUserInput (print_json question_schema) arguments"

definition interaction_of :: "callBinding \<Rightarrow> string \<Rightarrow> string \<Rightarrow> FunctionCall \<Rightarrow> string \<Rightarrow> Interaction" where
  "interaction_of b kind callID fcall random =
     \<lparr>i_ID = ''interaction_'' @ random, i_Kind = kind, i_Questions = [],
      i_Call = \<lparr>pc_CallID = callID, pc_ProviderCallID = fc_CallID fcall, pc_Name = fc_Name fcall,
                pc_Arguments = fc_Arguments fcall, pc_Binding = kb_binding b\<rparr>,
      i_ExpiresAt = 0, i_JourneyID = kb_journeyID b, i_OperationKey = kb_operationKey b,
      i_NameDigest = kb_nameDigest b, i_SchemaDigest = kb_schemaDigest b\<rparr>"

definition operation_of :: "callBinding \<Rightarrow> string \<Rightarrow> string \<Rightarrow> bytes \<Rightarrow> Tool \<Rightarrow> Operation" where
  "operation_of b callID name arguments t =
     \<lparr>o_CallID = callID, o_Name = name, o_Arguments = arguments, o_Binding = kb_binding b, o_Policy = class_string (t_Class t),
      o_OperationKey = kb_operationKey b, o_NameDigest = kb_nameDigest b, o_SchemaDigest = kb_schemaDigest b,
      o_RequiresApproval = t_RequiresApproval t, o_JourneyID = kb_journeyID b\<rparr>"

section \<open>Strict decoding of arguments\<close>

text \<open>An object with string fields only.\<close>

fun string_fields :: "string list \<Rightarrow> (string \<Rightarrow> string) \<Rightarrow> (string \<times> json) list \<Rightarrow> (string \<Rightarrow> string) option" where
  "string_fields names m [] = Some m"
| "string_fields names m ((k, v) # kvs) =
     (if fold_key k \<in> set names then
        (case decode_string (m (fold_key k)) v of None \<Rightarrow> None | Some s \<Rightarrow> string_fields names (m(fold_key k := s)) kvs)
      else None)"

fun string_object :: "string list \<Rightarrow> (string \<Rightarrow> string) \<Rightarrow> json \<Rightarrow> (string \<Rightarrow> string) option" where
  "string_object names m (JObj kvs) = string_fields names m kvs"
| "string_object names m JNull = Some m"
| "string_object names m _ = None"

definition decode_arguments :: "string list \<Rightarrow> bytes \<Rightarrow> (string \<Rightarrow> string) option" where
  "decode_arguments names raw = Option.bind (parse_json raw) (string_object names (\<lambda>_. []))"

text \<open>The checkpoint of a waiting run.\<close>

fun checkpoint_fields :: "string \<times> int \<Rightarrow> (string \<times> json) list \<Rightarrow> (string \<times> int) option" where
  "checkpoint_fields c [] = Some c"
| "checkpoint_fields c ((k, v) # kvs) =
     (if fold_key k = ''mode'' then
        (case decode_string (fst c) v of None \<Rightarrow> None | Some s \<Rightarrow> checkpoint_fields (s, snd c) kvs)
      else if fold_key k = ''repairs'' then
        (case v of JNull \<Rightarrow> checkpoint_fields c kvs
         | JNum n \<Rightarrow> (case parse_int64 n of None \<Rightarrow> None | Some i \<Rightarrow> checkpoint_fields (fst c, i) kvs)
         | _ \<Rightarrow> None)
      else None)"

fun decode_checkpoint :: "json \<Rightarrow> (string \<times> int) option" where
  "decode_checkpoint (JObj kvs) = checkpoint_fields ([], 0) kvs"
| "decode_checkpoint JNull = Some ([], 0)"
| "decode_checkpoint _ = None"

definition checkpoint_json :: "int \<Rightarrow> json" where
  "checkpoint_json repairs = JObj [(''mode'', JStr ''product_resume_in_place''), (''repairs'', JNum (show_int repairs))]"

text \<open>The questions of a clarification. A list that is decoded again fills the elements it already has.\<close>

fun decode_options :: "Option list \<Rightarrow> json list \<Rightarrow> Option list option" where
  "decode_options olds [] = Some []"
| "decode_options olds (v # vs) =
     (let old = (case olds of [] \<Rightarrow> \<lparr>o_Label = [], o_Description = []\<rparr> | x # _ \<Rightarrow> x);
          m = (\<lambda>n. if n = ''label'' then o_Label old else o_Description old) in
      case string_object [''label'', ''description''] m v of
        None \<Rightarrow> None
      | Some f \<Rightarrow> map_option (\<lambda>xs. \<lparr>o_Label = f ''label'', o_Description = f ''description''\<rparr> # xs)
                    (decode_options (drop 1 olds) vs))"

fun question_fields :: "Question \<Rightarrow> (string \<times> json) list \<Rightarrow> Question option" where
  "question_fields q [] = Some q"
| "question_fields q ((k, v) # kvs) =
     (if fold_key k = ''id'' then
        (case decode_string (q_ID q) v of None \<Rightarrow> None | Some s \<Rightarrow> question_fields (q\<lparr>q_ID := s\<rparr>) kvs)
      else if fold_key k = ''header'' then
        (case decode_string (q_Header q) v of None \<Rightarrow> None | Some s \<Rightarrow> question_fields (q\<lparr>q_Header := s\<rparr>) kvs)
      else if fold_key k = ''question'' then
        (case decode_string (q_Question q) v of None \<Rightarrow> None | Some s \<Rightarrow> question_fields (q\<lparr>q_Question := s\<rparr>) kvs)
      else if fold_key k = ''options'' then
        (case v of
           JNull \<Rightarrow> question_fields (q\<lparr>q_Options := []\<rparr>) kvs
         | JArr vs \<Rightarrow> (case decode_options (q_Options q) vs of None \<Rightarrow> None
             | Some xs \<Rightarrow> question_fields (q\<lparr>q_Options := xs\<rparr>) kvs)
         | _ \<Rightarrow> None)
      else None)"

fun decode_questions :: "Question list \<Rightarrow> json list \<Rightarrow> Question list option" where
  "decode_questions olds [] = Some []"
| "decode_questions olds (v # vs) =
     (let old = (case olds of [] \<Rightarrow> \<lparr>q_ID = [], q_Header = [], q_Question = [], q_Options = []\<rparr> | q # _ \<Rightarrow> q);
          one = (case v of JObj kvs \<Rightarrow> question_fields old kvs | JNull \<Rightarrow> Some old | _ \<Rightarrow> None) in
      case one of None \<Rightarrow> None | Some q \<Rightarrow> map_option (\<lambda>qs. q # qs) (decode_questions (drop 1 olds) vs))"

fun question_arguments :: "Question list \<Rightarrow> (string \<times> json) list \<Rightarrow> Question list option" where
  "question_arguments qs [] = Some qs"
| "question_arguments qs ((k, v) # kvs) =
     (if fold_key k = ''questions'' then
        (case v of
           JNull \<Rightarrow> question_arguments [] kvs
         | JArr vs \<Rightarrow> (case decode_questions qs vs of None \<Rightarrow> None | Some qs' \<Rightarrow> question_arguments qs' kvs)
         | _ \<Rightarrow> None)
      else None)"

definition DecodeStrict_questions :: "bytes \<Rightarrow> Question list option" where
  "DecodeStrict_questions raw =
     (case parse_json raw of
        Some (JObj kvs) \<Rightarrow> question_arguments [] kvs
      | Some JNull \<Rightarrow> Some []
      | _ \<Rightarrow> None)"

section \<open>Built-in tools\<close>

definition activate_call :: "env \<Rightarrow> RunInput \<Rightarrow> conversation \<Rightarrow> bytes \<Rightarrow> result run" where
  "activate_call env inp conv arguments =
     (case decode_arguments [''journey''] arguments of
        None \<Rightarrow> succeed (StringMap [(''error'', ''invalid_arguments'')])
      | Some args \<Rightarrow>
          (let journey = args ''journey'' in
           if journey = [] then succeed (StringMap [(''error'', ''invalid_arguments'')])
           else if \<not> isAvailable conv journey then succeed (StringMap [(''error'', ''journey_unavailable'')])
           else bindr (journal env (ActiveJourneys (ri_Owner inp))) (\<lambda>(persisted, pinned).
             case Activate journey (co_limit conv) pinned (NewActiveSet persisted) of
               (Inl ErrRefused, _) \<Rightarrow>
                 succeed (StringMap [(''error'', ''activation_refused''), (''message'', ''all active journeys are pinned'')])
             | (Inl ErrInvalid, _) \<Rightarrow> throw (ErrOther ''invalid journey activation'')
             | (Inr evicted, set') \<Rightarrow>
                 bindr (if persisted = ids set' then succeed () else journal env (SetActiveJourneys (ri_Owner inp) (ids set'))) (\<lambda>_.
                 modify (\<lambda>w. w\<lparr>w_active := set', w_persisted := ids set'\<rparr>) (
                 succeed (AnyMap ([(''activated'', JStr journey)] @
                   (if evicted = [] then [] else [(''evicted'', JArr (map JStr evicted))]))))))))"

definition readResource :: "env \<Rightarrow> conversation \<Rightarrow> bytes \<Rightarrow> (result \<times> MaterialProvenance option) run" where
  "readResource env conv arguments =
     (case decode_arguments [''journey'', ''resource''] arguments of
        None \<Rightarrow> succeed (StringMap [(''error'', ''invalid_arguments'')], None)
      | Some args \<Rightarrow>
          (let journey = args ''journey''; resource = args ''resource'';
               missing = succeed (StringMap [(''error'', ''resource_unavailable'')], None) in
           if journey = [] \<or> resource = [] then succeed (StringMap [(''error'', ''invalid_arguments'')], None)
           else read w_active (\<lambda>active.
             case conv_journey conv journey of
               None \<Rightarrow> missing
             | Some j \<Rightarrow>
                 if \<not> Contains active journey \<or> resource = ''SKILL.md'' then missing
                 else case resourceSkill j of
                   None \<Rightarrow> missing
                 | Some name \<Rightarrow>
                     (case Source_Read (lib_sha256 (env_lib env)) (Source_New j) name resource of
                        Inl SkillUnavailable \<Rightarrow> missing
                      | Inl SkillChanged \<Rightarrow> throw ErrChanged
                      | Inr m \<Rightarrow> touch journey (
                          succeed (TextResult (ma_Body m), Some (journey @ ''/'' @ ma_Resource m, ma_FileDigest m)))))))"

end
