(* ===== verification/Runtime_Loop.thy ===== *)
theory Runtime_Loop
  imports Runtime_Agent
begin

text \<open>
  One request to the model (\<open>modelRun\<close> in \<open>internal/runtime/run.go\<close>) and the loop of a run (\<open>runHarness\<close> in
  \<open>interactions.go\<close>): continuation after an answer, at most sixteen rounds of model request and tool calls, waiting for a
  person, and the closing of open calls when the run stops.
\<close>

section \<open>One model request\<close>

definition stableCallID :: "libs \<Rightarrow> string \<Rightarrow> string \<Rightarrow> string" where
  "stableCallID lib threadID runID =
     ''call_'' @ take 16 (lib_sha256 lib (threadID @ [CHR 0x00] @ runID @ [CHR 0x00] @ ''tool-1''))"

definition digestValue :: "libs \<Rightarrow> json \<Rightarrow> string" where
  "digestValue lib value = lib_sha256 lib (print_json value)"

definition metadata_json :: "Metadata list \<Rightarrow> json" where
  "metadata_json ms = JArr (map (\<lambda>m. JObj [(''ID'', JStr (md_ID m)), (''Description'', JStr (md_Description m))]) ms)"

definition call_names :: "message list \<Rightarrow> string \<rightharpoonup> string" where
  "call_names ms = map_of (rev (concat (map (\<lambda>m. concat (map (\<lambda>c.
     case c of CallContent f \<Rightarrow> [(fc_CallID f, fc_Name f)] | _ \<Rightarrow> []) (m_Contents m))) ms)))"

definition tool_results :: "message list \<Rightarrow> ToolResult list" where
  "tool_results ms = concat (map (\<lambda>m. concat (map (\<lambda>c.
     case c of
       ResultContent i r \<Rightarrow> [\<lparr>tr_CallID = i, tr_Name = (case call_names ms i of None \<Rightarrow> [] | Some n \<Rightarrow> n), tr_Value = r\<rparr>]
     | _ \<Rightarrow> []) (m_Contents m))) ms)"

text \<open>The history that is digested is the output of the encoder, which encoding again leaves as it is.\<close>

definition provenance_of ::
  "env \<Rightarrow> RunInput \<Rightarrow> conversation \<Rightarrow> Journey list \<Rightarrow> string \<Rightarrow> bytes \<Rightarrow> Input list \<Rightarrow> MaterialProvenance list \<Rightarrow> RequestProvenance" where
  "provenance_of env inp conv active instructions requestHistory pending skills =
     (let items = map (\<lambda>c. (in_CommunicationID c, in_Digest c)) (filter in_Materialized pending) in
      \<lparr>rp_Definition = (''set'', ds_digest (co_set conv)),
       rp_System = (''instructions'', digestValue (env_lib env) (JStr instructions)),
       rp_Catalog = (''journeys'', digestValue (env_lib env) (metadata_json (journeyMetadata (co_available conv)))),
       rp_History = (ri_ThreadID inp, lib_sha256 (env_lib env) requestHistory),
       rp_Active = map (\<lambda>j. (j_ID j, j_Digest j)) active, rp_Pending = items, rp_IncludedInput = items, rp_Skills = skills\<rparr>)"

definition request_of ::
  "env \<Rightarrow> RunInput \<Rightarrow> conversation \<Rightarrow> ActiveSet \<Rightarrow> MaterialProvenance list \<Rightarrow> Input list \<Rightarrow> bytes \<Rightarrow> message list \<Rightarrow> ModelRequest" where
  "request_of env inp conv activeSet skills pending requestHistory kept =
     (let active = activeJourneys conv activeSet;
          activeIDs = map j_ID active;
          instructions = composeInstructions (ds_conversationPrompt (co_set conv)) (co_available conv) active
      in \<lparr>mq_History = requestHistory, mq_PendingCommands = pending, mq_Instructions = instructions,
          mq_Messages = filter (\<lambda>t. t \<noteq> []) (map (env_text env) kept), mq_ProviderMessages = kept,
          mq_Tools = roundTools (Binding_Tools (co_cat conv) activeIDs) (availableIDs conv) active,
          mq_ToolResults = tool_results kept, mq_DefinitionDigest = ds_digest (co_set conv), mq_ActiveJourneys = activeIDs,
          mq_Provenance = provenance_of env inp conv active instructions requestHistory pending skills,
          mq_Access = ri_Access inp\<rparr>)"

fun call_contents :: "env \<Rightarrow> string \<Rightarrow> nat \<Rightarrow> ToolCall list \<Rightarrow> content list run" where
  "call_contents env base i [] = succeed []"
| "call_contents env base i (c # cs) =
     ask (env_random env) (\<lambda>random.
     let callID = (if tc_CallID c = [] then base @ ''-'' @ show_nat i @ ''-'' @ random else tc_CallID c) in
     bindr (call_contents env base (Suc i) cs) (\<lambda>rest.
     succeed (CallContent \<lparr>fc_CallID = callID, fc_Name = tc_Name c, fc_Arguments = tc_Arguments c, fc_InformationalOnly = False\<rparr> # rest)))"

definition response_contents :: "env \<Rightarrow> string \<Rightarrow> ModelResponse \<Rightarrow> content list run" where
  "response_contents env base response =
     (let calls = ms_ToolCalls response @ (case ms_ToolCall response of None \<Rightarrow> [] | Some c \<Rightarrow> [c]) in
      if calls = [] then succeed [TextContent (ms_Text response)] else call_contents env base 0 calls)"

definition usage_of :: "RunInput \<Rightarrow> Tokens \<Rightarrow> Usage" where
  "usage_of inp t = \<lparr>u_Model = tk_Model t, u_Input = tk_Input t, u_Output = tk_Output t, u_Cached = tk_Cached t,
     u_JourneyID = at_Journey (ri_Attribution inp)\<rparr>"

text \<open>The provider calls back right before it sends its request, and the input is then recorded as included; a provider
  without a transport has done so when its completion is there.\<close>

definition model_run :: "env \<Rightarrow> RunInput \<Rightarrow> conversation \<Rightarrow> Input list \<Rightarrow> bytes \<Rightarrow> message list \<Rightarrow> message list run" where
  "model_run env inp conv pending requestHistory kept =
     read w_active (\<lambda>activeSet. read w_skills (\<lambda>skills.
     bindr (journal env (Check (ri_Owner inp))) (\<lambda>_.
     ask (env_done env) (\<lambda>ended. check (\<not> ended) ErrContext (
     modify (\<lambda>w. w\<lparr>w_completions := Suc (w_completions w)\<rparr>) (
     ask (\<lambda>n. env_model env n (request_of env inp conv activeSet skills pending requestHistory kept)) (\<lambda>(dispatched, completion).
     bindr (if dispatched then journal env (Included (ri_Owner inp) pending) else succeed ()) (\<lambda>_.
     case completion of
       Inl e \<Rightarrow> throw e
     | Inr response \<Rightarrow>
         bindr (if dispatched then succeed () else journal env (Included (ri_Owner inp) pending)) (\<lambda>_.
         bindr (journal env (RecordUsage (ri_Owner inp) (usage_of inp (ms_Usage response)))) (\<lambda>_.
         bindr (response_contents env (stableCallID (env_lib env) (ri_ThreadID inp) (ri_RunID inp)) response) (\<lambda>contents.
         succeed (env_collect env contents))))))))))))"

section \<open>The state of the loop\<close>

definition append_history :: "message list \<Rightarrow> 'a run \<Rightarrow> 'a run" where
  "append_history ms = modify (\<lambda>w. w\<lparr>w_history := w_history w @ ms\<rparr>)"

definition resultMessage :: "string \<Rightarrow> result \<Rightarrow> message" where
  "resultMessage i r = \<lparr>m_Role = RoleTool, m_Contents = [ResultContent i r]\<rparr>"

definition error_result :: "string \<Rightarrow> result" where
  "error_result e = StringMap [(''error'', e)]"

definition user_messages :: "Input list \<Rightarrow> message list" where
  "user_messages pending =
     map (\<lambda>c. \<lparr>m_Role = RoleUser, m_Contents = [TextContent (in_Text c)]\<rparr>) (filter (\<lambda>c. in_Text c \<noteq> []) pending)"

definition next_call_number :: "(nat \<Rightarrow> 'a run) \<Rightarrow> 'a run" where
  "next_call_number k = modify (\<lambda>w. w\<lparr>w_calls := Suc (w_calls w)\<rparr>) (read w_calls k)"

definition next_call_id :: "env \<Rightarrow> RunInput \<Rightarrow> (string \<Rightarrow> 'a run) \<Rightarrow> 'a run" where
  "next_call_id env inp k = next_call_number (\<lambda>n.
     k (stableCallID (env_lib env) (ri_ThreadID inp)
          (ri_RunID inp @ ''/'' @ show_nat (ri_Iteration inp) @ ''/'' @ show_nat n)))"

definition encode :: "env \<Rightarrow> message list \<Rightarrow> bytes run" where
  "encode env ms = (case env_marshal env ms of None \<Rightarrow> throw (ErrOther ''encode messages'') | Some b \<Rightarrow> succeed b)"

text \<open>\<open>invoke\<close>: the inbox, the trimmed request, the model. The history is restored when the request fails.\<close>

definition invoke_request :: "env \<Rightarrow> int \<Rightarrow> RunInput \<Rightarrow> conversation \<Rightarrow> (string \<Rightarrow> bool) \<Rightarrow> Input list \<Rightarrow> nat \<Rightarrow> message list \<Rightarrow> message list run" where
  "invoke_request env budget inp conv protected pending beforeInput history =
     (let (kept, t) = trimHistory (env_marshal env) history budget protected;
          seen = remaining (take beforeInput history) (take beforeInput (trim_dropped (env_marshal env) history budget protected))
      in bindr (encode env seen) (\<lambda>requestHistory.
         bindr (if tr_TurnsDropped t > 0 then
                  journal env (HistoryTruncated (ri_Owner inp)
                    \<lparr>TurnsDropped = int (tr_TurnsDropped t), MessagesDropped = int (tr_MessagesDropped t),
                     EstimateBefore = int (tr_EstimateBefore t), EstimateAfter = int (tr_EstimateAfter t), Budget = tr_Budget t\<rparr>)
                else succeed ()) (\<lambda>_.
         model_run env inp conv pending requestHistory kept)))"

definition invoke :: "env \<Rightarrow> int \<Rightarrow> RunInput \<Rightarrow> conversation \<Rightarrow> (string \<Rightarrow> bool) \<Rightarrow> message list run" where
  "invoke env budget inp conv protected =
     bindr (journal env (Pending (env_lib env) (ri_Owner inp))) (\<lambda>pending.
     read w_history (\<lambda>old.
     append_history (user_messages pending) (
     read w_history (\<lambda>history.
     outcome_of (invoke_request env budget inp conv protected pending (length old) history) (\<lambda>r.
     case r of
       Inl e \<Rightarrow> modify (\<lambda>w. w\<lparr>w_history := old\<rparr>) (throw e)
     | Inr response \<Rightarrow> append_history response (succeed response))))))"

definition wait :: "env \<Rightarrow> RunInput \<Rightarrow> Interaction \<Rightarrow> RunOutput run" where
  "wait env inp i =
     read w_repairs (\<lambda>repairs. read w_history (\<lambda>history.
     bindr (encode env history) (\<lambda>serialized.
     bindr (journal env (Wait (env_lib env) (ri_Owner inp) i (print_json (checkpoint_json repairs)) serialized)) (\<lambda>_.
     succeed \<lparr>ro_Waiting = True, ro_History = serialized, ro_JourneyID = ri_TargetJourney inp, ro_Answer = [], ro_CallID = [], ro_ToolName = []\<rparr>))))"

definition business_rejected :: "result \<Rightarrow> bool" where
  "business_rejected r = (case r of AnyMap m \<Rightarrow> map_of m ''error'' = Some (JStr ''business_rejected'') | _ \<Rightarrow> False)"

definition settle :: "string \<Rightarrow> result \<Rightarrow> unit run" where
  "settle providerCallID r =
     read w_repairs (\<lambda>repairs.
     check (\<not> (business_rejected r \<and> repairs = 0)) (ErrOther ''business repair budget exhausted'') (
     modify (\<lambda>w. if business_rejected r then w\<lparr>w_repairs := repairs - 1\<rparr> else w) (
     append_history [resultMessage providerCallID r] (succeed ()))))"

section \<open>After an approval\<close>

definition proposed :: "Interaction \<Rightarrow> FunctionCall" where
  "proposed i = \<lparr>fc_CallID = pc_ProviderCallID (i_Call i), fc_Name = pc_Name (i_Call i),
     fc_Arguments = pc_Arguments (i_Call i), fc_InformationalOnly = False\<rparr>"

text \<open>A new approval for the same action; \<open>None\<close> when steering arrived instead and the run goes on.\<close>

definition superseded_wait :: "env \<Rightarrow> RunInput \<Rightarrow> conversation \<Rightarrow> Interaction \<Rightarrow> Tool \<Rightarrow> RunOutput option run" where
  "superseded_wait env inp conv granted t =
     bindr (from_sum (bindTool (env_lib env) conv inp (i_JourneyID granted) t (pc_Arguments (i_Call granted)))) (\<lambda>b.
     next_call_id env inp (\<lambda>callID.
     ask (env_random env) (\<lambda>random.
     outcome_of (wait env inp (interaction_of b ''approval'' callID (proposed granted) random)) (\<lambda>r.
     case r of
       Inr out \<Rightarrow> succeed (Some out)
     | Inl e \<Rightarrow>
         if e = ErrJournal ErrPending then
           append_history [resultMessage (pc_ProviderCallID (i_Call granted)) (error_result ''superseded_by_steering'')] (succeed None)
         else throw e))))"

definition resume_call :: "env \<Rightarrow> RunInput \<Rightarrow> conversation \<Rightarrow> Interaction \<Rightarrow> Tool \<Rightarrow> RunOutput option run" where
  "resume_call env inp conv granted t =
     bindr (from_sum (bindTool (env_lib env) conv inp (i_JourneyID granted) t (pc_Arguments (i_Call granted)))) (\<lambda>b.
     if kb_binding b \<noteq> pc_Binding (i_Call granted) then
       bindr (journal env (Supersede (ri_Owner inp) (i_ID granted))) (\<lambda>_. superseded_wait env inp conv granted t)
     else
       next_call_number (\<lambda>_. touch (i_JourneyID granted) (
       outcome_of (guardedCall env (ri_Owner inp) (co_cat conv)
         ((operation_of b (pc_CallID (i_Call granted)) (pc_Name (i_Call granted)) (pc_Arguments (i_Call granted)) t)
            \<lparr>o_RequiresApproval := True\<rparr>) (i_ID granted)) (\<lambda>r.
       case r of
         Inl e \<Rightarrow> if e = ErrJournal ErrSuperseded then superseded_wait env inp conv granted t else throw e
       | Inr value \<Rightarrow> bindr (settle (pc_ProviderCallID (i_Call granted)) value) (\<lambda>_. succeed None)))))"

definition resume_approved :: "env \<Rightarrow> RunInput \<Rightarrow> conversation \<Rightarrow> Interaction \<Rightarrow> RunOutput option run" where
  "resume_approved env inp conv granted =
     bindr
       (case (if isAvailable conv (i_JourneyID granted)
              then Binding_Tool (co_cat conv) (i_JourneyID granted) (pc_Name (i_Call granted)) else None) of
          None \<Rightarrow>
            bindr (journal env (Supersede (ri_Owner inp) (i_ID granted))) (\<lambda>_.
            append_history [resultMessage (pc_ProviderCallID (i_Call granted))
              (StringMap [(''error'', ''approval_superseded''), (''message'', ''the approved action is no longer available'')])]
              (succeed None))
        | Some t \<Rightarrow> resume_call env inp conv granted t)
       (\<lambda>out. case out of Some _ \<Rightarrow> succeed out | None \<Rightarrow> bindr (flush env inp) (\<lambda>_. succeed None))"

section \<open>The calls of a response\<close>

definition deferred :: "plannedCall list \<Rightarrow> message list" where
  "deferred rest = map (\<lambda>p. resultMessage (fc_CallID (pl_Call p)) (error_result ''deferred_for_human_input'')) rest"

text \<open>Ask a person: the rest of the response is closed first. \<open>None\<close> when steering arrived and the round ends.\<close>

definition ask_person :: "env \<Rightarrow> RunInput \<Rightarrow> FunctionCall \<Rightarrow> callBinding \<Rightarrow> string \<Rightarrow> bool \<Rightarrow> plannedCall list \<Rightarrow> RunOutput option run" where
  "ask_person env inp c b callID clarification rest =
     append_history (deferred rest) (
     ask (env_random env) (\<lambda>random.
     bindr (if \<not> clarification then succeed (interaction_of b ''approval'' callID c random)
            else case DecodeStrict_questions (fc_Arguments c) of
              None \<Rightarrow> throw (ErrJournal ErrState)
            | Some qs \<Rightarrow> succeed ((interaction_of b ''clarification'' callID c random)\<lparr>i_Questions := qs\<rparr>)) (\<lambda>i.
     bindr (flush env inp) (\<lambda>_.
     outcome_of (wait env inp i) (\<lambda>r.
     case r of
       Inr out \<Rightarrow> succeed (Some out)
     | Inl e \<Rightarrow>
         if e = ErrJournal ErrPending then
           append_history [resultMessage (fc_CallID c) (error_result ''superseded_by_steering'')] (succeed None)
         else throw e)))))"

text \<open>What one call of the plan does: \<open>Inl\<close> ends the round with this output, \<open>Inr\<close> goes on with the next call.\<close>

definition alias_call :: "env \<Rightarrow> RunInput \<Rightarrow> conversation \<Rightarrow> plannedCall \<Rightarrow> plannedCall list \<Rightarrow> (RunOutput option + unit) run" where
  "alias_call env inp conv step rest =
     (let c = pl_Call step in
      next_call_id env inp (\<lambda>callID.
      case Binding_Tool (co_cat conv) (pl_Journey step) (fc_Name c) of
        None \<Rightarrow> throw (ErrOther ''tool is not allowed'')
      | Some t \<Rightarrow>
          bindr (from_sum (bindTool (env_lib env) conv inp (pl_Journey step) t (fc_Arguments c))) (\<lambda>b.
          if t_RequiresApproval t then
            bindr (ask_person env inp c b callID False rest) (\<lambda>out. succeed (Inl out))
          else
            touch (pl_Journey step) (
            bindr (guardedCall env (ri_Owner inp) (co_cat conv) (operation_of b callID (fc_Name c) (fc_Arguments c) t) []) (\<lambda>value.
            bindr (settle (fc_CallID c) value) (\<lambda>_. succeed (Inr ())))))))"

definition ask_call :: "env \<Rightarrow> RunInput \<Rightarrow> conversation \<Rightarrow> plannedCall \<Rightarrow> plannedCall list \<Rightarrow> (RunOutput option + unit) run" where
  "ask_call env inp conv step rest =
     (let c = pl_Call step in
      next_call_id env inp (\<lambda>callID.
      bindr (from_sum (bindClarification (env_lib env) conv inp (fc_Arguments c))) (\<lambda>b.
      bindr (ask_person env inp c b callID True rest) (\<lambda>out. succeed (Inl out)))))"

definition run_step :: "env \<Rightarrow> RunInput \<Rightarrow> conversation \<Rightarrow> plannedCall \<Rightarrow> plannedCall list \<Rightarrow> (RunOutput option + unit) run" where
  "run_step env inp conv step rest =
     (let c = pl_Call step; result = (\<lambda>r. append_history [resultMessage (fc_CallID c) r] (succeed (Inr ()))) in
      next_call_number (\<lambda>_.
      case pl_Kind step of
        callNotExecuted \<Rightarrow>
          result (StringMap [(''error'', ''not_executed''), (''message'', ''not executed; call again after activation'')])
      | callActivate \<Rightarrow> bindr (activate_call env inp conv (fc_Arguments c)) result
      | callReadResource \<Rightarrow>
          bindr (readResource env conv (fc_Arguments c)) (\<lambda>(r, provenance).
          modify (\<lambda>w. case provenance of None \<Rightarrow> w | Some m \<Rightarrow> w\<lparr>w_skills := w_skills w @ [m]\<rparr>) (result r))
      | callInactive \<Rightarrow> result (error_result ''tool_not_active'')
      | callAlias \<Rightarrow> alias_call env inp conv step rest
      | callAsk \<Rightarrow> ask_call env inp conv step rest))"

fun run_plan :: "env \<Rightarrow> RunInput \<Rightarrow> conversation \<Rightarrow> plannedCall list \<Rightarrow> RunOutput option run" where
  "run_plan env inp conv [] = succeed None"
| "run_plan env inp conv (step # rest) =
     bindr (run_step env inp conv step rest) (\<lambda>r.
     case r of Inl out \<Rightarrow> succeed out | Inr _ \<Rightarrow> run_plan env inp conv rest)"

section \<open>Rounds\<close>

definition response_calls :: "message list \<Rightarrow> FunctionCall list" where
  "response_calls ms = concat (map (\<lambda>c. case c of CallContent f \<Rightarrow> if fc_InformationalOnly f then [] else [f] | _ \<Rightarrow> [])
     (concat (map m_Contents ms)))"

definition final_answer :: "env \<Rightarrow> RunInput \<Rightarrow> message list \<Rightarrow> RunOutput run" where
  "final_answer env inp response =
     check (env_answer env response \<noteq> []) (ErrOther ''model returned no answer'') (
     bindr (flush env inp) (\<lambda>_.
     read w_history (\<lambda>history.
     bindr (encode env history) (\<lambda>serialized.
     succeed \<lparr>ro_Waiting = False, ro_History = serialized, ro_JourneyID = ri_TargetJourney inp,
              ro_Answer = env_answer env response, ro_CallID = [], ro_ToolName = []\<rparr>))))"

fun rounds :: "nat \<Rightarrow> env \<Rightarrow> int \<Rightarrow> RunInput \<Rightarrow> conversation \<Rightarrow> (string \<Rightarrow> bool) \<Rightarrow> RunOutput run" where
  "rounds 0 env budget inp conv protected = throw (ErrOther ''provider tool round budget exhausted'')"
| "rounds (Suc n) env budget inp conv protected =
     bindr (invoke env budget inp conv protected) (\<lambda>response.
     if response_calls response = [] then final_answer env inp response
     else
       read w_active (\<lambda>active.
       bindr (run_plan env inp conv
                (planCalls (response_calls response) (offersResources (activeJourneys conv active)) (alias_owner conv active))) (\<lambda>out.
       case out of
         Some o' \<Rightarrow> succeed o'
       | None \<Rightarrow> bindr (flush env inp) (\<lambda>_. rounds n env budget inp conv protected))))"

definition continue_from :: "env \<Rightarrow> RunInput \<Rightarrow> Continuation \<Rightarrow> Interaction option run" where
  "continue_from env inp c =
     (case decode_checkpoint (ct_Checkpoint c) of
        None \<Rightarrow> throw (ErrJournal ErrState)
      | Some (mode, repairs) \<Rightarrow>
          check (mode = ''product_resume_in_place'') (ErrJournal ErrState) (
          modify (\<lambda>w. w\<lparr>w_repairs := repairs\<rparr>) (
          case env_unmarshal env (print_json (ct_History c)) of
            None \<Rightarrow> throw (ErrOther ''decode history'')
          | Some h \<Rightarrow>
              modify (\<lambda>w. w\<lparr>w_history := h\<rparr>) (
              let i = ct_Interaction c in
              if i_Kind i = ''approval'' \<and> r_Decision (ct_Reply c) = ''approve'' then succeed (Some i)
              else append_history [resultMessage (pc_ProviderCallID (i_Call i))
                     (if i_Kind i = ''approval'' then error_result ''approval_denied'' else ReplyResult (ct_Reply c))]
                   (succeed None)))))"

definition harness_body :: "env \<Rightarrow> int \<Rightarrow> RunInput \<Rightarrow> conversation \<Rightarrow> RunOutput run" where
  "harness_body env budget inp conv =
     modify (\<lambda>w. w\<lparr>w_persisted := ids (w_active w), w_repairs := 1, w_calls := 0, w_skills := []\<rparr>) (
     bindr (journal env (Continuation_op (ri_Owner inp))) (\<lambda>continuation.
     bindr (case continuation of
              Some c \<Rightarrow> if ri_Iteration inp = 0 then continue_from env inp c else succeed None
            | None \<Rightarrow> succeed None) (\<lambda>approved.
     bindr (case approved of None \<Rightarrow> succeed None | Some i \<Rightarrow> resume_approved env inp conv i) (\<lambda>out.
     case out of
       Some o' \<Rightarrow> succeed o'
     | None \<Rightarrow> rounds 16 env budget inp conv
         (\<lambda>i. case continuation of None \<Rightarrow> False | Some c \<Rightarrow> i = pc_ProviderCallID (i_Call (ct_Interaction c)))))))"

section \<open>Closing\<close>

text \<open>The calls that are open after a history, with the order in which they were opened.\<close>

fun open_step :: "content \<Rightarrow> string list \<times> string list \<Rightarrow> string list \<times> string list" where
  "open_step (CallContent f) (opened, order) =
     (if fc_CallID f \<in> set opened then (opened, order) else (fc_CallID f # opened, order @ [fc_CallID f]))"
| "open_step (ResultContent i r) (opened, order) = (filter (\<lambda>x. x \<noteq> i) opened, order)"
| "open_step _ s = s"

definition open_calls :: "message list \<Rightarrow> string list \<times> string list" where
  "open_calls h = fold open_step (concat (map m_Contents h)) ([], [])"

fun close_calls :: "string list \<Rightarrow> string list \<Rightarrow> message list" where
  "close_calls opened [] = []"
| "close_calls opened (i # order) =
     (if i \<in> set opened then resultMessage i (error_result ''run_stopped'') # close_calls (filter (\<lambda>x. x \<noteq> i) opened) order
      else close_calls opened order)"

definition close_history :: "message list \<Rightarrow> message list" where
  "close_history h = h @ (case open_calls h of (opened, order) \<Rightarrow> close_calls opened order)"

text \<open>A failed run reports the error with the closed history; an empty history is not reported.\<close>

definition runHarness :: "env \<Rightarrow> int \<Rightarrow> RunInput \<Rightarrow> conversation \<Rightarrow> world \<Rightarrow> ((run_error \<times> bytes) + RunOutput) \<times> world" where
  "runHarness env budget inp conv w =
     (case env_unmarshal env (ri_History inp) of
        None \<Rightarrow> (Inl (ErrOther ''decode history'', []), w)
      | Some h \<Rightarrow>
          (case harness_body env budget inp conv (w\<lparr>w_history := h\<rparr>) of
             (Inr out, w') \<Rightarrow> (Inr out, w')
           | (Inl e, w') \<Rightarrow>
               if w_history w' = [] then (Inl (e, []), w')
               else let closed = close_history (w_history w') in
                 (Inl (e, case env_marshal env closed of None \<Rightarrow> [] | Some b \<Rightarrow> b), w'\<lparr>w_history := closed\<rparr>)))"

end
