(* ===== verification/Runtime_Run.thy ===== *)
theory Runtime_Run
  imports Runtime_Loop
begin

text \<open>
  The runner (\<open>internal/runtime/run.go\<close>) and the loader of definition sets (\<open>internal/defstore/loader.go\<close>): the scope of a
  run, the definition set it is bound to, the cost gate, and \<open>Run\<close>, which opens the catalog, prepares the active set and
  enters the loop. The compiler of bundles, the directory, the settings source and the cost gate are what the runner is
  built with; each is a function of the step at which it is asked.
\<close>

section \<open>The runner\<close>

type_synonym compiler = "(string \<times> bytes) list \<Rightarrow> DefinitionSet option"

record runner =
  rr_compile :: compiler
  rr_directory :: "nat \<Rightarrow> (string \<Rightarrow> dir_error + Entry) option"
  rr_endpoints :: "(string \<times> string) list"
  rr_settings :: "nat \<Rightarrow> (Scope \<Rightarrow> settings_error + Settings) option"
  rr_admit :: "nat \<Rightarrow> Attribution \<Rightarrow> string \<Rightarrow> Decision option"
  rr_access :: "nat \<Rightarrow> Attribution \<Rightarrow> string \<Rightarrow> Access option"
  rr_budget :: int

text \<open>A failure of a dependency, unless the context of the run has ended.\<close>

definition unavailable_run :: "env \<Rightarrow> 'a run" where
  "unavailable_run env = ask (env_done env) (\<lambda>ended. throw (if ended then ErrContext else ErrDependencyUnavailable))"

section \<open>Definition sets\<close>

definition Served :: "string \<Rightarrow> (string \<times> DefinitionSet) list \<Rightarrow> bool" where
  "Served digest sets = (map_of sets digest \<noteq> None)"

definition Load :: "env \<Rightarrow> compiler \<Rightarrow> string \<Rightarrow> DefinitionSet run" where
  "Load env compile digest =
     read w_sets (\<lambda>sets.
     case map_of sets digest of
       Some ds \<Rightarrow> succeed ds
     | None \<Rightarrow>
         bindr (journal env (\<lambda>now db. (DefinitionSet_op digest db, db))) (\<lambda>files.
         case compile files of
           None \<Rightarrow> throw (ErrJournal ErrDefinition)
         | Some ds \<Rightarrow>
             check (ds_digest ds = digest) (ErrJournal ErrDefinition) (
             modify (\<lambda>w. w\<lparr>w_sets := (digest, ds) # w_sets w\<rparr>) (succeed ds))))"

fun load_all :: "env \<Rightarrow> compiler \<Rightarrow> string list \<Rightarrow> unit run" where
  "load_all env compile [] = succeed ()"
| "load_all env compile (d # ds) = bindr (Load env compile d) (\<lambda>_. load_all env compile ds)"

definition Ready_run :: "env \<Rightarrow> runner \<Rightarrow> bool run" where
  "Ready_run env rr =
     bindr (journal env (\<lambda>now db. (Inr (ReferencedDefinitions db), db))) (\<lambda>digests.
     outcome_of (load_all env (rr_compile rr) digests) (\<lambda>r.
     case r of
       Inl e \<Rightarrow> if e = ErrJournal ErrDefinition then succeed False else throw e
     | Inr _ \<Rightarrow> read w_sets (\<lambda>sets. journal env (\<lambda>now db. (Inr (DefinitionsReady (\<lambda>d. Served d sets) db), db)))))"

section \<open>Scope\<close>

definition Scope_run :: "env \<Rightarrow> runner \<Rightarrow> RunInput \<Rightarrow> (Entry \<times> Endpoint \<times> Settings) run" where
  "Scope_run env rr inp =
     ask (rr_directory rr) (\<lambda>directory.
     case Lookup directory (rr_endpoints rr) (ri_Tenant inp) of
       Inl _ \<Rightarrow> unavailable_run env
     | Inr (entry, endpoint) \<Rightarrow>
         ask (rr_settings rr) (\<lambda>source.
         case source of
           None \<Rightarrow> unavailable_run env
         | Some resolve \<Rightarrow>
             (case resolve \<lparr>s_Tenant = ri_Tenant inp, s_Principal = ri_Principal inp\<rparr> of
                Inl _ \<Rightarrow> unavailable_run env
              | Inr settings \<Rightarrow>
                  bindr (journal env (RecordRunScope (ri_Owner inp)
                    \<lparr>sc_ProductVersion = en_ProductVersion entry, sc_EndpointID = en_EndpointID entry, sc_Settings = Record settings\<rparr>)) (\<lambda>_.
                  succeed (entry, endpoint, settings)))))"

section \<open>Admission by the cost gate\<close>

definition Admit_run :: "env \<Rightarrow> runner \<Rightarrow> RunInput \<Rightarrow> (Attribution \<times> Access) run" where
  "Admit_run env rr inp =
     (let a = \<lparr>at_Tenant = ri_Tenant inp, at_Principal = ri_Principal inp, at_Conversation = ri_ThreadID inp,
               at_Run = ri_RunID inp, at_Journey = ri_TargetJourney inp\<rparr>;
          profile = CostProfile (ri_Settings inp)
      in ask (\<lambda>n. rr_admit rr n a profile) (\<lambda>decision.
         case decision of
           None \<Rightarrow> unavailable_run env
         | Some d \<Rightarrow>
             (case Decision_Err d of
                Some limit \<Rightarrow> throw (ErrLimit limit)
              | None \<Rightarrow>
                  ask (\<lambda>n. rr_access rr n a profile) (\<lambda>access.
                  case access of None \<Rightarrow> unavailable_run env | Some x \<Rightarrow> succeed (a, x)))))"

section \<open>The definition set of a run\<close>

text \<open>The digests that the transaction of \<open>ResolveDefinition\<close> asks for and that are not served.\<close>

definition asked_for :: "Owner \<Rightarrow> db \<Rightarrow> string option" where
  "asked_for ow db =
     (case find_conversation (ow_thread ow) db of
        None \<Rightarrow> None
      | Some v \<Rightarrow>
          (case cv_definition_digest v of
             None \<Rightarrow> definition_current db
           | Some pin \<Rightarrow>
               if definition_current db \<noteq> None \<and> definition_current db \<noteq> Some pin \<and> conversationIdle ow db
               then definition_current db else Some pin))"

definition resolve_asking ::
  "Owner \<Rightarrow> (string \<Rightarrow> bool) \<Rightarrow> int \<Rightarrow> db \<Rightarrow> (journal_error + (journal_error + string) \<times> string list) \<times> db" where
  "resolve_asking ow served now db =
     (case ResolveDefinition ow (Some served) now db of
        (r, db') \<Rightarrow>
          (Inr (r, if fst (Check ow now db) = Inr ()
                   then filter (\<lambda>d. \<not> served d) (case asked_for ow db of None \<Rightarrow> [] | Some d \<Rightarrow> [d]) else []), db'))"

definition bindingAttempts :: nat where "bindingAttempts = 3"

fun binding_loop :: "nat \<Rightarrow> env \<Rightarrow> runner \<Rightarrow> RunInput \<Rightarrow> string run" where
  "binding_loop 0 env rr inp = throw (ErrJournal ErrDefinition)"
| "binding_loop (Suc n) env rr inp =
     read w_sets (\<lambda>sets.
     bindr (journal env (resolve_asking (ri_Owner inp) (\<lambda>d. Served d sets))) (\<lambda>(r, missing).
     case r of
       Inr digest \<Rightarrow> succeed digest
     | Inl e \<Rightarrow>
         if e \<noteq> ErrDefinition \<or> missing = [] \<or> n = 0 then throw (ErrJournal e)
         else bindr (load_all env (rr_compile rr) missing) (\<lambda>_. binding_loop n env rr inp)))"

definition Binding_run :: "env \<Rightarrow> runner \<Rightarrow> RunInput \<Rightarrow> (string \<times> string) run" where
  "Binding_run env rr inp =
     bindr (binding_loop bindingAttempts env rr inp) (\<lambda>digest.
     bindr (Load env (rr_compile rr) digest) (\<lambda>ds.
     if ri_TargetJourney inp = [] then succeed ([], digest)
     else if Set_Journey ds (ri_TargetJourney inp) = None then throw ErrJourneyUnavailable
     else succeed (ri_TargetJourney inp, digest)))"

section \<open>Run\<close>

definition unavailableJourney :: "Resolution option \<Rightarrow> run_error" where
  "unavailableJourney r =
     (case r of
        None \<Rightarrow> ErrJourneyUnavailable
      | Some x \<Rightarrow>
          if list_ex (\<lambda>u. fst u = ReasonPolicyConflict) (res_Unavailable x) then ErrPolicyConflict else ErrJourneyUnavailable)"

definition available_journeys :: "DefinitionSet \<Rightarrow> Binding \<Rightarrow> Journey list" where
  "available_journeys ds b =
     filter (\<lambda>j. case Binding_Resolution b (j_ID j) of None \<Rightarrow> False | Some r \<Rightarrow> Available r) (Set_Journeys ds)"

text \<open>The active set of the run: the persisted one without unavailable journeys, fitted to the limit, with the target.\<close>

definition target_active :: "RunInput \<Rightarrow> conversation \<Rightarrow> string list \<Rightarrow> ActiveSet \<Rightarrow> run_error + ActiveSet" where
  "target_active inp conv pinned active =
     (let target = ri_TargetJourney inp; continuation = (InteractionID (ow_Command (ri_Owner inp)) \<noteq> []) in
      if target \<noteq> [] \<and> \<not> (continuation \<and> \<not> isAvailable conv target) then
        if \<not> isAvailable conv target then Inl (unavailableJourney (Binding_Resolution (co_cat conv) target))
        else (case Activate target (co_limit conv) pinned active of
                (Inl ErrRefused, _) \<Rightarrow> Inl ErrActivationRefused
              | (Inl ErrInvalid, _) \<Rightarrow> Inl (ErrOther ''invalid journey activation'')
              | (Inr _, a) \<Rightarrow> Inr a)
      else Inr active)"

definition prepare_active :: "RunInput \<Rightarrow> conversation \<Rightarrow> string list \<Rightarrow> string list \<Rightarrow> run_error + ActiveSet" where
  "prepare_active inp conv persisted pinned =
     (let active = NewActiveSet persisted;
          present = snd (Remove (filter (\<lambda>i. \<not> isAvailable conv i) (ids active)) active)
      in case Fit (co_limit conv) pinned present of
           (Inl _, _) \<Rightarrow> Inl (ErrOther ''invalid journey limit'')
         | (Inr _, fitted) \<Rightarrow> target_active inp conv pinned fitted)"

definition converse :: "env \<Rightarrow> RunInput \<Rightarrow> DefinitionSet \<Rightarrow> Binding \<Rightarrow> conversation run" where
  "converse env inp ds b =
     (let conv = \<lparr>co_set = ds, co_cat = b, co_available = available_journeys ds b, co_limit = MaxActiveJourneys (ri_Settings inp)\<rparr>
      in check (co_limit conv \<ge> 1) (ErrOther ''invalid max active journeys'') (
         bindr (journal env (ActiveJourneys (ri_Owner inp))) (\<lambda>(persisted, pinned).
         case prepare_active inp conv persisted pinned of
           Inl e \<Rightarrow> throw e
         | Inr active \<Rightarrow>
             bindr (if persisted = ids active then succeed () else journal env (SetActiveJourneys (ri_Owner inp) (ids active))) (\<lambda>_.
             bindr (journal env (Check (ri_Owner inp))) (\<lambda>_.
             modify (\<lambda>w. w\<lparr>w_active := active\<rparr>) (succeed conv))))))"

definition open_run :: "env \<Rightarrow> runner \<Rightarrow> RunInput \<Rightarrow> conversation run" where
  "open_run env rr inp =
     check (Endpoint_Valid (ri_Endpoint inp)) ErrDependencyUnavailable (
     outcome_of (Load env (rr_compile rr) (ri_DefinitionDigest inp)) (\<lambda>loaded.
     case loaded of
       Inl _ \<Rightarrow> throw (ErrJournal ErrDefinition)
     | Inr ds \<Rightarrow>
         check (ri_TargetJourney inp = [] \<or> Set_Journey ds (ri_TargetJourney inp) \<noteq> None) (ErrJournal ErrDefinition) (
         bindr (journal env (Check (ri_Owner inp))) (\<lambda>_.
         outcome_of (Open_binding env \<lparr>cp_ProductVersion = ri_ProductVersion inp, cp_Endpoint = ri_Endpoint inp\<rparr>
             (ri_Owner inp) ds 0) (\<lambda>opened.
         case opened of
           Inl e \<Rightarrow> throw (if e = ErrEndpointUnavailable then ErrDependencyUnavailable else e)
         | Inr b \<Rightarrow> converse env inp ds b)))))"

definition Run_op :: "env \<Rightarrow> runner \<Rightarrow> RunInput \<Rightarrow> world \<Rightarrow> ((run_error \<times> bytes) + RunOutput) \<times> world" where
  "Run_op env rr inp w =
     (case open_run env rr inp w of
        (Inl e, w') \<Rightarrow> (Inl (e, []), w')
      | (Inr conv, w') \<Rightarrow> runHarness env (rr_budget rr) inp conv w')"

end
