(* ===== verification/Platform.thy ===== *)
theory Platform
  imports Runtime_Run
begin

text \<open>
  The platform (\<open>internal/platform/platform.go\<close>): submission of a command, execution of the run it starts, and
  observation of a conversation. The goroutine that renews the lease and the one that reaps expired runs make requests of
  their own, which the environment of a run contains; a submission returns the work that its goroutine is started with.
\<close>

section \<open>Submission\<close>

record Platform_state =
  p_ownerID :: string
  p_closed :: bool
  p_draining :: bool

definition BeginDrain :: "Platform_state \<Rightarrow> Platform_state" where
  "BeginDrain p = p\<lparr>p_draining := True\<rparr>"

definition Close_platform :: "Platform_state \<Rightarrow> Platform_state" where
  "Close_platform p = (BeginDrain p)\<lparr>p_closed := True\<rparr>"

definition Platform_Ready :: "env \<Rightarrow> runner \<Rightarrow> Platform_state \<Rightarrow> bool run" where
  "Platform_Ready env rr p = (if p_closed p \<or> p_draining p then succeed False else Ready_run env rr)"

definition LeaseDuration :: int where "LeaseDuration = 15 * 1000000000"

definition snapshot_read :: "env \<Rightarrow> Command \<Rightarrow> Snapshot run" where
  "snapshot_read env c = journal env (\<lambda>now db. (Snapshot_op (ThreadID c) (Principal c) db, db))"

text \<open>A reply that was admitted before is started again while its run is pending.\<close>

definition fresh_again :: "env \<Rightarrow> Command \<Rightarrow> bool \<Rightarrow> bool run" where
  "fresh_again env c fresh =
     (if \<not> fresh \<and> InteractionID c \<noteq> [] then
        bindr (snapshot_read env c) (\<lambda>s.
        succeed (list_ex (\<lambda>r. run_ID r = RunID c \<and> run_State r = RunPending) (sn_Runs s)))
      else succeed fresh)"

definition reply_target :: "env \<Rightarrow> Command \<Rightarrow> string run" where
  "reply_target env c =
     (if InteractionID c \<noteq> [] then
        bindr (snapshot_read env c) (\<lambda>s.
        succeed (fold (\<lambda>r t. if run_ID r = RunID c then run_JourneyID r else t) (sn_Runs s) (TargetJourney c)))
      else succeed (TargetJourney c))"

definition run_input :: "Owner \<Rightarrow> Command \<Rightarrow> string \<Rightarrow> Credential \<Rightarrow> RunInput" where
  "run_input ow c target cred =
     \<lparr>ri_Owner = ow, ri_Iteration = 0, ri_History = [], ri_ThreadID = ThreadID c, ri_RunID = RunID c,
      ri_Principal = Principal c, ri_Tenant = Tenant c, ri_Text = Text c, ri_TargetJourney = target, ri_DefinitionDigest = [],
      ri_Credential = cred, ri_ProductVersion = [], ri_Endpoint = \<lparr>ep_id = [], ep_url = []\<rparr>,
      ri_Settings = \<lparr>MaxActiveJourneys = 0, CostProfile = [], InteractionTTL = 0, Digest = []\<rparr>,
      ri_Attribution = \<lparr>at_Tenant = [], at_Principal = [], at_Conversation = [], at_Run = [], at_Journey = []\<rparr>, ri_Access = []\<rparr>"

definition Submit :: "env \<Rightarrow> Platform_state \<Rightarrow> Command \<Rightarrow> Credential \<Rightarrow> (Receipt \<times> RunInput option) run" where
  "Submit env p c cred =
     check (\<not> p_closed p) ErrContext (
     check (\<not> p_draining p) (ErrOther ''platform is draining'') (
     bindr (journal env (Admit (env_lib env) c)) (\<lambda>(receipt, fresh).
     bindr (fresh_again env c fresh) (\<lambda>start.
     if \<not> start then succeed (receipt, None)
     else
       bindr (reply_target env c) (\<lambda>target.
       bindr (journal env (Claim c (p_ownerID p) LeaseDuration)) (\<lambda>ow.
       succeed (receipt, Some (run_input ow c target cred))))))))"

section \<open>Execution\<close>

definition prepare_run :: "env \<Rightarrow> runner \<Rightarrow> RunInput \<Rightarrow> RunInput run" where
  "prepare_run env rr inp =
     bindr (Scope_run env rr inp) (\<lambda>(entry, endpoint, settings).
     let scoped = inp\<lparr>ri_ProductVersion := en_ProductVersion entry, ri_Endpoint := endpoint, ri_Settings := settings\<rparr> in
     bindr (Binding_run env rr scoped) (\<lambda>(journey, digest).
     let bound = scoped\<lparr>ri_TargetJourney := journey, ri_DefinitionDigest := digest\<rparr> in
     bindr (Admit_run env rr bound) (\<lambda>(a, access).
     bindr (journal env (Start (ri_Owner inp) journey digest)) (\<lambda>history.
     succeed (bound\<lparr>ri_Attribution := a, ri_Access := access, ri_History := print_json history\<rparr>)))))"

definition failureReason :: "run_error option \<Rightarrow> string" where
  "failureReason err =
     (if err = Some ErrActivationRefused then ''activation_refused''
      else if err = Some ErrPolicyConflict then ''policy_conflict''
      else if err = Some ErrJourneyUnavailable then ''journey_unavailable''
      else [])"

definition finish_state :: "run_error option \<Rightarrow> RunState" where
  "finish_state err =
     (if err = None then RunCompleted
      else if err = Some ErrDependencyUnavailable then RunDependencyUnavailable
      else if err = Some ErrAuthRequired then RunAuthRequired
      else RunFailed)"

fun kind_string :: "LimitKind \<Rightarrow> string" where
  "kind_string LimitUnset = []"
| "kind_string LimitBudget = ''budget''"
| "kind_string LimitRate = ''rate''"

definition no_output :: "bytes \<Rightarrow> RunOutput" where
  "no_output history = \<lparr>ro_Waiting = False, ro_History = history, ro_JourneyID = [], ro_Answer = [], ro_CallID = [], ro_ToolName = []\<rparr>"

definition commit_end :: "env \<Rightarrow> Owner \<Rightarrow> run_error option \<Rightarrow> RunOutput \<Rightarrow> unit run" where
  "commit_end env ow err out =
     (if finish_state err = RunFailed \<and> failureReason err \<noteq> [] then
        journal env (FinishFailed ow (ro_History out) (failureReason err))
      else journal env (Finish ow (finish_state err) (ro_History out) (ro_Answer out) (ro_CallID out) (ro_ToolName out)))"

text \<open>What happens after a run stopped: \<open>True\<close> when input arrived before the end was committed and the run goes on.\<close>

definition end_run :: "env \<Rightarrow> Owner \<Rightarrow> run_error option \<Rightarrow> RunOutput \<Rightarrow> bool run" where
  "end_run env ow err out =
     (if ro_Waiting out then succeed False
      else ask (env_done env) (\<lambda>ended.
        if ended \<or> err = Some (ErrJournal ErrOwnership) then succeed False
        else case err of
          Some (ErrLimit limit) \<Rightarrow>
            outcome_of (journal env (FinishLimitExceeded ow (ro_History out) (kind_string (le_Kind limit)) (le_RetryAfter limit))) (\<lambda>_.
            succeed False)
        | _ \<Rightarrow> outcome_of (commit_end env ow err out) (\<lambda>r. succeed (r = Inl (ErrJournal ErrPending)))))"

text \<open>The loop of \<open>execute\<close>: the fuel bounds how often input may arrive between the end of the loop and its commit; the
  result is \<open>False\<close> when the fuel is used up.\<close>

fun execute_loop :: "nat \<Rightarrow> env \<Rightarrow> runner \<Rightarrow> run_error option \<Rightarrow> RunInput \<Rightarrow> bool run" where
  "execute_loop 0 env rr err inp = succeed False"
| "execute_loop (Suc n) env rr err inp =
     (\<lambda>w. case (case err of None \<Rightarrow> Run_op env rr inp w | Some e \<Rightarrow> (Inl (e, []), w)) of
        (r, w') \<Rightarrow>
          (let err' = (case r of Inl (e, _) \<Rightarrow> Some e | Inr _ \<Rightarrow> None);
               out = (case r of Inl (_, h) \<Rightarrow> no_output h | Inr out \<Rightarrow> out)
           in bindr (end_run env (ri_Owner inp) err' out) (\<lambda>more.
              if more then
                execute_loop n env rr err' (inp\<lparr>ri_History := ro_History out, ri_Iteration := Suc (ri_Iteration inp)\<rparr>)
              else succeed True) w'))"

definition execute :: "nat \<Rightarrow> env \<Rightarrow> runner \<Rightarrow> RunInput \<Rightarrow> bool run" where
  "execute n env rr inp =
     outcome_of (prepare_run env rr inp) (\<lambda>r.
     case r of
       Inl e \<Rightarrow> execute_loop n env rr (Some e) inp
     | Inr ready \<Rightarrow> execute_loop n env rr None ready)"

section \<open>Observation\<close>

text \<open>A snapshot and the position after which events are delivered; then one poll after another, each of a later database.\<close>

definition Observe_start :: "string \<Rightarrow> string \<Rightarrow> int \<Rightarrow> db \<Rightarrow> journal_error + Snapshot \<times> int" where
  "Observe_start thread who cursor db =
     (if cursor < 0 then Inl ErrState
      else case Snapshot_op thread who db of
        Inl e \<Rightarrow> Inl e
      | Inr s \<Rightarrow> Inr (s, max cursor (sn_Watermark s)))"

fun observe :: "string \<Rightarrow> string \<Rightarrow> int \<Rightarrow> db list \<Rightarrow> (int \<times> Event) list" where
  "observe thread who after [] = []"
| "observe thread who after (db # dbs) =
     (case Events thread who after db of
        Inl _ \<Rightarrow> []
      | Inr batch \<Rightarrow> batch @ observe thread who (fold (\<lambda>e _. fst e) batch after) dbs)"

end
