(* ===== verification/Journal_Consent.thy ===== *)
theory Journal_Consent
  imports Journal_Admission
begin

text \<open>
  What the journal promises about tool calls: what an approval allows, how often a call is sent,
  and that a conversation has one open question and one open call at most.
\<close>

section \<open>What an approval is bound to\<close>

definition binding_message :: "CallBinding \<Rightarrow> bytes" where
  "binding_message b = bindingDomain @ print_json (canonicalBinding b (case parse_json (cb_Arguments b) of Some j \<Rightarrow> j | None \<Rightarrow> JNull))"

text \<open>Two bindings describe the same call: all names agree and the arguments are the same document up to
  the order of members and white space.\<close>

definition same_call :: "CallBinding \<Rightarrow> CallBinding \<Rightarrow> bool" where
  "same_call a b =
     (cb_JourneyID a = cb_JourneyID b \<and> cb_OperationKey a = cb_OperationKey b \<and> cb_NameDigest a = cb_NameDigest b \<and>
      cb_SchemaDigest a = cb_SchemaDigest b \<and> cb_ProductVersion a = cb_ProductVersion b \<and>
      cb_Principal a = cb_Principal b \<and> cb_Conversation a = cb_Conversation b \<and> cb_DefinitionSet a = cb_DefinitionSet b \<and>
      map_option canon (parse_json (cb_Arguments a)) = map_option canon (parse_json (cb_Arguments b)))"

lemma BindCall_ok:
  assumes "BindCall lib b = Inr d"
  shows "\<exists>kvs. parse_json (cb_Arguments b) = Some (JObj kvs) \<and> d = lib_sha256 lib (binding_message b)"
  using assms
  by (auto simp: BindCall_def binding_message_def domainDigest_def split: if_splits option.splits json.splits)

lemma binding_message_inject:
  assumes "parse_json (cb_Arguments a) = Some i" "parse_json (cb_Arguments b) = Some j"
    "binding_message a = binding_message b"
  shows "same_call a b"
proof -
  have ok: "json_ok (canonicalBinding c k)" if "json_ok k" for c k
    using canon_ok [OF that] by (simp add: canonicalBinding_def)
  have "print_json (canonicalBinding a i) = print_json (canonicalBinding b j)"
    using assms by (simp add: binding_message_def)
  then have "canonicalBinding a i = canonicalBinding b j"
    by (rule print_json_inject [rotated 2]) (use assms(1,2) parse_json_ok ok in blast)+
  with assms(1,2) show ?thesis by (simp add: canonicalBinding_def same_call_def)
qed

lemma BindCall_same:
  assumes "BindCall lib a = Inr d" "BindCall lib b = Inr d"
  shows "same_call a b \<or> collides (lib_sha256 lib) (binding_message a) (binding_message b)"
  using BindCall_ok [OF assms(1)] BindCall_ok [OF assms(2)] binding_message_inject [of a _ b]
  by (auto simp: collides_def)

text \<open>C3. A call that needs an approval was approved as it is: for every call on record that requires approval there is
  an approval of the same conversation, answered with \<open>approve\<close> and continued by the run that makes the call,
  for the same call identifier and tool name; it was requested for the same operation with the same
  arguments by the same principal, unless the two binding documents collide under SHA-256. Only read-only calls
  do without one.\<close>

theorem approved_as_dispatched:
  assumes "reachable lib db" "x \<in> set (operations db)" "op_policy x \<noteq> ''read_only'' \<or> op_requires_approval x"
  shows "\<exists>i v b. i \<in> set (interactions db) \<and> v \<in> set (conversations db) \<and> cv_id v = op_thread_id x \<and>
    ia_kind i = ''approval'' \<and> ia_state i = IConsumed \<and> approved i \<and> ia_marker i = Some Dispatched \<and>
    ia_thread_id i = op_thread_id x \<and> ia_continuation_run_id i = Some (op_run_id x) \<and>
    pc_CallID (i_Call (ia_artifact i)) = op_call_id x \<and> pc_Name (i_Call (ia_artifact i)) = op_alias x \<and>
    cb_OperationKey b = op_operation_key x \<and> cb_Arguments b = op_arguments x \<and>
    cb_Conversation b = op_thread_id x \<and> cb_Principal b = cv_principal v \<and>
    (same_call (row_binding i (cv_principal v)) b \<or>
     collides (lib_sha256 lib) (binding_message (row_binding i (cv_principal v))) (binding_message b))"
proof -
  have call: "call_ok lib db x" using calls_ok_reachable [OF assms(1)] assms(2) by (simp add: calls_ok_def)
  with assms(3) obtain i where i: "i \<in> set (interactions db)" "approves_call i x" "ia_marker i = Some Dispatched"
    by (auto simp: call_ok_def)
  have kind: "ia_kind i = ''approval''" using i(2) by (simp add: approves_call_def)
  with interactions_ok_reachable [OF assms(1)] i(1) obtain w where w: "w \<in> set (conversations db)"
    "cv_id w = ia_thread_id i" "BindCall lib (row_binding i (cv_principal w)) = Inr (pc_Binding (i_Call (ia_artifact i)))"
    by (auto simp: interactions_ok_def bound_def)
  from call obtain v b where v: "v \<in> set (conversations db)" "cv_id v = op_thread_id x" "BindCall lib b = Inr (op_binding x)"
    "cb_OperationKey b = op_operation_key x" "cb_Arguments b = op_arguments x" "cb_Conversation b = op_thread_id x"
    "cb_Principal b = cv_principal v"
    unfolding call_ok_def call_bound_def by blast
  have "keys_ok db" using reachable_moves [OF assms(1)] by blast
  from keys_conversation_unique [OF this w(1) v(1)] w(2) v(2) i(2) have "w = v" by (simp add: approves_call_def)
  with w(3) i(2) have "BindCall lib (row_binding i (cv_principal v)) = Inr (op_binding x)"
    by (simp add: approves_call_def)
  from BindCall_same [OF this v(3)] i v kind show ?thesis
    by (intro exI [of _ i] exI [of _ v] exI [of _ b]) (auto simp: approves_call_def)
qed

text \<open>A conversation in which a call is approved and then sent.\<close>

definition call_digest :: string where "call_digest = replicate 64 (CHR ''d'')"

definition call_binding :: CallBinding where
  "call_binding = \<lparr>cb_JourneyID = ''j'', cb_OperationKey = ''pay'', cb_NameDigest = ''n'', cb_SchemaDigest = ''s'',
     cb_Arguments = ''{}'', cb_ProductVersion = ''1'', cb_Principal = ''p'', cb_Conversation = ''t'',
     cb_DefinitionSet = call_digest\<rparr>"

definition call_libs :: libs where
  "call_libs = example_libs\<lparr>lib_sha256 := (\<lambda>b. show_int (int (length b)))\<rparr>"

definition call_token :: string where
  "call_token = (case BindCall call_libs call_binding of Inr d \<Rightarrow> d | Inl _ \<Rightarrow> [])"

definition call_interaction :: Interaction where
  "call_interaction = \<lparr>i_ID = ''i'', i_Kind = ''approval'', i_Questions = [],
     i_Call = \<lparr>pc_CallID = ''k'', pc_ProviderCallID = ''k'', pc_Name = ''pay'', pc_Arguments = ''{}'', pc_Binding = call_token\<rparr>,
     i_ExpiresAt = 0, i_JourneyID = ''j'', i_OperationKey = ''pay'', i_NameDigest = ''n'', i_SchemaDigest = ''s''\<rparr>"

definition call_reply :: Command where
  "call_reply = \<lparr>ThreadID = ''t'', RunID = ''r2'', CommunicationID = ''c2'', Principal = ''p'', Tenant = ''acme'',
     Text = [], TargetJourney = [], InteractionID = ''i'', ReplyKind = ''approval'',
     ReplyJSON = print_json (JObj [(''decision'', JStr ''approve''), (''binding'', JStr call_token)])\<rparr>"

definition call_owner :: Owner where
  "call_owner = \<lparr>ow_Command = call_reply, ow_ID = ''w'', ow_Epoch = 2\<rparr>"

definition call_operation :: Operation where
  "call_operation = \<lparr>o_CallID = ''k'', o_Name = ''pay'', o_Arguments = ''{}'', o_Binding = call_token, o_Policy = ''effectful'',
     o_OperationKey = ''pay'', o_NameDigest = ''n'', o_SchemaDigest = ''s'', o_RequiresApproval = True, o_JourneyID = ''j''\<rparr>"

definition call_scope :: RunScope where
  "call_scope = \<lparr>sc_ProductVersion = ''1'', sc_EndpointID = ''e'', sc_Settings = ''{}''\<rparr>"

definition call_input :: Input where
  "call_input = \<lparr>in_CommunicationID = ''c'', in_Text = [], in_Digest = [], in_Payload = [], in_Materialized = True\<rparr>"

definition call_requests :: "(request \<times> int) list" where
  "call_requests = example_requests @
     [(ReqIncluded example_owner [call_input], 2000), (ReqStart example_owner ''j'' call_digest, 2001),
      (ReqRecordRunScope example_owner call_scope, 2002), (ReqWait example_owner call_interaction ''{}'' ''[]'', 2003),
      (ReqAdmit call_reply, 3000), (ReqClaim call_reply ''w'' 1000000000, 3001),
      (ReqStart call_owner ''j'' call_digest, 3002), (ReqRecordRunScope call_owner call_scope, 3003),
      (ReqBeginAttempt call_owner call_operation 1 ''i'', 3004)]"

definition call_db :: db where
  "call_db = run_requests call_libs call_requests empty_db"

lemma call_reachable: "reachable call_libs call_db"
  unfolding call_db_def by (rule reachable_requests) (rule reachable.empty)

lemma call_operations:
  "map (\<lambda>x. (op_call_id x, op_thread_id x, op_policy x, op_requires_approval x, op_outcome x)) (operations call_db) =
     [(''k'', ''t'', ''effectful'', True, ''dispatching'')]"
  by code_simp

lemma call_row:
  "\<exists>x \<in> set (operations call_db). op_call_id x = ''k'' \<and> op_thread_id x = ''t'' \<and> op_policy x = ''effectful'' \<and>
     op_requires_approval x \<and> op_outcome x = ''dispatching''"
proof -
  have "(''k'', ''t'', ''effectful'', True, ''dispatching'') \<in> set (map (\<lambda>x. (op_call_id x, op_thread_id x, op_policy x,
      op_requires_approval x, op_outcome x)) (operations call_db))"
    unfolding call_operations by simp
  then show ?thesis by auto
qed

theorem approved_as_dispatched_witness:
  "\<exists>i \<in> set (interactions call_db). approved i \<and> ia_marker i = Some Dispatched \<and> ia_thread_id i = ''t'' \<and>
     pc_CallID (i_Call (ia_artifact i)) = ''k''"
proof -
  from call_row obtain x where x: "x \<in> set (operations call_db)" "op_call_id x = ''k''" "op_thread_id x = ''t''"
    "op_requires_approval x" by blast
  from approved_as_dispatched [OF call_reachable x(1)] x show ?thesis by auto
qed

section \<open>How often a call is sent\<close>

lemma attempts_bounded:
  assumes "reachable lib db" "x \<in> set (operations db)"
  shows "length (filter (\<lambda>a. at_call_id a = op_call_id x) (attempts db)) \<le> (if op_policy x = ''effectful'' then 1 else 2)"
proof -
  let ?as = "filter (\<lambda>a. at_call_id a = op_call_id x) (attempts db)"
  have keys: "keys_ok db" using reachable_moves [OF assms(1)] by blast
  have "distinct (map (\<lambda>a. (at_call_id a, at_attempt a)) ?as)"
    using keys by (auto simp: keys_ok_def distinct_map inj_on_def)
  then have d: "distinct (map at_attempt ?as)"
    by (auto simp: distinct_map inj_on_def)
  have "set (map at_attempt ?as) \<subseteq> (if op_policy x = ''effectful'' then {1} else {1, 2})"
  proof
    fix n
    assume "n \<in> set (map at_attempt ?as)"
    then obtain a where a: "a \<in> set (attempts db)" "at_call_id a = op_call_id x" "n = at_attempt a" by auto
    with attempts_ok_reachable [OF assms(1)] obtain y where y: "y \<in> set (operations db)" "op_call_id y = at_call_id a"
      "n = 1 \<or> n = 2" "n = 2 \<longrightarrow> op_policy y \<noteq> ''effectful''"
      by (auto simp: attempts_ok_def attempt_ok_def)
    with keys_operation [OF keys y(1) assms(2)] a(2) show "n \<in> (if op_policy x = ''effectful'' then {1} else {1, 2})"
      by auto
  qed
  then have "card (set (map at_attempt ?as)) \<le> (if op_policy x = ''effectful'' then 1 else 2)"
    by (auto split: if_splits dest: card_mono [rotated])
  with distinct_card [OF d] show ?thesis by simp
qed

text \<open>C6. A call is sent at most twice, and an effectful call at most once: the attempts on record for a call are
  the first and possibly the second, and there is no second attempt of an effectful call.\<close>

theorem call_sent_at_most:
  assumes "reachable lib db" "x \<in> set (operations db)"
  shows "length (filter (\<lambda>a. at_call_id a = op_call_id x) (attempts db)) \<le> (if op_policy x = ''effectful'' then 1 else 2)"
  using attempts_bounded [OF assms] .

theorem call_sent_at_most_witness:
  "length (filter (\<lambda>a. at_call_id a = ''k'') (attempts call_db)) \<le> 1"
proof -
  from call_row obtain x where x: "x \<in> set (operations call_db)" "op_call_id x = ''k''" "op_policy x = ''effectful''"
    by blast
  from call_sent_at_most [OF call_reachable x(1)] x show ?thesis by simp
qed

text \<open>At most one call of a conversation is unresolved: two calls of the same conversation that are being sent or whose
  outcome is unknown are the same call.\<close>

theorem one_unresolved_call:
  assumes "reachable lib db" "x \<in> set (operations db)" "y \<in> set (operations db)" "unresolved t x" "unresolved t y"
  shows "x = y"
proof -
  have "op_call_id x = op_call_id y"
    using one_unresolved_reachable [OF assms(1)] assms(2-5) unfolding one_unresolved_def by blast
  with keys_operation [of db x y] reachable_moves [OF assms(1)] assms(2,3) show ?thesis by blast
qed

theorem one_unresolved_call_witness:
  "\<exists>!x. x \<in> set (operations call_db) \<and> unresolved ''t'' x"
proof -
  from call_row obtain x where x: "x \<in> set (operations call_db)" "unresolved ''t'' x" by (auto simp: unresolved_def)
  with one_unresolved_call [OF call_reachable _ x(1) _ x(2)] show ?thesis by blast
qed

text \<open>At most one interaction of a conversation waits for an answer.\<close>

theorem one_pending_interaction:
  assumes "reachable lib db" "i \<in> set (interactions db)" "j \<in> set (interactions db)"
    "ia_state i = IPending" "ia_state j = IPending" "ia_thread_id i = ia_thread_id j"
  shows "i = j"
proof -
  have "ia_id i = ia_id j"
    using one_pending_reachable [OF assms(1)] assms(2-6) unfolding one_pending_def by blast
  with keys_interaction_unique [of db i j] reachable_moves [OF assms(1)] assms(2,3) show ?thesis by blast
qed

text \<open>The same conversation while the approval is pending.\<close>

definition wait_db :: db where
  "wait_db = run_requests call_libs (take 6 call_requests) empty_db"

theorem one_pending_interaction_witness:
  "\<exists>!i. i \<in> set (interactions wait_db) \<and> ia_state i = IPending \<and> ia_thread_id i = ''t''"
proof -
  have r: "reachable call_libs wait_db"
    unfolding wait_db_def by (rule reachable_requests) (rule reachable.empty)
  have "map (\<lambda>i. (ia_state i, ia_thread_id i)) (interactions wait_db) = [(IPending, ''t'')]" by code_simp
  then obtain i where i: "i \<in> set (interactions wait_db)" "ia_state i = IPending" "ia_thread_id i = ''t''"
    by (cases "interactions wait_db") auto
  show ?thesis
  proof (rule ex1I [of _ i])
    fix j
    assume "j \<in> set (interactions wait_db) \<and> ia_state j = IPending \<and> ia_thread_id j = ''t''"
    with one_pending_interaction [OF r, of j i] i show "j = i" by simp
  qed (simp add: i)
qed

end
