(* ===== verification/Runtime_Safety.thy ===== *)
theory Runtime_Safety
  imports Runtime_Loop Journal_Consent
begin

text \<open>
  Whole runs: a relation that the primitive steps respect is respected by the run. Two locales state which steps; one
  instance gives safety (whatever the model, the endpoint and the other workers do, a run changes the database through
  requests to the journal only, and every call it sends is on record before it is sent), another counts the requests to the
  model.
\<close>

section \<open>The operations a run uses\<close>

lemma owned_reads:
  assumes "\<And>db r db'. body db = Inr (r, db') \<Longrightarrow> db' = db"
  shows "snd (owned ow now body db) = db"
proof (cases ow now body db rule: owned_cases)
  case (ok u db')
  with assms show ?thesis by auto
qed simp

lemma Check_owned: "Check ow now = owned ow now (return ())"
  by (auto simp: Check_def owned_def call_def return_def fun_eq_iff begin_func_def split: sum.splits prod.splits)

lemma reading_requests:
  "is_request lib (Check ow)" "is_request lib (ActiveJourneys ow)" "is_request lib (ConversationPin ow)"
  "is_request lib (Continuation_op ow)" "is_request lib (Pending lib' ow)"
proof -
  show "is_request lib (Check ow)"
    by (rule is_request_read) (auto simp: Check_owned intro!: owned_reads)
  show "is_request lib (ActiveJourneys ow)"
    by (rule is_request_read) (auto simp: ActiveJourneys_def intro!: owned_reads)
  show "is_request lib (ConversationPin ow)"
    by (rule is_request_read, simp only: ConversationPin_def, rule owned_reads)
       (auto simp: tx_defs split: option.splits prod.splits)
  show "is_request lib (Continuation_op ow)"
    by (rule is_request_read) (auto simp: Continuation_op_def intro!: owned_reads)
  show "is_request lib (Pending lib' ow)"
    by (rule is_request_read) (auto simp: Pending_def owned_def [symmetric] intro!: owned_reads)
qed

lemma changing_requests:
  "is_request lib (SetActiveJourneys ow js)" "is_request lib (Included ow ins)" "is_request lib (RecordUsage ow u)"
  "is_request lib (HistoryTruncated ow t)" "is_request lib (Wait lib ow i cp h)" "is_request lib (Supersede ow iid)"
  "is_request lib (RecordServerInfo ow info)" "is_request lib (RecordRunCatalog ow d)" "is_request lib (CommitSnapshot lib ow s)"
  "is_request lib (RecordRunScope ow scope)"
  by (rule is_requestI, rule perform.simps [symmetric])+

lemmas run_requests_ok = reading_requests changing_requests BeginAttempt_request EndAttempt_request

section \<open>Relations that a run respects\<close>

lemma respect_option: "keeps R m \<Longrightarrow> (\<And>a. keeps R (k a)) \<Longrightarrow> keeps R (case x of None \<Rightarrow> m | Some a \<Rightarrow> k a)"
  by (cases x) auto

lemma respect_sum: "(\<And>a. keeps R (m a)) \<Longrightarrow> (\<And>b. keeps R (k b)) \<Longrightarrow> keeps R (case x of Inl a \<Rightarrow> m a | Inr b \<Rightarrow> k b)"
  by (cases x) auto

lemma respect_prod: "(\<And>a b. keeps R (k a b)) \<Longrightarrow> keeps R (case x of (a, b) \<Rightarrow> k a b)"
  by (cases x) auto

lemma respect_if: "keeps R m \<Longrightarrow> keeps R k \<Longrightarrow> keeps R (if b then m else k)"
  by simp

lemmas case_rules = respect_option respect_sum respect_prod respect_if

lemma journal_world:
  assumes "is_request (env_lib env) f"
  shows "\<exists>reqs n. snd (journal env f w) = w\<lparr>w_db := run_requests (env_lib env) reqs (w_db w), w_tick := n\<rparr>"
proof -
  let ?db = "run_requests (env_lib env) (env_others env (w_tick w)) (w_db w)"
  obtain reqs where r: "snd (f (env_now env (w_tick w)) ?db) = run_requests (env_lib env) reqs ?db"
    using assms unfolding is_request_def by blast
  have "w_db (snd (journal env f w)) \<in> {?db, run_requests (env_lib env) reqs ?db} \<and>
      snd (journal env f w) = w\<lparr>w_db := w_db (snd (journal env f w)), w_tick := Suc (w_tick w)\<rparr>"
    using r by (auto simp: journal_def Let_def split: prod.splits option.splits)
  then show ?thesis by (metis insertE run_requests_append singletonD)
qed

text \<open>The steps of a run that make no request to the model: requests to the journal, guarded calls, and changes of what the
  run holds in memory.\<close>

locale run_relation = world_relation +
  fixes env :: env
  assumes requests: "R w (w\<lparr>w_db := run_requests (env_lib env) reqs (w_db w)\<rparr>)"
    and guarded: "keeps R (guardedCall env ow b x grant)"
    and memory: "R w (w\<lparr>w_tick := n\<rparr>)" "R w (w\<lparr>w_history := h\<rparr>)" "R w (w\<lparr>w_active := a\<rparr>)"
      "R w (w\<lparr>w_persisted := p\<rparr>)" "R w (w\<lparr>w_repairs := i\<rparr>)" "R w (w\<lparr>w_calls := c\<rparr>)"
      "R w (w\<lparr>w_skills := ms\<rparr>)" "R w (w\<lparr>w_broken := q\<rparr>)" "R w (w\<lparr>w_sets := ds\<rparr>)"
begin

lemma memory_trans: "R w (w\<lparr>w_active := a, w_persisted := p\<rparr>)"
  "R w (w\<lparr>w_persisted := p, w_repairs := i, w_calls := c, w_skills := ms\<rparr>)"
proof -
  show "R w (w\<lparr>w_active := a, w_persisted := p\<rparr>)"
    using trans [OF memory(3) [of w a] memory(4) [of "w\<lparr>w_active := a\<rparr>" p]] by simp
  have "R w (w\<lparr>w_persisted := p, w_repairs := i\<rparr>)"
    using trans [OF memory(4) [of w p] memory(5) [of "w\<lparr>w_persisted := p\<rparr>" i]] by simp
  from trans [OF this memory(6) [of _ c]] have "R w (w\<lparr>w_persisted := p, w_repairs := i, w_calls := c\<rparr>)" by simp
  from trans [OF this memory(7) [of _ ms]] show "R w (w\<lparr>w_persisted := p, w_repairs := i, w_calls := c, w_skills := ms\<rparr>)"
    by simp
qed

lemma journal: "is_request (env_lib env) f \<Longrightarrow> keeps R (journal env f)"
  unfolding keeps_def
proof
  fix w :: world assume f: "is_request (env_lib env) f"
  obtain reqs n where "snd (journal env f w) = w\<lparr>w_db := run_requests (env_lib env) reqs (w_db w), w_tick := n\<rparr>"
    using journal_world [OF f] by blast
  with trans [OF requests [of w reqs] memory(1) [of _ n]] show "R w (snd (journal env f w))" by simp
qed

lemma keeps_asking: "(\<And>x. keeps R (k x)) \<Longrightarrow> keeps R (ask f k)"
  by (rule keeps_ask) (auto intro: memory)

lemmas step_rules = keeps_succeed keeps_throw keeps_bindr keeps_outcome_of keeps_check keeps_from_sum keeps_read
  keeps_modify keeps_asking journal case_rules run_requests_ok guarded memory memory_trans

lemma flush: "keeps R (flush env inp)"
  unfolding flush_def by (intro step_rules)

lemma touch: "keeps R k \<Longrightarrow> keeps R (touch j k)"
  unfolding touch_def by (intro step_rules)

lemma append_history: "keeps R k \<Longrightarrow> keeps R (append_history ms k)"
  unfolding append_history_def by (intro step_rules)

lemma next_call_number: "(\<And>n. keeps R (k n)) \<Longrightarrow> keeps R (next_call_number k)"
  unfolding next_call_number_def by (intro step_rules)

lemma next_call_id: "(\<And>n. keeps R (k n)) \<Longrightarrow> keeps R (next_call_id env inp k)"
  unfolding next_call_id_def by (intro next_call_number)

lemma encode: "keeps R (encode env ms)"
  unfolding encode_def by (intro step_rules)

lemmas loop_rules = step_rules flush touch append_history next_call_number next_call_id encode

lemma activate_call: "keeps R (activate_call env inp conv args)"
  unfolding activate_call_def Let_def
  by (auto intro!: loop_rules split: prod.split sum.split journeys_error.split)

lemma readResource: "keeps R (readResource env conv args)"
  unfolding readResource_def Let_def
  by (auto intro!: loop_rules split: sum.split skill_error.split)

lemma call_contents: "keeps R (call_contents env base i cs)"
  by (induction cs arbitrary: i) (auto simp: Let_def intro!: loop_rules)

lemma response_contents: "keeps R (response_contents env base r)"
  unfolding response_contents_def Let_def by (intro loop_rules call_contents)

lemma wait: "keeps R (wait env inp i)"
  unfolding wait_def by (intro loop_rules)

lemma settle: "keeps R (settle i r)"
  unfolding settle_def by (intro loop_rules) (auto intro: memory refl)

lemma superseded_wait: "keeps R (superseded_wait env inp conv i t)"
  unfolding superseded_wait_def by (intro loop_rules wait)

lemma resume_call: "keeps R (resume_call env inp conv i t)"
  unfolding resume_call_def by (intro loop_rules superseded_wait settle)

lemma resume_approved: "keeps R (resume_approved env inp conv i)"
  unfolding resume_approved_def by (intro loop_rules resume_call)

lemma ask_person: "keeps R (ask_person env inp c b callID clarification rest)"
  unfolding ask_person_def by (intro loop_rules wait)

lemma run_step: "keeps R (run_step env inp conv step rest)"
proof -
  have "keeps R (alias_call env inp conv step rest)"
    unfolding alias_call_def Let_def by (intro loop_rules ask_person settle)
  moreover have "keeps R (ask_call env inp conv step rest)"
    unfolding ask_call_def Let_def by (intro loop_rules ask_person)
  ultimately show ?thesis
    unfolding run_step_def Let_def
    by (intro loop_rules)
       (auto intro!: loop_rules activate_call readResource refl split: callKind.split option.split)
qed

lemma run_plan: "keeps R (run_plan env inp conv plan)"
  by (induction plan) (auto intro!: loop_rules run_step)

lemma final_answer: "keeps R (final_answer env inp response)"
  unfolding final_answer_def by (intro loop_rules)

lemma continue_from: "keeps R (continue_from env inp c)"
  unfolding continue_from_def Let_def by (intro loop_rules)

end

text \<open>The same with requests to the model, which are counted.\<close>

locale model_relation = run_relation +
  assumes completions: "R w (w\<lparr>w_completions := n\<rparr>)"
begin

lemma model_run: "keeps R (model_run env inp conv pending h kept)"
  unfolding model_run_def by (intro loop_rules response_contents completions)

lemma invoke_request: "keeps R (invoke_request env budget inp conv protected pending n h)"
  unfolding invoke_request_def Let_def by (intro loop_rules model_run)

lemma invoke: "keeps R (invoke env budget inp conv protected)"
  unfolding invoke_def by (intro loop_rules invoke_request)

lemma rounds: "keeps R (rounds n env budget inp conv protected)"
  by (induction n) (auto intro!: loop_rules invoke run_plan final_answer)

lemma harness_body: "keeps R (harness_body env budget inp conv)"
  unfolding harness_body_def by (intro loop_rules continue_from resume_approved rounds)

lemma runHarness:
  assumes "runHarness env budget inp conv w = (r, w')"
  shows "R w w'"
proof (cases "env_unmarshal env (ri_History inp)")
  case None
  with assms show ?thesis by (auto simp: runHarness_def refl)
next
  case (Some h)
  obtain r2 w2 where b: "harness_body env budget inp conv (w\<lparr>w_history := h\<rparr>) = (r2, w2)" by fastforce
  have "R w w2" using trans [OF memory(2) keepsD [OF harness_body b]] .
  then show ?thesis
    using assms Some b by (auto simp: runHarness_def Let_def split: sum.splits if_splits intro: trans memory)
qed

end

section \<open>Safety\<close>

lemma safe_requests: "safe env w (w\<lparr>w_db := run_requests (env_lib env) reqs (w_db w)\<rparr>)"
  by (rule safe_between) (auto simp: requests_between_def)

interpretation safe_run: model_relation "safe env" env for env
  by unfold_locales (auto intro: guardedCall_safe safe_same safe_requests)

section \<open>Requests to the model\<close>

text \<open>Everything but a request to the model leaves the number of requests as it is.\<close>

definition same_completions :: "world \<Rightarrow> world \<Rightarrow> bool" where
  "same_completions w w' \<longleftrightarrow> w_completions w' = w_completions w"

interpretation counted: world_relation same_completions
  by unfold_locales (auto simp: same_completions_def)

lemma journal_completions: "keeps same_completions (journal env f)"
  by (auto simp: keeps_def same_completions_def journal_def Let_def split: prod.splits option.splits)

lemma completions_memory:
  "same_completions w (w\<lparr>w_tick := n\<rparr>)" "same_completions w (w\<lparr>w_sent := ss\<rparr>)" "same_completions w (w\<lparr>w_broken := q\<rparr>)"
  by (simp_all add: same_completions_def)

lemmas counted_rules = counted.keeps_read counted.keeps_check counted.keeps_modify counted.keeps_ask counted.keeps_throw
  counted.keeps_succeed counted.keeps_bindr counted.keeps_outcome_of respect_option completions_memory journal_completions

lemma Call_completions: "keeps same_completions (Call env b c a args)"
  unfolding Call_def
  by (auto split: remote_reply.split transport_error.split intro!: counted_rules)

lemma guardedCall_completions: "keeps same_completions (guardedCall env ow b x grant)"
proof -
  have "keeps same_completions (guarded_loop env ow b x grant ns)" for ns
    by (induction ns) (auto split: sum.split intro!: counted_rules Call_completions)
  then show ?thesis unfolding guardedCall_def .
qed

interpretation counted_run: run_relation same_completions env for env
  by unfold_locales (auto simp: same_completions_def intro: guardedCall_completions)


text \<open>One request to the model makes one more at most.\<close>

lemma same_completionsD: "keeps same_completions m \<Longrightarrow> m w = (r, w') \<Longrightarrow> w_completions w' = w_completions w"
  using keepsD [of same_completions m w r w'] by (simp add: same_completions_def)

definition counts :: "nat \<Rightarrow> 'a run \<Rightarrow> bool" where
  "counts n m \<longleftrightarrow> (\<forall>w. w_completions (snd (m w)) \<le> w_completions w + n)"

lemma counts_same: "keeps same_completions m \<Longrightarrow> counts n m"
  by (simp add: counts_def keeps_def same_completions_def)

lemma countsD: "counts n m \<Longrightarrow> m w = (r, w') \<Longrightarrow> w_completions w' \<le> w_completions w + n"
  unfolding counts_def by (metis snd_conv)

lemma counts_outcome_of:
  assumes "counts i m" "\<And>a. counts j (k a)" "i + j \<le> n"
  shows "counts n (outcome_of m k)"
  unfolding counts_def
proof
  fix w
  obtain r w1 where m: "m w = (r, w1)" by fastforce
  have "w_completions w1 \<le> w_completions w + i" using countsD [OF assms(1) m] .
  moreover have "w_completions (snd (k r w1)) \<le> w_completions w1 + j" using assms(2) by (simp add: counts_def)
  ultimately show "w_completions (snd (outcome_of m k w)) \<le> w_completions w + n"
    using assms(3) by (simp add: outcome_of_def m)
qed

lemma bindr_outcome: "bindr m k = outcome_of m (\<lambda>r. case r of Inl e \<Rightarrow> throw e | Inr a \<Rightarrow> k a)"
  by (auto simp: fun_eq_iff bindr_def outcome_of_def throw_def split: prod.split sum.split)

lemma counts_bindr: "counts i m \<Longrightarrow> (\<And>a. counts j (k a)) \<Longrightarrow> i + j \<le> n \<Longrightarrow> counts n (bindr m k)"
  unfolding bindr_outcome by (rule counts_outcome_of) (auto split: sum.split intro: counts_same counted.keeps_throw)

lemma counts_read: "(\<And>x. counts n (k x)) \<Longrightarrow> counts n (read f k)"
  by (simp add: counts_def read_def)

lemma counts_modify: "(\<And>w. same_completions w (f w)) \<Longrightarrow> counts n k \<Longrightarrow> counts n (modify f k)"
  unfolding counts_def modify_def same_completions_def by metis

lemma counts_ask: "(\<And>x. counts n (k x)) \<Longrightarrow> counts n (ask f k)"
  unfolding counts_def ask_def
proof
  fix w assume "\<And>x. \<forall>w. w_completions (snd (k x w)) \<le> w_completions w + n"
  from spec [OF this, of _ "w\<lparr>w_tick := Suc (w_tick w)\<rparr>"]
  show "w_completions (snd (k (f (w_tick w)) (w\<lparr>w_tick := Suc (w_tick w)\<rparr>))) \<le> w_completions w + n" by simp
qed

lemma counts_check: "counts n k \<Longrightarrow> counts n (check b e k)"
  by (simp add: check_def counts_same counted.keeps_throw)

lemma counts_once: "counts n k \<Longrightarrow> counts (Suc n) (modify (\<lambda>w. w\<lparr>w_completions := Suc (w_completions w)\<rparr>) k)"
  by (auto simp: counts_def modify_def dest: spec [of _ "w\<lparr>w_completions := Suc (w_completions w)\<rparr>" for w])

end
