(* ===== verification/Platform_Safety.thy ===== *)
theory Platform_Safety
  imports Platform Runtime_Safety
begin

text \<open>
  Safety of what the platform executes, from the scope of a run to its end, and what an observer of a conversation sees.
\<close>

section \<open>Every part of an execution is safe\<close>

lemma platform_requests:
  "is_request lib (Admit lib c)" "is_request lib (Claim c oid d)" "is_request lib (Start ow j dg)"
  "is_request lib (Finish ow s h a cid t)" "is_request lib (FinishFailed ow h rs)"
  "is_request lib (FinishLimitExceeded ow h k ra)"
  by (rule is_requestI, rule perform.simps [symmetric])+

lemma read_request: "is_request lib (\<lambda>now db. (f now db, db))"
  by (rule is_request_read) simp

lemma resolve_asking_request: "is_request lib (resolve_asking ow served)"
  by (rule is_requestI [of _ _ "ReqResolveDefinition ow (Some served)"])
     (simp add: resolve_asking_def split: prod.split)

lemmas platform_rules = safe_run.loop_rules platform_requests read_request resolve_asking_request

lemma unavailable_run_safe: "keeps (safe env) (unavailable_run env)"
  unfolding unavailable_run_def by (intro platform_rules)

lemma Load_safe: "keeps (safe env) (Load env compile d)"
  unfolding Load_def by (intro platform_rules)

lemma load_all_safe: "keeps (safe env) (load_all env compile ds)"
  by (induction ds) (auto intro!: platform_rules Load_safe)

lemma Scope_run_safe: "keeps (safe env) (Scope_run env rr inp)"
  unfolding Scope_run_def by (intro platform_rules unavailable_run_safe)

lemma Admit_run_safe: "keeps (safe env) (Admit_run env rr inp)"
  unfolding Admit_run_def Let_def by (intro platform_rules unavailable_run_safe)

lemma binding_loop_safe: "keeps (safe env) (binding_loop n env rr inp)"
  by (induction n) (auto intro!: platform_rules load_all_safe)

lemma Binding_run_safe: "keeps (safe env) (Binding_run env rr inp)"
  unfolding Binding_run_def by (intro platform_rules binding_loop_safe Load_safe)

lemma Open_binding_safe: "keeps (safe env) (Open_binding env scope ow ds ttl)"
proof -
  have lt: "keeps (safe env) (list_tools env scope ow v)" for v
    unfolding list_tools_def by (intro platform_rules)
  have "keeps (safe env) (snapshot_of env scope ow v t)" for v t
    unfolding snapshot_of_def by (intro platform_rules lt)
  then have "keeps (safe env) (open_session env scope ow ds ttl s)" for s
    unfolding open_session_def Let_def by (intro platform_rules)
  then show ?thesis unfolding Open_binding_def by (intro platform_rules)
qed

lemma open_run_safe: "keeps (safe env) (open_run env rr inp)"
proof -
  have "keeps (safe env) (converse env inp ds b)" for ds b
    unfolding converse_def Let_def by (intro platform_rules)
  then show ?thesis unfolding open_run_def by (intro platform_rules Load_safe Open_binding_safe)
qed

lemma Run_op_safe:
  assumes "Run_op env rr inp w = (r, w')"
  shows "safe env w w'"
proof -
  obtain r1 w1 where o: "open_run env rr inp w = (r1, w1)" by fastforce
  from keepsD [OF open_run_safe o] have "safe env w w1" .
  with assms o safe_run.runHarness [of env "rr_budget rr" inp _ w1 r w'] show ?thesis
    by (auto simp: Run_op_def split: sum.splits intro: safe.trans)
qed

lemma end_run_safe: "keeps (safe env) (end_run env ow err out)"
  unfolding end_run_def commit_end_def
  by (intro platform_rules) (auto intro!: platform_rules split: option.split run_error.split)

lemma execute_loop_safe: "keeps (safe env) (execute_loop n env rr err inp)"
proof (induction n arbitrary: err inp)
  case (Suc n)
  show ?case
    unfolding keeps_def
  proof
    fix w
    obtain r w1 where r: "(case err of None \<Rightarrow> Run_op env rr inp w | Some e \<Rightarrow> (Inl (e, []), w)) = (r, w1)" by fastforce
    then have "safe env w w1"
      using Run_op_safe [of env rr inp w r w1] by (auto simp: safe.refl split: option.splits)
    moreover have "keeps (safe env) (bindr (end_run env (ri_Owner inp) e out) (\<lambda>more. if more then execute_loop n env rr e i else succeed True))"
      for e out i
      by (intro platform_rules end_run_safe Suc)
    ultimately show "safe env w (snd (execute_loop (Suc n) env rr err inp w))"
      using r by (auto simp: keeps_def Let_def intro: safe.trans)
  qed
qed (simp add: safe.keeps_succeed)

lemma prepare_run_safe: "keeps (safe env) (prepare_run env rr inp)"
  unfolding prepare_run_def Let_def by (intro platform_rules Scope_run_safe Binding_run_safe Admit_run_safe)

lemma execute_safe: "keeps (safe env) (execute n env rr inp)"
  unfolding execute_def by (intro platform_rules prepare_run_safe execute_loop_safe)

section \<open>What an execution sends\<close>

text \<open>C1. Every call an execution sends to the endpoint is on record with its call identifier, alias and arguments, was sent
  once at most when it is effectful and twice at most otherwise, and is either a read-only call that needs no approval or was
  approved. This holds whatever the model answers, the endpoint does, the database refuses and other workers write
  meanwhile.\<close>

theorem execute_calls_recorded:
  assumes "reachable (env_lib env) (w_db w)" "w_sent w = []" "execute n env rr inp w = (r, w')" "s \<in> set (w_sent w')"
  shows "\<exists>x \<in> set (operations (w_db w')). op_call_id x = st_call s \<and> op_alias x = st_alias s \<and>
    op_arguments x = st_arguments s \<and> times_sent (st_call s) w' \<le> (if op_policy x = ''effectful'' then 1 else 2) \<and>
    (op_policy x = ''read_only'' \<and> \<not> op_requires_approval x \<or>
     (\<exists>i \<in> set (interactions (w_db w')). approves_call i x \<and> ia_marker i = Some Dispatched))"
proof -
  from keepsD [OF execute_safe assms(3)] have safe: "safe env w w'" .
  with assms(1,2) have ok: "sent_ok w'" and db: "reachable (env_lib env) (w_db w')"
    using reachable_between [of env w w'] by (auto simp: safe_def sent_ok_def times_sent_def)
  from ok assms(4) obtain x where x: "x \<in> set (operations (w_db w'))" "op_call_id x = st_call s" "op_alias x = st_alias s"
    "op_arguments x = st_arguments s"
    by (auto simp: sent_ok_def row_on_record_def)
  have "times_sent (st_call s) w' \<le> attempts_of (st_call s) (w_db w')" using ok by (simp add: sent_ok_def)
  with attempts_bounded [OF db x(1)] x(2)
  have "times_sent (st_call s) w' \<le> (if op_policy x = ''effectful'' then 1 else 2)"
    by (auto simp: attempts_of_def)
  moreover have "call_ok (env_lib env) (w_db w') x"
    using calls_ok_reachable [OF db] x(1) by (simp add: calls_ok_def)
  ultimately show ?thesis using x by (intro bexI [OF _ x(1)]) (auto simp: call_ok_def)
qed

text \<open>A model that calls one read-only tool and then answers.\<close>

definition serving_runner :: runner where
  "serving_runner = \<lparr>rr_compile = (\<lambda>files. Some example_set),
     rr_directory = (\<lambda>n. Some (\<lambda>t. Inr \<lparr>en_ProductVersion = ''1'', en_EndpointID = ''e''\<rparr>)),
     rr_endpoints = [(''e'', ''u'')],
     rr_settings = (\<lambda>n. Some (\<lambda>s. Inr \<lparr>MaxActiveJourneys = 2, CostProfile = [], InteractionTTL = 1, Digest = []\<rparr>)),
     rr_admit = (\<lambda>n a p. Some Allow), rr_access = (\<lambda>n a p. Some []), rr_budget = 0\<rparr>"

definition serving_requests :: "(request \<times> int) list" where
  "serving_requests = example_requests @
     [(ReqPutDefinitionSet (ds_digest example_set) [(''a'', ''b'')], 1500),
      (ReqActivate [] (ds_digest example_set) (Some (\<lambda>d. True)), 1600)]"

definition serving_world :: world where
  "serving_world = world_of (run_requests quiet_libs serving_requests empty_db)"

definition calling_env :: env where
  "calling_env = listing_env\<lparr>env_model := (\<lambda>n q. (True, Inr (if mq_ToolResults q = []
     then quiet_response\<lparr>ms_ToolCalls := [\<lparr>tc_CallID = ''p'', tc_Name = ''list_orders'', tc_Arguments = ''{}''\<rparr>]\<rparr>
     else quiet_response)))\<rparr>"

definition served_input :: RunInput where
  "served_input = run_input example_owner example_command ''orders'' []"

definition served_world :: world where
  "served_world = snd (execute 1 calling_env serving_runner served_input serving_world)"

lemma served_sent: "map (\<lambda>s. (st_alias s, st_arguments s)) (w_sent served_world) = [(''list_orders'', ''{}'')]"
  by code_simp

theorem execute_calls_recorded_witness:
  "\<exists>x \<in> set (operations (w_db served_world)). op_alias x = ''list_orders'' \<and> op_arguments x = ''{}'' \<and>
     times_sent (op_call_id x) served_world \<le> 2"
proof -
  from served_sent obtain s where s: "s \<in> set (w_sent served_world)" "st_alias s = ''list_orders''" "st_arguments s = ''{}''"
    by (cases "w_sent served_world") auto
  have e: "execute 1 calling_env serving_runner served_input serving_world =
      (fst (execute 1 calling_env serving_runner served_input serving_world), served_world)"
    by (simp add: served_world_def)
  have lib: "env_lib calling_env = quiet_libs" by (simp add: calling_env_def listing_env_def quiet_env_def)
  have "reachable (env_lib calling_env) (w_db serving_world)"
    unfolding serving_world_def world_of_def lib by (simp add: reachable_requests reachable.empty)
  moreover have "w_sent serving_world = []" by (simp add: serving_world_def world_of_def)
  ultimately obtain x where "x \<in> set (operations (w_db served_world))" "op_call_id x = st_call s" "op_alias x = st_alias s"
    "op_arguments x = st_arguments s" "times_sent (st_call s) served_world \<le> (if op_policy x = ''effectful'' then 1 else 2)"
    using execute_calls_recorded [OF _ _ e s(1)] by blast
  with s show ?thesis by (intro bexI [of _ x]) (auto split: if_splits)
qed

end
