(* ===== verification/Runtime_Properties.thy ===== *)
theory Runtime_Properties
  imports Runtime_Safety
begin

text \<open>
  What a run promises beside safety: it ends after sixteen requests to the model at most, the history of a failed run has
  no open call, and a response is planned through the gate of the active journeys.
\<close>

section \<open>A run ends\<close>

lemma silent: "keeps same_completions m \<Longrightarrow> (\<And>a. counts j (k a)) \<Longrightarrow> counts j (bindr m k)"
  by (rule counts_bindr [OF counts_same]) auto

lemma model_run_counts: "counts (Suc 0) (model_run env inp conv pending h kept)"
proof -
  have rest: "keeps same_completions (bindr (if dispatched then journal env (Included (ri_Owner inp) pending) else succeed ()) (\<lambda>_.
       case completion of Inl e \<Rightarrow> throw e
       | Inr response \<Rightarrow>
           bindr (if dispatched then succeed () else journal env (Included (ri_Owner inp) pending)) (\<lambda>_.
           bindr (journal env (RecordUsage (ri_Owner inp) (usage_of inp (ms_Usage response)))) (\<lambda>_.
           bindr (response_contents env base response) (\<lambda>contents.
           succeed (env_collect env contents))))))" for dispatched completion base
    by (intro counted_run.loop_rules counted_run.response_contents)
  have "counts (Suc 0) (modify (\<lambda>w. w\<lparr>w_completions := Suc (w_completions w)\<rparr>) (ask f (\<lambda>(dispatched, completion). k dispatched completion)))"
    if "\<And>dispatched completion. keeps same_completions (k dispatched completion)"
    for f and k :: "bool \<Rightarrow> run_error + ModelResponse \<Rightarrow> message list run"
    by (rule counts_once, rule counts_ask) (use that in \<open>auto intro: counts_same\<close>)
  note once = this [OF rest]
  show ?thesis
    unfolding model_run_def
    by (intro counts_read silent [OF journal_completions] counts_ask counts_check once)
qed

lemma invoke_counts: "counts (Suc 0) (invoke env budget inp conv protected)"
proof -
  have request: "counts (Suc 0) (invoke_request env budget inp conv protected pending n h)" for pending n h
    unfolding invoke_request_def Let_def
    by (auto split: prod.split intro!: silent model_run_counts counted_run.encode counted_run.step_rules)
  have ends: "keeps same_completions (case r of Inl e \<Rightarrow> modify (\<lambda>w. w\<lparr>w_history := old\<rparr>) (throw e)
      | Inr response \<Rightarrow> append_history response (succeed response))" for r old
    by (intro counted_run.loop_rules)
  show ?thesis
    unfolding invoke_def append_history_def [of "user_messages _"]
    by (intro silent [OF journal_completions] counts_read counts_modify counted_run.memory
        counts_outcome_of [where i = "Suc 0" and j = 0, OF request counts_same [OF ends]]) simp
qed

lemma rounds_counts: "counts n (rounds n env budget inp conv protected)"
proof (induction n)
  case (Suc n)
  have "counts n (case out of Some o' \<Rightarrow> succeed o'
      | None \<Rightarrow> bindr (flush env inp) (\<lambda>_. rounds n env budget inp conv protected))" for out
    by (cases out) (auto intro: silent counted_run.flush Suc counts_same counted.keeps_succeed)
  then show ?case
    by (auto intro!: counts_bindr [where j = n, OF invoke_counts] silent [OF counted_run.run_plan] counts_read
        counts_same [OF counted_run.final_answer])
qed (simp add: counts_same counted.keeps_throw)

lemma harness_body_counts: "counts 16 (harness_body env budget inp conv)"
proof -
  have "keeps same_completions (case x of Some c \<Rightarrow> if b then continue_from env inp c else succeed None | None \<Rightarrow> succeed None)" for x b
    by (intro counted_run.loop_rules counted_run.continue_from)
  moreover have "keeps same_completions (case x of None \<Rightarrow> succeed None | Some i \<Rightarrow> resume_approved env inp conv i)" for x
    by (intro counted_run.loop_rules counted_run.resume_approved)
  moreover have "counts 16 (case out of Some o' \<Rightarrow> succeed o' | None \<Rightarrow> rounds 16 env budget inp conv f)" for out f
    by (cases out) (auto intro: rounds_counts counts_same counted.keeps_succeed)
  ultimately show ?thesis
    unfolding harness_body_def
    by (intro counts_modify counted_run.memory_trans silent journal_completions)
qed

text \<open>C22. A run ends after sixteen requests to the model at most, whatever the model answers.\<close>

theorem runHarness_ends:
  "w_completions (snd (runHarness env budget inp conv w)) \<le> w_completions w + 16"
proof (cases "env_unmarshal env (ri_History inp)")
  case None
  then show ?thesis by (simp add: runHarness_def)
next
  case (Some h)
  obtain r w' where b: "harness_body env budget inp conv (w\<lparr>w_history := h\<rparr>) = (r, w')" by fastforce
  from countsD [OF harness_body_counts b] Some b show ?thesis
    by (auto simp: runHarness_def Let_def split: sum.split)
qed

section \<open>The history of a failed run\<close>

lemma open_calls_append: "open_calls (h @ ms) = fold open_step (concat (map m_Contents ms)) (open_calls h)"
  by (simp add: open_calls_def)

lemma open_step_order: "set (fst s) \<subseteq> set (snd s) \<Longrightarrow> set (fst (open_step c s)) \<subseteq> set (snd (open_step c s))"
  by (cases s; cases c) auto

lemma open_calls_order: "set (fst (open_calls h)) \<subseteq> set (snd (open_calls h))"
proof -
  have "set (fst s) \<subseteq> set (snd s) \<Longrightarrow> set (fst (fold open_step cs s)) \<subseteq> set (snd (fold open_step cs s))" for cs s
    by (induction cs arbitrary: s) (auto simp: open_step_order)
  then show ?thesis by (simp add: open_calls_def)
qed

lemma close_calls_open:
  "fst (fold open_step (concat (map m_Contents (close_calls opened order))) (opened, rest)) =
     filter (\<lambda>x. x \<notin> set order) opened"
proof (induction opened order arbitrary: rest rule: close_calls.induct)
  case (2 opened i order)
  then show ?case by (auto simp: resultMessage_def intro: filter_cong)
qed simp

lemma close_history_open: "fst (open_calls (close_history h)) = []"
proof -
  obtain opened order where o: "open_calls h = (opened, order)" by fastforce
  with open_calls_order [of h] have "filter (\<lambda>x. x \<notin> set order) opened = []" by (auto simp: filter_empty_conv)
  with close_calls_open [of opened order order] o show ?thesis by (simp add: close_history_def open_calls_append)
qed

text \<open>C21. A failed run leaves no call open: the history it reports keeps all messages of the run, and every call in it has a
  result.\<close>

theorem runHarness_closes:
  assumes "env_unmarshal env (ri_History inp) = Some h" "harness_body env budget inp conv (w\<lparr>w_history := h\<rparr>) = (Inl e, w1)"
    "w_history w1 \<noteq> []"
  shows "\<exists>closing. snd (runHarness env budget inp conv w) = w1\<lparr>w_history := w_history w1 @ closing\<rparr> \<and>
    fst (open_calls (w_history w1 @ closing)) = [] \<and>
    fst (runHarness env budget inp conv w) =
      Inl (e, case env_marshal env (w_history w1 @ closing) of None \<Rightarrow> [] | Some b \<Rightarrow> b)"
proof -
  obtain closing where c: "close_history (w_history w1) = w_history w1 @ closing" by (auto simp: close_history_def)
  from close_history_open [of "w_history w1"] assms c show ?thesis
    by (intro exI [of _ closing]) (simp add: runHarness_def Let_def)
qed

text \<open>A run without ownership stops at once; the history had one open call.\<close>

definition open_message :: message where
  "open_message = \<lparr>m_Role = RoleAssistant, m_Contents = [CallContent \<lparr>fc_CallID = ''c'', fc_Name = ''n'', fc_Arguments = [],
     fc_InformationalOnly = False\<rparr>]\<rparr>"

definition stopped_env :: env where
  "stopped_env = quiet_env\<lparr>env_unmarshal := (\<lambda>b. Some [open_message])\<rparr>"

definition stopped_input :: RunInput where
  "stopped_input = \<lparr>ri_Owner = example_owner, ri_Iteration = 0, ri_History = [], ri_ThreadID = [], ri_RunID = [],
     ri_Principal = [], ri_Tenant = [], ri_Text = [], ri_TargetJourney = [], ri_DefinitionDigest = [], ri_Credential = [],
     ri_ProductVersion = [], ri_Endpoint = \<lparr>ep_id = [], ep_url = []\<rparr>,
     ri_Settings = \<lparr>MaxActiveJourneys = 0, CostProfile = [], InteractionTTL = 0, Digest = []\<rparr>,
     ri_Attribution = \<lparr>at_Tenant = [], at_Principal = [], at_Conversation = [], at_Run = [], at_Journey = []\<rparr>, ri_Access = []\<rparr>"

definition stopped_conversation :: conversation where
  "stopped_conversation = \<lparr>co_set = example_set, co_cat = \<lparr>b_resolutions = [], b_byAlias = [], b_digest = [], b_productVersion = [],
     b_serverName = [], b_serverVersion = []\<rparr>, co_available = [], co_limit = 1\<rparr>"

theorem runHarness_closes_witness:
  "fst (open_calls (w_history (snd (runHarness stopped_env 0 stopped_input stopped_conversation (world_of empty_db))))) = [] \<and>
   fst (open_calls [open_message]) = [''c'']"
proof -
  let ?b = "harness_body stopped_env 0 stopped_input stopped_conversation ((world_of empty_db)\<lparr>w_history := [open_message]\<rparr>)"
  have "case ?b of (Inl e, w) \<Rightarrow> w_history w = [open_message] | _ \<Rightarrow> False" by code_simp
  then obtain e w1 where b: "?b = (Inl e, w1)" and h: "w_history w1 \<noteq> []" by (auto split: prod.splits sum.splits)
  have u: "env_unmarshal stopped_env (ri_History stopped_input) = Some [open_message]" by (simp add: stopped_env_def)
  from runHarness_closes [OF u b h] have
    "fst (open_calls (w_history (snd (runHarness stopped_env 0 stopped_input stopped_conversation (world_of empty_db))))) = []"
    by auto
  moreover have "fst (open_calls [open_message]) = [''c'']" by code_simp
  ultimately show ?thesis by blast
qed

section \<open>The gate of the active journeys\<close>

lemma find_rev: "find P (rev xs) = Some x \<Longrightarrow> \<exists>ys zs. xs = ys @ x # zs \<and> P x \<and> (\<forall>z \<in> set zs. \<not> P z)"
proof (induction xs rule: rev_induct)
  case (snoc y xs)
  show ?case
  proof (cases "P y")
    case False
    with snoc obtain ys zs where "xs = ys @ x # zs" "P x" "\<forall>z \<in> set zs. \<not> P z" by auto
    with False show ?thesis by (intro exI [of _ ys] exI [of _ "zs @ [y]"]) auto
  next
    case True
    with snoc.prems show ?thesis by (intro exI [of _ xs] exI [of _ "[]"]) simp
  qed
qed simp

text \<open>Each call of a response gets one step, in order. A call is sent to the endpoint only when no call of the response
  activates a journey and an active journey offers its tool, the most recently used one where several do; with an
  activation in the response nothing but activations is executed.\<close>

theorem planCalls_gate:
  assumes "p \<in> set (planCalls calls resources (alias_owner conv active))"
  shows "map pl_Call (planCalls calls resources (alias_owner conv active)) = calls \<and>
    (pl_Kind p = callAlias \<longrightarrow>
       (\<forall>c \<in> set calls. fc_Name c \<noteq> toolActivateJourney) \<and>
       (\<exists>older newer. ids active = older @ pl_Journey p # newer \<and>
          Binding_Tool (co_cat conv) (pl_Journey p) (fc_Name (pl_Call p)) \<noteq> None \<and>
          (\<forall>j \<in> set newer. Binding_Tool (co_cat conv) j (fc_Name (pl_Call p)) = None))) \<and>
    ((\<exists>c \<in> set calls. fc_Name c = toolActivateJourney) \<longrightarrow>
       pl_Kind p = (if fc_Name (pl_Call p) = toolActivateJourney then callActivate else callNotExecuted))"
proof (intro conjI impI)
  let ?act = "list_ex (\<lambda>c. fc_Name c = toolActivateJourney) calls"
  from assms obtain c where c: "c \<in> set calls" and p: "p = plan_call ?act resources (alias_owner conv active) c"
    by (auto simp: planCalls_def)
  have call: "pl_Call (plan_call a r owner c) = c" for a r owner c
    by (simp add: plan_call_def Let_def split: option.split)
  then show "map pl_Call (planCalls calls resources (alias_owner conv active)) = calls"
    by (simp add: planCalls_def map_idI)
  show "pl_Kind p = (if fc_Name (pl_Call p) = toolActivateJourney then callActivate else callNotExecuted)"
    if "\<exists>c \<in> set calls. fc_Name c = toolActivateJourney"
  proof -
    have ?act using that by (simp add: list_ex_iff)
    then show ?thesis by (simp add: p call) (simp add: plan_call_def Let_def)
  qed
  assume k: "pl_Kind p = callAlias"
  then have "\<not> ?act" and o: "alias_owner conv active (fc_Name c) = Some (pl_Journey p)"
    unfolding p by (auto simp: plan_call_def Let_def split: if_splits option.splits)
  then show "\<forall>c \<in> set calls. fc_Name c \<noteq> toolActivateJourney" by (simp add: list_ex_iff)
  have "pl_Call p = c" by (simp add: p call)
  with find_rev [OF o [unfolded alias_owner_def owningJourney_def]]
  show "\<exists>older newer. ids active = older @ pl_Journey p # newer \<and>
          Binding_Tool (co_cat conv) (pl_Journey p) (fc_Name (pl_Call p)) \<noteq> None \<and>
          (\<forall>j \<in> set newer. Binding_Tool (co_cat conv) j (fc_Name (pl_Call p)) = None)" by simp
qed

definition gate_conversation :: conversation where
  "gate_conversation = stopped_conversation\<lparr>co_cat := (co_cat stopped_conversation)\<lparr>b_resolutions := [example_resolution]\<rparr>\<rparr>"

definition gate_plan :: "plannedCall list" where
  "gate_plan = planCalls [\<lparr>fc_CallID = ''c'', fc_Name = ''list_orders'', fc_Arguments = [], fc_InformationalOnly = False\<rparr>] False
     (alias_owner gate_conversation \<lparr>ids = [''orders'']\<rparr>)"

theorem planCalls_gate_witness:
  "\<exists>p \<in> set gate_plan. pl_Kind p = callAlias \<and> Binding_Tool (co_cat gate_conversation) (pl_Journey p) (fc_Name (pl_Call p)) \<noteq> None"
proof -
  have "list_ex (\<lambda>p. pl_Kind p = callAlias) gate_plan" by code_simp
  then obtain p where p: "p \<in> set gate_plan" "pl_Kind p = callAlias" by (auto simp: list_ex_iff)
  from planCalls_gate [OF p(1) [unfolded gate_plan_def]] p show ?thesis by blast
qed

end
