(* ===== verification/Platform_Observe.thy ===== *)
theory Platform_Observe
  imports Platform Journal_Admission
begin

text \<open>
  What an observer of a conversation receives: the polls of an observation, each of a later database, deliver every event
  once, in order, whatever is written between them.
\<close>

section \<open>Polls\<close>

text \<open>The databases that the polls see: between two of them any requests are made.\<close>

fun polled :: "libs \<Rightarrow> db \<Rightarrow> (request \<times> int) list list \<Rightarrow> db list" where
  "polled lib db [] = []"
| "polled lib db (rs # rss) = run_requests lib rs db # polled lib (run_requests lib rs db) rss"

lemma fold_last: "fold (\<lambda>e _. fst e) es n = (if es = [] then n else fst (last es))"
  by (induction es arbitrary: n) auto

lemma last_sequence:
  assumes "reachable lib db" "find_conversation thread db = Some v" "0 \<le> after"
  shows "fold (\<lambda>e _. fst e) (readEvents thread after db) after = max after (cv_sequence v)"
proof -
  note m = readEvents_log(2) [OF assms]
  show ?thesis
  proof (cases "after < cv_sequence v")
    case True
    with m have "readEvents thread after db \<noteq> []" by (auto simp: upto.simps)
    moreover from this m have "fst (last (readEvents thread after db)) = last [after + 1..cv_sequence v]"
      by (metis last_map)
    ultimately show ?thesis using True by (simp add: fold_last upto_rec2)
  next
    case False
    then have "[after + 1..cv_sequence v] = []" by simp
    with m False show ?thesis by (simp add: fold_last)
  qed
qed

lemma readEvents_later:
  assumes db: "reachable lib db" and v: "find_conversation thread db = Some v" and after: "0 \<le> after"
  shows "readEvents thread after (run_requests lib reqs db) =
    readEvents thread after db @ readEvents thread (max after (cv_sequence v)) (run_requests lib reqs db)"
proof -
  let ?db = "run_requests lib reqs db"
  have db': "reachable lib ?db" using reachable_requests [OF db] .
  have later: "later db ?db" using later_requests [OF db] .
  have "keys_ok ?db" using reachable_moves [OF db'] by blast
  then obtain v' where v': "find_conversation thread ?db = Some v'" using kept_principal [OF v later] by blast
  from later obtain es where es: "events ?db = events db @ es" by (auto simp: later_def prefix_def)
  let ?f = "filter (\<lambda>e. ev_thread_id e = thread)" and ?m = "max after (cv_sequence v)"
  have seq: "map ev_sequence (?f (events db)) = [1..cv_sequence v]" "map ev_sequence (?f (events db @ es)) = [1..cv_sequence v']"
    using log_ok_reachable [OF db] log_ok_reachable [OF db'] find_conversation_ok [OF v] find_conversation_ok [OF v'] es
    by (auto simp: log_ok_def)
  have old: "ev_sequence e \<le> cv_sequence v" if "e \<in> set (events db)" "ev_thread_id e = thread" for e
    using that arg_cong [OF seq(1), of set] by auto
  have "distinct (map ev_sequence (?f (events db @ es)))" by (simp only: seq(2) distinct_upto)
  then have "set (map ev_sequence (?f (events db))) \<inter> set (map ev_sequence (?f es)) = {}" by simp
  moreover have "\<forall>e \<in> set (?f es). 1 \<le> ev_sequence e" using arg_cong [OF seq(2), of set] by auto
  ultimately have new: "cv_sequence v < ev_sequence e" if "e \<in> set es" "ev_thread_id e = thread" for e
    using that arg_cong [OF seq(1), of set] by (fastforce simp: not_le)
  have "filter (\<lambda>e. ev_thread_id e = thread \<and> ev_sequence e > ?m) (events db) = []"
    using old by (fastforce simp: filter_empty_conv)
  moreover have "filter (\<lambda>e. ev_thread_id e = thread \<and> ev_sequence e > ?m) es =
      filter (\<lambda>e. ev_thread_id e = thread \<and> ev_sequence e > after) es"
    using new by (intro filter_cong) auto
  ultimately show ?thesis
    using readEvents_log(1) [OF db v after] readEvents_log(1) [OF db' v' after] readEvents_log(1) [OF db' v', of ?m] after es
    by simp
qed

lemma observe_polled:
  assumes "reachable lib db" "find_conversation thread db = Some v" "cv_principal v = who" "0 \<le> after" "rss \<noteq> []"
  shows "observe thread who after (polled lib db rss) = readEvents thread after (run_requests lib (concat rss) db)"
  using assms
proof (induction rss arbitrary: db after v)
  case (Cons rs rss)
  let ?db = "run_requests lib rs db"
  have db': "reachable lib ?db" using reachable_requests [OF Cons.prems(1)] .
  then have "keys_ok ?db" using reachable_moves by blast
  with kept_principal [OF Cons.prems(2) later_requests [OF Cons.prems(1)]] Cons.prems(3)
  obtain w where w: "find_conversation thread ?db = Some w" "cv_principal w = who" by blast
  have step: "observe thread who after (polled lib db (rs # rss)) =
      readEvents thread after ?db @ observe thread who (max after (cv_sequence w)) (polled lib ?db rss)"
    using w last_sequence [OF db' w(1) Cons.prems(4)] by (simp add: Events_def)
  show ?case
  proof (cases "rss = []")
    case True
    with step show ?thesis by simp
  next
    case False
    with Cons.IH [OF db' w _ False, of "max after (cv_sequence w)"] Cons.prems(4)
    have "observe thread who (max after (cv_sequence w)) (polled lib ?db rss) =
        readEvents thread (max after (cv_sequence w)) (run_requests lib (concat rss) ?db)" by simp
    with step readEvents_later [OF db' w(1) Cons.prems(4), of "concat rss"] show ?thesis
      by (simp add: run_requests_append)
  qed
qed simp

text \<open>C9. An observer loses nothing and sees nothing twice: after a snapshot, the events that the polls of an observation
  deliver are exactly those recorded after the position of the snapshot, in order and without a gap, whatever requests are made
  between the polls.\<close>

theorem observe_complete:
  assumes "reachable lib db" "Observe_start thread who cursor db = Inr (s, after)" "rss \<noteq> []"
  shows "max cursor (sn_Watermark s) = after \<and>
    observe thread who after (polled lib db rss) = readEvents thread after (run_requests lib (concat rss) db) \<and>
    (\<exists>v. find_conversation thread (run_requests lib (concat rss) db) = Some v \<and>
       map fst (observe thread who after (polled lib db rss)) = [after + 1..cv_sequence v])"
proof -
  from assms(2) have c: "0 \<le> cursor" and sn: "Snapshot_op thread who db = Inr s" and after: "after = max cursor (sn_Watermark s)"
    by (auto simp: Observe_start_def split: if_splits sum.splits)
  from sn obtain v where v: "find_conversation thread db = Some v" "cv_principal v = who"
    by (auto simp: Snapshot_op_def Let_def split: option.splits if_splits)
  have o: "observe thread who after (polled lib db rss) = readEvents thread after (run_requests lib (concat rss) db)"
    using observe_polled [OF assms(1) v _ assms(3)] c after by simp
  have db': "reachable lib (run_requests lib (concat rss) db)" using reachable_requests [OF assms(1)] .
  then have "keys_ok (run_requests lib (concat rss) db)" using reachable_moves by blast
  with kept_principal [OF v(1) later_requests [OF assms(1)]]
  obtain w where "find_conversation thread (run_requests lib (concat rss) db) = Some w" by blast
  with readEvents_log(2) [OF db' this, of after] o after c show ?thesis by auto
qed

text \<open>A run is claimed after the snapshot; the observer sees it start.\<close>

definition admitted_db :: db where
  "admitted_db = run_requests example_libs [(ReqAdmit example_command, 0)] empty_db"

theorem observe_complete_witness:
  "\<exists>s after v. Observe_start ''t'' ''p'' 0 admitted_db = Inr (s, after) \<and>
     find_conversation ''t'' (run_requests example_libs [(ReqClaim example_command ''w'' 1000000000, 1000)] admitted_db) = Some v \<and>
     map fst (observe ''t'' ''p'' after (polled example_libs admitted_db [[(ReqClaim example_command ''w'' 1000000000, 1000)]])) =
       [after + 1..cv_sequence v]"
proof -
  have r: "reachable example_libs admitted_db"
    unfolding admitted_db_def by (rule reachable_requests) (rule reachable.empty)
  have "case Observe_start ''t'' ''p'' 0 admitted_db of Inl _ \<Rightarrow> False | Inr _ \<Rightarrow> True" by code_simp
  then obtain s after where s: "Observe_start ''t'' ''p'' 0 admitted_db = Inr (s, after)" by (auto split: sum.splits)
  from observe_complete [OF r s, of "[[(ReqClaim example_command ''w'' 1000000000, 1000)]]"] s show ?thesis by auto
qed

end
