(* ===== verification/Chat_Identity.thy ===== *)
theory Chat_Identity
  imports Headers Journal_Store
begin

text \<open>
  Who is calling and under which identifiers the platform knows the caller's conversations (\<open>internal/chat/auth.go\<close>,
  \<open>identity.go\<close>): static bearer tokens, and the tables that map the identifiers of a client to random ones.
\<close>

section \<open>Static bearer tokens\<close>

record Identity =
  id_Tenant :: string
  id_Principal :: string

text \<open>A token of the map; a map has no token twice, so the order of the search does not matter.\<close>

definition Authenticate_static :: "(string \<times> string) list \<Rightarrow> Header \<Rightarrow> Identity option" where
  "Authenticate_static tokens h =
     (let value = (case h ''Authorization'' of [] \<Rightarrow> [] | v # _ \<Rightarrow> v) in
      if \<not> prefix ''Bearer '' value then None
      else case find (\<lambda>(token, who). token = drop 7 value \<and> who \<noteq> []) tokens of
        None \<Rightarrow> None
      | Some (token, who) \<Rightarrow>
          (case cut CHR ''/'' who of
             None \<Rightarrow> Some \<lparr>id_Tenant = [], id_Principal = who\<rparr>
           | Some (tenant, user) \<Rightarrow>
               if tenant = [] \<or> user = [] then None else Some \<lparr>id_Tenant = tenant, id_Principal = who\<rparr>))"

section \<open>The identity map\<close>

record chat_thread =
  ct_principal :: string
  ct_external :: string
  ct_id :: string

record chat_run =
  cr_thread :: string
  cr_external :: string
  cr_id :: string
  cr_communication :: string

record chat_db =
  chat_threads :: "chat_thread list"
  chat_runs :: "chat_run list"

datatype chat_error = ChatForbidden | ChatDatabase

text \<open>Insertion with a unique constraint on the identifiers; an existing mapping is returned as it is.\<close>

definition insert_thread :: "string \<Rightarrow> string \<Rightarrow> string \<Rightarrow> chat_db \<Rightarrow> chat_error + string \<times> chat_db" where
  "insert_thread who external fresh db =
     (case find (\<lambda>t. ct_principal t = who \<and> ct_external t = external) (chat_threads db) of
        Some t \<Rightarrow> Inr (ct_id t, db)
      | None \<Rightarrow>
          if fresh \<in> ct_id ` set (chat_threads db) then Inl ChatDatabase
          else Inr (fresh, db\<lparr>chat_threads := chat_threads db @ [\<lparr>ct_principal = who, ct_external = external, ct_id = fresh\<rparr>]\<rparr>))"

definition insert_run :: "string \<Rightarrow> string \<Rightarrow> string \<Rightarrow> string \<Rightarrow> chat_db \<Rightarrow> chat_error + (string \<times> string) \<times> chat_db" where
  "insert_run thread external fresh comm db =
     (case find (\<lambda>r. cr_thread r = thread \<and> cr_external r = external) (chat_runs db) of
        Some r \<Rightarrow> Inr ((cr_id r, cr_communication r), db)
      | None \<Rightarrow>
          if fresh \<in> cr_id ` set (chat_runs db) \<or> comm \<in> cr_communication ` set (chat_runs db) then Inl ChatDatabase
          else Inr ((fresh, comm), db\<lparr>chat_runs := chat_runs db @
            [\<lparr>cr_thread = thread, cr_external = external, cr_id = fresh, cr_communication = comm\<rparr>]\<rparr>))"

text \<open>The identifiers of a request. A request that creates needs three random identifiers; one that only reads never writes.\<close>

definition resolve :: "string \<Rightarrow> string \<Rightarrow> string \<Rightarrow> (string \<times> string \<times> string) option \<Rightarrow> chat_db \<Rightarrow>
    (chat_error + string \<times> string \<times> string) \<times> chat_db" where
  "resolve who thread run fresh db =
     (case fresh of
        None \<Rightarrow>
          ((case find (\<lambda>t. ct_principal t = who \<and> ct_external t = thread) (chat_threads db) of
              None \<Rightarrow> Inl ChatForbidden
            | Some t \<Rightarrow>
                (case find (\<lambda>r. cr_thread r = ct_id t \<and> cr_external r = run) (chat_runs db) of
                   None \<Rightarrow> Inl ChatForbidden
                 | Some r \<Rightarrow> Inr (ct_id t, cr_id r, cr_communication r))), db)
      | Some (a, b, c) \<Rightarrow>
          (case insert_thread who thread a db of
             Inl e \<Rightarrow> (Inl e, db)
           | Inr (t, db1) \<Rightarrow>
               (case insert_run t run b c db1 of
                  Inl e \<Rightarrow> (Inl e, db)
                | Inr ((r, comm), db2) \<Rightarrow> (Inr (t, r, comm), db2))))"

definition externalCommands :: "string \<Rightarrow> string \<Rightarrow> chat_db \<Rightarrow> (string \<times> string) list" where
  "externalCommands who thread db =
     (if list_ex (\<lambda>t. ct_principal t = who \<and> ct_id t = thread) (chat_threads db)
      then map (\<lambda>r. (cr_communication r, cr_external r)) (filter (\<lambda>r. cr_thread r = thread) (chat_runs db))
      else [])"

section \<open>Identifiers are stable and belong to one caller\<close>

text \<open>The constraints of the tables.\<close>

definition chat_ok :: "chat_db \<Rightarrow> bool" where
  "chat_ok db \<longleftrightarrow> distinct (map ct_id (chat_threads db)) \<and> distinct (map (\<lambda>t. (ct_principal t, ct_external t)) (chat_threads db)) \<and>
     distinct (map cr_id (chat_runs db)) \<and> distinct (map cr_communication (chat_runs db)) \<and>
     distinct (map (\<lambda>r. (cr_thread r, cr_external r)) (chat_runs db)) \<and>
     cr_thread ` set (chat_runs db) \<subseteq> ct_id ` set (chat_threads db)"

definition chat_grows :: "chat_db \<Rightarrow> chat_db \<Rightarrow> bool" where
  "chat_grows db db' \<longleftrightarrow> prefix (chat_threads db) (chat_threads db') \<and> prefix (chat_runs db) (chat_runs db')"

text \<open>The mapping that the tables hold.\<close>

definition mapped :: "string \<Rightarrow> string \<Rightarrow> string \<Rightarrow> string \<times> string \<times> string \<Rightarrow> chat_db \<Rightarrow> bool" where
  "mapped who thread run ids db \<longleftrightarrow> (case ids of (t, r, c) \<Rightarrow>
     \<lparr>ct_principal = who, ct_external = thread, ct_id = t\<rparr> \<in> set (chat_threads db) \<and>
     \<lparr>cr_thread = t, cr_external = run, cr_id = r, cr_communication = c\<rparr> \<in> set (chat_runs db))"

lemma find_distinct: "distinct (map f xs) \<Longrightarrow> x \<in> set xs \<Longrightarrow> find (\<lambda>y. f y = f x) xs = Some x"
  by (induction xs) auto

lemma find_thread:
  "find (\<lambda>t. ct_principal t = who \<and> ct_external t = ext) ts = Some x \<Longrightarrow> \<lparr>ct_principal = who, ct_external = ext, ct_id = ct_id x\<rparr> \<in> set ts"
  by (auto simp: find_Some_iff) (metis chat_thread.surjective nth_mem old.unit.exhaust)

lemma find_run_row:
  "find (\<lambda>r. cr_thread r = t \<and> cr_external r = ext) rs = Some x \<Longrightarrow>
     \<lparr>cr_thread = t, cr_external = ext, cr_id = cr_id x, cr_communication = cr_communication x\<rparr> \<in> set rs"
  by (auto simp: find_Some_iff) (metis chat_run.surjective nth_mem old.unit.exhaust)

lemma insert_thread_Inr:
  assumes "chat_ok db" "insert_thread who ext fresh db = Inr (t, db')"
  shows "chat_ok db' \<and> chat_grows db db' \<and> \<lparr>ct_principal = who, ct_external = ext, ct_id = t\<rparr> \<in> set (chat_threads db') \<and>
    chat_runs db' = chat_runs db"
proof (cases "find (\<lambda>t. ct_principal t = who \<and> ct_external t = ext) (chat_threads db)")
  case None
  with assms show ?thesis
    by (auto simp: insert_thread_def chat_ok_def chat_grows_def find_None_iff split: if_splits) blast
next
  case (Some x)
  with find_thread [OF Some] assms show ?thesis by (auto simp: insert_thread_def chat_grows_def)
qed

lemma insert_run_Inr:
  assumes "chat_ok db" "t \<in> ct_id ` set (chat_threads db)" "insert_run t ext fresh comm db = Inr ((r, c), db')"
  shows "chat_ok db' \<and> chat_grows db db' \<and> chat_threads db' = chat_threads db \<and>
    \<lparr>cr_thread = t, cr_external = ext, cr_id = r, cr_communication = c\<rparr> \<in> set (chat_runs db')"
proof (cases "find (\<lambda>r. cr_thread r = t \<and> cr_external r = ext) (chat_runs db)")
  case None
  with assms show ?thesis
    by (fastforce simp: insert_run_def chat_ok_def chat_grows_def find_None_iff split: if_splits)
next
  case (Some x)
  with find_run_row [OF Some] assms show ?thesis by (auto simp: insert_run_def chat_grows_def)
qed

lemma chat_grows_trans: "chat_grows a b \<Longrightarrow> chat_grows b c \<Longrightarrow> chat_grows a c"
  by (auto simp: chat_grows_def intro: prefix_order.trans)

lemma chat_grows_refl [simp]: "chat_grows db db"
  by (simp add: chat_grows_def)

lemma resolve_step:
  assumes "chat_ok db" "resolve who thread run fresh db = (r, db')"
  shows "chat_ok db' \<and> chat_grows db db' \<and> (fresh = None \<longrightarrow> db' = db) \<and> (\<forall>ids. r = Inr ids \<longrightarrow> mapped who thread run ids db')"
proof (cases fresh)
  case None
  with assms show ?thesis
    by (auto simp: resolve_def mapped_def split: option.splits dest: find_thread find_run_row)
next
  case (Some abc)
  obtain a b c where abc: "abc = (a, b, c)" by (cases abc)
  show ?thesis
  proof (cases "insert_thread who thread a db")
    case (Inl e)
    with Some abc assms show ?thesis by (auto simp: resolve_def)
  next
    case (Inr p)
    obtain t db1 where p: "p = (t, db1)" by fastforce
    note one = insert_thread_Inr [OF assms(1) Inr [unfolded p]]
    show ?thesis
    proof (cases "insert_run t run b c db1")
      case (Inl e)
      with Some abc assms Inr p show ?thesis by (auto simp: resolve_def)
    next
      case r: (Inr q)
      obtain rid cid db2 where q: "q = ((rid, cid), db2)" by (cases q; cases "fst q") auto
      have "t \<in> ct_id ` set (chat_threads db1)" using one by force
      note two = insert_run_Inr [OF _ this r [unfolded q]]
      from one two Some abc assms Inr p r q show ?thesis by (auto simp: resolve_def mapped_def intro: chat_grows_trans)
    qed
  qed
qed

text \<open>Requests that create, one after another; those that fail leave the tables as they are.\<close>

fun resolves :: "(string \<times> string \<times> string \<times> string \<times> string \<times> string) list \<Rightarrow> chat_db \<Rightarrow> chat_db" where
  "resolves [] db = db"
| "resolves ((who, thread, run, fresh) # reqs) db = resolves reqs (snd (resolve who thread run (Some fresh) db))"

definition no_chat :: chat_db where "no_chat = \<lparr>chat_threads = [], chat_runs = []\<rparr>"

lemma no_chat_ok: "chat_ok no_chat"
  by (simp add: chat_ok_def no_chat_def)

lemma resolves_ok: "chat_ok db \<Longrightarrow> chat_ok (resolves reqs db) \<and> chat_grows db (resolves reqs db)"
proof (induction reqs db rule: resolves.induct)
  case (2 who thread run fresh reqs db)
  obtain r db' where r: "resolve who thread run (Some fresh) db = (r, db')" by fastforce
  from resolve_step [OF "2.prems" r] "2.IH" r show ?case by (auto intro: chat_grows_trans)
qed simp

lemma mapped_grows: "mapped who thread run ids db \<Longrightarrow> chat_grows db db' \<Longrightarrow> mapped who thread run ids db'"
  by (auto simp: mapped_def chat_grows_def prefix_def)

lemma mapped_thread:
  assumes "chat_ok db" "\<lparr>ct_principal = who, ct_external = thread, ct_id = t\<rparr> \<in> set (chat_threads db)"
  shows "find (\<lambda>t. ct_principal t = who \<and> ct_external t = thread) (chat_threads db) =
    Some \<lparr>ct_principal = who, ct_external = thread, ct_id = t\<rparr>"
  using find_distinct [OF _ assms(2), of "\<lambda>t. (ct_principal t, ct_external t)"] assms(1) by (simp add: chat_ok_def)

lemma mapped_run:
  assumes "chat_ok db" "\<lparr>cr_thread = t, cr_external = run, cr_id = r, cr_communication = c\<rparr> \<in> set (chat_runs db)"
  shows "find (\<lambda>r. cr_thread r = t \<and> cr_external r = run) (chat_runs db) =
    Some \<lparr>cr_thread = t, cr_external = run, cr_id = r, cr_communication = c\<rparr>"
  using find_distinct [OF _ assms(2), of "\<lambda>r. (cr_thread r, cr_external r)"] assms(1) by (simp add: chat_ok_def)

lemma mapped_resolve:
  assumes "chat_ok db" "mapped who thread run ids db"
  shows "resolve who thread run fresh db = (Inr ids, db)"
proof -
  obtain t r c where ids: "ids = (t, r, c)" by (cases ids)
  with assms mapped_thread [of db who thread t] mapped_run [of db t run r c] show ?thesis
    by (auto simp: resolve_def mapped_def insert_thread_def insert_run_def split: option.splits)
qed

lemma mapped_external:
  assumes "chat_ok db" "mapped who thread run (t, r, c) db"
  shows "map_of (externalCommands who t db) c = Some run"
proof -
  have "distinct (map cr_communication (filter (\<lambda>r. cr_thread r = t) (chat_runs db)))"
    using assms(1) by (simp add: chat_ok_def distinct_map_filter)
  then have "distinct (map fst (externalCommands who t db))" by (simp add: externalCommands_def o_def)
  moreover have "(c, run) \<in> set (externalCommands who t db)"
  proof -
    from assms(2) have rows: "\<lparr>ct_principal = who, ct_external = thread, ct_id = t\<rparr> \<in> set (chat_threads db)"
      "\<lparr>cr_thread = t, cr_external = run, cr_id = r, cr_communication = c\<rparr> \<in> set (chat_runs db)" by (auto simp: mapped_def)
    then have "list_ex (\<lambda>x. ct_principal x = who \<and> ct_id x = t) (chat_threads db)" by (force simp: list_ex_iff)
    with rows(2) show ?thesis by (force simp: externalCommands_def)
  qed
  ultimately show ?thesis by (rule map_of_is_SomeI)
qed

lemma mapped_unique:
  assumes "chat_ok db" "mapped who thread run (t, r, c) db" "mapped who' thread' run' (t', r', c') db"
  shows "(t = t' \<longleftrightarrow> who = who' \<and> thread = thread') \<and> (r = r' \<longleftrightarrow> t = t' \<and> run = run') \<and> (c = c' \<longleftrightarrow> r = r')"
proof -
  have inj: "x = y" if "distinct (map f xs)" "x \<in> set xs" "y \<in> set xs" "f x = f y" for f :: "'x \<Rightarrow> 'y" and xs x y
    using that by (meson distinct_map inj_onD)
  from assms have in_t: "\<lparr>ct_principal = who, ct_external = thread, ct_id = t\<rparr> \<in> set (chat_threads db)"
      "\<lparr>ct_principal = who', ct_external = thread', ct_id = t'\<rparr> \<in> set (chat_threads db)"
    and in_r: "\<lparr>cr_thread = t, cr_external = run, cr_id = r, cr_communication = c\<rparr> \<in> set (chat_runs db)"
      "\<lparr>cr_thread = t', cr_external = run', cr_id = r', cr_communication = c'\<rparr> \<in> set (chat_runs db)"
    by (auto simp: mapped_def)
  have ok: "distinct (map ct_id (chat_threads db))" "distinct (map (\<lambda>t. (ct_principal t, ct_external t)) (chat_threads db))"
    "distinct (map cr_id (chat_runs db))" "distinct (map cr_communication (chat_runs db))"
    "distinct (map (\<lambda>r. (cr_thread r, cr_external r)) (chat_runs db))" using assms(1) by (auto simp: chat_ok_def)
  have "who = who' \<and> thread = thread'" if "t = t'" using inj [OF ok(1) in_t] that by simp
  moreover have "t = t'" if "who = who'" "thread = thread'" using inj [OF ok(2) in_t] that by simp
  moreover have "t = t' \<and> run = run' \<and> c = c'" if "r = r'" using inj [OF ok(3) in_r] that by simp
  moreover have "r = r'" if "c = c'" using inj [OF ok(4) in_r] that by simp
  moreover have "r = r'" if "t = t'" "run = run'" using inj [OF ok(5) in_r] that by simp
  ultimately show ?thesis by blast
qed

text \<open>The identifiers of a client are stable and translate back: once a request was resolved, every later request of the same
  caller with the same identifiers is resolved to the same internal ones, whether it may create or only reads, and changes
  nothing; and the command is reported under the identifier that the client chose.\<close>

theorem resolve_stable:
  assumes "db = resolves earlier no_chat" "resolve who thread run (Some fresh) db = (Inr (t, r, c), db')" "db'' = resolves later db'"
  shows "resolve who thread run fresh' db'' = (Inr (t, r, c), db'') \<and> map_of (externalCommands who t db'') c = Some run"
proof -
  have "chat_ok db" using resolves_ok [OF no_chat_ok] assms(1) by blast
  note step = resolve_step [OF this assms(2)]
  then have "mapped who thread run (t, r, c) db''" "chat_ok db''"
    using resolves_ok [of db' later] assms(3) by (auto intro: mapped_grows)
  then show ?thesis by (simp add: mapped_resolve mapped_external)
qed


definition first_chat :: chat_db where
  "first_chat = snd (resolve ''ann'' ''t1'' ''r1'' (Some (''a'', ''b'', ''c'')) no_chat)"

lemma first_resolved: "resolve ''ann'' ''t1'' ''r1'' (Some (''a'', ''b'', ''c'')) no_chat = (Inr (''a'', ''b'', ''c''), first_chat)"
  by (simp add: first_chat_def resolve_def insert_thread_def insert_run_def no_chat_def)

theorem resolve_stable_witness:
  "resolve ''ann'' ''t1'' ''r1'' None (resolves [(''bob'', ''t1'', ''r1'', ''x'', ''y'', ''z'')] first_chat) =
     (Inr (''a'', ''b'', ''c''), resolves [(''bob'', ''t1'', ''r1'', ''x'', ''y'', ''z'')] first_chat)"
  using resolve_stable [of no_chat "[]", OF _ first_resolved refl, of None "[(''bob'', ''t1'', ''r1'', ''x'', ''y'', ''z'')]"]
  by (simp only: resolves.simps)


end
