(* ===== verification/Chat.thy ===== *)
theory Chat
  imports Platform Chat_Identity
begin

text \<open>
  The chat interface (\<open>internal/chat/http.go\<close>): a request is authenticated, decoded, translated to internal identifiers and
  submitted, and the answer is a stream of events. The decoder of the input document is the client library's: a request
  carries what it reads. A handler works on the platform, the identity map and the frames written so far; \<open>hs_room\<close> is the
  number of writes that the client still takes.
\<close>

section \<open>Requests\<close>

record chat_message =
  cm_Role :: string
  cm_Content :: json

record RunAgentInput =
  ai_ThreadID :: string
  ai_RunID :: string
  ai_Messages :: "chat_message list"
  ai_Tools :: nat
  ai_ForwardedProps :: json

record http_request =
  hr_Method :: string
  hr_Header :: Header
  hr_Query :: "string \<Rightarrow> string"
  hr_Body :: "RunAgentInput option"
  hr_Extra :: bool

record reply_doc =
  rd_InteractionID :: string
  rd_Kind :: string
  rd_Answer :: "json option"

text \<open>\<open>DecodeStrict\<close> into the reply of a request.\<close>

fun decode_doc_fields :: "reply_doc \<Rightarrow> (string \<times> json) list \<Rightarrow> reply_doc option" where
  "decode_doc_fields d [] = Some d"
| "decode_doc_fields d ((k, v) # kvs) =
     (if fold_key k = ''interactionid'' then
        (case decode_string (rd_InteractionID d) v of None \<Rightarrow> None
         | Some s \<Rightarrow> decode_doc_fields (d\<lparr>rd_InteractionID := s\<rparr>) kvs)
      else if fold_key k = ''kind'' then
        (case decode_string (rd_Kind d) v of None \<Rightarrow> None
         | Some s \<Rightarrow> decode_doc_fields (d\<lparr>rd_Kind := s\<rparr>) kvs)
      else if fold_key k = ''answer'' then decode_doc_fields (d\<lparr>rd_Answer := Some v\<rparr>) kvs
      else None)"

fun decode_doc :: "json \<Rightarrow> reply_doc option" where
  "decode_doc (JObj kvs) = decode_doc_fields \<lparr>rd_InteractionID = [], rd_Kind = [], rd_Answer = None\<rparr> kvs"
| "decode_doc _ = None"

fun lastUserText_rev :: "chat_message list \<Rightarrow> string option" where
  "lastUserText_rev [] = None"
| "lastUserText_rev (m # ms) =
     (if cm_Role m \<noteq> ''user'' then lastUserText_rev ms
      else case cm_Content m of
        JStr text \<Rightarrow> if trim_space text = [] then None else Some text
      | _ \<Rightarrow> None)"

definition lastUserText :: "chat_message list \<Rightarrow> string option" where
  "lastUserText ms = lastUserText_rev (rev ms)"

definition targetJourney :: "json \<Rightarrow> string option" where
  "targetJourney v =
     (case v of
        JNull \<Rightarrow> Some []
      | JObj kvs \<Rightarrow>
          (case member ''journeyId'' kvs of
             None \<Rightarrow> Some []
           | Some (JStr name) \<Rightarrow> if name = [] then None else Some name
           | Some _ \<Rightarrow> None)
      | _ \<Rightarrow> None)"

text \<open>The reply in the forwarded properties, if there is one.\<close>

definition interaction_reply :: "json \<Rightarrow> json option" where
  "interaction_reply v =
     (case v of
        JObj kvs \<Rightarrow> (case member ''interactionReply'' kvs of Some JNull \<Rightarrow> None | r \<Rightarrow> r)
      | _ \<Rightarrow> None)"

section \<open>Frames\<close>

record interactionCall =
  ic_CallID :: string
  ic_Name :: string
  ic_Arguments :: bytes
  ic_Binding :: string

record chat_interaction =
  ci_ID :: string
  ci_Kind :: string
  ci_Questions :: "Question list"
  ci_Call :: interactionCall
  ci_ExpiresAt :: int

definition safeInteraction :: "Interaction option \<Rightarrow> chat_interaction option" where
  "safeInteraction i = map_option (\<lambda>i. \<lparr>ci_ID = i_ID i, ci_Kind = i_Kind i, ci_Questions = i_Questions i,
     ci_Call = \<lparr>ic_CallID = pc_CallID (i_Call i), ic_Name = pc_Name (i_Call i), ic_Arguments = pc_Arguments (i_Call i),
                ic_Binding = pc_Binding (i_Call i)\<rparr>, ci_ExpiresAt = i_ExpiresAt i\<rparr>) i"

record chat_state =
  cs_threadId :: string
  cs_watermark :: int
  cs_journeyId :: string
  cs_runState :: "RunState option"
  cs_pendingCommands :: nat
  cs_commands :: "(string \<times> string \<times> string) list"
  cs_operations :: "(string \<times> string \<times> string) list"
  cs_answer :: string
  cs_interaction :: "chat_interaction option"

datatype frame =
    RunStarted string string
  | StateSnapshot chat_state
  | TextMessageStart string
  | TextMessageContent string string
  | TextMessageEnd string
  | InteractionRequested "chat_interaction option"
  | LimitExceeded string int
  | CustomEvent string "(string \<times> string) list"
  | RunFinished string string
  | RunErrorFrame string "(string \<times> string) option"

section \<open>The handler\<close>

record hstate =
  hs_world :: world
  hs_chat :: chat_db
  hs_response :: "(int \<times> string) option"
  hs_frames :: "(frame \<times> int) list"
  hs_room :: nat
  hs_external :: "(string \<times> string) list"

text \<open>A step of the handler; \<open>None\<close> when the handler returned.\<close>

type_synonym 'a hdl = "hstate \<Rightarrow> 'a option \<times> hstate"

definition go_on :: "'a \<Rightarrow> 'a hdl" where "go_on a h = (Some a, h)"
definition stop :: "'a hdl" where "stop h = (None, h)"

definition hbind :: "'a hdl \<Rightarrow> ('a \<Rightarrow> 'b hdl) \<Rightarrow> 'b hdl" where
  "hbind m k h = (case m h of (None, h') \<Rightarrow> (None, h') | (Some a, h') \<Rightarrow> k a h')"

definition http_Error :: "int \<Rightarrow> string \<Rightarrow> 'a hdl" where
  "http_Error status text h = (None, h\<lparr>hs_response := Some (status, text)\<rparr>)"

definition require :: "bool \<Rightarrow> int \<Rightarrow> string \<Rightarrow> 'a hdl \<Rightarrow> 'a hdl" where
  "require ok status text k = (if ok then k else http_Error status text)"

definition commandError :: "run_error \<Rightarrow> 'a hdl" where
  "commandError e =
     (if e = ErrJournal ErrExpired then http_Error 409 ''interaction_expired''
      else if e = ErrOther ''platform is draining'' then http_Error 503 ''Service Unavailable''
      else if e = ErrJournal ErrConflict \<or> e = ErrJournal ErrBusy then http_Error 409 ''Conflict''
      else if e = ErrJournal ErrForbidden then http_Error 403 ''Forbidden''
      else http_Error 500 ''Internal Server Error'')"

text \<open>A call of the platform.\<close>

definition platform_call :: "'a run \<Rightarrow> (run_error + 'a) hdl" where
  "platform_call m h = (case m (hs_world h) of (r, w) \<Rightarrow> (Some r, h\<lparr>hs_world := w\<rparr>))"

definition call_or_fail :: "'a run \<Rightarrow> ('a \<Rightarrow> 'b hdl) \<Rightarrow> 'b hdl" where
  "call_or_fail m k = hbind (platform_call m) (\<lambda>r. case r of Inl e \<Rightarrow> commandError e | Inr a \<Rightarrow> k a)"

definition emit :: "frame \<Rightarrow> int \<Rightarrow> bool hdl" where
  "emit f n h =
     (if hs_room h = 0 then (Some False, h)
      else (Some True, h\<lparr>hs_frames := hs_frames h @ [(f, n)], hs_room := hs_room h - 1\<rparr>))"

text \<open>Frames until one is not taken.\<close>

fun emits :: "(frame \<times> int) list \<Rightarrow> bool hdl" where
  "emits [] = go_on True"
| "emits ((f, n) # fs) = hbind (emit f n) (\<lambda>ok. if ok then emits fs else go_on False)"

text \<open>What the handler is built with and what the world answers: random identifiers, failures of the identity map, and the
  events that the observation delivers, until it ends with an error or without.\<close>

record chat_env =
  ce_env :: env
  ce_platform :: Platform_state
  ce_auth :: "Header \<Rightarrow> Identity option"
  ce_headers :: "string list"
  ce_ids :: "string \<times> string \<times> string"
  ce_fault :: "nat \<Rightarrow> bool"
  ce_delivered :: "(int \<times> Event) list"
  ce_failed :: bool

record chat_ctx =
  cx_threadId :: string
  cx_runId :: string
  cx_thread :: string
  cx_run :: string
  cx_principal :: string

text \<open>The current mapping of communication identifiers, \<open>None\<close> when the database fails.\<close>

definition read_external :: "chat_env \<Rightarrow> nat \<Rightarrow> chat_ctx \<Rightarrow> (string \<times> string) list option hdl" where
  "read_external ce n cx h =
     (Some (if ce_fault ce n then None else Some (externalCommands (cx_principal cx) (cx_thread cx) (hs_chat h))), h)"

definition failureCode :: "string \<Rightarrow> string" where
  "failureCode reason =
     (if reason \<in> {''journey_unavailable'', ''policy_conflict'', ''activation_refused'', ''interaction_expired''} then reason
      else ''internal_error'')"

definition error_code :: "Event \<Rightarrow> string" where
  "error_code e =
     (if e_Type e = ''run.failed'' then failureCode (e_Reason e)
      else if e_Type e = ''run.interrupted'' then ''interrupted''
      else if e_Type e = ''auth_required'' then ''auth_required''
      else if e_Type e = ''run.dependency_unavailable'' then ''dependency_unavailable''
      else ''internal_error'')"

text \<open>The wait that a limit asks for, zero when the detail has none.\<close>

definition retry_after_of :: "json option \<Rightarrow> int" where
  "retry_after_of d =
     (case d of
        Some (JObj kvs) \<Rightarrow> (case member ''retry_after_seconds'' kvs of Some (JNum n) \<Rightarrow> (case ParseInt n of Some i \<Rightarrow> i | None \<Rightarrow> 0) | _ \<Rightarrow> 0)
      | _ \<Rightarrow> 0)"

definition custom_value :: "Event \<Rightarrow> (string \<times> string) list" where
  "custom_value e =
     [(''reason'', e_Reason e)] @ (if e_CallID e = [] then [] else [(''callId'', e_CallID e)]) @
     (if e_ToolName e = [] then [] else [(''toolName'', e_ToolName e)])"

definition finished :: "chat_ctx \<Rightarrow> frame" where
  "finished cx = RunFinished (cx_threadId cx) (cx_runId cx)"

definition failed_with :: "chat_ctx \<Rightarrow> string \<Rightarrow> string \<Rightarrow> frame" where
  "failed_with cx message code = RunErrorFrame message (Some (code, cx_runId cx))"

definition observation_failed :: frame where
  "observation_failed = RunErrorFrame ''observation unavailable'' None"

definition awaiting_frames :: "chat_ctx \<Rightarrow> int \<Rightarrow> Snapshot \<Rightarrow> (frame \<times> int) list" where
  "awaiting_frames cx n s =
     map (\<lambda>r. (InteractionRequested (safeInteraction (run_Interaction r)), n)) (filter (\<lambda>r. run_ID r = cx_run cx) (sn_Runs s))"

text \<open>Frames whose loss does not end the handler.\<close>

fun emit_each :: "(frame \<times> int) list \<Rightarrow> unit hdl" where
  "emit_each [] = go_on ()"
| "emit_each ((f, n) # fs) = hbind (emit f n) (\<lambda>_. emit_each fs)"

definition with_external :: "chat_env \<Rightarrow> nat \<Rightarrow> chat_ctx \<Rightarrow> string \<Rightarrow> (string option \<Rightarrow> 'a hdl) \<Rightarrow> 'a hdl" where
  "with_external ce n cx comm k =
     (\<lambda>h. case map_of (hs_external h) comm of
        Some external \<Rightarrow> k (Some external) h
      | None \<Rightarrow> hbind (read_external ce n cx) (\<lambda>m. case m of
            None \<Rightarrow> k None
          | Some table \<Rightarrow> (\<lambda>h. k (map_of table comm) (h\<lparr>hs_external := table\<rparr>))) h)"

text \<open>The frames of an event; whether the stream is over.\<close>

definition terminal :: "chat_env \<Rightarrow> chat_ctx \<Rightarrow> Event \<Rightarrow> int \<Rightarrow> bool hdl" where
  "terminal ce cx e n =
     (if e_Type e = ''message.completed'' then
        let m = cx_runId cx @ '':answer'' in
        hbind (emits [(TextMessageStart m, 0), (TextMessageContent m (e_Answer e), n), (TextMessageEnd m, 0)]) (\<lambda>ok. go_on (\<not> ok))
      else if e_Type e = ''run.awaiting_input'' then
        hbind (platform_call (journal (ce_env ce) (\<lambda>now db. (Snapshot_op (cx_thread cx) (cx_principal cx) db, db)))) (\<lambda>r.
        case r of
          Inl _ \<Rightarrow> hbind (emit observation_failed n) (\<lambda>_. go_on True)
        | Inr s \<Rightarrow> hbind (emit_each (awaiting_frames cx n s @ [(finished cx, 0)])) (\<lambda>_. go_on True))
      else if e_Type e = ''run.completed'' then hbind (emit (finished cx) n) (\<lambda>_. go_on True)
      else if e_Type e = ''run.limit_exceeded'' then
        hbind (emits [(LimitExceeded (e_Reason e) (retry_after_of (e_Detail e)), n),
                      (failed_with cx ''run limit exceeded'' ''limit_exceeded'', 0)]) (\<lambda>_. go_on True)
      else if e_Type e \<in> {''run.failed'', ''auth_required'', ''run.interrupted'', ''run.dependency_unavailable''} then
        hbind (emit (failed_with cx ''run could not complete'' (error_code e)) n) (\<lambda>_. go_on True)
      else if e_CommunicationID e = [] then
        hbind (emit (CustomEvent (e_Type e) (custom_value e)) n) (\<lambda>ok. go_on (\<not> ok))
      else
        with_external ce (nat n) cx (e_CommunicationID e) (\<lambda>external.
        case external of
          None \<Rightarrow> hbind (emit observation_failed 0) (\<lambda>_. go_on True)
        | Some x \<Rightarrow> hbind (emit (CustomEvent (e_Type e) (custom_value e @ [(''runId'', x)])) n) (\<lambda>ok. go_on (\<not> ok))))"

text \<open>A run that has ended already is projected from its record.\<close>

definition state_event :: "Run \<Rightarrow> Event option" where
  "state_event r =
     (case run_State r of
        RunAwaitingInput \<Rightarrow> Some (event [] ''run.awaiting_input'')
      | RunCompleted \<Rightarrow> Some (event [] ''run.completed'')
      | RunInterrupted \<Rightarrow> Some (event [] ''run.interrupted'')
      | RunFailed \<Rightarrow> Some ((event [] ''run.failed'')\<lparr>e_Reason := run_TerminalReason r\<rparr>)
      | RunAuthRequired \<Rightarrow> Some (event [] ''auth_required'')
      | RunDependencyUnavailable \<Rightarrow> Some (event [] ''run.dependency_unavailable'')
      | RunLimitExceeded \<Rightarrow> Some ((event [] ''run.limit_exceeded'')\<lparr>e_Reason := run_TerminalReason r, e_Detail := run_TerminalDetail r\<rparr>)
      | RunPending \<Rightarrow> None
      | RunRunning \<Rightarrow> None)"

fun stream :: "chat_env \<Rightarrow> chat_ctx \<Rightarrow> (int \<times> Event) list \<Rightarrow> unit hdl" where
  "stream ce cx [] = (if ce_failed ce then hbind (emit observation_failed 0) (\<lambda>_. go_on ()) else go_on ())"
| "stream ce cx ((n, e) # es) =
     (if e_RunID e \<noteq> cx_run cx then stream ce cx es
      else hbind (terminal ce cx e n) (\<lambda>over. if over then go_on () else stream ce cx es))"

definition find_current :: "string \<Rightarrow> Snapshot \<Rightarrow> Run option" where
  "find_current run s = find (\<lambda>r. run_ID r = run \<or> run \<in> set (run_CommandRunIDs r)) (sn_Runs s)"

text \<open>The commands of the run under the client's identifiers.\<close>

fun outward :: "(string \<times> string) list \<Rightarrow> (string \<times> string \<times> string) list \<Rightarrow> (string \<times> string \<times> string) list option" where
  "outward table [] = Some []"
| "outward table ((comm, state, reason) # rest) =
     (case map_of table comm of
        None \<Rightarrow> None
      | Some external \<Rightarrow> map_option (\<lambda>r. (external, state, reason) # r) (outward table rest))"

definition snapshot_state :: "chat_ctx \<Rightarrow> Snapshot \<Rightarrow> Run option \<Rightarrow> (string \<times> string \<times> string) list \<Rightarrow> chat_state" where
  "snapshot_state cx s current outcomes =
     \<lparr>cs_threadId = cx_threadId cx, cs_watermark = sn_Watermark s,
      cs_journeyId = (case current of None \<Rightarrow> [] | Some r \<Rightarrow> run_JourneyID r), cs_runState = map_option run_State current,
      cs_pendingCommands = (case current of None \<Rightarrow> 0 | Some r \<Rightarrow> run_PendingCommands r), cs_commands = outcomes,
      cs_operations = (case current of None \<Rightarrow> [] | Some r \<Rightarrow> run_OperationOutcomes r),
      cs_answer = (case current of None \<Rightarrow> [] | Some r \<Rightarrow> run_Answer r),
      cs_interaction = (case current of None \<Rightarrow> None | Some r \<Rightarrow> safeInteraction (run_Interaction r))\<rparr>"

text \<open>The stream after the snapshot: the answer and the end of a run that has ended, or the events as they come.\<close>

definition project :: "chat_env \<Rightarrow> chat_ctx \<Rightarrow> Run option \<Rightarrow> unit hdl" where
  "project ce cx current =
     (case current of
        None \<Rightarrow> stream ce cx (ce_delivered ce)
      | Some r \<Rightarrow>
          hbind (if run_Answer r = [] then go_on False
                 else terminal ce cx ((event [] ''message.completed'')\<lparr>e_Answer := run_Answer r\<rparr>) 0) (\<lambda>over.
          if over then go_on ()
          else case state_event r of
            Some e \<Rightarrow> hbind (terminal ce cx e 0) (\<lambda>_. go_on ())
          | None \<Rightarrow> stream ce cx (ce_delivered ce)))"

definition observe_and_stream :: "chat_env \<Rightarrow> chat_ctx \<Rightarrow> int \<Rightarrow> unit hdl" where
  "observe_and_stream ce cx0 cursor =
     call_or_fail (journal (ce_env ce) (\<lambda>now db. (Observe_start (cx_thread cx0) (cx_principal cx0) cursor db, db))) (\<lambda>(s, after).
     let current = find_current (cx_run cx0) s;
         cx = (case current of None \<Rightarrow> cx0 | Some r \<Rightarrow> cx0\<lparr>cx_run := run_ID r\<rparr>)
     in
     hbind (read_external ce 1 cx) (\<lambda>table.
     case table of
       None \<Rightarrow> http_Error 500 ''Internal Server Error''
     | Some external \<Rightarrow>
         (case outward external (case current of None \<Rightarrow> [] | Some r \<Rightarrow> run_CommandOutcomes r) of
            None \<Rightarrow> http_Error 500 ''observation unavailable''
          | Some outcomes \<Rightarrow> (\<lambda>h.
              hbind (emits [(RunStarted (cx_threadId cx) (cx_runId cx), 0),
                            (StateSnapshot (snapshot_state cx s current outcomes), max cursor (sn_Watermark s))]) (\<lambda>ok.
              if ok then project ce cx current else go_on ()) (h\<lparr>hs_external := external\<rparr>)))))"

text \<open>The body of a request that creates: the text of a message, or the reply to an interaction.\<close>

definition accept_body :: "RunAgentInput \<Rightarrow> (string \<times> string \<times> reply_doc) hdl" where
  "accept_body inp =
     hbind (case interaction_reply (ai_ForwardedProps inp) of
              Some doc \<Rightarrow>
                (case decode_doc doc of
                   None \<Rightarrow> http_Error 400 ''invalid interaction reply''
                 | Some d \<Rightarrow>
                     require (rd_InteractionID d \<noteq> [] \<and> rd_Kind d \<noteq> [] \<and> rd_Answer d \<noteq> None \<and> ai_Messages inp = []) 400
                       ''invalid interaction reply'' (go_on ([], d)))
            | None \<Rightarrow>
                (case lastUserText (ai_Messages inp) of
                   None \<Rightarrow> http_Error 400 ''user text is required''
                 | Some text \<Rightarrow> go_on (text, \<lparr>rd_InteractionID = [], rd_Kind = [], rd_Answer = None\<rparr>))) (\<lambda>(text, d).
     case targetJourney (ai_ForwardedProps inp) of
       None \<Rightarrow> http_Error 400 ''invalid journey target''
     | Some target \<Rightarrow> go_on (text, target, d))"

definition command_of :: "Identity \<Rightarrow> string \<times> string \<times> string \<Rightarrow> string \<times> string \<times> reply_doc \<Rightarrow> Command" where
  "command_of who found body =
     (case (found, body) of ((thread, run, comm), (text, target, d)) \<Rightarrow>
        \<lparr>ThreadID = thread, RunID = run, CommunicationID = comm, Principal = id_Principal who, Tenant = id_Tenant who,
         Text = text, TargetJourney = target, InteractionID = rd_InteractionID d, ReplyKind = rd_Kind d,
         ReplyJSON = (case rd_Answer d of None \<Rightarrow> [] | Some j \<Rightarrow> print_json j)\<rparr>)"

definition resolve_ids :: "chat_env \<Rightarrow> string \<Rightarrow> string \<Rightarrow> string \<Rightarrow> bool \<Rightarrow> (string \<times> string \<times> string) hdl" where
  "resolve_ids ce who thread run create h =
     (if ce_fault ce 0 then commandError ErrContext h
      else case resolve who thread run (if create then Some (ce_ids ce) else None) (hs_chat h) of
        (Inr found, db) \<Rightarrow> (Some found, h\<lparr>hs_chat := db\<rparr>)
      | (Inl e, db) \<Rightarrow> commandError (if e = ChatForbidden then ErrJournal ErrForbidden else ErrContext) (h\<lparr>hs_chat := db\<rparr>))"

definition cursor_of :: "Header \<Rightarrow> int option" where
  "cursor_of h =
     (let raw = header_get h ''Last-Event-Id'' in
      if raw = [] then Some 0
      else case ParseInt raw of None \<Rightarrow> None | Some n \<Rightarrow> if n < 0 then None else Some n)"

definition read_input :: "http_request \<Rightarrow> RunAgentInput hdl" where
  "read_input rq =
     (if hr_Method rq = ''POST'' then
        (case hr_Body rq of
           None \<Rightarrow> http_Error 400 ''invalid request''
         | Some inp \<Rightarrow>
             require (\<not> hr_Extra rq) 400 ''invalid request'' (
             require (ai_Tools inp = 0) 400 ''client tools are not supported'' (go_on inp)))
      else if hr_Method rq = ''GET'' then
        go_on \<lparr>ai_ThreadID = hr_Query rq ''threadId'', ai_RunID = hr_Query rq ''runId'', ai_Messages = [], ai_Tools = 0,
               ai_ForwardedProps = JNull\<rparr>
      else http_Error 405 ''method not allowed'')"

definition ServeHTTP :: "chat_env \<Rightarrow> http_request \<Rightarrow> unit hdl" where
  "ServeHTTP ce rq =
     (case ce_auth ce (hr_Header rq) of
        None \<Rightarrow> http_Error 401 ''unauthorized''
      | Some who \<Rightarrow>
          (case cursor_of (hr_Header rq) of
             None \<Rightarrow> http_Error 400 ''invalid Last-Event-ID''
           | Some cursor \<Rightarrow>
               hbind (read_input rq) (\<lambda>inp.
               require (ai_ThreadID inp \<noteq> [] \<and> ai_RunID inp \<noteq> []) 400 ''threadId and runId are required'' (
               let create = (hr_Method rq = ''POST'') in
               hbind (if create then accept_body inp
                      else go_on ([], [], \<lparr>rd_InteractionID = [], rd_Kind = [], rd_Answer = None\<rparr>)) (\<lambda>body.
               hbind (resolve_ids ce (id_Principal who) (ai_ThreadID inp) (ai_RunID inp) create) (\<lambda>found.
               let cx = \<lparr>cx_threadId = ai_ThreadID inp, cx_runId = ai_RunID inp, cx_thread = fst found, cx_run = fst (snd found),
                         cx_principal = id_Principal who\<rparr> in
               if create then
                 call_or_fail (Submit (ce_env ce) (ce_platform ce) (command_of who found body) (FromRequest (Some (hr_Header rq)) (ce_headers ce))) (\<lambda>_.
                 observe_and_stream ce cx cursor)
               else observe_and_stream ce cx cursor))))))"

end
