(* ===== verification/Chat_Properties.thy ===== *)
theory Chat_Properties
  imports Chat
begin

text \<open>
  What a client of the chat interface can rely on: a request that is not allowed or only reads changes nothing, and an answer
  is one error or one well-formed stream.
\<close>

section \<open>Relations that the handler respects\<close>

definition hkeeps :: "(hstate \<Rightarrow> hstate \<Rightarrow> bool) \<Rightarrow> 'a hdl \<Rightarrow> bool" where
  "hkeeps R m \<longleftrightarrow> (\<forall>h. R h (snd (m h)))"

lemma hkeeps_if: "(b \<Longrightarrow> hkeeps R m) \<Longrightarrow> (\<not> b \<Longrightarrow> hkeeps R k) \<Longrightarrow> hkeeps R (if b then m else k)"
  by simp

lemma hkeeps_option: "hkeeps R m \<Longrightarrow> (\<And>a. hkeeps R (k a)) \<Longrightarrow> hkeeps R (case x of None \<Rightarrow> m | Some a \<Rightarrow> k a)"
  by (cases x) auto

lemma hkeeps_sum: "(\<And>e. hkeeps R (m e)) \<Longrightarrow> (\<And>a. hkeeps R (k a)) \<Longrightarrow> hkeeps R (case x of Inl e \<Rightarrow> m e | Inr a \<Rightarrow> k a)"
  by (cases x) auto

lemma hkeeps_pair: "(\<And>a b. hkeeps R (k a b)) \<Longrightarrow> hkeeps R (case x of (a, b) \<Rightarrow> k a b)"
  by (cases x) auto

lemmas hkeeps_cases = hkeeps_if hkeeps_option hkeeps_sum hkeeps_pair

locale handler_relation =
  fixes R :: "hstate \<Rightarrow> hstate \<Rightarrow> bool"
  assumes refl: "R h h" and trans: "R h h' \<Longrightarrow> R h' h'' \<Longrightarrow> R h h''"
    and external: "R h (h\<lparr>hs_external := x\<rparr>)"
    and writes: "R h (h\<lparr>hs_frames := hs_frames h @ [f], hs_room := r\<rparr>)"
    and answers: "R h (h\<lparr>hs_response := a\<rparr>)"
begin

lemma go_on: "hkeeps R (go_on a)"
  by (simp add: hkeeps_def go_on_def refl)

lemma http_Error: "hkeeps R (http_Error s t)"
  by (simp add: hkeeps_def http_Error_def answers)

lemma hbind: "hkeeps R m \<Longrightarrow> (\<And>a. hkeeps R (k a)) \<Longrightarrow> hkeeps R (hbind m k)"
  unfolding hkeeps_def hbind_def by (auto split: prod.splits option.splits) (metis snd_conv trans)+

lemma require: "hkeeps R k \<Longrightarrow> hkeeps R (require ok s t k)"
  by (simp add: require_def http_Error)

lemma commandError: "hkeeps R (commandError e)"
  unfolding commandError_def by (simp add: http_Error)

lemma emit: "hkeeps R (emit f n)"
  by (simp add: hkeeps_def emit_def refl writes)

lemma emits: "hkeeps R (emits fs)"
proof (induction fs)
  case (Cons x fs)
  then show ?case by (cases x) (auto intro!: hbind emit go_on)
qed (simp add: go_on)

lemma emit_each: "hkeeps R (emit_each fs)"
proof (induction fs)
  case (Cons x fs)
  then show ?case by (cases x) (auto intro!: hbind emit go_on)
qed (simp add: go_on)

lemma read_external: "hkeeps R (read_external ce n cx)"
  by (simp add: hkeeps_def read_external_def refl)

lemma set_external: "hkeeps R k \<Longrightarrow> hkeeps R (\<lambda>h. k (h\<lparr>hs_external := x\<rparr>))"
  unfolding hkeeps_def using trans external by blast

lemma with_external: "(\<And>x. hkeeps R (k x)) \<Longrightarrow> hkeeps R (with_external ce n cx comm k)"
proof -
  assume k: "\<And>x. hkeeps R (k x)"
  have "hkeeps R (hbind (read_external ce n cx) (\<lambda>m. case m of None \<Rightarrow> k None
      | Some table \<Rightarrow> (\<lambda>h. k (map_of table comm) (h\<lparr>hs_external := table\<rparr>))))"
    by (rule hbind [OF read_external]) (auto split: option.split intro: k set_external [OF k])
  with k show ?thesis unfolding with_external_def hkeeps_def by (auto split: option.splits)
qed

lemmas frame_rules = hkeeps_cases go_on http_Error hbind require commandError emit emits emit_each with_external

lemma call_or_fail: "hkeeps R (platform_call m) \<Longrightarrow> (\<And>a. hkeeps R (k a)) \<Longrightarrow> hkeeps R (call_or_fail m k)"
  unfolding call_or_fail_def by (rule hbind) (auto split: sum.split intro: commandError)

end

text \<open>A handler whose readings of the platform respect the relation respects it.\<close>

locale reading_relation = handler_relation +
  fixes ce :: chat_env
  assumes reading: "R h (h\<lparr>hs_world := snd (journal (ce_env ce) (\<lambda>now db. (f db :: journal_error + Snapshot, db)) (hs_world h))\<rparr>)"
    "R h (h\<lparr>hs_world := snd (journal (ce_env ce) (\<lambda>now db. (g db :: journal_error + Snapshot \<times> int, db)) (hs_world h))\<rparr>)"
begin

lemma platform_reads:
  "hkeeps R (platform_call (journal (ce_env ce) (\<lambda>now db. (f db :: journal_error + Snapshot, db))))"
  "hkeeps R (platform_call (journal (ce_env ce) (\<lambda>now db. (g db :: journal_error + Snapshot \<times> int, db))))"
  using reading by (auto simp: hkeeps_def platform_call_def split_beta)

lemma terminal: "hkeeps R (terminal ce cx e n)"
  unfolding terminal_def Let_def
  by (intro frame_rules platform_reads)

lemma stream: "hkeeps R (stream ce cx es)"
proof (induction es)
  case (Cons x es)
  then show ?case by (cases x) (auto intro!: frame_rules terminal)
qed (auto intro!: frame_rules)

lemma project: "hkeeps R (project ce cx current)"
  unfolding project_def by (intro frame_rules terminal stream)

lemma observe_and_stream: "hkeeps R (observe_and_stream ce cx cursor)"
  unfolding observe_and_stream_def Let_def
  by (intro call_or_fail platform_reads frame_rules read_external set_external project)

end

section \<open>Requests that change nothing\<close>

definition unchanged :: "chat_env \<Rightarrow> hstate \<Rightarrow> hstate \<Rightarrow> bool" where
  "unchanged ce h h' \<longleftrightarrow> ((\<forall>n. env_others (ce_env ce) n = []) \<longrightarrow> w_db (hs_world h') = w_db (hs_world h)) \<and>
     w_sent (hs_world h') = w_sent (hs_world h) \<and> hs_chat h' = hs_chat h"

interpretation quiet: reading_relation "unchanged ce" ce for ce
  by unfold_locales (auto simp: unchanged_def journal_def Let_def split: option.split)

lemma resolve_reads: "hkeeps (unchanged ce) (resolve_ids ce who thread run False)"
proof -
  have "snd (resolve who thread run None db) = db" for db by (simp add: resolve_def)
  with quiet.commandError [of ce] show ?thesis
    unfolding hkeeps_def resolve_ids_def
    by (auto simp: resolve_def unchanged_def split: option.split)
qed

lemma read_input_quiet: "hkeeps (unchanged ce) (read_input rq)"
  unfolding read_input_def by (intro quiet.frame_rules)

text \<open>C31. A request without a valid identity, and every request that is not a submission, leaves the journal, the identity map and
  the calls sent to the endpoint as they are.\<close>

theorem ServeHTTP_reads:
  assumes "ce_auth ce (hr_Header rq) = None \<or> hr_Method rq \<noteq> ''POST''" "\<And>n. env_others (ce_env ce) n = []"
  shows "let h' = snd (ServeHTTP ce rq h) in w_db (hs_world h') = w_db (hs_world h) \<and> hs_chat h' = hs_chat h \<and>
    w_sent (hs_world h') = w_sent (hs_world h)"
proof -
  have "hkeeps (unchanged ce) (ServeHTTP ce rq)"
  proof (cases "ce_auth ce (hr_Header rq)")
    case None
    then show ?thesis by (simp add: ServeHTTP_def quiet.http_Error)
  next
    case (Some who)
    with assms(1) have m: "hr_Method rq \<noteq> ''POST''" by simp
    show ?thesis
      unfolding ServeHTTP_def Let_def Some option.case using m
      by (auto intro!: quiet.frame_rules read_input_quiet resolve_reads quiet.observe_and_stream split: option.split)
  qed
  then show ?thesis using assms(2) by (simp add: hkeeps_def unchanged_def Let_def)
qed

section \<open>The shape of an answer\<close>

fun ending :: "frame \<Rightarrow> bool" where
  "ending (RunFinished t r) = True"
| "ending (RunErrorFrame m c) = True"
| "ending f = False"

fun heading :: "frame \<Rightarrow> bool" where
  "heading (RunStarted t r) = True"
| "heading (StateSnapshot s) = True"
| "heading f = False"

definition middle :: "frame \<Rightarrow> bool" where "middle f \<longleftrightarrow> \<not> ending f \<and> \<not> heading f"

text \<open>The start of a run and its state come first, and nothing comes after the end.\<close>

fun stream_ok :: "frame list \<Rightarrow> bool" where
  "stream_ok (RunStarted t r # StateSnapshot s # fs) \<longleftrightarrow> list_all middle (butlast fs) \<and> list_all (\<lambda>f. \<not> heading f) fs"
| "stream_ok fs \<longleftrightarrow> fs = [] \<or> (\<exists>t r. fs = [RunStarted t r])"

definition shape :: "'a hdl \<Rightarrow> ('a option \<Rightarrow> frame list \<Rightarrow> (int \<times> string) option \<Rightarrow> bool) \<Rightarrow> bool" where
  "shape m P \<longleftrightarrow> (\<forall>h. hs_response h = None \<longrightarrow>
     (\<exists>new. hs_frames (snd (m h)) = hs_frames h @ new \<and> P (fst (m h)) (map fst new) (hs_response (snd (m h)))))"

lemma shape_go_on: "P (Some a) [] None \<Longrightarrow> shape (go_on a) P"
  by (simp add: shape_def go_on_def)

lemma shape_Error: "P None [] (Some (s, t)) \<Longrightarrow> shape (http_Error s t) P"
  by (simp add: shape_def http_Error_def)

lemma shape_weaken: "shape m P \<Longrightarrow> (\<And>r xs a. P r xs a \<Longrightarrow> Q r xs a) \<Longrightarrow> shape m Q"
  unfolding shape_def by blast

lemma shape_bind:
  assumes m: "shape m P" and k: "\<And>a. shape (k a) (Q a)"
    and cont: "\<And>a xs c. P (Some a) xs c \<Longrightarrow> c = None" "\<And>a xs ys r b. P (Some a) xs None \<Longrightarrow> Q a r ys b \<Longrightarrow> S r (xs @ ys) b"
    and early: "\<And>xs b. P None xs b \<Longrightarrow> S None xs b"
  shows "shape (hbind m k) S"
  unfolding shape_def
proof (intro allI impI)
  fix h :: hstate assume h: "hs_response h = None"
  obtain r h1 where m1: "m h = (r, h1)" by fastforce
  with m h obtain xs where xs: "hs_frames h1 = hs_frames h @ xs" "P r (map fst xs) (hs_response h1)"
    unfolding shape_def by (metis fst_conv snd_conv)
  show "\<exists>new. hs_frames (snd (hbind m k h)) = hs_frames h @ new \<and> S (fst (hbind m k h)) (map fst new) (hs_response (snd (hbind m k h)))"
  proof (cases r)
    case None
    with m1 xs early show ?thesis by (auto simp: hbind_def)
  next
    case (Some a)
    with xs cont(1) have none: "hs_response h1 = None" by blast
    with k obtain ys where ys: "hs_frames (snd (k a h1)) = hs_frames h1 @ ys" "Q a (fst (k a h1)) (map fst ys) (hs_response (snd (k a h1)))"
      unfolding shape_def by blast
    have "P (Some a) (map fst xs) None" using xs(2) none Some by simp
    from cont(2) [OF this ys(2)] m1 Some xs(1) ys(1) show ?thesis
      by (intro exI [of _ "xs @ ys"]) (simp add: hbind_def)
  qed
qed

text \<open>What is written is a beginning of what was meant to be.\<close>

definition written :: "frame list \<Rightarrow> bool option \<Rightarrow> frame list \<Rightarrow> (int \<times> string) option \<Rightarrow> bool" where
  "written fs r xs a \<longleftrightarrow> a = None \<and> prefix xs fs \<and> r \<noteq> None \<and> (r = Some True \<longrightarrow> xs = fs)"

lemma shape_emit: "shape (emit f n) (written [f])"
  by (auto simp: shape_def emit_def written_def)

lemma shape_emits: "shape (emits fs) (written (map fst fs))"
proof (induction fs)
  case Nil
  then show ?case by (auto simp: written_def intro: shape_go_on)
next
  case (Cons x fs)
  obtain f n where x: "x = (f, n)" by fastforce
  show ?case
    unfolding x emits.simps
  proof (rule shape_bind [OF shape_emit])
    show "shape (if ok then emits fs else go_on False) (if ok then written (map fst fs) else (\<lambda>r xs a. r = Some False \<and> xs = [] \<and> a = None))"
      for ok
      using Cons by (cases ok) (auto intro: shape_go_on)
    show "written (map fst ((f, n) # fs)) r (xs @ ys) b" if "written [f] (Some a) xs None"
      "(if a then written (map fst fs) else (\<lambda>r xs a. r = Some False \<and> xs = [] \<and> a = None)) r ys b" for a xs ys r b
      using that by (cases a) (auto simp: written_def prefix_Cons)
  qed (auto simp: written_def)
qed

lemma emit_each_full: "hs_room h = 0 \<Longrightarrow> snd (emit_each fs h) = h \<and> fst (emit_each fs h) = Some ()"
  by (induction fs rule: emit_each.induct) (auto simp: go_on_def hbind_def emit_def)

lemma emit_each_take:
  "\<exists>h'. emit_each fs h = (Some (), h') \<and> hs_frames h' = hs_frames h @ take (hs_room h) fs \<and> hs_response h' = hs_response h"
proof (induction fs arbitrary: h)
  case (Cons x fs)
  obtain f n where x: "x = (f, n)" by fastforce
  show ?case
  proof (cases "hs_room h")
    case 0
    with emit_each_full [of h "x # fs"] show ?thesis by (metis append_Nil2 prod.collapse take_0)
  next
    case (Suc k)
    from Cons [of "h\<lparr>hs_frames := hs_frames h @ [(f, n)], hs_room := k\<rparr>"] Suc show ?thesis
      by (simp add: x hbind_def emit_def)
  qed
qed (simp add: go_on_def)

lemma shape_emit_each: "shape (emit_each fs) (\<lambda>r xs a. r \<noteq> None \<and> a = None \<and> prefix xs (map fst fs))"
  unfolding shape_def
proof (intro allI impI)
  fix h :: hstate assume "hs_response h = None"
  with emit_each_take [of fs h] map_mono_prefix [OF take_is_prefix, of fst "hs_room h" fs]
  show "\<exists>new. hs_frames (snd (emit_each fs h)) = hs_frames h @ new \<and> fst (emit_each fs h) \<noteq> None \<and>
      hs_response (snd (emit_each fs h)) = None \<and> prefix (map fst new) (map fst fs)" by auto
qed

text \<open>An event adds frames that neither open nor end, except the last when the stream is over.\<close>

definition goes_on :: "bool option \<Rightarrow> frame list \<Rightarrow> (int \<times> string) option \<Rightarrow> bool" where
  "goes_on r xs a \<longleftrightarrow> a = None \<and> r \<noteq> None \<and> list_all middle (butlast xs) \<and> list_all (\<lambda>f. \<not> heading f) xs \<and>
     (r = Some False \<longrightarrow> list_all middle xs)"

definition tail_ok :: "unit option \<Rightarrow> frame list \<Rightarrow> (int \<times> string) option \<Rightarrow> bool" where
  "tail_ok r xs a \<longleftrightarrow> a = None \<and> r \<noteq> None \<and> list_all middle (butlast xs) \<and> list_all (\<lambda>f. \<not> heading f) xs"

lemma middle_butlast: "list_all middle fs \<Longrightarrow> list_all middle (butlast (fs @ [f]))"
  by simp

lemma butlast_prefix:
  assumes "list_all middle (butlast fs)" "list_all (\<lambda>f. \<not> heading f) fs" "prefix xs fs"
  shows "list_all middle (butlast xs) \<and> list_all (\<lambda>f. \<not> heading f) xs"
proof -
  have "set xs \<subseteq> set fs" using assms(3) by (rule set_mono_prefix)
  moreover have "set (butlast xs) \<subseteq> set (butlast fs)"
    using assms(3) by (auto simp: prefix_def butlast_append dest: in_set_butlastD)
  ultimately show ?thesis using assms(1,2) by (auto simp: list_all_iff)
qed

lemma shape_over:
  assumes "list_all middle (butlast (map fst fs))" "list_all (\<lambda>f. \<not> heading f) (map fst fs)"
  shows "shape (hbind (emits fs) (\<lambda>_. go_on True)) goes_on"
proof (rule shape_bind [OF shape_emits])
  show "shape (go_on True) (\<lambda>r xs a. r = Some True \<and> xs = [] \<and> a = None)" for a :: bool by (rule shape_go_on) simp
qed (use butlast_prefix [OF assms] in \<open>auto simp: written_def goes_on_def\<close>)

lemma shape_more:
  assumes "list_all middle (map fst fs)"
  shows "shape (hbind (emits fs) (\<lambda>ok. go_on (\<not> ok))) goes_on"
proof (rule shape_bind [OF shape_emits])
  show "shape (go_on (\<not> ok)) (\<lambda>r xs a. r = Some (\<not> ok) \<and> xs = [] \<and> a = None)" for ok by (rule shape_go_on) simp
  have "list_all middle xs \<and> list_all middle (butlast xs) \<and> list_all (\<lambda>f. \<not> heading f) xs" if "prefix xs (map fst fs)" for xs
    using assms set_mono_prefix [OF that] by (auto simp: list_all_iff middle_def dest: in_set_butlastD)
  then show "goes_on r (xs @ ys) b" if "written (map fst fs) (Some a) xs None" "r = Some (\<not> a) \<and> ys = [] \<and> b = None" for a xs ys r b
    using that by (auto simp: written_def goes_on_def)
qed (auto simp: written_def)

lemma emit_emits: "hbind (emit f n) k = hbind (emits [(f, n)]) k"
  by (rule ext) (auto simp: hbind_def go_on_def split: option.splits prod.splits)

lemma shape_platform: "(\<And>r. shape (k r) P) \<Longrightarrow> shape (hbind (platform_call m) k) P"
  by (rule shape_bind [where P = "\<lambda>r xs a. r \<noteq> None \<and> xs = [] \<and> a = None"])
    (auto simp: shape_def platform_call_def split_beta)

lemma shape_same: "(\<And>h. hs_response (f h) = hs_response h \<and> hs_frames (f h) = hs_frames h) \<Longrightarrow> shape k P \<Longrightarrow> shape (\<lambda>h. k (f h)) P"
  unfolding shape_def by metis

lemma shape_with_external:
  assumes "\<And>x. shape (k x) P"
  shows "shape (with_external ce n cx comm k) P"
proof -
  have "shape (\<lambda>h. k x (h\<lparr>hs_external := t\<rparr>)) P" for x t by (rule shape_same [OF _ assms]) simp
  with assms show ?thesis
    unfolding with_external_def hbind_def read_external_def shape_def by (auto split: option.splits)
qed

lemma shape_if: "(b \<Longrightarrow> shape m P) \<Longrightarrow> (\<not> b \<Longrightarrow> shape k P) \<Longrightarrow> shape (if b then m else k) P"
  by simp

lemma shape_option: "shape m P \<Longrightarrow> (\<And>a. shape (k a) P) \<Longrightarrow> shape (case x of None \<Rightarrow> m | Some a \<Rightarrow> k a) P"
  by (cases x) auto

lemma shape_sum: "(\<And>e. shape (m e) P) \<Longrightarrow> (\<And>a. shape (k a) P) \<Longrightarrow> shape (case x of Inl e \<Rightarrow> m e | Inr a \<Rightarrow> k a) P"
  by (cases x) auto

lemma shape_awaiting: "shape (hbind (emit_each (awaiting_frames cx n s @ [(finished cx, 0)])) (\<lambda>_. go_on True)) goes_on"
proof (rule shape_bind [OF shape_emit_each])
  show "shape (go_on True) (\<lambda>r xs a. r = Some True \<and> xs = [] \<and> a = None)" for a :: unit by (rule shape_go_on) simp
  let ?fs = "map fst (awaiting_frames cx n s @ [(finished cx, 0)])"
  have "list_all middle (butlast ?fs)" "list_all (\<lambda>f. \<not> heading f) ?fs"
    by (auto simp: awaiting_frames_def list_all_iff middle_def finished_def)
  from butlast_prefix [OF this]
  show "goes_on r (xs @ ys) b" if "Some a \<noteq> None \<and> None = None \<and> prefix xs ?fs" "r = Some True \<and> ys = [] \<and> b = None" for xs ys r b and a :: unit
    using that by (auto simp: goes_on_def)
qed auto

lemma shape_terminal: "shape (terminal ce cx e n) goes_on"
  unfolding terminal_def Let_def emit_emits
  by (intro shape_if shape_platform shape_with_external shape_sum shape_option shape_awaiting shape_over shape_more)
    (simp_all add: middle_def finished_def failed_with_def observation_failed_def)

lemma shape_stream: "shape (stream ce cx es) tail_ok"
proof (induction es)
  case Nil
  have bad: "shape (hbind (emits [(observation_failed, 0)]) (\<lambda>_. go_on ())) tail_ok"
  proof (rule shape_bind [OF shape_emits])
    show "shape (go_on ()) (\<lambda>r xs a. r = Some () \<and> xs = [] \<and> a = None)" for a :: bool by (rule shape_go_on) simp
  qed (auto simp: written_def tail_ok_def prefix_Cons observation_failed_def)
  show ?case unfolding stream.simps emit_emits by (intro shape_if bad shape_go_on) (simp add: tail_ok_def)
next
  case (Cons x es)
  obtain n e where x: "x = (n, e)" by fastforce
  have "shape (hbind (terminal ce cx e n) (\<lambda>over. if over then go_on () else stream ce cx es)) tail_ok"
  proof (rule shape_bind [OF shape_terminal])
    show "shape (if over then go_on () else stream ce cx es) (if over then (\<lambda>r xs a. r = Some () \<and> xs = [] \<and> a = None) else tail_ok)" for over
      using Cons by (cases over) (auto intro: shape_go_on)
    show "tail_ok r (xs @ ys) b" if "goes_on (Some over) xs None"
      "(if over then (\<lambda>r xs a. r = Some () \<and> xs = [] \<and> a = None) else tail_ok) r ys b" for over xs ys r b
      using that by (cases over) (auto simp: goes_on_def tail_ok_def butlast_append)
  qed (auto simp: goes_on_def)
  with Cons show ?case by (simp add: x)
qed

lemma shape_project: "shape (project ce cx current) tail_ok"
proof (cases current)
  case None
  then show ?thesis by (simp add: project_def shape_stream)
next
  case (Some r)
  have ended: "shape (hbind (terminal ce cx e 0) (\<lambda>_. go_on ())) tail_ok" for e
  proof (rule shape_bind [OF shape_terminal])
    show "shape (go_on ()) (\<lambda>r xs a. r = Some () \<and> xs = [] \<and> a = None)" for a :: bool by (rule shape_go_on) simp
  qed (auto simp: goes_on_def tail_ok_def)
  have answer: "shape (if run_Answer r = [] then go_on False
      else terminal ce cx ((event [] ''message.completed'')\<lparr>e_Answer := run_Answer r\<rparr>) 0) goes_on"
    by (intro shape_if shape_terminal shape_go_on) (simp add: goes_on_def)
  show ?thesis
    unfolding project_def Some option.case
  proof (rule shape_bind [OF answer])
    let ?rest = "case state_event r of Some e \<Rightarrow> hbind (terminal ce cx e 0) (\<lambda>_. go_on ()) | None \<Rightarrow> stream ce cx (ce_delivered ce)"
    show "shape (if over then go_on () else ?rest) (if over then (\<lambda>r xs a. r = Some () \<and> xs = [] \<and> a = None) else tail_ok)" for over
      by (cases over) (auto intro: shape_go_on intro!: shape_option ended shape_stream)
    show "tail_ok r' (xs @ ys) b" if "goes_on (Some over) xs None"
      "(if over then (\<lambda>r xs a. r = Some () \<and> xs = [] \<and> a = None) else tail_ok) r' ys b" for over xs ys r' b
      using that by (cases over) (auto simp: goes_on_def tail_ok_def butlast_append)
  qed (auto simp: goes_on_def)
qed

text \<open>One error, or one stream.\<close>

definition answer_ok :: "'a option \<Rightarrow> frame list \<Rightarrow> (int \<times> string) option \<Rightarrow> bool" where
  "answer_ok r xs a \<longleftrightarrow> (case a of Some _ \<Rightarrow> xs = [] \<and> r = None | None \<Rightarrow> stream_ok xs)"

definition quietly :: "'a option \<Rightarrow> frame list \<Rightarrow> (int \<times> string) option \<Rightarrow> bool" where
  "quietly r xs a \<longleftrightarrow> xs = [] \<and> (a = None \<longleftrightarrow> r \<noteq> None)"

lemma answer_Error: "shape (http_Error s t) answer_ok"
  by (rule shape_Error) (simp add: answer_ok_def)

lemma quiet_Error: "shape (http_Error s t) quietly"
  by (rule shape_Error) (simp add: quietly_def)

lemma quiet_go_on: "shape (go_on a) quietly"
  by (rule shape_go_on) (simp add: quietly_def)

lemma answer_commandError: "shape (commandError e) answer_ok"
  unfolding commandError_def by (intro shape_if answer_Error)

lemma quiet_commandError: "shape (commandError e) quietly"
  unfolding commandError_def by (intro shape_if quiet_Error)

lemma quiet_require: "shape k quietly \<Longrightarrow> shape (require ok s t k) quietly"
  by (simp add: require_def quiet_Error)

lemma answer_require: "shape k answer_ok \<Longrightarrow> shape (require ok s t k) answer_ok"
  by (simp add: require_def answer_Error)

lemma quiet_then: "shape m quietly \<Longrightarrow> (\<And>a. shape (k a) answer_ok) \<Longrightarrow> shape (hbind m k) answer_ok"
  by (rule shape_bind [of _ quietly _ "\<lambda>_. answer_ok"]) (auto simp: quietly_def answer_ok_def)

lemma quiet_bind: "shape m quietly \<Longrightarrow> (\<And>a. shape (k a) quietly) \<Longrightarrow> shape (hbind m k) quietly"
  by (rule shape_bind [of _ quietly _ "\<lambda>_. quietly"]) (auto simp: quietly_def)

lemma answer_call: "(\<And>a. shape (k a) answer_ok) \<Longrightarrow> shape (call_or_fail m k) answer_ok"
  unfolding call_or_fail_def by (intro shape_platform shape_sum answer_commandError)

lemma stream_ok_tail: "tail_ok r ys b \<Longrightarrow> stream_ok (RunStarted t u # StateSnapshot s # ys)"
  by (simp add: tail_ok_def)

lemma stream_ok_cut: "prefix xs [RunStarted t u, StateSnapshot s] \<Longrightarrow> stream_ok xs"
  by (auto simp: prefix_Cons)

lemma answer_stream:
  "shape (hbind (emits [(RunStarted t u, n), (StateSnapshot s, m)]) (\<lambda>ok. if ok then project ce cx current else go_on ())) answer_ok"
proof (rule shape_bind [OF shape_emits])
  show "shape (if ok then project ce cx current else go_on ()) (if ok then tail_ok else (\<lambda>r xs a. xs = [] \<and> a = None))" for ok
    by (cases ok) (auto intro: shape_project shape_go_on)
  show "answer_ok r (xs @ ys) b" if "written (map fst [(RunStarted t u, n), (StateSnapshot s, m)]) (Some ok) xs None"
    "(if ok then tail_ok else (\<lambda>r xs a. xs = [] \<and> a = None)) r ys b" for ok xs ys r b
    using that stream_ok_tail [of r ys b t u s] stream_ok_cut [of xs t u s]
    by (cases ok) (auto simp: written_def answer_ok_def tail_ok_def)
qed (auto simp: written_def)

lemma answer_observe: "shape (observe_and_stream ce cx cursor) answer_ok"
  unfolding observe_and_stream_def Let_def
proof (intro answer_call, goal_cases)
  case (1 sa)
  obtain s after where sa: "sa = (s, after)" by fastforce
  show ?case
    unfolding sa prod.case
    by (intro quiet_then shape_option answer_Error shape_same [OF _ answer_stream])
      (auto simp: shape_def read_external_def quietly_def)
qed

text \<open>C18. An answer is one error or one stream: either a status with no frame at all, or a stream that starts with the run and
  its state and in which nothing follows the frame that finishes the run or reports its error.\<close>

theorem ServeHTTP_answer:
  assumes "hs_response h = None" "hs_frames h = []"
  shows "let h' = snd (ServeHTTP ce rq h) in
    if hs_response h' = None then stream_ok (map fst (hs_frames h')) else hs_frames h' = []"
proof -
  have input: "shape (read_input rq) quietly"
    unfolding read_input_def by (intro shape_if shape_option quiet_Error quiet_require quiet_go_on)
  have pair: "shape (case x of (a, b) \<Rightarrow> k a b) quietly" if "\<And>a b. shape (k a b) quietly" for x and k :: "string \<Rightarrow> reply_doc \<Rightarrow> 'y hdl"
    using that by (cases x) simp
  have body: "shape (accept_body inp) quietly" for inp
    unfolding accept_body_def by (intro quiet_bind pair shape_option quiet_Error quiet_require quiet_go_on)
  have fails: "hs_frames (snd (commandError e h)) = hs_frames h \<and> fst (commandError e h) = None \<and> hs_response (snd (commandError e h)) \<noteq> None"
    for e h by (simp add: commandError_def http_Error_def)
  have found: "shape (resolve_ids ce who thread run create) quietly" for who thread run create
    unfolding shape_def resolve_ids_def by (auto simp: quietly_def fails split: prod.split sum.split)
  have "shape (ServeHTTP ce rq) answer_ok"
    unfolding ServeHTTP_def Let_def
    by (intro shape_option answer_Error quiet_then [OF input] answer_require quiet_then [OF shape_if [OF body quiet_go_on]]
        quiet_then [OF found] shape_if answer_call answer_observe)
  then obtain new where "hs_frames (snd (ServeHTTP ce rq h)) = hs_frames h @ new"
    "answer_ok (fst (ServeHTTP ce rq h)) (map fst new) (hs_response (snd (ServeHTTP ce rq h)))"
    using assms(1) unfolding shape_def by blast
  with assms(2) show ?thesis by (auto simp: answer_ok_def Let_def split: option.splits)
qed

section \<open>A submission\<close>

definition chat_setting :: chat_env where
  "chat_setting = \<lparr>ce_env = quiet_env, ce_platform = \<lparr>p_ownerID = ''o'', p_closed = False, p_draining = False\<rparr>,
     ce_auth = Authenticate_static [(''s3cret'', ''acme/ann'')], ce_headers = [], ce_ids = (''t'', ''r'', ''c''), ce_fault = (\<lambda>_. False),
     ce_delivered = [(2, (event ''r'' ''message.completed'')\<lparr>e_Answer := ''hi''\<rparr>), (3, event ''r'' ''run.completed'')], ce_failed = False\<rparr>"

definition chat_request :: http_request where
  "chat_request = \<lparr>hr_Method = ''POST'', hr_Header = (\<lambda>k. if k = ''Authorization'' then [''Bearer s3cret''] else []),
     hr_Query = (\<lambda>_. []), hr_Body = Some \<lparr>ai_ThreadID = ''T'', ai_RunID = ''R'',
       ai_Messages = [\<lparr>cm_Role = ''user'', cm_Content = JStr ''hello''\<rparr>], ai_Tools = 0, ai_ForwardedProps = JNull\<rparr>, hr_Extra = False\<rparr>"

definition chat_start :: hstate where
  "chat_start = \<lparr>hs_world = world_of empty_db, hs_chat = no_chat, hs_response = None, hs_frames = [], hs_room = 100, hs_external = []\<rparr>"

theorem ServeHTTP_answer_witness:
  "let h' = snd (ServeHTTP chat_setting chat_request chat_start) in
     hs_response h' = None \<and> length (hs_frames h') = 6 \<and> stream_ok (map fst (hs_frames h'))"
proof -
  have r: "hs_response (snd (ServeHTTP chat_setting chat_request chat_start)) = None" by code_simp
  have l: "length (hs_frames (snd (ServeHTTP chat_setting chat_request chat_start))) = 6" by code_simp
  have "hs_response chat_start = None" "hs_frames chat_start = []" by (simp_all add: chat_start_def)
  from ServeHTTP_answer [OF this, of chat_setting chat_request] r l show ?thesis by (simp add: Let_def)
qed

theorem ServeHTTP_reads_witness:
  "let h = snd (ServeHTTP chat_setting chat_request chat_start);
       h' = snd (ServeHTTP chat_setting (chat_request\<lparr>hr_Method := ''GET''\<rparr>) h) in
     w_db (hs_world h') = w_db (hs_world h) \<and> hs_chat h' = hs_chat h"
  using ServeHTTP_reads [of chat_setting "chat_request\<lparr>hr_Method := ''GET''\<rparr>"]
  by (simp add: Let_def chat_setting_def quiet_env_def)

end
