(* ===== verification/Bundle.thy ===== *)
theory Bundle
  imports Definitions Json "HOL-Library.AList"
begin

text \<open>
  Bundles (\<open>internal/definitions/bundle.go\<close>), skill packages (\<open>skill.go\<close>) and the compilation of a whole bundle
  (\<open>compile.go\<close>). A bundle is an association list from slash-separated names to bytes; the file system the compiler reads is the
  bundle, and a path in it is the list of its components, the empty list being the root. The compiler records what it
  reads, so it is a function of the files read so far. The YAML decoder and SHA-256 are parameters.
\<close>

section \<open>Limits, paths and files\<close>

type_synonym Bundle = "(string \<times> bytes) list"
type_synonym path = "string list"

definition BundleConfig :: string where "BundleConfig = ''journeys.yaml''"
definition MaxBundleFiles :: int where "MaxBundleFiles = 512"
definition MaxBundleBytes :: int where "MaxBundleBytes = 16777216"
definition MaxBundleFileBytes :: int where "MaxBundleFileBytes = 1048576"
definition MaxPromptBytes :: int where "MaxPromptBytes = 262144"
definition MaxConfigBytes :: int where "MaxConfigBytes = 1048576"
definition MaxSkillBytes :: int where "MaxSkillBytes = 262144"
definition MaxSkillMetadata :: int where "MaxSkillMetadata = 8192"
definition MaxSupportingBytes :: int where "MaxSupportingBytes = 1048576"
definition MaxCompiledSkillBytes :: int where "MaxCompiledSkillBytes = 8388608"
definition MaxCompiledSkillFiles :: int where "MaxCompiledSkillFiles = 256"

datatype bundle_error =
    TooManyFiles | InvalidPath | FileTooLarge | BundleTooLarge | FileAndDirectory | ConfigRequired
  | EmptyConfig | DecodeConfig | OneDocument | NoJourneys
  | AbsolutePath | ParentComponent | EscapesConfig | NoSuchFile | NotRegularOrTooLarge
  | BundleDirectory | NotADirectory | FrontmatterRequired | FrontmatterInvalid | NameAndDescription | NameMismatch
  | InvalidSupporting | TooManySkillFiles
  | InvalidID | InvalidMaxTools | SkillRequired | AggregateLimit | DuplicateID
  | SymbolicLink | UnsupportedFile
  | CompileError compile_error | InJourney nat bundle_error

text \<open>\<open>utf8.ValidString\<close>.\<close>

definition byte_in :: "nat \<Rightarrow> nat \<Rightarrow> char \<Rightarrow> bool" where
  "byte_in lo hi c = (lo \<le> of_char c \<and> of_char c \<le> hi)"

fun valid_utf8 :: "string \<Rightarrow> bool" where
  "valid_utf8 [] = True"
| "valid_utf8 (a # s) =
     (if byte_in 0 127 a then valid_utf8 s
      else case s of
        b # s1 \<Rightarrow>
          if byte_in 194 223 a then byte_in 128 191 b \<and> valid_utf8 s1
          else (case s1 of
            c # s2 \<Rightarrow>
              if byte_in 224 239 a then
                byte_in (if byte_in 224 224 a then 160 else 128) (if byte_in 237 237 a then 159 else 191) b \<and>
                byte_in 128 191 c \<and> valid_utf8 s2
              else (case s2 of
                d # s3 \<Rightarrow>
                  byte_in 240 244 a \<and>
                  byte_in (if byte_in 240 240 a then 144 else 128) (if byte_in 244 244 a then 143 else 191) b \<and>
                  byte_in 128 191 c \<and> byte_in 128 191 d \<and> valid_utf8 s3
              | [] \<Rightarrow> False)
          | [] \<Rightarrow> False)
      | [] \<Rightarrow> False)"

abbreviation slash :: char where "slash \<equiv> CHR ''/''"

text \<open>\<open>fs.ValidPath\<close> without the name of the root, and \<open>path.Clean\<close> on components.\<close>

definition valid_part :: "string \<Rightarrow> bool" where
  "valid_part p = (p \<noteq> [] \<and> p \<noteq> ''.'' \<and> p \<noteq> ''..'')"

definition valid_name :: "string \<Rightarrow> bool" where
  "valid_name name = (valid_utf8 name \<and> list_all valid_part (split_on slash name))"

fun clean_parts :: "bool \<Rightarrow> string list \<Rightarrow> string list \<Rightarrow> path" where
  "clean_parts rooted out [] = rev out"
| "clean_parts rooted out (p # ps) =
     (if p = [] \<or> p = ''.'' then clean_parts rooted out ps
      else if p = ''..'' then
        (case out of
           [] \<Rightarrow> clean_parts rooted (if rooted then [] else [p]) ps
         | q # qs \<Rightarrow> if q = ''..'' then clean_parts rooted (p # out) ps else clean_parts rooted qs ps)
      else clean_parts rooted (p # out) ps)"

definition path_parts :: "string \<Rightarrow> path" where
  "path_parts s = clean_parts (prefix ''/'' s) [] (split_on slash s)"

definition path_Clean :: "string \<Rightarrow> string" where
  "path_Clean s =
     (if prefix ''/'' s then ''/'' @ join ''/'' (path_parts s)
      else if path_parts s = [] then ''.'' else join ''/'' (path_parts s))"

definition file_at :: "Bundle \<Rightarrow> path \<Rightarrow> bytes option" where
  "file_at b p = (if p = [] then None else map_of b (join ''/'' p))"

definition is_dir :: "Bundle \<Rightarrow> path \<Rightarrow> bool" where
  "is_dir b p = (p = [] \<or> list_ex (\<lambda>(k, d). strict_prefix p (split_on slash k)) b)"

definition exists_at :: "Bundle \<Rightarrow> path \<Rightarrow> bool" where
  "exists_at b p = (file_at b p \<noteq> None \<or> is_dir b p)"

text \<open>The names in a directory, in order.\<close>

definition child_of :: "path \<Rightarrow> string \<Rightarrow> string list" where
  "child_of p k =
     (if strict_prefix p (split_on slash k) then [split_on slash k ! length p] else [])"

definition ReadDir :: "Bundle \<Rightarrow> path \<Rightarrow> string list" where
  "ReadDir b p = sort (remdups (concat (map (\<lambda>(k, d). child_of p k) b)))"

section \<open>Validation\<close>

text \<open>The proper directories of a name: \<open>path.Dir\<close> until the root.\<close>

definition dirs_of :: "string \<Rightarrow> string list" where
  "dirs_of name = map (\<lambda>n. join ''/'' (take n (split_on slash name))) [1..<length (split_on slash name)]"

fun validate_files :: "Bundle \<Rightarrow> int \<Rightarrow> Bundle \<Rightarrow> bundle_error + unit" where
  "validate_files b used [] = Inr ()"
| "validate_files b used ((name, data) # rest) =
     (if \<not> valid_name name then Inl InvalidPath
      else if int (length data) > MaxBundleFileBytes then Inl FileTooLarge
      else if used + int (length data) > MaxBundleBytes then Inl BundleTooLarge
      else if list_ex (\<lambda>d. map_of b d \<noteq> None) (dirs_of name) then Inl FileAndDirectory
      else validate_files b (used + int (length data)) rest)"

definition validateBundle :: "Bundle \<Rightarrow> bundle_error + unit" where
  "validateBundle b = (if int (length b) > MaxBundleFiles then Inl TooManyFiles else validate_files b 0 b)"

section \<open>Reading\<close>

definition clean_prefixes :: "path \<Rightarrow> path \<Rightarrow> path list" where
  "clean_prefixes base clean = (if clean = [] then [base] else map (\<lambda>n. base @ take (Suc n) clean) [0..<length clean])"

definition confine :: "Bundle \<Rightarrow> path \<Rightarrow> string \<Rightarrow> bundle_error + path" where
  "confine b base relative =
     (let clean = path_parts relative in
      if prefix ''/'' relative then Inl AbsolutePath
      else if ''..'' \<in> set (split_on slash relative) then Inl ParentComponent
      else if clean \<noteq> [] \<and> hd clean = ''..'' then Inl EscapesConfig
      else if list_all (exists_at b) (clean_prefixes base clean) then Inr (base @ clean)
      else Inl NoSuchFile)"

definition readFS :: "Bundle \<Rightarrow> path \<Rightarrow> int \<Rightarrow> bundle_error + bytes" where
  "readFS b p limit =
     (case file_at b p of
        None \<Rightarrow> Inl (if is_dir b p then NotRegularOrTooLarge else NoSuchFile)
      | Some d \<Rightarrow> if int (length d) > limit then Inl NotRegularOrTooLarge else Inr d)"

type_synonym reads = "(string \<times> bytes) list"
type_synonym 'a src = "reads \<Rightarrow> bundle_error + 'a \<times> reads"

definition src_return :: "'a \<Rightarrow> 'a src" where "src_return a R = Inr (a, R)"

definition src_try :: "bundle_error + 'a \<Rightarrow> ('a \<Rightarrow> 'b src) \<Rightarrow> 'b src" where
  "src_try r k R = (case r of Inl e \<Rightarrow> Inl e | Inr a \<Rightarrow> k a R)"

definition src_bind :: "'a src \<Rightarrow> ('a \<Rightarrow> 'b src) \<Rightarrow> 'b src" where
  "src_bind m k R = (case m R of Inl e \<Rightarrow> Inl e | Inr (a, R') \<Rightarrow> k a R')"

definition src_guard :: "bool \<Rightarrow> bundle_error \<Rightarrow> 'a src \<Rightarrow> 'a src" where
  "src_guard ok e k R = (if ok then k R else Inl e)"

definition read_src :: "Bundle \<Rightarrow> path \<Rightarrow> int \<Rightarrow> bytes src" where
  "read_src b p limit R = and_then (readFS b p limit) (\<lambda>d. Inr (d, AList.update (join ''/'' p) d R))"

section \<open>Skill packages\<close>

fun find_sub :: "string \<Rightarrow> string \<Rightarrow> nat option" where
  "find_sub w [] = (if w = [] then Some 0 else None)"
| "find_sub w (x # xs) = (if prefix w (x # xs) then Some 0 else map_option Suc (find_sub w xs))"

definition newline :: char where "newline = CHR 10"

definition skill_open :: string where "skill_open = ''---'' @ [newline]"
definition skill_close :: string where "skill_close = [newline] @ ''---'' @ [newline]"

definition unquote :: "string \<Rightarrow> string" where
  "unquote value = trim_chars [CHR 34, CHR 39] (trim_space value)"

fun skill_fields :: "string \<times> string \<Rightarrow> string list \<Rightarrow> string \<times> string" where
  "skill_fields nd [] = nd"
| "skill_fields (n, d) (line # rest) =
     (case cut CHR '':'' line of
        None \<Rightarrow> skill_fields (n, d) rest
      | Some (key, value) \<Rightarrow>
          if trim_space key = ''name'' then skill_fields (unquote value, d) rest
          else if trim_space key = ''description'' then skill_fields (n, unquote value) rest
          else skill_fields (n, d) rest)"

definition skillMetadata :: "bytes \<Rightarrow> bundle_error + string \<times> string" where
  "skillMetadata data =
     (if int (length data) > MaxSkillBytes \<or> \<not> prefix skill_open data then Inl FrontmatterRequired
      else case find_sub skill_close (drop 4 data) of
        None \<Rightarrow> Inl FrontmatterInvalid
      | Some n \<Rightarrow>
          if int n + 4 > MaxSkillMetadata then Inl FrontmatterInvalid
          else
            let (name, description) = skill_fields ([], []) (split_on newline (take n (drop 4 data))) in
            if name = [] \<or> description = [] \<or> length name > 64 \<or> int (length description) > 1024 then Inl NameAndDescription
            else Inr (name, description))"

definition skillBody :: "bytes \<Rightarrow> string" where
  "skillBody data =
     (case find_sub skill_close (drop 4 data) of
        None \<Rightarrow> []
      | Some n \<Rightarrow> if \<not> prefix skill_open data then [] else trim_space (drop (4 + n + 5) data))"

definition skillFootprint :: "SkillPackage \<Rightarrow> int \<times> int" where
  "skillFootprint s =
     (int (length (sf_Data (sp_Instructions s))) + sum_list (map (\<lambda>(n, f). int (length (sf_Data f))) (sp_Supporting s)),
      1 + int (length (sp_Supporting s)))"

definition snapshot_file :: "(bytes \<Rightarrow> string) \<Rightarrow> string \<Rightarrow> bytes \<Rightarrow> SkillFile" where
  "snapshot_file sha name data = \<lparr>sf_Name = name, sf_Digest = sha data, sf_Data = data\<rparr>"

text \<open>Byte slices are encoded in base64.\<close>

definition base64_char :: "nat \<Rightarrow> char" where
  "base64_char n =
     (if n < 26 then char_of (65 + n) else if n < 52 then char_of (71 + n) else if n < 62 then char_of (n - 4 :: nat)
      else if n = 62 then CHR ''+'' else CHR ''/'')"

fun base64 :: "bytes \<Rightarrow> string" where
  "base64 [] = []"
| "base64 [a] = (let n = of_char a :: nat in [base64_char (n div 4), base64_char (n mod 4 * 16), CHR ''='', CHR ''=''])"
| "base64 [a, b] =
     (let m = of_char a :: nat; n = of_char b :: nat in
      [base64_char (m div 4), base64_char (m mod 4 * 16 + n div 16), base64_char (n mod 16 * 4), CHR ''=''])"
| "base64 (a # b # c # s) =
     (let m = of_char a :: nat; n = of_char b :: nat; k = of_char c :: nat in
      [base64_char (m div 4), base64_char (m mod 4 * 16 + n div 16), base64_char (n mod 16 * 4 + k div 64),
       base64_char (k mod 64)] @ base64 s)"

definition skill_canonical :: "SkillPackage \<Rightarrow> json" where
  "skill_canonical s = JObj
     [(''Name'', JStr (sp_Name s)), (''Description'', JStr (sp_Description s)), (''Disabled'', JBool (sp_Disabled s)),
      (''AllowSupportingFiles'', JBool (sp_AllowSupportingFiles s)),
      (''Instructions'', JStr (base64 (sf_Data (sp_Instructions s)))),
      (''Supporting'', JObj (sort_members (map (\<lambda>(n, f). (n, JStr (base64 (sf_Data f)))) (sp_Supporting s))))]"

fun read_supporting ::
  "(bytes \<Rightarrow> string) \<Rightarrow> Bundle \<Rightarrow> path \<Rightarrow> string list \<Rightarrow> string list \<Rightarrow> (string \<times> SkillFile) list src" where
  "read_supporting sha b root seen [] = src_return []"
| "read_supporting sha b root seen (name # names) =
     src_guard (name \<noteq> [] \<and> name \<noteq> ''SKILL.md'' \<and> name \<notin> set seen) InvalidSupporting (
     src_try (confine b root name) (\<lambda>p.
     src_bind (read_src b p MaxSupportingBytes) (\<lambda>data.
     src_bind (read_supporting sha b root (name # seen) names) (\<lambda>rest.
     src_return ((name, snapshot_file sha name data) # rest)))))"

definition compileSkill :: "(bytes \<Rightarrow> string) \<Rightarrow> Bundle \<Rightarrow> string \<Rightarrow> string \<Rightarrow> string list \<Rightarrow> SkillPackage src" where
  "compileSkill sha b declared relative supporting =
     src_try (confine b [] relative) (\<lambda>root.
     src_guard (is_dir b root) NotADirectory (
     src_try (confine b root ''SKILL.md'') (\<lambda>p.
     src_bind (read_src b p MaxSkillBytes) (\<lambda>instructions.
     src_try (skillMetadata instructions) (\<lambda>(name, description).
     src_guard (name = declared) NameMismatch (
     src_bind (read_supporting sha b root [] supporting) (\<lambda>files.
     let s = \<lparr>sp_Name = name, sp_Description = description, sp_Disabled = False,
              sp_AllowSupportingFiles = (supporting \<noteq> []), sp_Instructions = snapshot_file sha ''SKILL.md'' instructions,
              sp_Supporting = files, sp_Digest = []\<rparr>
     in src_return (s\<lparr>sp_Digest := sha (print_json (skill_canonical s))\<rparr>))))))))"

text \<open>The files below a directory: hidden names are skipped, and the instructions at the top.\<close>

lemma is_dir_depth: "is_dir b p \<Longrightarrow> p \<noteq> [] \<Longrightarrow> \<exists>k \<in> fst ` set b. length p < length (split_on slash k)"
  by (auto simp: is_dir_def list_ex_iff image_iff dest!: prefix_length_less intro: rev_bexI)

definition depth :: "Bundle \<Rightarrow> nat" where
  "depth b = Max (insert 0 ((\<lambda>(k, d). length (split_on slash k)) ` set b))"

lemma depth_ge: "k \<in> fst ` set b \<Longrightarrow> length (split_on slash k) \<le> depth b"
  unfolding depth_def by (rule Max_ge) force+

function enum_entries :: "Bundle \<Rightarrow> path \<Rightarrow> path \<Rightarrow> string list \<Rightarrow> string list \<Rightarrow> bundle_error + string list" where
  "enum_entries b root rel [] files = Inr files"
| "enum_entries b root rel (c # cs) files =
     (if prefix ''.'' c then enum_entries b root rel cs files
      else if is_dir b (root @ rel @ [c]) then
        and_then (enum_entries b root (rel @ [c]) (ReadDir b (root @ rel @ [c])) files) (\<lambda>files'.
        enum_entries b root rel cs files')
      else if rel = [] \<and> c = ''SKILL.md'' then enum_entries b root rel cs files
      else if int (length files) \<ge> MaxCompiledSkillFiles then Inl TooManySkillFiles
      else enum_entries b root rel cs (files @ [join ''/'' (rel @ [c])]))"
  by pat_completeness auto
termination
proof (relation "measures [\<lambda>(b, root, rel, cs, files). Suc (depth b) - length (root @ rel), \<lambda>(b, root, rel, cs, files). length cs]")
  fix b :: Bundle and root rel :: path and c cs files
  assume "is_dir b (root @ rel @ [c])"
  from is_dir_depth [OF this] depth_ge [of _ b] have "length (root @ rel) < depth b" by fastforce
  then show "((b, root, rel @ [c], ReadDir b (root @ rel @ [c]), files), b, root, rel, c # cs, files) \<in>
      measures [\<lambda>(b, root, rel, cs, files). Suc (depth b) - length (root @ rel), \<lambda>(b, root, rel, cs, files). length cs]"
    by (simp add: Suc_diff_le)
qed auto

definition enumerate_files :: "Bundle \<Rightarrow> path \<Rightarrow> bundle_error + string list" where
  "enumerate_files b root = enum_entries b root [] (ReadDir b root) []"

definition compileSkillDir :: "(bytes \<Rightarrow> string) \<Rightarrow> Bundle \<Rightarrow> string \<Rightarrow> SkillPackage src" where
  "compileSkillDir sha b relative =
     src_guard (path_Clean relative \<noteq> ''.'') BundleDirectory (
     src_try (confine b [] relative) (\<lambda>root.
     src_guard (is_dir b root) NotADirectory (
     src_try (confine b root ''SKILL.md'') (\<lambda>p.
     src_bind (read_src b p MaxSkillBytes) (\<lambda>instructions.
     src_try (skillMetadata instructions) (\<lambda>(name, _).
     src_try (enumerate_files b root) (\<lambda>files.
     compileSkill sha b name relative (sort files))))))))"

section \<open>Journeys and the set\<close>

record rawConfig =
  rw_Catalog :: rawCatalog
  rw_ConversationPrompt :: string
  rw_Journeys :: "rawJourney list"

datatype yaml_result = YamlEmpty | YamlInvalid | YamlDocument rawConfig bool

definition strings_json :: "string list \<Rightarrow> json" where
  "strings_json xs = (if xs = [] then JNull else JArr (map JStr xs))"

definition catalog_json :: "CatalogConfig \<Rightarrow> json" where
  "catalog_json c = JObj [(''OperationMetaKey'', JStr (OperationMetaKey c)), (''CallIDHeader'', JStr (CallIDHeader c))]"

definition selector_json :: "Selector \<Rightarrow> json" where
  "selector_json s = JObj
     [(''Ops'', strings_json (Ops s)), (''Tags'', strings_json (Tags s)), (''Alias'', JStr (Alias s)),
      (''ReadOnlyHint'', JBool (ReadOnlyHint s)), (''Class'', JStr (class_string (SClass s))),
      (''ApprovalRequired'', JBool (ApprovalRequired s))]"

definition skillIdentity :: "SkillPackage \<Rightarrow> json" where
  "skillIdentity s = JObj
     [(''Name'', JStr (sp_Name s)), (''Description'', JStr (sp_Description s)), (''Digest'', JStr (sp_Digest s)),
      (''Disabled'', JBool (sp_Disabled s)), (''AllowSupportingFiles'', JBool (sp_AllowSupportingFiles s))]"

definition canonicalJourney :: "Journey \<Rightarrow> json" where
  "canonicalJourney j = JObj
     [(''ID'', JStr (j_ID j)), (''Description'', JStr (j_Description j)), (''Prompt'', JStr (j_Prompt j)),
      (''Skills'', JArr (map skillIdentity (j_Skills j))),
      (''ProductVersions'', JObj [(''Min'', JStr (Min (j_ProductVersions j))), (''MaxExclusive'', JStr (MaxExclusive (j_ProductVersions j)))]),
      (''Tools'', JArr (map selector_json (j_Tools j))), (''Deny'', strings_json (j_Deny j)),
      (''MaxTools'', JNum (show_int (j_MaxTools j))), (''Catalog'', catalog_json (j_Catalog j))]"

definition setDigest :: "(bytes \<Rightarrow> string) \<Rightarrow> CatalogConfig \<Rightarrow> string \<Rightarrow> string list \<Rightarrow> string" where
  "setDigest sha catalog prompt digests = sha (print_json (JObj
     [(''Catalog'', catalog_json catalog), (''ConversationPrompt'', JStr prompt), (''Journeys'', JArr (map JStr digests))]))"

text \<open>The compiled packages by cleaned path, and the bytes and files they use.\<close>

type_synonym skill_cache = "(string \<times> SkillPackage) list \<times> int \<times> int"

definition journey_skill :: "(bytes \<Rightarrow> string) \<Rightarrow> Bundle \<Rightarrow> string \<Rightarrow> skill_cache \<Rightarrow> (SkillPackage \<times> skill_cache) src" where
  "journey_skill sha b skill cache =
     (case cache of (skills, bytes, files) \<Rightarrow>
        case map_of skills (path_Clean skill) of
          Some s \<Rightarrow> src_return (s, cache)
        | None \<Rightarrow>
            src_bind (compileSkillDir sha b skill) (\<lambda>s.
            let (bytesUsed, filesUsed) = skillFootprint s in
            src_guard (\<not> (bytes > MaxCompiledSkillBytes - bytesUsed \<or> files > MaxCompiledSkillFiles - filesUsed)) AggregateLimit (
            src_return (s, (path_Clean skill, s) # skills, bytes + bytesUsed, files + filesUsed))))"

definition max_tools_of :: "rawJourney \<Rightarrow> bundle_error + int" where
  "max_tools_of rj =
     (case rj_MaxTools rj of
        None \<Rightarrow> Inr 15
      | Some n \<Rightarrow> if n < 1 \<or> n > 64 then Inl InvalidMaxTools else Inr n)"

definition lift_error :: "compile_error + 'a \<Rightarrow> bundle_error + 'a" where
  "lift_error r = (case r of Inl e \<Rightarrow> Inl (CompileError e) | Inr a \<Rightarrow> Inr a)"

definition compileJourney ::
  "(bytes \<Rightarrow> string) \<Rightarrow> Bundle \<Rightarrow> CatalogConfig \<Rightarrow> rawJourney \<Rightarrow> skill_cache \<Rightarrow> (Journey \<times> skill_cache) src" where
  "compileJourney sha b catalog rj cache =
     src_guard (\<not> (rj_ID rj = [] \<or> length (rj_ID rj) > 64 \<or> has_space (rj_ID rj) \<or> has_control_rune (rj_ID rj))) InvalidID (
     src_try (lift_error (validateVersionRange (rj_ProductVersions rj))) (\<lambda>_.
     src_try (max_tools_of rj) (\<lambda>maxTools.
     src_try (lift_error (compileTools catalog rj)) (\<lambda>(tools, deny).
     src_guard (rj_Skill rj \<noteq> []) SkillRequired (
     src_bind (journey_skill sha b (rj_Skill rj) cache) (\<lambda>(s, cache').
     src_return (\<lparr>j_ID = rj_ID rj, j_Description = sp_Description s, j_Prompt = skillBody (sf_Data (sp_Instructions s)),
       j_Skills = [s], j_Digest = [], j_Tools = tools, j_Deny = deny, j_MaxTools = maxTools,
       j_ProductVersions = rj_ProductVersions rj, j_Catalog = catalog, j_Skill = rj_Skill rj\<rparr>, cache')))))))"

definition in_journey :: "nat \<Rightarrow> 'a src \<Rightarrow> 'a src" where
  "in_journey n m R = (case m R of Inl e \<Rightarrow> Inl (InJourney n e) | Inr r \<Rightarrow> Inr r)"

fun compile_journeys ::
  "(bytes \<Rightarrow> string) \<Rightarrow> Bundle \<Rightarrow> CatalogConfig \<Rightarrow> nat \<Rightarrow> Journey list \<Rightarrow> skill_cache \<Rightarrow> rawJourney list \<Rightarrow> Journey list src" where
  "compile_journeys sha b catalog n compiled cache [] = src_return compiled"
| "compile_journeys sha b catalog n compiled cache (rj # rest) =
     src_bind (in_journey n (compileJourney sha b catalog rj cache)) (\<lambda>(j, cache').
     src_guard (j_ID j \<notin> j_ID ` set compiled) (InJourney n DuplicateID) (
     compile_journeys sha b catalog (Suc n) (compiled @ [j\<lparr>j_Digest := sha (print_json (canonicalJourney j))\<rparr>]) cache' rest))"

definition conversation_prompt :: "Bundle \<Rightarrow> string \<Rightarrow> string src" where
  "conversation_prompt b name =
     (if name = [] then src_return []
      else src_try (confine b [] name) (\<lambda>p. read_src b p MaxPromptBytes))"

definition set_of :: "(bytes \<Rightarrow> string) \<Rightarrow> CatalogConfig \<Rightarrow> string \<Rightarrow> Journey list \<Rightarrow> DefinitionSet" where
  "set_of sha catalog prompt js =
     \<lparr>ds_catalog = catalog, ds_conversationPrompt = prompt, ds_digest = setDigest sha catalog prompt (map j_Digest js),
      ds_order = map j_ID js, ds_journeys = map_of (map (\<lambda>j. (j_ID j, j)) js)\<rparr>"

definition compileSource :: "(bytes \<Rightarrow> string) \<Rightarrow> (bytes \<Rightarrow> yaml_result) \<Rightarrow> Bundle \<Rightarrow> bundle_error + DefinitionSet \<times> Bundle" where
  "compileSource sha yaml b =
     and_then (readFS b [BundleConfig] MaxConfigBytes) (\<lambda>data.
     case yaml data of
       YamlEmpty \<Rightarrow> Inl EmptyConfig
     | YamlInvalid \<Rightarrow> Inl DecodeConfig
     | YamlDocument raw another \<Rightarrow>
         if another then Inl OneDocument
         else
           and_then (lift_error (compileCatalog (rw_Catalog raw))) (\<lambda>catalog.
           if rw_Journeys raw = [] then Inl NoJourneys
           else
             and_then (src_bind (conversation_prompt b (rw_ConversationPrompt raw)) (\<lambda>prompt.
                 src_bind (compile_journeys sha b catalog 1 [] ([], 0, 0) (rw_Journeys raw)) (\<lambda>js.
                 src_return (set_of sha catalog prompt js))) []) (\<lambda>(ds, reads).
             and_then (lift_error (checkAliasOps ds)) (\<lambda>_.
             and_then (lift_error (checkPolicyConflicts ds)) (\<lambda>_.
             Inr (ds, AList.update BundleConfig data reads))))))"

definition CompileBundle :: "(bytes \<Rightarrow> string) \<Rightarrow> (bytes \<Rightarrow> yaml_result) \<Rightarrow> Bundle \<Rightarrow> bundle_error + DefinitionSet \<times> Bundle" where
  "CompileBundle sha yaml b =
     and_then (validateBundle b) (\<lambda>_.
     if map_of b BundleConfig = None then Inl ConfigRequired else compileSource sha yaml b)"

end
