(* ===== verification/Json_Decode.thy ===== *)
theory Json_Decode
  imports Bundle Journal_Reply
begin

text \<open>
  Decoding at the edges of the process, where the bytes come from elsewhere: what the code uses of \<open>json.Unmarshal\<close> and
  \<open>json.Decoder\<close> there, with the replacement of invalid UTF-8, the nesting limit and the range of \<open>float64\<close>, and
  \<open>base64.RawURLEncoding\<close> with its inverse.
\<close>

section \<open>Invalid UTF-8\<close>

text \<open>The length of the encoded rune a string starts with; 0 when it starts with none, where \<open>utf8.DecodeRune\<close> gives
  \<open>RuneError\<close> and a width of one byte.\<close>

definition utf8_width :: "string \<Rightarrow> nat" where
  "utf8_width s = (case s of [] \<Rightarrow> 0
     | a # s1 \<Rightarrow> if byte_in 0 127 a then 1 else (case s1 of [] \<Rightarrow> 0
     | b # s2 \<Rightarrow> if byte_in 194 223 a then (if byte_in 128 191 b then 2 else 0) else (case s2 of [] \<Rightarrow> 0
     | c # s3 \<Rightarrow>
         if byte_in 224 239 a then
           (if byte_in (if byte_in 224 224 a then 160 else 128) (if byte_in 237 237 a then 159 else 191) b \<and>
               byte_in 128 191 c then 3 else 0)
         else (case s3 of [] \<Rightarrow> 0
     | d # _ \<Rightarrow>
         if byte_in 240 244 a \<and>
            byte_in (if byte_in 240 240 a then 144 else 128) (if byte_in 244 244 a then 143 else 191) b \<and>
            byte_in 128 191 c \<and> byte_in 128 191 d then 4 else 0))))"

text \<open>Every byte that is not part of an encoded rune becomes U+FFFD. The JSON decoder does this inside of strings; elsewhere such
  a byte is a syntax error, and so is U+FFFD, so it can be done before.\<close>

function to_valid_utf8 :: "string \<Rightarrow> string" where
  "to_valid_utf8 [] = []"
| "to_valid_utf8 (c # s) =
     (let n = utf8_width (c # s) in
      if n = 0 then [CHR 0xEF, CHR 0xBF, CHR 0xBD] @ to_valid_utf8 s
      else take n (c # s) @ to_valid_utf8 (drop n (c # s)))"
  by pat_completeness auto
termination
  by (relation "measure length") auto

lemma valid_utf8_step:
  assumes "valid_utf8 (a # s)"
  shows "utf8_width (a # s) \<noteq> 0 \<and> valid_utf8 (drop (utf8_width (a # s)) (a # s))"
proof (cases "byte_in 0 127 a")
  case True
  with assms show ?thesis by (simp add: utf8_width_def)
next
  case a: False
  with assms obtain b s1 where s: "s = b # s1" by (auto split: list.splits)
  show ?thesis
  proof (cases "byte_in 194 223 a")
    case True
    with a s assms show ?thesis by (simp add: utf8_width_def)
  next
    case a2: False
    with a s assms obtain c s2 where s1: "s1 = c # s2" by (auto split: list.splits)
    show ?thesis
    proof (cases "byte_in 224 239 a")
      case True
      with a a2 s s1 assms show ?thesis by (simp add: utf8_width_def split: if_splits)
    next
      case a3: False
      with a a2 s s1 assms obtain d s3 where "s2 = d # s3" by (auto split: list.splits)
      with a a2 a3 s s1 assms show ?thesis by (simp add: utf8_width_def split: if_splits)
    qed
  qed
qed

theorem to_valid_utf8_id: "valid_utf8 s \<Longrightarrow> to_valid_utf8 s = s"
proof (induction s rule: to_valid_utf8.induct)
  case (2 c s)
  with valid_utf8_step [OF 2(3)] show ?case by (simp add: Let_def)
qed simp

section \<open>Documents\<close>

fun json_depth :: "json \<Rightarrow> nat" where
  "json_depth (JArr vs) = Suc (fold max (map json_depth vs) 0)"
| "json_depth (JObj kvs) = Suc (fold max (map (\<lambda>kv. json_depth (snd kv)) kvs) 0)"
| "json_depth _ = 0"

text \<open>\<open>json.Unmarshal\<close> up to the target type: a document of at most 10000 levels.\<close>

definition Unmarshal_value :: "bytes \<Rightarrow> json option" where
  "Unmarshal_value data = (case parse_json (to_valid_utf8 data) of None \<Rightarrow> None
     | Some j \<Rightarrow> if json_depth j \<le> 10000 then Some j else None)"

text \<open>A number decoded into \<open>any\<close> is a \<open>float64\<close>; a literal that would round to infinity is an error. \<open>strconv.ParseFloat\<close>
  stops reading an exponent that has reached 10000.\<close>

definition read_exponent :: "string \<Rightarrow> nat" where
  "read_exponent ds = foldl (\<lambda>e c. if e < 10000 then e * 10 + (of_char c - 48) else e) 0 ds"

definition float64_range :: "string \<Rightarrow> bool" where
  "float64_range t =
     (let s0 = (if take 1 t = ''-'' then drop 1 t else t);
          i = takeWhile is_digit s0; s1 = dropWhile is_digit s0;
          f = (if take 1 s1 = ''.'' then takeWhile is_digit (drop 1 s1) else []);
          s2 = (if take 1 s1 = ''.'' then dropWhile is_digit (drop 1 s1) else s1);
          s3 = drop 1 s2;
          neg = (take 1 s3 = ''-'');
          ds = (if neg \<or> take 1 s3 = ''+'' then drop 1 s3 else s3);
          e = (if neg then - int (read_exponent ds) else int (read_exponent ds)) - int (length f);
          m = int (parse_nat (i @ f));
          limit = 2 ^ 1024 - 2 ^ 970
      in if m = 0 then True else if e \<ge> 0 then m * 10 ^ nat e < limit else m < limit * 10 ^ nat (- e))"

section \<open>base64url without padding\<close>

definition base64url_char :: "nat \<Rightarrow> char" where
  "base64url_char n =
     (if n < 26 then char_of (65 + n) else if n < 52 then char_of (71 + n) else if n < 62 then char_of (n - 4 :: nat)
      else if n = 62 then CHR ''-'' else CHR ''_'')"

definition base64url_value :: "char \<Rightarrow> nat option" where
  "base64url_value c =
     (if is_upper c then Some (of_char c - 65) else if is_lower c then Some (of_char c - 71)
      else if is_digit c then Some (of_char c + 4) else if c = CHR ''-'' then Some 62 else if c = CHR ''_'' then Some 63
      else None)"

fun values_of :: "string \<Rightarrow> nat list option" where
  "values_of [] = Some []"
| "values_of (c # s) = (case (base64url_value c, values_of s) of (Some v, Some vs) \<Rightarrow> Some (v # vs) | _ \<Rightarrow> None)"

text \<open>The bytes of a list of six-bit values; trailing bits are ignored, a single value at the end is an error.\<close>

fun quanta :: "nat list \<Rightarrow> bytes option" where
  "quanta [] = Some []"
| "quanta [a] = None"
| "quanta [a, b] = Some [char_of (a * 4 + b div 16)]"
| "quanta [a, b, c] = Some [char_of (a * 4 + b div 16), char_of (b mod 16 * 16 + c div 4)]"
| "quanta (a # b # c # d # s) =
     map_option (\<lambda>r. char_of (a * 4 + b div 16) # char_of (b mod 16 * 16 + c div 4) # char_of (c mod 4 * 64 + d) # r) (quanta s)"

text \<open>\<open>base64.RawURLEncoding.DecodeString\<close>: line ends are skipped.\<close>

definition RawURL_Decode :: "string \<Rightarrow> bytes option" where
  "RawURL_Decode s =
     (case values_of (filter (\<lambda>c. c \<noteq> CHR 0x0D \<and> c \<noteq> CHR 0x0A) s) of None \<Rightarrow> None | Some vs \<Rightarrow> quanta vs)"

fun RawURL_Encode :: "bytes \<Rightarrow> string" where
  "RawURL_Encode [] = []"
| "RawURL_Encode [a] = (let m = of_char a :: nat in [base64url_char (m div 4), base64url_char (m mod 4 * 16)])"
| "RawURL_Encode [a, b] =
     (let m = of_char a :: nat; n = of_char b :: nat in
      [base64url_char (m div 4), base64url_char (m mod 4 * 16 + n div 16), base64url_char (n mod 16 * 4)])"
| "RawURL_Encode (a # b # c # s) =
     (let m = of_char a :: nat; n = of_char b :: nat; k = of_char c :: nat in
      [base64url_char (m div 4), base64url_char (m mod 4 * 16 + n div 16), base64url_char (n mod 16 * 4 + k div 64),
       base64url_char (k mod 64)] @ RawURL_Encode s)"

lemma base64url_value_char [simp]: "n < 64 \<Longrightarrow> base64url_value (base64url_char n) = Some n"
proof -
  have "\<forall>n \<in> set [0..<64]. base64url_value (base64url_char n) = Some n" by code_simp
  then show "n < 64 \<Longrightarrow> ?thesis" by simp
qed

lemma base64url_char_no_line: "n < 64 \<Longrightarrow> base64url_char n \<noteq> CHR 0x0D \<and> base64url_char n \<noteq> CHR 0x0A \<and> base64url_char n \<noteq> CHR ''.''"
proof -
  have "\<forall>n \<in> set [0..<64]. base64url_char n \<noteq> CHR 0x0D \<and> base64url_char n \<noteq> CHR 0x0A \<and> base64url_char n \<noteq> CHR ''.''" by code_simp
  then show "n < 64 \<Longrightarrow> ?thesis" by simp
qed

text \<open>The six-bit values of a byte string.\<close>

fun sextets :: "bytes \<Rightarrow> nat list" where
  "sextets [] = []"
| "sextets [a] = (let m = of_char a in [m div 4, m mod 4 * 16])"
| "sextets [a, b] = (let m = of_char a; n = of_char b in [m div 4, m mod 4 * 16 + n div 16, n mod 16 * 4])"
| "sextets (a # b # c # s) =
     (let m = of_char a; n = of_char b; k = of_char c in
      [m div 4, m mod 4 * 16 + n div 16, n mod 16 * 4 + k div 64, k mod 64] @ sextets s)"

lemma Encode_sextets: "RawURL_Encode s = map base64url_char (sextets s)"
  by (induction s rule: sextets.induct) (simp_all add: Let_def)

lemma byte_parts:
  "(of_char c :: nat) div 4 < 64" "(of_char c :: nat) div 16 < 16" "(of_char c :: nat) div 64 < 4"
  by (simp_all add: less_mult_imp_div_less)

lemma packed:
  fixes a b k m n :: nat
  assumes "b < n" "a < k"
  shows "a * n + b < k * n" and "(a * n + b) div n = a" and "(a * n + b) mod n = b"
proof -
  have "Suc a * n \<le> k * n" using assms by (intro mult_le_mono1) simp
  with assms show "a * n + b < k * n" by simp
qed (use assms in simp_all)

lemma sextet_bounds:
  "(of_char a :: nat) mod 4 * 16 + (of_char b :: nat) div 16 < 64"
  "(of_char a :: nat) mod 16 * 4 + (of_char b :: nat) div 64 < 64"
  "(of_char a :: nat) mod 4 * 16 < 64" "(of_char a :: nat) mod 16 * 4 < 64"
  using packed(1) [OF byte_parts(2) [of b], of "(of_char a :: nat) mod 4" 4]
    packed(1) [OF byte_parts(3) [of b], of "(of_char a :: nat) mod 16" 16]
    packed(1) [of 0 16 "(of_char a :: nat) mod 4" 4] packed(1) [of 0 4 "(of_char a :: nat) mod 16" 16]
  by simp_all

lemma sextets_bound: "list_all (\<lambda>v. v < 64) (sextets s)"
  by (induction s rule: sextets.induct) (simp_all add: Let_def byte_parts sextet_bounds)

lemma sextet_parts:
  "((of_char a :: nat) mod 4 * 16 + (of_char b :: nat) div 16) div 16 = of_char a mod 4"
  "((of_char a :: nat) mod 4 * 16 + (of_char b :: nat) div 16) mod 16 = of_char b div 16"
  "((of_char a :: nat) mod 16 * 4 + (of_char b :: nat) div 64) div 4 = of_char a mod 16"
  "((of_char a :: nat) mod 16 * 4 + (of_char b :: nat) div 64) mod 4 = of_char b div 64"
  using packed(2,3) [OF byte_parts(2) [of b], of "(of_char a :: nat) mod 4" 4]
    packed(2,3) [OF byte_parts(3) [of b], of "(of_char a :: nat) mod 16" 16]
  by simp_all

lemma quanta_sextets: "quanta (sextets s) = Some s"
  by (induction s rule: sextets.induct) (simp_all add: Let_def sextet_parts byte_parts div_mult_mod_eq)

lemma values_of_map: "list_all (\<lambda>v. v < 64) vs \<Longrightarrow> values_of (map base64url_char vs) = Some vs"
  by (induction vs) auto

theorem RawURL_roundtrip: "RawURL_Decode (RawURL_Encode s) = Some s"
proof -
  have "filter (\<lambda>c. c \<noteq> CHR 0x0D \<and> c \<noteq> CHR 0x0A) (map base64url_char (sextets s)) = map base64url_char (sextets s)"
    using sextets_bound [of s] base64url_char_no_line by (auto simp: filter_id_conv list_all_iff)
  then show ?thesis by (simp add: RawURL_Decode_def Encode_sextets values_of_map [OF sextets_bound] quanta_sextets)
qed

lemma RawURL_Encode_no_dot: "CHR ''.'' \<notin> set (RawURL_Encode s)"
  using sextets_bound [of s] base64url_char_no_line by (fastforce simp: Encode_sextets list_all_iff)

end
