(* ===== verification/Keycloak.thy ===== *)
theory Keycloak
  imports Json_Decode Chat_Identity
begin

text \<open>
  Signed access tokens at the chat interface (\<open>internal/chat/keycloak_auth.go\<close>): the configuration, the token of a request, the
  documents in it, the published keys and the identity a verified token gives. The JWT library and the URL parser are parameters.
  Times are integers, in nanoseconds; the zero \<open>time.Time\<close> is 0.
\<close>

section \<open>Configuration\<close>

definition maxJWTBytes :: int where "maxJWTBytes = 16384"
definition maxJWKSBytes :: int where "maxJWKSBytes = 1048576"
definition maxJWKSKeys :: int where "maxJWKSKeys = 128"
definition jwksCacheLifetime :: int where "jwksCacheLifetime = 300000000000"
definition jwksRefreshMinInterval :: int where "jwksRefreshMinInterval = 30000000000"

record KeycloakConfig =
  kc_Issuer :: string
  kc_JWKSURL :: string
  kc_Audience :: string
  kc_JWTSource :: string
  kc_JWTHeader :: string
  kc_UserClaimPath :: string
  kc_TenantClaimPath :: string
  kc_AllowedAlgorithms :: "string list"

record HTTPSURL =
  h_Scheme :: string
  h_Host :: string
  h_User :: bool
  h_Fragment :: string

datatype pointer_error = NotPointer | InvalidEscape

datatype config_error =
    FieldRequired string | BadIssuer | BadJWKSURL | BadHeader | BadSource | BadUserPath pointer_error
  | BadTenantPath pointer_error | NoAlgorithms | UnsupportedAlgorithm string | NoClient

definition validateHTTPSURL :: "(string \<Rightarrow> HTTPSURL option) \<Rightarrow> string \<Rightarrow> bool" where
  "validateHTTPSURL parse raw = (case parse raw of None \<Rightarrow> False
     | Some u \<Rightarrow> h_Scheme u = ''https'' \<and> h_Host u \<noteq> [] \<and> \<not> h_User u \<and> h_Fragment u = [])"

definition validHeaderName :: "string \<Rightarrow> bool" where
  "validHeaderName header = list_all (\<lambda>r. is_lower r \<or> is_upper r \<or> is_digit r \<or> r = CHR ''-'') header"

fun decode_part :: "string \<Rightarrow> pointer_error + string" where
  "decode_part [] = Inr []"
| "decode_part (c # s) =
     (if c \<noteq> CHR ''~'' then and_then (decode_part s) (\<lambda>d. Inr (c # d))
      else case s of
        [] \<Rightarrow> Inl InvalidEscape
      | e # s' \<Rightarrow>
          if e \<noteq> CHR ''0'' \<and> e \<noteq> CHR ''1'' then Inl InvalidEscape
          else and_then (decode_part s') (\<lambda>d. Inr ((if e = CHR ''0'' then CHR ''~'' else CHR ''/'') # d)))"

fun decode_parts :: "string list \<Rightarrow> pointer_error + string list" where
  "decode_parts [] = Inr []"
| "decode_parts (p # ps) = and_then (decode_part p) (\<lambda>d. and_then (decode_parts ps) (\<lambda>ds. Inr (d # ds)))"

definition parseJSONPointer :: "string \<Rightarrow> pointer_error + string list" where
  "parseJSONPointer path =
     (if \<not> prefix ''/'' path then Inl NotPointer else decode_parts (split_on (CHR ''/'') (drop 1 path)))"

definition required_fields :: "KeycloakConfig \<Rightarrow> (string \<times> string) list" where
  "required_fields c =
     [(''issuer'', kc_Issuer c), (''JWKS URL'', kc_JWKSURL c), (''audience'', kc_Audience c), (''JWT header'', kc_JWTHeader c),
      (''user claim path'', kc_UserClaimPath c), (''tenant claim path'', kc_TenantClaimPath c)]"

text \<open>The fields are ranged over as a map, so any missing field can be the one that is reported: \<open>order\<close> arranges them.\<close>

definition validateKeycloakConfig ::
    "(string \<Rightarrow> HTTPSURL option) \<Rightarrow> ((string \<times> string) list \<Rightarrow> (string \<times> string) list) \<Rightarrow> KeycloakConfig \<Rightarrow> config_error + unit" where
  "validateKeycloakConfig parse order c =
     (case find (\<lambda>(f, v). trim_space v = []) (order (required_fields c)) of
        Some (f, _) \<Rightarrow> Inl (FieldRequired f)
      | None \<Rightarrow>
          if \<not> validateHTTPSURL parse (kc_Issuer c) then Inl BadIssuer
          else if \<not> validateHTTPSURL parse (kc_JWKSURL c) then Inl BadJWKSURL
          else if \<not> validHeaderName (kc_JWTHeader c) then Inl BadHeader
          else if kc_JWTSource c \<noteq> ''authorization_bearer'' \<and> kc_JWTSource c \<noteq> ''header'' then Inl BadSource
          else case parseJSONPointer (kc_UserClaimPath c) of
            Inl e \<Rightarrow> Inl (BadUserPath e)
          | Inr _ \<Rightarrow> (case parseJSONPointer (kc_TenantClaimPath c) of
              Inl e \<Rightarrow> Inl (BadTenantPath e)
            | Inr _ \<Rightarrow>
                if kc_AllowedAlgorithms c = [] then Inl NoAlgorithms
                else (case find (\<lambda>a. a \<noteq> ''RS256'' \<and> a \<noteq> ''RS384'' \<and> a \<noteq> ''RS512'') (kc_AllowedAlgorithms c) of
                  Some a \<Rightarrow> Inl (UnsupportedAlgorithm a)
                | None \<Rightarrow> Inr ())))"

section \<open>The authenticator\<close>

record PublicKey =
  pk_N :: int
  pk_E :: int

record rsaJWK =
  rj_algorithm :: string
  rj_key :: PublicKey

text \<open>What does not change after construction.\<close>

record KeycloakAuthenticator =
  ka_issuer :: string
  ka_audience :: string
  ka_header :: string
  ka_source :: string
  ka_userPath :: "string list"
  ka_tenantPath :: "string list"
  ka_algorithms :: "string list"
  ka_jwksURL :: string

text \<open>What the mutex protects.\<close>

record KeyCache =
  ca_keys :: "(string \<times> rsaJWK) list"
  ca_cacheExpiry :: int
  ca_nextRefresh :: int

definition empty_cache :: KeyCache where
  "empty_cache = \<lparr>ca_keys = [], ca_cacheExpiry = 0, ca_nextRefresh = 0\<rparr>"

definition newKeycloakAuthenticator ::
    "(string \<Rightarrow> HTTPSURL option) \<Rightarrow> ((string \<times> string) list \<Rightarrow> (string \<times> string) list) \<Rightarrow> KeycloakConfig \<Rightarrow> bool \<Rightarrow>
     config_error + KeycloakAuthenticator \<times> KeyCache" where
  "newKeycloakAuthenticator parse order c client =
     and_then (validateKeycloakConfig parse order c) (\<lambda>_.
       if \<not> client then Inl NoClient
       else case (parseJSONPointer (kc_UserClaimPath c), parseJSONPointer (kc_TenantClaimPath c)) of
         (Inr user, Inr tenant) \<Rightarrow>
           Inr (\<lparr>ka_issuer = kc_Issuer c, ka_audience = kc_Audience c, ka_header = kc_JWTHeader c, ka_source = kc_JWTSource c,
                 ka_userPath = user, ka_tenantPath = tenant, ka_algorithms = dedup [] (kc_AllowedAlgorithms c),
                 ka_jwksURL = kc_JWKSURL c\<rparr>, empty_cache)
       | (Inl e, _) \<Rightarrow> Inl (BadUserPath e)
       | (_, Inl e) \<Rightarrow> Inl (BadTenantPath e))"

definition NewKeycloakAuthenticator ::
    "(string \<Rightarrow> HTTPSURL option) \<Rightarrow> ((string \<times> string) list \<Rightarrow> (string \<times> string) list) \<Rightarrow> KeycloakConfig \<Rightarrow>
     config_error + KeycloakAuthenticator \<times> KeyCache" where
  "NewKeycloakAuthenticator parse order c = newKeycloakAuthenticator parse order c True"

section \<open>The token of a request\<close>

definition token_of :: "KeycloakAuthenticator \<Rightarrow> Header option \<Rightarrow> string option" where
  "token_of a request =
     (case request of None \<Rightarrow> None
      | Some h \<Rightarrow>
          (case h (canonical_header_key (ka_header a)) of
             [value] \<Rightarrow>
               if CHR '','' \<in> set value then None
               else if ka_source a = ''authorization_bearer'' then
                 (if \<not> prefix ''Bearer '' value \<or> count_list value (CHR '' '') \<noteq> 1 then None
                  else if drop 7 value = [] then None else Some (drop 7 value))
               else if value = [] then None else Some value
           | _ \<Rightarrow> None))"

text \<open>The documents of a token: no object has a member twice, and every number is in range.\<close>

fun scanJSONValue :: "json \<Rightarrow> bool" where
  "scanJSONValue (JObj kvs) = (distinct (map fst kvs) \<and> list_all (\<lambda>kv. scanJSONValue (snd kv)) kvs)"
| "scanJSONValue (JArr vs) = list_all scanJSONValue vs"
| "scanJSONValue (JNum t) = float64_range t"
| "scanJSONValue _ = True"

definition rejectDuplicateJSON :: "bytes \<Rightarrow> bool" where
  "rejectDuplicateJSON data = (case parse_json (to_valid_utf8 data) of None \<Rightarrow> True | Some j \<Rightarrow> \<not> scanJSONValue j)"

definition rejectDuplicateJWTJSON :: "string \<Rightarrow> bool" where
  "rejectDuplicateJWTJSON token =
     (case split_on (CHR ''.'') token of
        [header, payload, signature] \<Rightarrow>
          list_ex (\<lambda>part. case RawURL_Decode part of None \<Rightarrow> True | Some d \<Rightarrow> rejectDuplicateJSON d) [header, payload]
      | _ \<Rightarrow> True)"

section \<open>Published keys\<close>

record rawJWK =
  rw_Kty :: string
  rw_Kid :: string
  rw_Alg :: string
  rw_Use :: string
  rw_N :: string
  rw_E :: string

definition no_jwk :: rawJWK where
  "no_jwk = \<lparr>rw_Kty = [], rw_Kid = [], rw_Alg = [], rw_Use = [], rw_N = [], rw_E = []\<rparr>"

definition set_jwk :: "string \<Rightarrow> json \<Rightarrow> rawJWK \<Rightarrow> rawJWK option" where
  "set_jwk k v r =
     (let f = fold_key k in
      if f = ''kty'' then map_option (\<lambda>s. r\<lparr>rw_Kty := s\<rparr>) (decode_string (rw_Kty r) v)
      else if f = ''kid'' then map_option (\<lambda>s. r\<lparr>rw_Kid := s\<rparr>) (decode_string (rw_Kid r) v)
      else if f = ''alg'' then map_option (\<lambda>s. r\<lparr>rw_Alg := s\<rparr>) (decode_string (rw_Alg r) v)
      else if f = ''use'' then map_option (\<lambda>s. r\<lparr>rw_Use := s\<rparr>) (decode_string (rw_Use r) v)
      else if f = ''n'' then map_option (\<lambda>s. r\<lparr>rw_N := s\<rparr>) (decode_string (rw_N r) v)
      else if f = ''e'' then map_option (\<lambda>s. r\<lparr>rw_E := s\<rparr>) (decode_string (rw_E r) v)
      else Some r)"

fun set_jwk_all :: "(string \<times> json) list \<Rightarrow> rawJWK \<Rightarrow> rawJWK option" where
  "set_jwk_all [] r = Some r"
| "set_jwk_all ((k, v) # kvs) r = (case set_jwk k v r of None \<Rightarrow> None | Some r' \<Rightarrow> set_jwk_all kvs r')"

fun decode_jwk :: "rawJWK \<Rightarrow> json \<Rightarrow> rawJWK option" where
  "decode_jwk old (JObj kvs) = set_jwk_all kvs old"
| "decode_jwk old JNull = Some old"
| "decode_jwk old _ = None"

text \<open>An array is decoded into the elements the slice already has, so a repeated member is merged with the earlier one; the
  elements behind its length stay in the backing array. The pair is the backing array and the length.\<close>

fun decode_elems :: "rawJWK list \<Rightarrow> json list \<Rightarrow> rawJWK list option" where
  "decode_elems rs [] = Some rs"
| "decode_elems rs (v # vs) =
     (case decode_jwk (case rs of [] \<Rightarrow> no_jwk | r # _ \<Rightarrow> r) v of None \<Rightarrow> None
      | Some r \<Rightarrow> map_option ((#) r) (decode_elems (tl rs) vs))"

fun decode_keys :: "rawJWK list \<times> nat \<Rightarrow> json \<Rightarrow> (rawJWK list \<times> nat) option" where
  "decode_keys (rs, n) (JArr vs) =
     (if vs = [] then Some ([], 0) else map_option (\<lambda>rs'. (rs', length vs)) (decode_elems rs vs))"
| "decode_keys s JNull = Some ([], 0)"
| "decode_keys s _ = None"

fun decode_document :: "rawJWK list \<times> nat \<Rightarrow> (string \<times> json) list \<Rightarrow> rawJWK list option" where
  "decode_document (rs, n) [] = Some (take n rs)"
| "decode_document s ((k, v) # kvs) =
     (if fold_key k = ''keys'' then (case decode_keys s v of None \<Rightarrow> None | Some s' \<Rightarrow> decode_document s' kvs)
      else decode_document s kvs)"

definition decode_jwks :: "bytes \<Rightarrow> rawJWK list option" where
  "decode_jwks body = (case Unmarshal_value body of
       Some (JObj kvs) \<Rightarrow> decode_document ([], 0) kvs
     | Some JNull \<Rightarrow> Some []
     | _ \<Rightarrow> None)"

datatype key_error =
    NotAllowed | UnknownKey | Cancelled | RequestFailed | TooLarge | InvalidJWKS | DuplicateKid | BadModulus
  | BadExponent | BadRSA | NoUsableKeys

definition be_value :: "bytes \<Rightarrow> int" where
  "be_value bs = foldl (\<lambda>n b. n * 256 + of_char b) 0 bs"

fun collect_keys :: "string list \<Rightarrow> rawJWK list \<Rightarrow> (string \<times> rsaJWK) list \<Rightarrow> key_error + (string \<times> rsaJWK) list" where
  "collect_keys allowed [] keys = Inr keys"
| "collect_keys allowed (r # rs) keys =
     (if rw_Kty r \<noteq> ''RSA'' \<or> rw_Kid r = [] \<or> rw_Alg r = [] \<or> rw_Use r \<noteq> [] \<and> rw_Use r \<noteq> ''sig'' then collect_keys allowed rs keys
      else if rw_Alg r \<notin> set allowed then collect_keys allowed rs keys
      else if rw_Kid r \<in> fst ` set keys then Inl DuplicateKid
      else case RawURL_Decode (rw_N r) of None \<Rightarrow> Inl BadModulus
      | Some n \<Rightarrow> (case RawURL_Decode (rw_E r) of None \<Rightarrow> Inl BadExponent
      | Some e \<Rightarrow>
          if e = [] \<or> length e > 4 then Inl BadExponent
          else if be_value e < 3 \<or> even (be_value e) \<or> n = [] then Inl BadRSA
          else collect_keys allowed rs
                 ((rw_Kid r, \<lparr>rj_algorithm = rw_Alg r, rj_key = \<lparr>pk_N = be_value n, pk_E = be_value e\<rparr>\<rparr>) # keys)))"

text \<open>The answer of the key server: no answer, or a status, the body and whether reading it failed. The body is read through a
  limit of one byte more than is accepted, so it is refused exactly when it is longer than that.\<close>

record key_response =
  kr_status :: int
  kr_body :: bytes
  kr_broken :: bool

definition fetchKeys :: "string list \<Rightarrow> key_response option \<Rightarrow> key_error + (string \<times> rsaJWK) list" where
  "fetchKeys allowed response =
     (case response of None \<Rightarrow> Inl RequestFailed
      | Some r \<Rightarrow>
          if kr_status r \<noteq> 200 then Inl RequestFailed
          else if kr_broken r \<or> int (length (kr_body r)) > maxJWKSBytes then Inl TooLarge
          else case decode_jwks (kr_body r) of None \<Rightarrow> Inl InvalidJWKS
          | Some raws \<Rightarrow>
              if raws = [] \<or> int (length raws) > maxJWKSKeys then Inl InvalidJWKS
              else and_then (collect_keys allowed raws []) (\<lambda>keys. if keys = [] then Inl NoUsableKeys else Inr keys))"

section \<open>The key of a token\<close>

text \<open>The critical sections of \<open>key\<close>. A section answers, or the call goes on.\<close>

datatype 'a outcome = Return "key_error + PublicKey" | Continue 'a

definition cached :: "KeyCache \<Rightarrow> int \<Rightarrow> string \<Rightarrow> string \<Rightarrow> PublicKey option" where
  "cached c now kid alg =
     (case map_of (ca_keys c) kid of None \<Rightarrow> None
      | Some k \<Rightarrow> if now < ca_cacheExpiry c \<and> rj_algorithm k = alg then Some (rj_key k) else None)"

definition key_lookup :: "KeyCache \<Rightarrow> int \<Rightarrow> string \<Rightarrow> string \<Rightarrow> unit outcome" where
  "key_lookup c now kid alg =
     (case cached c now kid alg of Some k \<Rightarrow> Return (Inr k)
      | None \<Rightarrow> if now < ca_nextRefresh c then Return (Inl UnknownKey) else Continue ())"

text \<open>With the fetch gate held: look again, and reserve the next fetch. The flag says that the cache was still fresh.\<close>

definition key_reserve :: "KeyCache \<Rightarrow> int \<Rightarrow> string \<Rightarrow> string \<Rightarrow> (KeyCache \<times> bool) outcome" where
  "key_reserve c now kid alg =
     (case cached c now kid alg of Some k \<Rightarrow> Return (Inr k)
      | None \<Rightarrow>
          if now < ca_nextRefresh c then Return (Inl UnknownKey)
          else Continue (c\<lparr>ca_nextRefresh := now + jwksRefreshMinInterval\<rparr>, now < ca_cacheExpiry c))"

definition key_store ::
    "KeyCache \<Rightarrow> int \<Rightarrow> (string \<times> rsaJWK) list \<Rightarrow> bool \<Rightarrow> string \<Rightarrow> string \<Rightarrow> (key_error + PublicKey) \<times> KeyCache" where
  "key_store c now keys keepCooldown kid alg =
     (let c' = c\<lparr>ca_keys := keys, ca_cacheExpiry := now + jwksCacheLifetime\<rparr> in
      case map_of keys kid of
        None \<Rightarrow> (Inl UnknownKey, c')
      | Some k \<Rightarrow>
          if rj_algorithm k \<noteq> alg then (Inl UnknownKey, c')
          else (Inr (rj_key k), if keepCooldown then c' else c'\<lparr>ca_nextRefresh := 0\<rparr>))"

text \<open>The times a call reads, whether its context ends while it waits for the gate, and what the key server answers it. The cache
  can change while the call waits: \<open>kn_others\<close> is what other calls make of it.\<close>

record key_env =
  kn_start :: int
  kn_gate :: int
  kn_stored :: int
  kn_cancelled :: bool
  kn_others :: "KeyCache \<Rightarrow> KeyCache"
  kn_response :: "key_response option"

definition key_of :: "string list \<Rightarrow> key_env \<Rightarrow> string \<Rightarrow> string \<Rightarrow> KeyCache \<Rightarrow> (key_error + PublicKey) \<times> KeyCache" where
  "key_of allowed e kid alg c =
     (if alg \<notin> set allowed then (Inl NotAllowed, c)
      else case key_lookup c (kn_start e) kid alg of
        Return r \<Rightarrow> (r, c)
      | Continue _ \<Rightarrow>
          let c1 = kn_others e c in
          if kn_cancelled e then (Inl Cancelled, c1)
          else (case key_reserve c1 (kn_gate e) kid alg of
            Return r \<Rightarrow> (r, c1)
          | Continue (c2, keepCooldown) \<Rightarrow>
              (case fetchKeys allowed (kn_response e) of
                 Inl err \<Rightarrow> (Inl err, c2)
               | Inr keys \<Rightarrow> key_store c2 (kn_stored e) keys keepCooldown kid alg)))"

section \<open>Authentication\<close>

text \<open>The JWT library: \<open>ParseWithClaims\<close> parses the header under the valid methods, asks the key function once, for the key of that
  token, and fails when it fails; it gives the claims when the signature under the key, the issuer, the audience and the times are
  right. \<open>jp_token\<close> gives the method and the \<open>kid\<close> member of the header.\<close>

record jwt_parser =
  jp_token :: "string list \<Rightarrow> string \<Rightarrow> (string \<times> json option) option"
  jp_claims :: "string \<Rightarrow> string \<Rightarrow> string \<Rightarrow> PublicKey \<Rightarrow> (string \<times> json) list option"

fun walk_claims :: "json \<Rightarrow> string list \<Rightarrow> json option" where
  "walk_claims v [] = Some v"
| "walk_claims (JObj kvs) (p # ps) = (case member p kvs of None \<Rightarrow> None | Some v \<Rightarrow> walk_claims v ps)"
| "walk_claims _ (p # ps) = None"

definition stringClaim :: "(string \<times> json) list \<Rightarrow> string list \<Rightarrow> string option" where
  "stringClaim claims path = (case walk_claims (JObj claims) path of
       Some (JStr s) \<Rightarrow> if s = [] then None else Some s
     | _ \<Rightarrow> None)"

definition canonicalPrincipal :: "string \<Rightarrow> string \<Rightarrow> string" where
  "canonicalPrincipal tenant user = show_nat (length tenant) @ '':'' @ tenant @ show_nat (length user) @ '':'' @ user"

definition Authenticate_keycloak ::
    "jwt_parser \<Rightarrow> KeycloakAuthenticator \<Rightarrow> key_env \<Rightarrow> Header option \<Rightarrow> KeyCache \<Rightarrow> Identity option \<times> KeyCache" where
  "Authenticate_keycloak jwt a e request c =
     (case token_of a request of None \<Rightarrow> (None, c)
      | Some token \<Rightarrow>
          if int (length token) > maxJWTBytes \<or> rejectDuplicateJWTJSON token then (None, c)
          else case jp_token jwt (ka_algorithms a) token of None \<Rightarrow> (None, c)
          | Some (alg, kid) \<Rightarrow>
              (case kid of
                 Some (JStr k) \<Rightarrow>
                   if k = [] then (None, c)
                   else (case key_of (ka_algorithms a) e k alg c of
                      (Inl _, c') \<Rightarrow> (None, c')
                    | (Inr key, c') \<Rightarrow>
                        (case jp_claims jwt (ka_issuer a) (ka_audience a) token key of None \<Rightarrow> (None, c')
                         | Some claims \<Rightarrow>
                             (case (stringClaim claims (ka_userPath a), stringClaim claims (ka_tenantPath a)) of
                                (Some user, Some tenant) \<Rightarrow>
                                  (Some \<lparr>id_Tenant = tenant, id_Principal = canonicalPrincipal tenant user\<rparr>, c')
                              | _ \<Rightarrow> (None, c'))))
               | _ \<Rightarrow> (None, c)))"

section \<open>Fetched keys\<close>

definition jwk_ok :: "string list \<Rightarrow> string \<times> rsaJWK \<Rightarrow> bool" where
  "jwk_ok allowed kv \<longleftrightarrow> fst kv \<noteq> [] \<and> rj_algorithm (snd kv) \<in> set allowed \<and>
     3 \<le> pk_E (rj_key (snd kv)) \<and> odd (pk_E (rj_key (snd kv))) \<and> pk_E (rj_key (snd kv)) < 2 ^ 32"

lemma be_value_snoc: "be_value (bs @ [b]) = be_value bs * 256 + of_char b"
  by (simp add: be_value_def)

lemma be_value_bound: "be_value bs < 256 ^ length bs"
proof (induction bs rule: rev_induct)
  case (snoc b bs)
  have "(of_char b :: int) < 256" using nat_of_char_less_256 [of b] by (metis of_nat_of_char of_nat_less_iff of_nat_numeral)
  with snoc have "be_value bs * 256 + of_char b < 256 ^ length bs * 256" by linarith
  then show ?case by (simp add: be_value_snoc)
qed (simp add: be_value_def)

lemma exponent_bound: "length e \<le> 4 \<Longrightarrow> be_value e < 2 ^ 32"
proof -
  assume l: "length e \<le> 4"
  have "be_value e < 256 ^ length e" by (rule be_value_bound)
  also have "\<dots> \<le> 256 ^ 4" using l by (intro power_increasing) simp_all
  finally show ?thesis by simp
qed

text \<open>An entry is left out, or it adds a usable key with a new identifier.\<close>

lemma collect_keys_step:
  assumes "collect_keys allowed (r # rs) keys = Inr keys'"
  obtains "collect_keys allowed rs keys = Inr keys'"
  | kv where "collect_keys allowed rs (kv # keys) = Inr keys'" "jwk_ok allowed kv" "fst kv \<notin> fst ` set keys"
proof (cases "collect_keys allowed rs keys = Inr keys'")
  case False
  with assms obtain n e where k: "rw_Kid r \<noteq> []" "rw_Alg r \<in> set allowed" "rw_Kid r \<notin> fst ` set keys" "length e \<le> 4"
      "3 \<le> be_value e" "odd (be_value e)"
      "collect_keys allowed rs ((rw_Kid r, \<lparr>rj_algorithm = rw_Alg r, rj_key = \<lparr>pk_N = be_value n, pk_E = be_value e\<rparr>\<rparr>) # keys) = Inr keys'"
    by (auto simp: not_less split: if_splits option.splits)
  then show ?thesis using exponent_bound [OF k(4)] by (intro that(2) [OF k(7)]) (simp_all add: jwk_ok_def)
qed (rule that(1))

lemma collect_keys_ok:
  assumes "collect_keys allowed rs keys = Inr keys'" "list_all (jwk_ok allowed) keys" "distinct (map fst keys)"
  shows "list_all (jwk_ok allowed) keys' \<and> distinct (map fst keys') \<and> length keys' \<le> length rs + length keys"
  using assms
proof (induction rs arbitrary: keys)
  case (Cons r rs)
  from Cons.prems(1) show ?case
  proof (cases rule: collect_keys_step)
    case 1
    with Cons.IH Cons.prems show ?thesis by fastforce
  next
    case (2 kv)
    with Cons.IH [of "kv # keys"] Cons.prems show ?thesis by simp
  qed
qed simp

lemma fetchKeys_ok:
  assumes "fetchKeys allowed response = Inr keys"
  shows "keys \<noteq> []" "list_all (jwk_ok allowed) keys" "distinct (map fst keys)" "length keys \<le> 128"
proof -
  from assms obtain raws where c: "collect_keys allowed raws [] = Inr keys" "int (length raws) \<le> maxJWKSKeys" and ne: "keys \<noteq> []"
    by (auto simp: fetchKeys_def and_then_Inr_iff split: option.splits if_splits)
  from collect_keys_ok [OF c(1)] have "list_all (jwk_ok allowed) keys \<and> distinct (map fst keys) \<and> length keys \<le> length raws" by simp
  with c(2) ne show "keys \<noteq> []" "list_all (jwk_ok allowed) keys" "distinct (map fst keys)" "length keys \<le> 128"
    by (simp_all add: maxJWKSKeys_def)
qed

section \<open>Principals\<close>

lemma digits_colon:
  assumes "show_nat m @ CHR '':'' # x = show_nat n @ CHR '':'' # y"
  shows "m = n \<and> x = y"
proof -
  have c: "\<not> is_digit (CHR '':'')" by code_simp
  have d: "takeWhile is_digit (show_nat k @ CHR '':'' # z) = show_nat k" for k z
    using show_nat_digits [of k] c by (subst takeWhile_append2) (auto simp: list_all_iff)
  from d [of m x] d [of n y] assms have "show_nat m = show_nat n" by simp
  with assms show ?thesis by (metis append_same_eq list.inject parse_show_nat same_append_eq)
qed

lemma canonicalPrincipal_inject:
  "canonicalPrincipal t u = canonicalPrincipal t' u' \<longleftrightarrow> t = t' \<and> u = u'"
proof
  assume "canonicalPrincipal t u = canonicalPrincipal t' u'"
  then have "show_nat (length t) @ CHR '':'' # t @ show_nat (length u) @ CHR '':'' # u =
      show_nat (length t') @ CHR '':'' # t' @ show_nat (length u') @ CHR '':'' # u'"
    by (simp add: canonicalPrincipal_def)
  from digits_colon [OF this] have "t = t'" and "show_nat (length u) @ CHR '':'' # u = show_nat (length u') @ CHR '':'' # u'"
    by (auto dest: append_eq_append_conv [THEN iffD1, rotated])
  with digits_colon show "t = t' \<and> u = u'" by blast
qed simp

section \<open>Pointers\<close>

fun escape_part :: "string \<Rightarrow> string" where
  "escape_part [] = []"
| "escape_part (c # s) =
     (if c = CHR ''~'' then ''~0'' else if c = CHR ''/'' then ''~1'' else [c]) @ escape_part s"

definition print_pointer :: "string list \<Rightarrow> string" where
  "print_pointer ps = ''/'' @ join ''/'' (map escape_part ps)"

lemma decode_escape_part: "decode_part (escape_part s) = Inr s"
  by (induction s) auto

lemma escape_part_no_slash: "CHR ''/'' \<notin> set (escape_part s)"
  by (induction s) auto

lemma decode_escape_parts: "decode_parts (map escape_part ps) = Inr ps"
  by (induction ps) (simp_all add: decode_escape_part)

lemma parseJSONPointer_print:
  assumes "ps \<noteq> []"
  shows "parseJSONPointer (print_pointer ps) = Inr ps"
proof -
  have "split_on (CHR ''/'') (join ''/'' (map escape_part ps)) = map escape_part ps"
    by (rule split_on_join) (use assms escape_part_no_slash in auto)
  then show ?thesis by (simp add: parseJSONPointer_def print_pointer_def decode_escape_parts)
qed

end
