(* ===== verification/Keycloak_Cache.thy ===== *)
theory Keycloak_Cache
  imports Keycloak
begin

text \<open>
  Concurrent calls of \<open>key\<close> (\<open>internal/chat/keycloak_auth.go\<close>) as a step relation: every critical section under the mutex is
  one step, the fetch gate has one holder, and calls start, wait, are cancelled and finish in any order while the clock goes on. The
  gate is given up in the step that answers. Shown: what a returned key is, and how often the key server is asked.
\<close>

section \<open>Calls and steps\<close>

record key_call =
  cl_kid :: string
  cl_alg :: string
  cl_start :: int

datatype phase =
    Idle
  | Begun key_call
  | Waiting key_call
  | Holding key_call int
  | Fetching key_call bool
  | Answered key_call "key_error + PublicKey"

text \<open>\<open>ks_starts\<close> (when fetches began) and \<open>ks_history\<close> (which key sets were stored when), both newest first, record what
  happened.\<close>

record key_state =
  ks_cache :: KeyCache
  ks_gate :: "nat option"
  ks_phase :: "nat \<Rightarrow> phase"
  ks_clock :: int
  ks_starts :: "int list"
  ks_history :: "(int \<times> (string \<times> rsaJWK) list) list"

definition key_init :: key_state where
  "key_init = \<lparr>ks_cache = empty_cache, ks_gate = None, ks_phase = (\<lambda>_. Idle), ks_clock = 0, ks_starts = [], ks_history = []\<rparr>"

definition set_phase :: "nat \<Rightarrow> phase \<Rightarrow> key_state \<Rightarrow> key_state" where
  "set_phase i p s = s\<lparr>ks_phase := (ks_phase s)(i := p)\<rparr>"

definition at_rest :: "phase \<Rightarrow> bool" where
  "at_rest p = (case p of Idle \<Rightarrow> True | Answered _ _ \<Rightarrow> True | _ \<Rightarrow> False)"

inductive key_step :: "string list \<Rightarrow> key_state \<Rightarrow> key_state \<Rightarrow> bool" for allowed where
  tick: "ks_clock s \<le> t \<Longrightarrow> key_step allowed s (s\<lparr>ks_clock := t\<rparr>)"
| refuse: "at_rest (ks_phase s i) \<Longrightarrow> alg \<notin> set allowed \<Longrightarrow>
    key_step allowed s (set_phase i (Answered \<lparr>cl_kid = kid, cl_alg = alg, cl_start = ks_clock s\<rparr> (Inl NotAllowed)) s)"
| start: "at_rest (ks_phase s i) \<Longrightarrow> alg \<in> set allowed \<Longrightarrow>
    key_step allowed s (set_phase i (Begun \<lparr>cl_kid = kid, cl_alg = alg, cl_start = ks_clock s\<rparr>) s)"
| look_answer: "ks_phase s i = Begun c \<Longrightarrow> key_lookup (ks_cache s) (cl_start c) (cl_kid c) (cl_alg c) = Return r \<Longrightarrow>
    key_step allowed s (set_phase i (Answered c r) s)"
| look_wait: "ks_phase s i = Begun c \<Longrightarrow> key_lookup (ks_cache s) (cl_start c) (cl_kid c) (cl_alg c) = Continue u \<Longrightarrow>
    key_step allowed s (set_phase i (Waiting c) s)"
| cancel: "ks_phase s i = Waiting c \<Longrightarrow> key_step allowed s (set_phase i (Answered c (Inl Cancelled)) s)"
| enter: "ks_phase s i = Waiting c \<Longrightarrow> ks_gate s = None \<Longrightarrow>
    key_step allowed s (set_phase i (Holding c (ks_clock s)) (s\<lparr>ks_gate := Some i\<rparr>))"
| hold_answer: "ks_phase s i = Holding c now \<Longrightarrow> key_reserve (ks_cache s) now (cl_kid c) (cl_alg c) = Return r \<Longrightarrow>
    key_step allowed s (set_phase i (Answered c r) (s\<lparr>ks_gate := None\<rparr>))"
| reserve: "ks_phase s i = Holding c now \<Longrightarrow> key_reserve (ks_cache s) now (cl_kid c) (cl_alg c) = Continue (cache, keep) \<Longrightarrow>
    key_step allowed s (set_phase i (Fetching c keep) (s\<lparr>ks_cache := cache, ks_starts := now # ks_starts s\<rparr>))"
| fetch_failed: "ks_phase s i = Fetching c keep \<Longrightarrow> fetchKeys allowed response = Inl e \<Longrightarrow>
    key_step allowed s (set_phase i (Answered c (Inl e)) (s\<lparr>ks_gate := None\<rparr>))"
| store: "ks_phase s i = Fetching c keep \<Longrightarrow> fetchKeys allowed response = Inr keys \<Longrightarrow>
    key_store (ks_cache s) (ks_clock s) keys keep (cl_kid c) (cl_alg c) = (r, cache) \<Longrightarrow>
    key_step allowed s (set_phase i (Answered c r)
      (s\<lparr>ks_cache := cache, ks_gate := None, ks_history := (ks_clock s, keys) # ks_history s\<rparr>))"

inductive key_reachable :: "string list \<Rightarrow> key_state \<Rightarrow> bool" for allowed where
  init: "key_reachable allowed key_init"
| step: "key_reachable allowed s \<Longrightarrow> key_step allowed s s' \<Longrightarrow> key_reachable allowed s'"

lemma key_reachable_invariant:
  assumes "key_reachable allowed s" and "I key_init" and "\<And>s s'. I s \<Longrightarrow> key_step allowed s s' \<Longrightarrow> I s'"
  shows "I s"
  using assms(1) by induction (auto intro: assms)

section \<open>Who holds the gate\<close>

definition holds :: "phase \<Rightarrow> bool" where
  "holds p = (case p of Holding _ _ \<Rightarrow> True | Fetching _ _ \<Rightarrow> True | _ \<Rightarrow> False)"

lemma holds_simps [simp]:
  "\<not> holds Idle" "\<not> holds (Begun c)" "\<not> holds (Waiting c)" "\<not> holds (Answered c r)" "holds (Holding c t)" "holds (Fetching c k)"
  by (simp_all add: holds_def)

lemma at_rest_not_holds [simp]: "at_rest p \<Longrightarrow> \<not> holds p"
  by (cases p) (auto simp: at_rest_def)

definition gate_inv :: "key_state \<Rightarrow> bool" where
  "gate_inv s = (\<forall>i. holds (ks_phase s i) \<longleftrightarrow> ks_gate s = Some i)"

lemma set_phase_simps [simp]:
  "ks_cache (set_phase i p s) = ks_cache s" "ks_gate (set_phase i p s) = ks_gate s" "ks_clock (set_phase i p s) = ks_clock s"
  "ks_starts (set_phase i p s) = ks_starts s" "ks_history (set_phase i p s) = ks_history s"
  "ks_phase (set_phase i p s) = (ks_phase s)(i := p)"
  by (simp_all add: set_phase_def)

lemma gate_keep:
  assumes "gate_inv s" "ks_phase t = (ks_phase s)(i := p)" "ks_gate t = ks_gate s" "holds p \<longleftrightarrow> holds (ks_phase s i)"
  shows "gate_inv t"
  using assms by (auto simp: gate_inv_def)

lemma gate_leave:
  assumes "gate_inv s" "ks_phase t = (ks_phase s)(i := p)" "ks_gate t = None" "holds (ks_phase s i)" "\<not> holds p"
  shows "gate_inv t"
  using assms by (auto simp: gate_inv_def)

lemma gate_inv_step:
  assumes "gate_inv s" "key_step allowed s s'"
  shows "gate_inv s'"
  using assms(2)
proof cases
  case (tick t)
  with assms(1) show ?thesis by (simp add: gate_inv_def)
next
  case (enter i c)
  with assms(1) show ?thesis by (auto simp: gate_inv_def)
next
  case (hold_answer i c now r)
  then show ?thesis using assms(1) by (auto intro: gate_leave)
next
  case (fetch_failed i c keep response e)
  then show ?thesis using assms(1) by (auto intro: gate_leave)
next
  case (store i c keep response keys r cache)
  then show ?thesis using assms(1) by (auto intro: gate_leave)
next
  case (reserve i c now cache keep)
  then show ?thesis using assms(1) by (auto intro: gate_keep)
qed (use assms(1) in \<open>auto intro: gate_keep\<close>)+

lemma one_holder: "gate_inv s \<Longrightarrow> holds (ks_phase s i) \<Longrightarrow> holds (ks_phase s j) \<Longrightarrow> i = j"
  by (auto simp: gate_inv_def)

section \<open>Where keys come from\<close>

text \<open>A call is justified by the history when its key was in a set that was stored less than the lifetime of the cache before
  the call read the clock, or later.\<close>

definition from_history :: "key_state \<Rightarrow> key_call \<Rightarrow> PublicKey \<Rightarrow> bool" where
  "from_history s c k = (\<exists>t keys j. (t, keys) \<in> set (ks_history s) \<and> map_of keys (cl_kid c) = Some j \<and> rj_key j = k \<and>
     rj_algorithm j = cl_alg c \<and> cl_start c < t + jwksCacheLifetime)"

fun phase_ok :: "key_state \<Rightarrow> phase \<Rightarrow> bool" where
  "phase_ok s Idle = True"
| "phase_ok s (Begun c) = (cl_start c \<le> ks_clock s)"
| "phase_ok s (Waiting c) = (cl_start c \<le> ks_clock s)"
| "phase_ok s (Holding c now) = (cl_start c \<le> now \<and> now \<le> ks_clock s)"
| "phase_ok s (Fetching c keep) = (cl_start c \<le> ks_clock s)"
| "phase_ok s (Answered c (Inl e)) = True"
| "phase_ok s (Answered c (Inr k)) = from_history s c k"

definition cache_of_history :: "key_state \<Rightarrow> bool" where
  "cache_of_history s = (case ks_history s of
       [] \<Rightarrow> ca_keys (ks_cache s) = []
     | (t, keys) # _ \<Rightarrow> ca_keys (ks_cache s) = keys \<and> ca_cacheExpiry (ks_cache s) = t + jwksCacheLifetime)"

definition source_inv :: "string list \<Rightarrow> key_state \<Rightarrow> bool" where
  "source_inv allowed s \<longleftrightarrow>
     (\<forall>(t, keys) \<in> set (ks_history s). t \<le> ks_clock s \<and> (\<exists>response. fetchKeys allowed response = Inr keys)) \<and>
     cache_of_history s \<and> (\<forall>i. phase_ok s (ks_phase s i))"

lemma cached_from_history:
  assumes "cache_of_history s" "cached (ks_cache s) now (cl_kid c) (cl_alg c) = Some k" "cl_start c \<le> now"
  shows "from_history s c k"
  using assms
  by (fastforce simp: cache_of_history_def cached_def from_history_def split: list.splits option.splits if_splits)

lemma phase_ok_mono:
  assumes "phase_ok s p" "ks_clock s \<le> ks_clock t" "set (ks_history s) \<subseteq> set (ks_history t)"
  shows "phase_ok t p"
proof (cases p)
  case (Answered c r)
  with assms show ?thesis by (cases r) (auto simp: from_history_def)
qed (use assms in auto)

lemma source_phase:
  assumes "source_inv allowed s" "ks_phase t = (ks_phase s)(i := p)" "phase_ok t p" "ks_clock t = ks_clock s"
    "ks_history t = ks_history s" "ca_keys (ks_cache t) = ca_keys (ks_cache s)"
    "ca_cacheExpiry (ks_cache t) = ca_cacheExpiry (ks_cache s)"
  shows "source_inv allowed t"
  using assms phase_ok_mono [of s _ t] by (auto simp: source_inv_def cache_of_history_def split: list.splits)

lemma phase_ok_Answered [simp]: "phase_ok s (Answered c r) \<longleftrightarrow> (\<forall>k. r = Inr k \<longrightarrow> from_history s c k)"
  by (cases r) auto

declare phase_ok.simps(6,7) [simp del]

lemma lookup_answer:
  assumes "cache_of_history s" "key_lookup (ks_cache s) now (cl_kid c) (cl_alg c) = Return (Inr k)" "cl_start c \<le> now"
  shows "from_history s c k"
  using assms cached_from_history by (auto simp: key_lookup_def split: option.splits if_splits)

lemma reserve_answer:
  assumes "cache_of_history s" "key_reserve (ks_cache s) now (cl_kid c) (cl_alg c) = Return (Inr k)" "cl_start c \<le> now"
  shows "from_history s c k"
  using assms cached_from_history by (auto simp: key_reserve_def split: option.splits if_splits)

lemma from_history_simps [simp]:
  "from_history (set_phase i p s) c k = from_history s c k"
  "from_history (s\<lparr>ks_gate := g\<rparr>) c k = from_history s c k"
  by (simp_all add: from_history_def)

lemma key_reserve_cache:
  "key_reserve c now kid alg = Continue (c', keep) \<Longrightarrow>
     c' = c\<lparr>ca_nextRefresh := now + jwksRefreshMinInterval\<rparr> \<and> keep = (now < ca_cacheExpiry c) \<and> ca_nextRefresh c \<le> now"
  by (auto simp: key_reserve_def split: option.splits if_splits)

lemma key_store_cache:
  "key_store c now keys keep kid alg = (r, c') \<Longrightarrow>
     ca_keys c' = keys \<and> ca_cacheExpiry c' = now + jwksCacheLifetime \<and>
     (ca_nextRefresh c' = ca_nextRefresh c \<or> ca_nextRefresh c' = 0 \<and> \<not> keep) \<and>
     (\<forall>k. r = Inr k \<longrightarrow> (\<exists>j. map_of keys kid = Some j \<and> rj_key j = k \<and> rj_algorithm j = alg))"
  by (auto simp: key_store_def Let_def split: option.splits if_splits)

lemma source_inv_step:
  assumes inv: "source_inv allowed s" and step: "key_step allowed s s'"
  shows "source_inv allowed s'"
proof -
  have ch: "cache_of_history s" and ph: "phase_ok s (ks_phase s i)" for i
    using inv by (simp_all add: source_inv_def)
  from step show ?thesis
  proof cases
    case (tick t)
    have "phase_ok s' (ks_phase s' i)" for i using ph [of i] using phase_ok_mono [of s "ks_phase s i" s'] tick by simp
    with tick inv show ?thesis by (force simp: source_inv_def cache_of_history_def split: list.splits)
  next
    case (look_answer i c r)
    then have "phase_ok s' (Answered c r)"
      using lookup_answer [OF ch] by auto
    with look_answer show ?thesis by (intro source_phase [OF inv]) auto
  next
    case (hold_answer i c now r)
    then have "phase_ok s' (Answered c r)"
      using reserve_answer [OF ch] ph [of i] by auto
    with hold_answer show ?thesis by (intro source_phase [OF inv]) auto
  next
    case (look_wait i c u)
    with ph [of i] show ?thesis by (intro source_phase [OF inv]) auto
  next
    case (enter i c)
    with ph [of i] show ?thesis by (intro source_phase [OF inv]) auto
  next
    case (reserve i c now cache keep)
    with ph [of i] key_reserve_cache [OF reserve(3)] show ?thesis by (intro source_phase [OF inv]) auto
  next
    case (store i c keep response keys r cache)
    have st: "cl_start c \<le> ks_clock s" using ph [of i] store(2) by simp
    note k = key_store_cache [OF store(4)]
    have "phase_ok s' (ks_phase s' j)" for j
    proof (cases "j = i")
      case True
      have "0 < jwksCacheLifetime" by (simp add: jwksCacheLifetime_def)
      with True store k st show ?thesis by (fastforce simp: from_history_def)
    next
      case False
      with store show ?thesis by (auto intro!: phase_ok_mono [OF ph [of j]])
    qed
    with store k inv show ?thesis by (auto simp: source_inv_def cache_of_history_def)
  qed (insert ph, auto intro!: source_phase [OF inv])
qed

section \<open>How often the key server is asked\<close>

definition fetching :: "key_state \<Rightarrow> bool \<Rightarrow> bool" where
  "fetching s keep = (\<exists>i c. ks_phase s i = Fetching c keep)"

definition holding :: "key_state \<Rightarrow> int \<Rightarrow> bool" where
  "holding s now = (\<exists>i c. ks_phase s i = Holding c now)"

text \<open>Fetches begin in the order of time, also those about to begin.\<close>

definition order_inv :: "key_state \<Rightarrow> bool" where
  "order_inv s \<longleftrightarrow> sorted_wrt (\<ge>) (ks_starts s) \<and> (\<forall>t \<in> set (ks_starts s). t \<le> ks_clock s) \<and>
     (\<forall>now. holding s now \<longrightarrow> now \<le> ks_clock s \<and> (\<forall>t \<in> set (ks_starts s). t \<le> now))"

text \<open>After a fetch the server is left alone for a while, unless the fetch brought the key it was made for.\<close>

definition cool_inv :: "key_state \<Rightarrow> bool" where
  "cool_inv s = (case ks_starts s of [] \<Rightarrow> \<forall>keep. \<not> fetching s keep
     | a # _ \<Rightarrow> ca_nextRefresh (ks_cache s) = a + jwksRefreshMinInterval \<or>
         (\<forall>keep. \<not> fetching s keep) \<and> a + jwksCacheLifetime \<le> ca_cacheExpiry (ks_cache s))"

text \<open>A fetch soon after another one finds a fresh cache, and keeps the pause whatever it brings.\<close>

definition gap_inv :: "key_state \<Rightarrow> bool" where
  "gap_inv s = (case ks_starts s of [] \<Rightarrow> True | a # bs \<Rightarrow> (case bs of [] \<Rightarrow> True
     | b # _ \<Rightarrow> b + jwksRefreshMinInterval \<le> a \<or>
         ca_nextRefresh (ks_cache s) = a + jwksRefreshMinInterval \<and> \<not> fetching s False))"

text \<open>Of three fetches in a row the last begins a full interval after the first.\<close>

fun spaced :: "int list \<Rightarrow> bool" where
  "spaced (a # b # c # ts) = (c + jwksRefreshMinInterval \<le> a \<and> spaced (b # c # ts))"
| "spaced _ = True"

definition rate_inv :: "key_state \<Rightarrow> bool" where
  "rate_inv s \<longleftrightarrow> gate_inv s \<and> order_inv s \<and> cool_inv s \<and> gap_inv s \<and> spaced (ks_starts s)"

lemma rate_frame:
  assumes inv: "rate_inv s" and g: "gate_inv t"
    and f: "\<And>keep. fetching t keep \<Longrightarrow> fetching s keep" "\<And>now. holding t now \<Longrightarrow> holding s now \<or> now = ks_clock s"
    and t: "ks_clock s \<le> ks_clock t" "ks_starts t = ks_starts s" "ks_cache t = ks_cache s"
  shows "rate_inv t"
proof -
  have ord: "order_inv t"
    unfolding order_inv_def t(2)
  proof (intro conjI allI impI ballI)
    show "sorted_wrt (\<ge>) (ks_starts s)" using inv unfolding rate_inv_def order_inv_def by blast
    show "x \<le> ks_clock t" if "x \<in> set (ks_starts s)" for x
      using inv that t(1) unfolding rate_inv_def order_inv_def by fastforce
    show "now \<le> ks_clock t" if "holding t now" for now
      using inv f(2) [OF that] t(1) unfolding rate_inv_def order_inv_def by fastforce
    show "x \<le> now" if "holding t now" "x \<in> set (ks_starts s)" for now x
      using inv f(2) [OF that(1)] that(2) unfolding rate_inv_def order_inv_def by blast
  qed
  have "cool_inv t" "gap_inv t"
    using inv f(1) t by (auto simp: rate_inv_def cool_inv_def gap_inv_def split: list.splits)
  with ord inv g t show ?thesis by (simp add: rate_inv_def)
qed

lemma rate_phase:
  assumes "t = set_phase i p u" "rate_inv s" "gate_inv t" "ks_phase u = ks_phase s" "\<not> holds p" "ks_clock u = ks_clock s"
    "ks_starts u = ks_starts s" "ks_cache u = ks_cache s"
  shows "rate_inv t"
  by (rule rate_frame [OF assms(2,3)]) (use assms(1,4-) in \<open>auto simp: fetching_def holding_def split: if_splits\<close>)

lemma rate_lifetimes: "0 < jwksRefreshMinInterval" "jwksRefreshMinInterval < jwksCacheLifetime"
  by (simp_all add: jwksRefreshMinInterval_def jwksCacheLifetime_def)

lemma others_rest:
  assumes "gate_inv s" "holds (ks_phase s i)" "ks_phase t = (ks_phase s)(i := p)"
  shows "fetching t keep \<longleftrightarrow> (\<exists>c. p = Fetching c keep)" and "holding t now \<longleftrightarrow> (\<exists>c. p = Holding c now)"
proof -
  have rest: "\<not> holds (ks_phase s j)" if "j \<noteq> i" for j using assms(1,2) that by (auto simp: gate_inv_def)
  have "ks_phase s j \<noteq> Fetching c k" "ks_phase s j \<noteq> Holding c n" if "j \<noteq> i" for j c k n
    using rest [OF that] by auto
  then show "fetching t keep \<longleftrightarrow> (\<exists>c. p = Fetching c keep)" "holding t now \<longleftrightarrow> (\<exists>c. p = Holding c now)"
    using assms(3) by (auto simp: fetching_def holding_def split: if_splits)
qed

lemma rate_reserve:
  assumes inv: "rate_inv s" and g: "gate_inv t"
    and h: "ks_phase s i = Holding c now" "key_reserve (ks_cache s) now (cl_kid c) (cl_alg c) = Continue (cache, keep)"
    and t: "ks_phase t = (ks_phase s)(i := Fetching c keep)" "ks_clock t = ks_clock s" "ks_starts t = now # ks_starts s"
      "ks_cache t = cache"
  shows "rate_inv t"
proof -
  have inv': "gate_inv s" "order_inv s" "cool_inv s" "gap_inv s" "spaced (ks_starts s)" using inv by (simp_all add: rate_inv_def)
  note r = key_reserve_cache [OF h(2)]
  note f = others_rest [OF inv'(1) _ t(1), simplified h(1), simplified]
  have now: "holding s now" using h(1) by (auto simp: holding_def)
  with inv'(2) have order: "order_inv t" using t f by (auto simp: order_inv_def)
  have cool: "cool_inv t" using t r by (simp add: cool_inv_def)
  have gap: "gap_inv t"
  proof (cases "ks_starts s")
    case Nil
    with t show ?thesis by (simp add: gap_inv_def)
  next
    case (Cons a bs)
    with inv'(3) r rate_lifetimes have "a + jwksRefreshMinInterval \<le> now \<or> keep" by (auto simp: cool_inv_def)
    with Cons t r f(1) show ?thesis by (simp add: gap_inv_def)
  qed
  have "spaced (now # ks_starts s)"
  proof (cases "\<exists>a b bs. ks_starts s = a # b # bs")
    case True
    then obtain a b bs where st: "ks_starts s = a # b # bs" by blast
    have "a \<le> now" "b \<le> a" using inv'(2) now st by (auto simp: order_inv_def)
    moreover have "b + jwksRefreshMinInterval \<le> a \<or> a + jwksRefreshMinInterval \<le> now" using inv'(4) r st by (auto simp: gap_inv_def)
    ultimately have "b + jwksRefreshMinInterval \<le> now" by linarith
    with inv'(5) st show ?thesis by simp
  next
    case False
    then show ?thesis by (cases "ks_starts s"; cases "tl (ks_starts s)") auto
  qed
  with order cool gap g t show ?thesis by (simp add: rate_inv_def)
qed

lemma rate_store:
  assumes inv: "rate_inv s" and g: "gate_inv t"
    and h: "ks_phase s i = Fetching c keep"
      "key_store (ks_cache s) (ks_clock s) keys keep (cl_kid c) (cl_alg c) = (r, cache)"
    and t: "ks_phase t = (ks_phase s)(i := Answered c r)" "ks_clock t = ks_clock s" "ks_starts t = ks_starts s" "ks_cache t = cache"
  shows "rate_inv t"
proof -
  have inv': "gate_inv s" "order_inv s" "cool_inv s" "gap_inv s" "spaced (ks_starts s)" using inv by (simp_all add: rate_inv_def)
  note k = key_store_cache [OF h(2)]
  note f = others_rest [OF inv'(1) _ t(1), simplified h(1), simplified]
  have now: "fetching s keep" using h(1) by (auto simp: fetching_def)
  have order: "order_inv t" using inv'(2) t f by (auto simp: order_inv_def)
  have cool: "cool_inv t" using inv'(2,3) now t f k by (auto simp: cool_inv_def order_inv_def split: list.splits)
  have gap: "gap_inv t" using inv'(4) now t f k by (auto simp: gap_inv_def split: list.splits)
  with order cool inv'(5) g t show ?thesis by (simp add: rate_inv_def)
qed

lemma rate_inv_step:
  assumes inv: "rate_inv s" and step: "key_step allowed s s'"
  shows "rate_inv s'"
proof -
  have g: "gate_inv s'" using gate_inv_step [OF _ step] inv by (simp add: rate_inv_def)
  from step show ?thesis
  proof cases
    case (tick t)
    then show ?thesis by (intro rate_frame [OF inv g]) (auto simp: fetching_def holding_def)
  next
    case (enter i c)
    then show ?thesis by (intro rate_frame [OF inv g]) (auto simp: fetching_def holding_def split: if_splits)
  next
    case (reserve i c now cache keep)
    then show ?thesis by (intro rate_reserve [OF inv g reserve(2,3)]) simp_all
  next
    case (store i c keep response keys r cache)
    then show ?thesis by (intro rate_store [OF inv g store(2,4)]) simp_all
  qed (erule rate_phase [OF _ inv g]; simp)+
qed

lemma key_init_inv: "gate_inv key_init" "source_inv allowed key_init" "rate_inv key_init"
  by (simp_all add: gate_inv_def source_inv_def cache_of_history_def rate_inv_def order_inv_def cool_inv_def gap_inv_def
      fetching_def holding_def key_init_def empty_cache_def)

lemma reachable_source: "key_reachable allowed s \<Longrightarrow> source_inv allowed s"
  by (rule key_reachable_invariant) (auto intro: key_init_inv source_inv_step)

lemma reachable_rate: "key_reachable allowed s \<Longrightarrow> spaced (ks_starts s) \<and> sorted_wrt (\<ge>) (ks_starts s)"
proof -
  assume "key_reachable allowed s"
  then have "rate_inv s" by (rule key_reachable_invariant) (auto intro: key_init_inv rate_inv_step)
  then show ?thesis unfolding rate_inv_def order_inv_def by blast
qed

lemma spaced_window:
  assumes "spaced ts" "sorted_wrt (\<ge>) ts"
  shows "length (filter (\<lambda>t. T \<le> t \<and> t < T + jwksRefreshMinInterval) ts) \<le> 2"
  using assms
proof (induction ts rule: spaced.induct)
  case (1 a b c ts)
  show ?case
  proof (cases "a < T + jwksRefreshMinInterval")
    case True
    with 1(2) have "c < T" by simp
    with 1(3) have "filter (\<lambda>t. T \<le> t \<and> t < T + jwksRefreshMinInterval) (c # ts) = []" by (auto simp: filter_empty_conv)
    then show ?thesis by simp
  qed (use 1 in simp)
qed auto

section \<open>A run\<close>

definition sample_response :: key_response where
  "sample_response = \<lparr>kr_status = 200,
     kr_body = ''{\"keys\":[{\"kty\":\"RSA\",\"kid\":\"k\",\"alg\":\"RS256\",\"n\":\"AQ\",\"e\":\"AQAB\"}]}'', kr_broken = False\<rparr>"

definition sample_key :: PublicKey where "sample_key = \<lparr>pk_N = 1, pk_E = 65537\<rparr>"

definition sample_call :: key_call where "sample_call = \<lparr>cl_kid = ''k'', cl_alg = ''RS256'', cl_start = 0\<rparr>"

lemma fetch_sample:
  "fetchKeys [''RS256''] (Some sample_response) = Inr [(''k'', \<lparr>rj_algorithm = ''RS256'', rj_key = sample_key\<rparr>)]"
  by code_simp

text \<open>A first call fetches the keys and gets its own.\<close>

lemma sample_run:
  "\<exists>s. key_reachable [''RS256''] s \<and> ks_phase s 0 = Answered sample_call (Inr sample_key) \<and> ks_starts s = [0]"
proof -
  let ?s1 = "set_phase 0 (Begun sample_call) key_init"
  let ?s2 = "set_phase 0 (Waiting sample_call) ?s1"
  let ?s3 = "set_phase 0 (Holding sample_call 0) (?s2\<lparr>ks_gate := Some 0\<rparr>)"
  let ?c4 = "empty_cache\<lparr>ca_nextRefresh := 0 + jwksRefreshMinInterval\<rparr>"
  let ?s4 = "set_phase 0 (Fetching sample_call False) (?s3\<lparr>ks_cache := ?c4, ks_starts := [0]\<rparr>)"
  let ?keys = "[(''k'', \<lparr>rj_algorithm = ''RS256'', rj_key = sample_key\<rparr>)]"
  let ?c5 = "?c4\<lparr>ca_keys := ?keys, ca_cacheExpiry := 0 + jwksCacheLifetime\<rparr>\<lparr>ca_nextRefresh := 0\<rparr>"
  let ?s5 = "set_phase 0 (Answered sample_call (Inr sample_key))
      (?s4\<lparr>ks_cache := ?c5, ks_gate := None, ks_history := [(0, ?keys)]\<rparr>)"
  note sample = sample_call_def key_init_def empty_cache_def at_rest_def
  have 1: "key_step [''RS256''] key_init ?s1"
    using key_step.start [of key_init 0 "''RS256''" "[''RS256'']" "''k''"] by (simp add: sample)
  have 2: "key_step [''RS256''] ?s1 ?s2"
    by (rule key_step.look_wait [where u = "()"]) (simp_all add: sample key_lookup_def cached_def)
  have 3: "key_step [''RS256''] ?s2 ?s3"
    using key_step.enter [of ?s2 0 sample_call "[''RS256'']"] by (simp add: sample)
  have 4: "key_step [''RS256''] ?s3 ?s4"
    using key_step.reserve [of ?s3 0 sample_call 0 ?c4 False "[''RS256'']"] by (simp add: sample key_reserve_def cached_def)
  have "key_store ?c4 0 ?keys False ''k'' ''RS256'' = (Inr sample_key, ?c5)" by (simp add: key_store_def)
  then have 5: "key_step [''RS256''] ?s4 ?s5"
    using key_step.store [of ?s4 0 sample_call False "[''RS256'']" "Some sample_response" ?keys "Inr sample_key" ?c5]
    by (simp add: sample fetch_sample)
  have "key_reachable [''RS256''] ?s5"
    by (rule key_reachable.step [OF key_reachable.step [OF key_reachable.step [OF key_reachable.step
          [OF key_reachable.step [OF key_reachable.init 1] 2] 3] 4] 5])
  then show ?thesis by (intro exI [of _ ?s5]) (simp add: sample)
qed



text \<open>C13. A key that \<open>key\<close> returns was published under the identifier and for the algorithm of the token, which is an allowed one, in a
  set that was fetched from the key server and stored less than five minutes before the call looked at the clock, or after.\<close>

theorem key_returned_is_fresh:
  assumes "key_reachable allowed s" "ks_phase s i = Answered c (Inr k)"
  shows "\<exists>t keys j response. (t, keys) \<in> set (ks_history s) \<and> fetchKeys allowed response = Inr keys \<and>
     map_of keys (cl_kid c) = Some j \<and> rj_key j = k \<and> rj_algorithm j = cl_alg c \<and> cl_alg c \<in> set allowed \<and>
     odd (pk_E k) \<and> cl_start c < t + jwksCacheLifetime \<and> t \<le> ks_clock s"
proof -
  note inv = reachable_source [OF assms(1)]
  from inv have "phase_ok s (ks_phase s i)" by (simp add: source_inv_def)
  with assms(2) have "from_history s c k" by simp
  then obtain t keys j where h: "(t, keys) \<in> set (ks_history s)" "map_of keys (cl_kid c) = Some j" "rj_key j = k"
      "rj_algorithm j = cl_alg c" "cl_start c < t + jwksCacheLifetime" by (auto simp: from_history_def)
  from inv h(1) obtain response where f: "fetchKeys allowed response = Inr keys" "t \<le> ks_clock s" by (auto simp: source_inv_def)
  from map_of_SomeD [OF h(2)] fetchKeys_ok(2) [OF f(1)] have "jwk_ok allowed (cl_kid c, j)" by (auto simp: list_all_iff)
  with h f show ?thesis by (auto simp: jwk_ok_def)
qed

theorem key_returned_is_fresh_witness:
  "\<exists>s t keys. key_reachable [''RS256''] s \<and> ks_phase s 0 = Answered sample_call (Inr sample_key) \<and>
     (t, keys) \<in> set (ks_history s) \<and> cl_start sample_call < t + jwksCacheLifetime"
proof -
  from sample_run obtain s where s: "key_reachable [''RS256''] s" "ks_phase s 0 = Answered sample_call (Inr sample_key)" by blast
  from key_returned_is_fresh [OF s] s show ?thesis by blast
qed

end
