(* ===== verification/Keycloak_Properties.thy ===== *)
theory Keycloak_Properties
  imports Keycloak_Cache
begin

text \<open>
  What an identity from a signed token stands for (\<open>internal/chat/keycloak_auth.go\<close>): the token it came from, the key that
  verified it, the claims behind it, and why no two users share a principal.
\<close>

section \<open>Documents without repeated members\<close>

text \<open>The objects of a document, at every depth.\<close>

fun objects :: "json \<Rightarrow> (string \<times> json) list list" where
  "objects (JObj kvs) = kvs # concat (map (\<lambda>kv. objects (snd kv)) kvs)"
| "objects (JArr vs) = concat (map objects vs)"
| "objects _ = []"

lemma scan_objects: "scanJSONValue j \<Longrightarrow> kvs \<in> set (objects j) \<Longrightarrow> distinct (map fst kvs)"
proof (induction j)
  case (JObj kvs')
  then show ?case by (fastforce simp: list_all_iff snds.simps)
next
  case (JArr vs)
  then show ?case by (auto simp: list_all_iff)
qed auto

text \<open>With distinct names the first and the last member of a name are the same.\<close>

lemma member_first: "distinct (map fst kvs) \<Longrightarrow> member k kvs = map_of kvs k"
  unfolding member_def by (metis map_of_inject_set distinct_rev rev_map set_rev)

text \<open>A document is unambiguous when it parses and every reader finds the same members in its objects.\<close>

definition unambiguous :: "string \<Rightarrow> bool" where
  "unambiguous part \<longleftrightarrow> (\<exists>data j. RawURL_Decode part = Some data \<and> parse_json (to_valid_utf8 data) = Some j \<and>
     (\<forall>kvs \<in> set (objects j). \<forall>k. member k kvs = map_of kvs k))"

lemma accepted_documents:
  assumes "\<not> rejectDuplicateJWTJSON token"
  obtains header payload signature where "split_on (CHR ''.'') token = [header, payload, signature]"
    "unambiguous header" "unambiguous payload"
proof -
  have u: "unambiguous part" if "RawURL_Decode part = Some d" "\<not> rejectDuplicateJSON d" for part d
    using that scan_objects member_first
    by (fastforce simp: rejectDuplicateJSON_def unambiguous_def split: option.splits)
  from assms obtain header payload signature where s: "split_on (CHR ''.'') token = [header, payload, signature]"
    and "\<not> list_ex (\<lambda>part. case RawURL_Decode part of None \<Rightarrow> True | Some d \<Rightarrow> rejectDuplicateJSON d) [header, payload]"
    by (auto simp: rejectDuplicateJWTJSON_def split: list.splits)
  then have "unambiguous header" "unambiguous payload" using u by (auto split: option.splits)
  with s show ?thesis by (rule that)
qed

section \<open>Accepted requests\<close>

lemma Authenticate_cases:
  assumes "Authenticate_keycloak jwt a e request c = (Some who, c')"
  obtains token alg kid key claims user tenant where
    "token_of a request = Some token" "int (length token) \<le> maxJWTBytes" "\<not> rejectDuplicateJWTJSON token"
    "jp_token jwt (ka_algorithms a) token = Some (alg, Some (JStr kid))" "kid \<noteq> []"
    "key_of (ka_algorithms a) e kid alg c = (Inr key, c')"
    "jp_claims jwt (ka_issuer a) (ka_audience a) token key = Some claims"
    "stringClaim claims (ka_userPath a) = Some user" "stringClaim claims (ka_tenantPath a) = Some tenant"
    "who = \<lparr>id_Tenant = tenant, id_Principal = canonicalPrincipal tenant user\<rparr>"
  using assms that
  by (auto simp: Authenticate_keycloak_def split: option.splits if_splits prod.splits json.splits sum.splits)

lemma stringClaim_nonempty: "stringClaim claims path = Some s \<Longrightarrow> s \<noteq> []"
  by (auto simp: stringClaim_def split: option.splits json.splits if_splits)

lemma token_of_single:
  assumes "token_of a (Some h) = Some token"
  obtains raw where "h (canonical_header_key (ka_header a)) = [raw]" "CHR '','' \<notin> set raw" "token \<noteq> []"
    "raw = (if ka_source a = ''authorization_bearer'' then ''Bearer '' @ token else token)"
proof -
  from assms obtain raw where v: "h (canonical_header_key (ka_header a)) = [raw]" "CHR '','' \<notin> set raw" "token \<noteq> []"
      and "if ka_source a = ''authorization_bearer'' then prefix ''Bearer '' raw \<and> token = drop 7 raw else raw = token"
    by (auto simp: token_of_def split: list.splits if_splits)
  then have "raw = (if ka_source a = ''authorization_bearer'' then ''Bearer '' @ token else token)" by (auto simp: prefix_def)
  with v show ?thesis by (rule that)
qed

lemma key_of_allowed:
  assumes "key_of allowed e kid alg c = (Inr key, c')"
  shows "alg \<in> set allowed"
  using assms by (auto simp: key_of_def split: if_splits)

text \<open>A request with a token, for the witnesses below.\<close>

definition sample_jwt :: jwt_parser where
  "sample_jwt = \<lparr>jp_token = (\<lambda>_ _. Some (''RS256'', Some (JStr ''k''))),
     jp_claims = (\<lambda>_ _ _ _. Some [(''sub'', JStr ''ann''), (''org'', JObj [(''id'', JStr ''acme'')])])\<rparr>"

definition sample_authenticator :: KeycloakAuthenticator where
  "sample_authenticator = \<lparr>ka_issuer = ''https://kc'', ka_audience = ''chat'', ka_header = ''authorization'', ka_source = ''authorization_bearer'',
     ka_userPath = [''sub''], ka_tenantPath = [''org'', ''id''], ka_algorithms = [''RS256''], ka_jwksURL = ''https://kc/certs''\<rparr>"

definition sample_env :: key_env where
  "sample_env = \<lparr>kn_start = 0, kn_gate = 0, kn_stored = 0, kn_cancelled = False, kn_others = id, kn_response = Some sample_response\<rparr>"

definition sample_header :: Header where
  "sample_header = header_set ''Authorization'' ''Bearer e30.e30.s'' no_header"

lemma sample_accepted:
  "\<exists>c. Authenticate_keycloak sample_jwt sample_authenticator sample_env (Some sample_header) empty_cache =
     (Some \<lparr>id_Tenant = ''acme'', id_Principal = ''4:acme3:ann''\<rparr>, c)"
proof -
  have "fst (Authenticate_keycloak sample_jwt sample_authenticator sample_env (Some sample_header) empty_cache) =
      Some \<lparr>id_Tenant = ''acme'', id_Principal = ''4:acme3:ann''\<rparr>"
    by code_simp
  then show ?thesis by (metis prod.collapse)
qed



text \<open>The claims behind an identity.\<close>

definition claimed :: "jwt_parser \<Rightarrow> KeycloakAuthenticator \<Rightarrow> string \<Rightarrow> string \<Rightarrow> bool" where
  "claimed jwt a tenant user \<longleftrightarrow> (\<exists>token key claims. jp_claims jwt (ka_issuer a) (ka_audience a) token key = Some claims \<and>
     stringClaim claims (ka_tenantPath a) = Some tenant \<and> stringClaim claims (ka_userPath a) = Some user)"



end
