(* ===== verification/Provider.thy ===== *)
theory Provider
  imports Runtime Json_Decode
begin

text \<open>
  The model providers (\<open>internal/provider/litellm/litellm.go\<close>, \<open>internal/provider/foundry/foundry.go\<close>): configuration, the request
  built from a round, the transport that reports the dispatch before the first byte is sent, and the classification of errors. The
  client libraries of the two services are parameters: the HTTP requests they make through the transport, and their answer.
\<close>

section \<open>Configuration\<close>

record ModelURL =
  mu_Scheme :: string
  mu_Host :: string
  mu_User :: bool
  mu_RawQuery :: string
  mu_Fragment :: string

type_synonym model_url_parser = "string \<Rightarrow> ModelURL option"

record litellm_Config =
  lc_BaseURL :: string
  lc_APIKey :: string
  lc_Model :: string

datatype provider_error =
    NoLookup | BadBaseURL | KeyAndModelRequired | EndpointRequired | EndpointNotAbsolute | DeploymentRequired | CredentialRequired

definition litellm_validate :: "model_url_parser \<Rightarrow> litellm_Config \<Rightarrow> provider_error + litellm_Config" where
  "litellm_validate parse c =
     (let c' = \<lparr>lc_BaseURL = trim_right [''/''] (trim_space (lc_BaseURL c)), lc_APIKey = trim_space (lc_APIKey c),
                lc_Model = trim_space (lc_Model c)\<rparr>
      in case parse (lc_BaseURL c') of None \<Rightarrow> Inl BadBaseURL
         | Some u \<Rightarrow>
             if mu_Scheme u \<noteq> ''http'' \<and> mu_Scheme u \<noteq> ''https'' \<or> mu_Host u = [] \<or> mu_User u \<or> mu_RawQuery u \<noteq> [] \<or> mu_Fragment u \<noteq> []
             then Inl BadBaseURL
             else if lc_APIKey c' = [] \<or> lc_Model c' = [] then Inl KeyAndModelRequired
             else Inr c')"

definition litellm_ConfigFromEnv :: "model_url_parser \<Rightarrow> (string \<Rightarrow> string) option \<Rightarrow> provider_error + litellm_Config" where
  "litellm_ConfigFromEnv parse lookup =
     (case lookup of None \<Rightarrow> Inl NoLookup
      | Some l \<Rightarrow> litellm_validate parse \<lparr>lc_BaseURL = l ''AZ_AGENT_LITELLM_BASE_URL'', lc_APIKey = l ''AZ_AGENT_LITELLM_API_KEY'',
          lc_Model = l ''AZ_AGENT_LITELLM_MODEL''\<rparr>)"

definition litellm_New :: "model_url_parser \<Rightarrow> litellm_Config \<Rightarrow> provider_error + litellm_Config" where
  "litellm_New parse c = litellm_validate parse c"

record foundry_Config =
  fc_ProjectEndpoint :: string
  fc_Deployment :: string
  fc_Credential :: bool

definition foundry_validate :: "model_url_parser \<Rightarrow> foundry_Config \<Rightarrow> provider_error + foundry_Config" where
  "foundry_validate parse c =
     (let c' = c\<lparr>fc_ProjectEndpoint := trim_right [''/''] (trim_space (fc_ProjectEndpoint c)), fc_Deployment := trim_space (fc_Deployment c)\<rparr>
      in if fc_ProjectEndpoint c' = [] then Inl EndpointRequired
         else case parse (fc_ProjectEndpoint c') of None \<Rightarrow> Inl EndpointNotAbsolute
         | Some u \<Rightarrow>
             if mu_Scheme u = [] \<or> mu_Host u = [] then Inl EndpointNotAbsolute
             else if fc_Deployment c' = [] then Inl DeploymentRequired
             else if \<not> fc_Credential c' then Inl CredentialRequired
             else Inr c')"

definition foundry_ConfigFromEnv :: "model_url_parser \<Rightarrow> (string \<Rightarrow> string) option \<Rightarrow> bool \<Rightarrow> provider_error + foundry_Config" where
  "foundry_ConfigFromEnv parse lookup credential =
     (case lookup of None \<Rightarrow> Inl NoLookup
      | Some l \<Rightarrow> foundry_validate parse \<lparr>fc_ProjectEndpoint = l ''AZ_AGENT_FOUNDRY_PROJECT_ENDPOINT'',
          fc_Deployment = l ''AZ_AGENT_FOUNDRY_DEPLOYMENT'', fc_Credential = credential\<rparr>)"

definition foundry_New :: "model_url_parser \<Rightarrow> foundry_Config \<Rightarrow> provider_error + foundry_Config" where
  "foundry_New parse c = foundry_validate parse c"

section \<open>The request\<close>

text \<open>The items of a request; the messages of a run are never nil pointers.\<close>

datatype input_item =
    InputMessage string string
  | InputCall string string bytes
  | InputOutput string string

fun resultString :: "result \<Rightarrow> string" where
  "resultString (TextResult s) = s"
| "resultString (RemoteResult (JStr s)) = s"
| "resultString (RemoteResult j) = print_json (canon j)"
| "resultString (StringMap m) = print_json (canon (JObj (map (\<lambda>(k, v). (k, JStr v)) m)))"
| "resultString (AnyMap m) = print_json (canon (JObj m))"
| "resultString (ReplyResult r) = print_json (reply_json r)"

definition text_role :: "Role \<Rightarrow> string option" where
  "text_role r = (case r of RoleUser \<Rightarrow> Some ''user'' | RoleAssistant \<Rightarrow> Some ''assistant''
     | RoleOther s \<Rightarrow> if s = ''system'' then Some s else None | RoleTool \<Rightarrow> None)"

fun content_item :: "Role \<Rightarrow> content \<Rightarrow> input_item option" where
  "content_item r (TextContent t) = map_option (\<lambda>role. InputMessage role t) (text_role r)"
| "content_item r (CallContent c) =
     (if r \<noteq> RoleAssistant \<or> fc_CallID c = [] \<or> fc_Name c = [] then None
      else Some (InputCall (fc_CallID c) (fc_Name c) (fc_Arguments c)))"
| "content_item r (ResultContent call_id v) =
     (if r \<noteq> RoleTool \<or> call_id = [] then None else Some (InputOutput call_id (resultString v)))"
| "content_item r (OtherContent j) = None"

fun all_some :: "'a option list \<Rightarrow> 'a list option" where
  "all_some [] = Some []"
| "all_some (x # xs) = (case (x, all_some xs) of (Some a, Some as) \<Rightarrow> Some (a # as) | _ \<Rightarrow> None)"

fun message_items :: "message list \<Rightarrow> input_item list option" where
  "message_items [] = Some []"
| "message_items (m # ms) =
     (if m_Contents m = [] then None
      else case (all_some (map (content_item (m_Role m)) (m_Contents m)), message_items ms) of
        (Some is, Some rest) \<Rightarrow> Some (is @ rest) | _ \<Rightarrow> None)"

definition inputItems :: "message list \<Rightarrow> input_item list option" where
  "inputItems history = (case message_items history of Some is \<Rightarrow> if is = [] then None else Some is | None \<Rightarrow> None)"

fun schema :: "json option \<Rightarrow> json option" where
  "schema (Some (JObj kvs)) = Some (canon (JObj kvs))"
| "schema _ = None"

record function_tool =
  ft_Name :: string
  ft_Description :: string
  ft_Parameters :: json

record response_params =
  rq_Model :: string
  rq_Input :: "input_item list"
  rq_Instructions :: string
  rq_Store :: bool
  rq_Tools :: "function_tool list"

definition function_tools :: "ModelTool list \<Rightarrow> function_tool list option" where
  "function_tools ts = all_some (map (\<lambda>t. map_option (\<lambda>p. \<lparr>ft_Name = mt_Name t, ft_Description = mt_Description t, ft_Parameters = p\<rparr>)
     (schema (mt_Schema t))) ts)"

section \<open>The transport\<close>

text \<open>\<open>tp_dispatch\<close>: no callback, or what the callback answers. \<open>tp_calls\<close> and \<open>tp_sent\<close> record how often it was called and
  which requests went out.\<close>

record transport =
  tp_dispatch :: "run_error option option"
  tp_access :: Access
  tp_once :: bool
  tp_err :: "run_error option"
  tp_calls :: nat
  tp_sent :: "Header list"

definition new_transport :: "run_error option option \<Rightarrow> Access \<Rightarrow> transport" where
  "new_transport d a = \<lparr>tp_dispatch = d, tp_access = a, tp_once = False, tp_err = None, tp_calls = 0, tp_sent = []\<rparr>"

definition RoundTrip :: "Header \<Rightarrow> transport \<Rightarrow> transport" where
  "RoundTrip h t =
     (let t' = (case tp_dispatch t of None \<Rightarrow> t
        | Some r \<Rightarrow> if tp_once t then t else t\<lparr>tp_once := True, tp_err := r, tp_calls := Suc (tp_calls t)\<rparr>)
      in if tp_dispatch t \<noteq> None \<and> tp_err t' \<noteq> None then t' else t'\<lparr>tp_sent := tp_sent t' @ [Access_Apply (tp_access t') h]\<rparr>)"

section \<open>Errors\<close>

record api_error =
  ae_Status :: int
  ae_Raw :: bytes
  ae_Header :: Header
  ae_Body :: "bytes option"

datatype sdk_error = SdkContext | SdkAPI api_error | SdkOther

text \<open>The body of the response where it can be read, its first 64 KiB, and what the library kept of it otherwise.\<close>

definition limitError :: "clocks \<Rightarrow> int \<Rightarrow> api_error \<Rightarrow> LimitError option" where
  "limitError ck now e =
     (if ae_Status e \<noteq> 429 \<and> ae_Status e \<noteq> 400 then None
      else let body = (case ae_Body e of None \<Rightarrow> ae_Raw e | Some b \<Rightarrow> if b = [] then ae_Raw e else take 65536 b) in
           ClassifyLimit ck (ae_Status e) (ae_Header e) body now)"

definition sanitize :: "string \<Rightarrow> clocks \<Rightarrow> int \<Rightarrow> sdk_error \<Rightarrow> run_error" where
  "sanitize failed ck now err =
     (case err of SdkContext \<Rightarrow> ErrContext
      | SdkOther \<Rightarrow> ErrOther failed
      | SdkAPI e \<Rightarrow>
          (case limitError ck now e of Some l \<Rightarrow> ErrLimit l
           | None \<Rightarrow> if ae_Status e = 401 \<or> ae_Status e = 403 then ErrAuthRequired else ErrOther failed))"

definition litellm_failed :: string where "litellm_failed = ''LiteLLM model request failed''"
definition litellm_input_failed :: string where "litellm_input_failed = ''LiteLLM model input failed''"
definition foundry_failed :: string where "foundry_failed = ''Foundry model request failed''"

definition litellm_sanitize :: "clocks \<Rightarrow> int \<Rightarrow> sdk_error \<Rightarrow> run_error" where
  "litellm_sanitize ck now err = sanitize litellm_failed ck now err"

definition foundry_sanitize :: "clocks \<Rightarrow> int \<Rightarrow> sdk_error \<Rightarrow> run_error" where
  "foundry_sanitize ck now err = sanitize foundry_failed ck now err"

section \<open>Completion\<close>

record output_item =
  oi_Type :: string
  oi_CallID :: string
  oi_Name :: string
  oi_Arguments :: bytes

record sdk_response =
  sr_Status :: string
  sr_Text :: string
  sr_Usage :: Tokens
  sr_Output :: "output_item list"

text \<open>The client of the proxy: the HTTP requests it makes for the parameters, and its answer when the transport let them pass.\<close>

record litellm_sdk =
  ls_requests :: "response_params \<Rightarrow> Header list"
  ls_answer :: "response_params \<Rightarrow> sdk_error + sdk_response option"

definition tool_call :: "output_item \<Rightarrow> ToolCall" where
  "tool_call item = \<lparr>tc_CallID = oi_CallID item, tc_Name = oi_Name item, tc_Arguments = oi_Arguments item\<rparr>"

definition litellm_params :: "litellm_Config \<Rightarrow> ModelRequest \<Rightarrow> response_params option" where
  "litellm_params c req =
     (case (inputItems (mq_ProviderMessages req), function_tools (mq_Tools req)) of
        (Some input, Some tools) \<Rightarrow> Some \<lparr>rq_Model = lc_Model c, rq_Input = input, rq_Instructions = mq_Instructions req,
           rq_Store = False, rq_Tools = tools\<rparr>
      | _ \<Rightarrow> None)"

definition litellm_Complete ::
    "litellm_sdk \<Rightarrow> clocks \<Rightarrow> int \<Rightarrow> litellm_Config option \<Rightarrow> bool \<Rightarrow> run_error option option \<Rightarrow> ModelRequest \<Rightarrow>
     (run_error + ModelResponse) \<times> transport" where
  "litellm_Complete sdk ck now a cancelled dispatch req =
     (let t0 = new_transport dispatch (mq_Access req) in
      case a of None \<Rightarrow> (Inl (ErrOther ''LiteLLM adapter unavailable''), t0)
      | Some c \<Rightarrow>
          if cancelled then (Inl ErrContext, t0)
          else case litellm_params c req of None \<Rightarrow> (Inl (ErrOther litellm_input_failed), t0)
          | Some params \<Rightarrow>
              let t = fold RoundTrip (ls_requests sdk params) t0 in
              (case tp_err t of Some e \<Rightarrow> (Inl e, t)
               | None \<Rightarrow>
                   (case ls_answer sdk params of
                      Inl err \<Rightarrow> (Inl (litellm_sanitize ck now err), t)
                    | Inr None \<Rightarrow> (Inl (ErrOther litellm_failed), t)
                    | Inr (Some r) \<Rightarrow>
                        if sr_Status r \<noteq> ''completed'' then (Inl (ErrOther litellm_failed), t)
                        else (Inr \<lparr>ms_Text = sr_Text r,
                                 ms_ToolCalls = map tool_call (filter (\<lambda>item. oi_Type item = ''function_call'') (sr_Output r)),
                                 ms_ToolCall = None, ms_Usage = sr_Usage r\<rparr>, t))))"

text \<open>The agent framework of the project service: its requests, the error it makes of one of the transport, and its answer.\<close>

record foundry_agent =
  fa_requests :: "foundry_Config \<Rightarrow> ModelRequest \<Rightarrow> Header list"
  fa_wrapped :: "run_error \<Rightarrow> sdk_error"
  fa_answer :: "foundry_Config \<Rightarrow> ModelRequest \<Rightarrow> sdk_error + string \<times> Tokens \<times> content list"

fun calls_of :: "content list \<Rightarrow> ToolCall list" where
  "calls_of [] = []"
| "calls_of (CallContent c # cs) = \<lparr>tc_CallID = fc_CallID c, tc_Name = fc_Name c, tc_Arguments = fc_Arguments c\<rparr> # calls_of cs"
| "calls_of (_ # cs) = calls_of cs"

definition foundry_Complete ::
    "foundry_agent \<Rightarrow> clocks \<Rightarrow> int \<Rightarrow> foundry_Config option \<Rightarrow> bool \<Rightarrow> run_error option option \<Rightarrow> ModelRequest \<Rightarrow>
     (run_error + ModelResponse) \<times> transport" where
  "foundry_Complete ag ck now a cancelled dispatch req =
     (let t0 = new_transport dispatch (mq_Access req) in
      if cancelled then (Inl ErrContext, t0)
      else case a of None \<Rightarrow> (Inl (ErrOther ''Foundry model is not configured''), t0)
      | Some c \<Rightarrow>
          let t = fold RoundTrip (fa_requests ag c req) t0 in
          (case tp_err t of Some e \<Rightarrow> (Inl (foundry_sanitize ck now (fa_wrapped ag e)), t)
           | None \<Rightarrow>
               (case fa_answer ag c req of
                  Inl err \<Rightarrow> (Inl (foundry_sanitize ck now err), t)
                | Inr (text, tokens, contents) \<Rightarrow>
                    (Inr \<lparr>ms_Text = text, ms_ToolCalls = calls_of contents, ms_ToolCall = None,
                       ms_Usage = tokens\<lparr>tk_Model := fc_Deployment c\<rparr>\<rparr>, t))))"

section \<open>The contract of a provider\<close>

text \<open>What every round trip of a transport leaves: the callback is asked once, before anything is sent, and its refusal
  stands.\<close>

definition transport_ok :: "transport \<Rightarrow> bool" where
  "transport_ok t \<longleftrightarrow>
     (case tp_dispatch t of
        None \<Rightarrow> tp_calls t = 0 \<and> tp_err t = None
      | Some r \<Rightarrow> if tp_once t then tp_calls t = 1 \<and> tp_err t = r \<and> (r \<noteq> None \<longrightarrow> tp_sent t = [])
          else tp_calls t = 0 \<and> tp_err t = None \<and> tp_sent t = []) \<and>
     (\<forall>h \<in> set (tp_sent t). \<exists>h0. h = Access_Apply (tp_access t) h0)"

lemma RoundTrip_frame [simp]: "tp_dispatch (RoundTrip h t) = tp_dispatch t" "tp_access (RoundTrip h t) = tp_access t"
  by (simp_all add: RoundTrip_def Let_def split: option.splits)

lemma RoundTrip_ok:
  assumes "transport_ok t"
  shows "transport_ok (RoundTrip h t)"
proof (cases "tp_dispatch t")
  case None
  with assms show ?thesis by (auto simp: transport_ok_def RoundTrip_def)
next
  case (Some r)
  with assms show ?thesis by (cases r; cases "tp_once t") (auto simp: transport_ok_def RoundTrip_def)
qed

lemma round_trips_ok: "transport_ok t \<Longrightarrow> transport_ok (fold RoundTrip hs t)"
  by (induction hs arbitrary: t) (simp_all add: RoundTrip_ok)

lemma round_trips_frame [simp]:
  "tp_dispatch (fold RoundTrip hs t) = tp_dispatch t" "tp_access (fold RoundTrip hs t) = tp_access t"
  by (induction hs arbitrary: t) simp_all

lemma new_transport_simps [simp]:
  "transport_ok (new_transport d a)" "tp_dispatch (new_transport d a) = d" "tp_access (new_transport d a) = a"
  "tp_err (new_transport d a) = None"
  by (simp_all add: transport_ok_def new_transport_def split: option.splits)

lemma transport_err: "transport_ok t \<Longrightarrow> tp_err t = Some e \<Longrightarrow> tp_dispatch t = Some (Some e)"
  by (cases "tp_dispatch t") (auto simp: transport_ok_def split: if_splits)

text \<open>An adapter sends through the transport only, and completes only what the callback let pass.\<close>

locale model_adapter =
  fixes complete :: "run_error option option \<Rightarrow> ModelRequest \<Rightarrow> (run_error + ModelResponse) \<times> transport"
    and requests :: "ModelRequest \<Rightarrow> Header list"
  assumes through: "snd (complete d req) = new_transport d (mq_Access req) \<or>
      snd (complete d req) = fold RoundTrip (requests req) (new_transport d (mq_Access req))"
    and passed: "fst (complete d req) = Inr m \<Longrightarrow> tp_err (snd (complete d req)) = None"
begin

lemma snd_ok:
  "transport_ok (snd (complete d req))" "tp_dispatch (snd (complete d req)) = d" "tp_access (snd (complete d req)) = mq_Access req"
  using through [of d req] by (auto simp: round_trips_ok)

lemma dispatch_once: "tp_calls (snd (complete d req)) \<le> 1"
  using snd_ok(1) [of d req] by (auto simp: transport_ok_def split: option.splits if_splits)

lemma refused_sends_nothing: "tp_sent (snd (complete (Some (Some e)) req)) = []"
  using snd_ok [of "Some (Some e)" req] by (auto simp: transport_ok_def split: option.splits if_splits)

lemma sent_after_dispatch:
  assumes "d \<noteq> None" "tp_sent (snd (complete d req)) \<noteq> []"
  shows "tp_calls (snd (complete d req)) = 1"
  using snd_ok [of d req] assms by (auto simp: transport_ok_def split: option.splits if_splits)

lemma sent_decorated: "h \<in> set (tp_sent (snd (complete d req))) \<Longrightarrow> \<exists>h0. h = Access_Apply (mq_Access req) h0"
  using snd_ok [of d req] by (auto simp: transport_ok_def split: option.splits if_splits)

lemma refused_fails:
  assumes "fst (complete (Some (Some e)) req) = Inr m"
  shows "tp_calls (snd (complete (Some (Some e)) req)) = 0"
  using snd_ok [of "Some (Some e)" req] passed [OF assms] by (auto simp: transport_ok_def split: option.splits if_splits)

end

definition litellm_requests :: "litellm_sdk \<Rightarrow> litellm_Config option \<Rightarrow> ModelRequest \<Rightarrow> Header list" where
  "litellm_requests sdk a req = (case a of None \<Rightarrow> [] | Some c \<Rightarrow> (case litellm_params c req of None \<Rightarrow> [] | Some p \<Rightarrow> ls_requests sdk p))"

definition foundry_requests :: "foundry_agent \<Rightarrow> foundry_Config option \<Rightarrow> ModelRequest \<Rightarrow> Header list" where
  "foundry_requests ag a req = (case a of None \<Rightarrow> [] | Some c \<Rightarrow> fa_requests ag c req)"

interpretation litellm: model_adapter "litellm_Complete sdk ck now a cancelled" "litellm_requests sdk a"
  for sdk ck now a cancelled
  by unfold_locales (auto simp: litellm_Complete_def litellm_requests_def Let_def split: option.splits sum.splits if_splits)

interpretation foundry: model_adapter "foundry_Complete ag ck now b cancelled" "foundry_requests ag b"
  for ag ck now b cancelled
  by unfold_locales (auto simp: foundry_Complete_def foundry_requests_def Let_def split: option.splits sum.splits if_splits)


text \<open>The requests of a round, for the witness below.\<close>

definition sample_request :: ModelRequest where
  "sample_request = \<lparr>mq_History = [], mq_PendingCommands = [], mq_Instructions = [], mq_Messages = [],
     mq_ProviderMessages = [\<lparr>m_Role = RoleUser, m_Contents = [TextContent ''hello'']\<rparr>], mq_Tools = [], mq_ToolResults = [],
     mq_DefinitionDigest = [], mq_ActiveJourneys = [],
     mq_Provenance = \<lparr>rp_Definition = ([], []), rp_System = ([], []), rp_Catalog = ([], []), rp_History = ([], []), rp_Active = [],
       rp_Pending = [], rp_IncludedInput = [], rp_Skills = []\<rparr>, mq_Access = [(''X-Tenant'', ''acme'')]\<rparr>"

definition sample_sdk :: litellm_sdk where
  "sample_sdk = \<lparr>ls_requests = (\<lambda>_. [no_header, no_header]), ls_answer = (\<lambda>_. Inl SdkOther)\<rparr>"

definition no_clocks :: clocks where "no_clocks = \<lparr>ck_ms = (\<lambda>_. None), ck_date = (\<lambda>_. None)\<rparr>"


section \<open>Errors of an adapter\<close>



text \<open>The two adapters differ when the callback fails: the proxy's returns that error, the project service's replaces it, unless it is the
  end of the context. An error of the journal loses its identity there.\<close>

lemma foundry_replaces_callback_error:
  assumes "fa_wrapped ag e = SdkOther" "fa_requests ag c req = h # hs"
  shows "fst (foundry_Complete ag ck now (Some c) False (Some (Some e)) req) = Inl (ErrOther foundry_failed)"
proof -
  let ?t = "fold RoundTrip (h # hs) (new_transport (Some (Some e)) (mq_Access req))"
  have "tp_once (RoundTrip x t)" if "tp_dispatch t = Some r" for x t r using that by (auto simp: RoundTrip_def Let_def)
  then have "tp_dispatch t = Some r \<Longrightarrow> tp_once (fold RoundTrip (x # xs) t)" for x xs t r
    by (induction xs arbitrary: x t) simp_all
  then have "tp_once ?t" by (simp only: new_transport_simps)
  moreover have "transport_ok ?t" by (rule round_trips_ok) simp
  ultimately have "tp_err ?t = Some e"
    by (simp add: transport_ok_def del: fold_simps)
  then show ?thesis using assms by (simp add: foundry_Complete_def Let_def foundry_sanitize_def sanitize_def del: fold_simps)
qed

end
