(* ===== verification/Bundle_Roundtrip.thy ===== *)
theory Bundle_Roundtrip
  imports Bundle "HOL-Library.Multiset"
begin

text \<open>
  The bundle of a compiled set is enough to compile it again: the compiler records every file that its result depends on.
  This is what the definition store relies on when it keeps the bundle of a set and compiles it when it is needed.
\<close>

section \<open>Validated bundles\<close>

definition slash_free :: "path \<Rightarrow> bool" where
  "slash_free p \<longleftrightarrow> (\<forall>c \<in> set p. slash \<notin> set c)"

lemma slash_free_simps [simp]:
  "slash_free []" "slash_free (c # p) \<longleftrightarrow> slash \<notin> set c \<and> slash_free p" "slash_free (p @ q) \<longleftrightarrow> slash_free p \<and> slash_free q"
  by (auto simp: slash_free_def)

lemma slash_free_split [simp]: "slash_free (split_on slash s)"
  using split_on_parts by (auto simp: slash_free_def)

lemma split_join [simp]: "p \<noteq> [] \<Longrightarrow> slash_free p \<Longrightarrow> split_on slash (join ''/'' p) = p"
  by (rule split_on_join) (auto simp: slash_free_def)

lemma join_eq: "slash_free p \<Longrightarrow> slash_free q \<Longrightarrow> p \<noteq> [] \<Longrightarrow> q \<noteq> [] \<Longrightarrow> join ''/'' p = join ''/'' q \<longleftrightarrow> p = q"
  by (metis split_join)

text \<open>The paths of the files of a bundle.\<close>

definition paths :: "Bundle \<Rightarrow> path set" where
  "paths b = split_on slash ` fst ` set b"

lemma in_paths: "p \<noteq> [] \<Longrightarrow> slash_free p \<Longrightarrow> p \<in> paths b \<longleftrightarrow> join ''/'' p \<in> fst ` set b"
  unfolding paths_def by (metis (no_types, lifting) image_iff join_split_on split_join)

lemma in_paths_nonempty: "p \<in> paths b \<Longrightarrow> p \<noteq> [] \<and> slash_free p"
  by (auto simp: paths_def)

lemma file_at_iff: "slash_free p \<Longrightarrow> file_at b p \<noteq> None \<longleftrightarrow> p \<in> paths b"
  using in_paths [of p b] in_paths_nonempty [of p b] by (cases "p = []") (auto simp: file_at_def map_of_eq_None_iff)

lemma is_dir_iff: "is_dir b p \<longleftrightarrow> p = [] \<or> (\<exists>q \<in> paths b. strict_prefix p q)"
  by (force simp: is_dir_def paths_def list_ex_iff)

lemma ReadDir_iff: "c \<in> set (ReadDir b p) \<longleftrightarrow> (\<exists>q. p @ c # q \<in> paths b)"
proof -
  have "c \<in> set (child_of p k) \<longleftrightarrow> (\<exists>q. p @ c # q = split_on slash k)" for k
    unfolding child_of_def strict_prefix_def prefix_def
    by (cases "split_on slash k = p") (auto simp: neq_Nil_conv, (metis nth_append_length)+)
  moreover have "c \<in> set (ReadDir b p) \<longleftrightarrow> (\<exists>k \<in> fst ` set b. c \<in> set (child_of p k))"
    by (force simp: ReadDir_def)
  ultimately show ?thesis by (auto simp: paths_def image_iff)
qed

lemma distinct_ReadDir [simp]: "distinct (ReadDir b p)"
  by (simp add: ReadDir_def)

definition valid_bundle :: "Bundle \<Rightarrow> bool" where
  "valid_bundle b \<longleftrightarrow> (\<forall>p \<in> paths b. list_all valid_part p \<and> (\<forall>q \<in> paths b. \<not> strict_prefix q p))"

lemma validate_files_iff:
  "0 \<le> used \<Longrightarrow> used \<le> MaxBundleBytes \<Longrightarrow> validate_files b used xs = Inr () \<longleftrightarrow>
     (\<forall>(k, d) \<in> set xs. valid_name k \<and> int (length d) \<le> MaxBundleFileBytes \<and> (\<forall>dir \<in> set (dirs_of k). map_of b dir = None)) \<and>
     used + sum_list (map (\<lambda>(k, d). int (length d)) xs) \<le> MaxBundleBytes"
proof (induction xs arbitrary: used)
  case (Cons x xs)
  obtain k d where x: "x = (k, d)" by fastforce
  have "0 \<le> sum_list (map (\<lambda>(k, d). int (length d)) xs)" by (rule sum_list_nonneg) auto
  with Cons x show ?case by (auto simp: list_ex_iff)
qed simp

lemma dirs_of_iff: "dir \<in> set (dirs_of k) \<longleftrightarrow> (\<exists>q. q \<noteq> [] \<and> strict_prefix q (split_on slash k) \<and> dir = join ''/'' q)"
proof
  assume "\<exists>q. q \<noteq> [] \<and> strict_prefix q (split_on slash k) \<and> dir = join ''/'' q"
  then obtain q r where q: "q \<noteq> []" "split_on slash k = q @ r" "r \<noteq> []" "dir = join ''/'' q"
    by (auto simp: strict_prefix_def prefix_def)
  then have "length q \<in> set [1..<length (split_on slash k)]" "q = take (length q) (split_on slash k)"
    by (auto simp: Suc_le_eq)
  with q(4) show "dir \<in> set (dirs_of k)" unfolding dirs_of_def by (metis (no_types, lifting) image_eqI set_map)
next
  assume "dir \<in> set (dirs_of k)"
  then obtain n where n: "1 \<le> n" "n < length (split_on slash k)" "dir = join ''/'' (take n (split_on slash k))"
    by (auto simp: dirs_of_def)
  then have "take n (split_on slash k) \<noteq> []" "strict_prefix (take n (split_on slash k)) (split_on slash k)"
    by (auto simp: strict_prefix_def take_is_prefix)
  with n(3) show "\<exists>q. q \<noteq> [] \<and> strict_prefix q (split_on slash k) \<and> dir = join ''/'' q" by blast
qed

lemma validate_valid: "validateBundle b = Inr () \<Longrightarrow> valid_bundle b"
proof -
  assume "validateBundle b = Inr ()"
  then have v: "\<forall>(k, d) \<in> set b. valid_name k \<and> (\<forall>dir \<in> set (dirs_of k). map_of b dir = None)"
    using validate_files_iff [of 0 b b] by (auto simp: validateBundle_def MaxBundleBytes_def split: if_splits)
  show ?thesis
    unfolding valid_bundle_def
  proof (intro ballI conjI notI)
    fix p assume "p \<in> paths b"
    then obtain k d where k: "(k, d) \<in> set b" "p = split_on slash k" by (auto simp: paths_def)
    with v show "list_all valid_part p" by (auto simp: valid_name_def)
    fix q assume q: "q \<in> paths b" "strict_prefix q p"
    then have "join ''/'' q \<in> set (dirs_of k)" using k in_paths_nonempty [OF q(1)] by (auto simp: dirs_of_iff)
    with v k(1) have "map_of b (join ''/'' q) = None" by auto
    with q(1) show False using in_paths [of q b] in_paths_nonempty [OF q(1)] by (auto simp: map_of_eq_None_iff)
  qed
qed

text \<open>A part of a validated bundle is validated.\<close>

lemma validate_part:
  assumes "validateBundle b = Inr ()" "distinct (map fst b')" "map_of b' \<subseteq>\<^sub>m map_of b"
  shows "validateBundle b' = Inr ()"
proof -
  have sub: "set b' \<subseteq> set b"
  proof
    fix x assume "x \<in> set b'"
    then have "map_of b' (fst x) = Some (snd x)" using assms(2) by simp
    with assms(3) have "map_of b (fst x) = Some (snd x)" by (metis domI map_le_def)
    then show "x \<in> set b" by (metis map_of_SomeD prod.collapse)
  qed
  have m: "mset b' \<subseteq># mset b"
    unfolding subseteq_mset_def
  proof
    fix x
    have "distinct b'" using assms(2) by (simp add: distinct_map)
    then have "count (mset b') x = (if x \<in> set b' then 1 else 0)" using distinct_count_atmost_1 by metis
    moreover have "x \<in> set b' \<Longrightarrow> 1 \<le> count (mset b) x" using sub by (auto simp: Suc_le_eq)
    ultimately show "count (mset b') x \<le> count (mset b) x" by simp
  qed
  have none: "map_of b' dir = None" if "map_of b dir = None" for dir
    using that assms(3) by (metis domIff map_le_implies_dom_le subsetD)
  have len: "length b' \<le> length b" using m by (metis size_mset size_mset_mono)
  have sum: "sum_list (map f b') \<le> sum_list (map f b)" if "\<And>x. 0 \<le> f x" for f :: "string \<times> bytes \<Rightarrow> int"
  proof -
    have "sum_mset (image_mset f (mset b)) = sum_mset (image_mset f (mset b')) + sum_mset (image_mset f (mset b - mset b'))"
      using m by (metis image_mset_union subset_mset.add_diff_inverse sum_mset.union)
    moreover have "0 \<le> sum_mset (image_mset f M)" for M by (induction M) (auto simp: that)
    then have "0 \<le> sum_mset (image_mset f (mset b - mset b'))" .
    ultimately show ?thesis by (simp add: sum_mset_sum_list [symmetric])
  qed
  from assms(1) have b: "int (length b) \<le> MaxBundleFiles"
    "\<forall>(k, d) \<in> set b. valid_name k \<and> int (length d) \<le> MaxBundleFileBytes \<and> (\<forall>dir \<in> set (dirs_of k). map_of b dir = None)"
    "sum_list (map (\<lambda>(k, d). int (length d)) b) \<le> MaxBundleBytes"
    using validate_files_iff [of 0 b b] by (auto simp: validateBundle_def MaxBundleBytes_def split: if_splits)
  have "\<forall>(k, d) \<in> set b'. valid_name k \<and> int (length d) \<le> MaxBundleFileBytes \<and> (\<forall>dir \<in> set (dirs_of k). map_of b' dir = None)"
    using b(2) sub none by fastforce
  moreover have "sum_list (map (\<lambda>(k, d). int (length d)) b') \<le> MaxBundleBytes"
    using b(3) sum [of "\<lambda>(k, d). int (length d)"] by auto
  moreover have "int (length b') \<le> MaxBundleFiles" using b(1) len by simp
  ultimately show ?thesis
    using validate_files_iff [of 0 b' b'] by (simp add: validateBundle_def MaxBundleBytes_def)
qed

section \<open>Enumeration\<close>

text \<open>The visible files below a directory, as a set over the names of the bundle.\<close>

definition hidden :: "string \<Rightarrow> bool" where "hidden c \<longleftrightarrow> prefix ''.'' c"

definition visible_files :: "Bundle \<Rightarrow> path \<Rightarrow> path \<Rightarrow> string set \<Rightarrow> string set" where
  "visible_files b root rel C =
     {join ''/'' (rel @ c # q) | c q. c \<in> C \<and> root @ rel @ c # q \<in> paths b \<and> (\<forall>x \<in> set (c # q). \<not> hidden x) \<and>
        rel @ c # q \<noteq> [''SKILL.md'']}"

lemma visible_empty [simp]: "visible_files b root rel {} = {}"
  by (simp add: visible_files_def)

lemma visible_insert: "visible_files b root rel (insert c C) = visible_files b root rel {c} \<union> visible_files b root rel C"
  by (auto simp: visible_files_def)

lemma visible_disjoint:
  assumes "c \<notin> C"
  shows "visible_files b root rel {c} \<inter> visible_files b root rel C = {}"
proof -
  have "slash_free (rel @ x # q)" if "root @ rel @ x # q \<in> paths b" for x q
    using in_paths_nonempty [OF that] by simp
  then show ?thesis
    using assms unfolding visible_files_def by (auto simp: join_eq)
qed

lemma visible_hidden: "hidden c \<Longrightarrow> visible_files b root rel {c} = {}"
  by (auto simp: visible_files_def)

lemma visible_dir:
  assumes "valid_bundle b" "is_dir b (root @ rel @ [c])" "\<not> hidden c"
  shows "visible_files b root rel {c} = visible_files b root (rel @ [c]) (set (ReadDir b (root @ rel @ [c])))"
proof -
  from assms(2) obtain p where p: "p \<in> paths b" "strict_prefix (root @ rel @ [c]) p" by (auto simp: is_dir_iff)
  then have no: "root @ rel @ [c] \<notin> paths b" using assms(1) by (auto simp: valid_bundle_def)
  show ?thesis
  proof (intro set_eqI iffI)
    fix s assume "s \<in> visible_files b root rel {c}"
    then obtain q where q: "s = join ''/'' (rel @ c # q)" "root @ rel @ c # q \<in> paths b" "\<forall>x \<in> set (c # q). \<not> hidden x"
      by (auto simp: visible_files_def)
    with no obtain x r where "q = x # r" by (cases q) auto
    with q show "s \<in> visible_files b root (rel @ [c]) (set (ReadDir b (root @ rel @ [c])))"
      unfolding visible_files_def by (auto simp: ReadDir_iff intro!: exI [of _ x] exI [of _ r])
  next
    fix s assume "s \<in> visible_files b root (rel @ [c]) (set (ReadDir b (root @ rel @ [c])))"
    then obtain d q where "s = join ''/'' ((rel @ [c]) @ d # q)" "root @ (rel @ [c]) @ d # q \<in> paths b"
      "\<forall>x \<in> set (d # q). \<not> hidden x" unfolding visible_files_def by blast
    with assms(3) show "s \<in> visible_files b root rel {c}"
      unfolding visible_files_def by (auto intro!: exI [of _ "d # q"] simp: append_eq_Cons_conv)
  qed
qed

lemma visible_file:
  assumes "\<not> is_dir b (root @ rel @ [c])" "c \<in> set (ReadDir b (root @ rel))" "\<not> hidden c"
  shows "visible_files b root rel {c} = (if rel = [] \<and> c = ''SKILL.md'' then {} else {join ''/'' (rel @ [c])})"
proof -
  from assms(2) obtain q where q: "root @ rel @ c # q \<in> paths b" by (auto simp: ReadDir_iff)
  have nil: "q = []" if "root @ rel @ c # q \<in> paths b" for q
    using assms(1) that by (auto simp: is_dir_iff strict_prefix_def prefix_def)
  with q have "root @ rel @ [c] \<in> paths b" by auto
  with nil assms(3) show ?thesis by (auto simp: visible_files_def append_eq_Cons_conv)
qed

lemma finite_visible [simp]: "finite (visible_files b root rel C)"
proof (rule finite_subset)
  show "visible_files b root rel C \<subseteq> (\<lambda>p. join ''/'' (drop (length root) p)) ` paths b"
    unfolding visible_files_def by (auto intro!: rev_image_eqI)
  show "finite ((\<lambda>p. join ''/'' (drop (length root) p)) ` paths b)" by (simp add: paths_def)
qed

text \<open>A list of new names within the limit, or the error.\<close>

definition listed :: "string set \<Rightarrow> string list \<Rightarrow> bundle_error + string list \<Rightarrow> bool" where
  "listed S files r \<longleftrightarrow> (\<exists>new. distinct new \<and> set new = S \<and>
     r = (if int (length files + length new) \<le> MaxCompiledSkillFiles then Inr (files @ new) else Inl TooManySkillFiles))"

lemma listed_empty: "int (length files) \<le> MaxCompiledSkillFiles \<Longrightarrow> listed {} files (Inr files)"
  by (auto simp: listed_def)

lemma listed_then:
  assumes "listed S files r" "\<And>files'. r = Inr files' \<Longrightarrow> int (length files') \<le> MaxCompiledSkillFiles \<Longrightarrow> listed T files' (k files')" "S \<inter> T = {}" "finite T"
  shows "listed (S \<union> T) files (and_then r k)"
proof -
  from assms(1) obtain new where new: "distinct new" "set new = S"
    "r = (if int (length files + length new) \<le> MaxCompiledSkillFiles then Inr (files @ new) else Inl TooManySkillFiles)"
    by (auto simp: listed_def)
  show ?thesis
  proof (cases "int (length files + length new) \<le> MaxCompiledSkillFiles")
    case True
    then obtain new' where "distinct new'" "set new' = T" "k (files @ new) = (if int (length (files @ new) + length new') \<le> MaxCompiledSkillFiles
        then Inr ((files @ new) @ new') else Inl TooManySkillFiles)"
      using assms(2) [of "files @ new"] new(3) by (auto simp: listed_def)
    with True new assms(3) show ?thesis unfolding listed_def by (intro exI [of _ "new @ new'"]) (auto simp: and_then_def)
  next
    case False
    obtain new' where "set new' = T" "distinct new'" using finite_distinct_list [OF assms(4)] by blast
    with False new assms(3) show ?thesis unfolding listed_def by (intro exI [of _ "new @ new'"]) (auto simp: and_then_def)
  qed
qed

lemma listed_one:
  "int (length files) \<le> MaxCompiledSkillFiles \<Longrightarrow>
     listed {f} files (if int (length files) \<ge> MaxCompiledSkillFiles then Inl TooManySkillFiles else Inr (files @ [f]))"
  unfolding listed_def by (intro exI [of _ "[f]"]) auto

lemma enum_entries_spec:
  assumes "valid_bundle b" "distinct cs" "set cs \<subseteq> set (ReadDir b (root @ rel))" "int (length files) \<le> MaxCompiledSkillFiles"
  shows "listed (visible_files b root rel (set cs)) files (enum_entries b root rel cs files)"
  using assms
proof (induction b root rel cs files rule: enum_entries.induct)
  case (1 b root rel files)
  then show ?case by (simp add: listed_empty)
next
  case (2 b root rel c cs files)
  have cs: "distinct cs" "set cs \<subseteq> set (ReadDir b (root @ rel))" "c \<in> set (ReadDir b (root @ rel))" "c \<notin> set cs"
    using "2.prems" by auto
  have split: "visible_files b root rel (set (c # cs)) = visible_files b root rel {c} \<union> visible_files b root rel (set cs)"
    unfolding list.set by (rule visible_insert)
  note combine = listed_then [OF _ _ visible_disjoint [OF cs(4), of b root rel] finite_visible, where files = files, folded split]
  consider (hidden) "hidden c" | (directory) "\<not> hidden c" "is_dir b (root @ rel @ [c])"
    | (plain) "\<not> hidden c" "\<not> is_dir b (root @ rel @ [c])" by blast
  then show ?case
  proof cases
    case hidden
    then have "enum_entries b root rel (c # cs) files = enum_entries b root rel cs files" by (simp add: hidden_def)
    with "2.IH"(1) "2.prems"(1,4) cs(1,2) hidden show ?thesis by (simp only: hidden_def split visible_hidden Un_empty_left)
  next
    case directory
    have "listed (visible_files b root rel {c}) files (enum_entries b root (rel @ [c]) (ReadDir b (root @ rel @ [c])) files)"
      using "2.IH"(2) "2.prems"(1,4) directory visible_dir [OF "2.prems"(1) directory(2,1)] by (simp add: hidden_def)
    moreover have "listed (visible_files b root rel (set cs)) files' (enum_entries b root rel cs files')"
      if "int (length files') \<le> MaxCompiledSkillFiles" for files'
      using "2.IH"(3) [of files'] "2.prems"(1) that directory cs(1,2) by (simp add: hidden_def)
    moreover have "enum_entries b root rel (c # cs) files =
        and_then (enum_entries b root (rel @ [c]) (ReadDir b (root @ rel @ [c])) files) (enum_entries b root rel cs)"
      using directory by (simp add: hidden_def)
    ultimately show ?thesis using combine [where r = "enum_entries b root (rel @ [c]) (ReadDir b (root @ rel @ [c])) files" and k = "enum_entries b root rel cs"] by (simp only:)
  next
    case plain
    note one = visible_file [OF plain(2) cs(3) plain(1)]
    show ?thesis
    proof (cases "rel = [] \<and> c = ''SKILL.md''")
      case True
      with plain have "enum_entries b root rel (c # cs) files = enum_entries b root rel cs files" by (simp add: hidden_def)
      moreover have "listed (visible_files b root rel (set cs)) files (enum_entries b root rel cs files)"
        using "2.IH"(4) "2.prems"(1,4) cs(1,2) plain True by (simp add: hidden_def)
      moreover have "visible_files b root rel {c} = {}" using one True by simp
      ultimately show ?thesis by (simp only: split Un_empty_left)
    next
      case False
      have "listed (visible_files b root rel {c}) files
          (if int (length files) \<ge> MaxCompiledSkillFiles then Inl TooManySkillFiles else Inr (files @ [join ''/'' (rel @ [c])]))"
        using one False "2.prems"(4) listed_one by (auto simp del: of_nat_le_iff)
      from combine [OF this, where k = "enum_entries b root rel cs"] "2.IH"(5) "2.prems"(1) cs(1,2) False plain show ?thesis
        by (auto simp: hidden_def and_then_def split: if_splits)
    qed
  qed
qed

section \<open>Reads determine the result\<close>

text \<open>A computation on the files of a bundle is stable when it extends its reads with files of the bundle, and gives the
  same result on every part of the bundle that holds what it read.\<close>

abbreviation part :: "reads \<Rightarrow> Bundle \<Rightarrow> bool" where
  "part R b \<equiv> map_of R \<subseteq>\<^sub>m map_of b"

definition sound :: "reads \<Rightarrow> Bundle \<Rightarrow> bool" where
  "sound R b \<longleftrightarrow> part R b \<and> distinct (map fst R)"

definition stable :: "Bundle \<Rightarrow> (Bundle \<Rightarrow> 'a src) \<Rightarrow> bool" where
  "stable b m \<longleftrightarrow> (\<forall>R a R'. m b R = Inr (a, R') \<longrightarrow> sound R b \<longrightarrow>
     part R R' \<and> sound R' b \<and> (\<forall>b'. part b' b \<longrightarrow> part R' b' \<longrightarrow> m b' R = Inr (a, R')))"

lemma stableI:
  assumes "\<And>R a R'. m b R = Inr (a, R') \<Longrightarrow> sound R b \<Longrightarrow>
     part R R' \<and> sound R' b \<and> (\<forall>b'. part b' b \<longrightarrow> part R' b' \<longrightarrow> m b' R = Inr (a, R'))"
  shows "stable b m"
  unfolding stable_def by (intro allI impI) (rule assms)

lemma stableD:
  assumes "stable b m" "m b R = Inr (a, R')" "sound R b"
  shows "part R R'" "sound R' b" "\<And>b'. part b' b \<Longrightarrow> part R' b' \<Longrightarrow> m b' R = Inr (a, R')"
  using assms unfolding stable_def by blast+

lemma stable_fail: "(\<And>R. m b R = Inl (e R)) \<Longrightarrow> stable b m"
  by (simp add: stable_def)

lemma stable_return [intro]: "stable b (\<lambda>b. src_return a)"
  by (simp add: stable_def src_return_def)

lemma stable_try [intro]:
  "(\<And>a. r = Inr a \<Longrightarrow> stable b (\<lambda>b. k b a)) \<Longrightarrow> stable b (\<lambda>b. src_try r (k b))"
proof (cases r)
  case (Inr a)
  assume "\<And>a. r = Inr a \<Longrightarrow> stable b (\<lambda>b. k b a)"
  with Inr show ?thesis by (simp add: src_try_def [abs_def])
qed (simp add: stable_fail src_try_def)

lemma stable_guard [intro]: "(ok \<Longrightarrow> stable b m) \<Longrightarrow> stable b (\<lambda>b. src_guard ok e (m b))"
  by (cases ok) (simp_all add: stable_fail src_guard_def [abs_def])

lemma stable_in_journey [intro]: "stable b m \<Longrightarrow> stable b (\<lambda>b. in_journey n (m b))"
proof (rule stableI)
  fix R a R'
  assume m: "stable b m" and "in_journey n (m b) R = Inr (a, R')" and R: "sound R b"
  then have 1: "m b R = Inr (a, R')" by (simp add: in_journey_def split: sum.splits)
  show "part R R' \<and> sound R' b \<and> (\<forall>b'. part b' b \<longrightarrow> part R' b' \<longrightarrow> in_journey n (m b') R = Inr (a, R'))"
    using stableD [OF m 1 R] by (simp add: in_journey_def)
qed

lemma stable_bind [intro]:
  assumes m: "stable b m" and k: "\<And>a. stable b (\<lambda>b. k b a)"
  shows "stable b (\<lambda>b. src_bind (m b) (k b))"
proof (rule stableI)
  fix R c R2
  assume "src_bind (m b) (k b) R = Inr (c, R2)" and R: "sound R b"
  then obtain a R1 where 1: "m b R = Inr (a, R1)" and 2: "k b a R1 = Inr (c, R2)"
    by (auto simp: src_bind_def split: sum.splits)
  note m = stableD [OF m 1 R]
  note k = stableD [OF k 2 m(2)]
  have "src_bind (m b') (k b') R = Inr (c, R2)" if "part b' b" "part R2 b'" for b'
    using m(3) [OF that(1) map_le_trans [OF k(1) that(2)]] k(3) [OF that] by (simp add: src_bind_def)
  then show "part R R2 \<and> sound R2 b \<and> (\<forall>b'. part b' b \<longrightarrow> part R2 b' \<longrightarrow> src_bind (m b') (k b') R = Inr (c, R2))"
    using map_le_trans [OF m(1) k(1)] k(2) by blast
qed

text \<open>Reading a confined file: the file is among the reads, and so are the directories on the way to it.\<close>

lemma part_paths: "part R b \<Longrightarrow> paths R \<subseteq> paths b"
  unfolding paths_def using map_le_implies_dom_le [of "map_of R" "map_of b"] by (simp add: dom_map_of_conv_image_fst image_mono)

lemma part_valid: "valid_bundle b \<Longrightarrow> part b' b \<Longrightarrow> valid_bundle b'"
  using part_paths [of b' b] unfolding valid_bundle_def by blast

lemma exists_prefix: "p \<in> paths b \<Longrightarrow> prefix q p \<Longrightarrow> exists_at b q"
  using file_at_iff [of p b] in_paths_nonempty [of p b]
  by (auto simp: exists_at_def is_dir_iff strict_prefix_def)

lemma clean_parts_slash_free: "slash_free out \<Longrightarrow> slash_free ps \<Longrightarrow> slash_free (clean_parts r out ps)"
  by (induction r out ps rule: clean_parts.induct) (auto simp: slash_free_def split: list.splits)

lemma slash_free_path_parts [simp]: "slash_free (path_parts s)"
  by (simp add: path_parts_def clean_parts_slash_free)

lemma confine_Inr: "confine b base rel = Inr p \<Longrightarrow> p = base @ path_parts rel"
  by (auto simp: confine_def Let_def split: if_splits)

lemma clean_prefixes_prefix: "q \<in> set (clean_prefixes base clean) \<Longrightarrow> prefix q (base @ clean)"
  by (auto simp: clean_prefixes_def take_is_prefix split: if_splits)

lemma confine_part:
  assumes "confine b base rel = Inr p" "p \<in> paths b'"
  shows "confine b' base rel = Inr p"
proof -
  have p: "p = base @ path_parts rel" using confine_Inr [OF assms(1)] .
  then have "list_all (exists_at b') (clean_prefixes base (path_parts rel))"
    using exists_prefix [OF assms(2)] clean_prefixes_prefix by (auto simp: list_all_iff)
  with assms(1) p show ?thesis by (auto simp: confine_def Let_def split: if_splits)
qed

lemma read_src_Inr:
  "read_src b p limit R = Inr (d, R') \<longleftrightarrow>
     file_at b p = Some d \<and> int (length d) \<le> limit \<and> R' = AList.update (join ''/'' p) d R"
  by (auto simp: read_src_def readFS_def and_then_def split: option.splits sum.splits if_splits)

lemma file_at_join: "file_at b p = Some d \<longleftrightarrow> p \<noteq> [] \<and> map_of b (join ''/'' p) = Some d"
  by (simp add: file_at_def)

lemma file_in_paths: "slash_free p \<Longrightarrow> file_at b p = Some d \<Longrightarrow> p \<in> paths b"
  using file_at_iff [of p b] by auto

lemma file_at_part: "part R b \<Longrightarrow> file_at R p = Some d \<Longrightarrow> file_at b p = Some d"
  by (auto simp: file_at_join map_le_def dom_def)

lemma read_part:
  assumes "file_at b p = Some d" "sound R b"
  shows "part R (AList.update (join ''/'' p) d R)" "sound (AList.update (join ''/'' p) d R) b"
    "file_at (AList.update (join ''/'' p) d R) p = Some d"
  using assms by (auto simp: sound_def file_at_join update_conv' map_le_def dom_def distinct_update)

lemma stable_read:
  assumes "slash_free base" and k: "\<And>d. stable b (\<lambda>b. k b d)"
  shows "stable b (\<lambda>b. src_try (confine b base rel) (\<lambda>p. src_bind (read_src b p limit) (k b)))"
proof (rule stableI)
  fix R c R2
  assume "src_try (confine b base rel) (\<lambda>p. src_bind (read_src b p limit) (k b)) R = Inr (c, R2)" and R: "sound R b"
  then obtain p d where p: "confine b base rel = Inr p" and d: "file_at b p = Some d" "int (length d) \<le> limit"
    and 2: "k b d (AList.update (join ''/'' p) d R) = Inr (c, R2)"
    by (auto simp: src_try_def src_bind_def read_src_Inr split: sum.splits)
  have sf: "slash_free p" using confine_Inr [OF p] assms(1) by simp
  note r = read_part [OF d(1) R]
  note k = stableD [OF k 2 r(2)]
  have "src_try (confine b' base rel) (\<lambda>p. src_bind (read_src b' p limit) (k b')) R = Inr (c, R2)"
    if "part b' b" "part R2 b'" for b'
  proof -
    have f: "file_at b' p = Some d" using file_at_part [OF map_le_trans [OF k(1) that(2)] r(3)] .
    have "read_src b' p limit R = Inr (d, AList.update (join ''/'' p) d R)" using f d(2) by (simp add: read_src_Inr)
    with confine_part [OF p file_in_paths [OF sf f]] k(3) [OF that] show ?thesis
      by (simp add: src_try_def src_bind_def)
  qed
  then show "part R R2 \<and> sound R2 b \<and> (\<forall>b'. part b' b \<longrightarrow> part R2 b' \<longrightarrow>
      src_try (confine b' base rel) (\<lambda>p. src_bind (read_src b' p limit) (k b')) R = Inr (c, R2))"
    using map_le_trans [OF r(1) k(1)] k(2) by blast
qed

section \<open>Skill packages\<close>

lemma stable_supporting:
  assumes "slash_free root"
  shows "stable b (\<lambda>b. read_supporting sha b root seen names)"
proof (induction names arbitrary: seen)
  case (Cons name names)
  show ?case
    unfolding read_supporting.simps by (intro stable_guard stable_read [OF assms] stable_bind [OF Cons] stable_return)
qed (auto simp: stable_return)

text \<open>Opening a package: its directory and its instructions.\<close>

lemma stable_open:
  assumes k: "\<And>d. stable b (\<lambda>b. k b (path_parts rel) d)"
  shows "stable b (\<lambda>b. src_try (confine b [] rel) (\<lambda>root. src_guard (is_dir b root) NotADirectory (
    src_try (confine b root ''SKILL.md'') (\<lambda>p. src_bind (read_src b p limit) (k b root)))))"
proof (rule stableI)
  fix R c R2
  let ?in = "\<lambda>b. src_try (confine b (path_parts rel) ''SKILL.md'') (\<lambda>p. src_bind (read_src b p limit) (k b (path_parts rel)))"
  let ?m = "\<lambda>b. src_try (confine b [] rel) (\<lambda>root. src_guard (is_dir b root) NotADirectory (
    src_try (confine b root ''SKILL.md'') (\<lambda>p. src_bind (read_src b p limit) (k b root))))"
  assume run: "?m b R = Inr (c, R2)" and R: "sound R b"
  from run obtain root where root: "confine b [] rel = Inr root"
    by (auto simp: src_try_def split: sum.splits)
  note [simp] = confine_Inr [OF root, simplified]
  from run root have 1: "?in b R = Inr (c, R2)" by (simp add: src_try_def src_guard_def split: if_splits)
  then obtain p d where p: "confine b (path_parts rel) ''SKILL.md'' = Inr p" and d: "file_at b p = Some d"
    and 2: "k b (path_parts rel) d (AList.update (join ''/'' p) d R) = Inr (c, R2)"
    by (auto simp: src_try_def src_bind_def read_src_Inr split: sum.splits)
  have p_def: "p = path_parts rel @ [''SKILL.md'']" using confine_Inr [OF p] by (simp add: path_parts_def)
  note r = read_part [OF d R]
  note k2 = stableD [OF k 2 r(2)]
  note s = stableD [OF stable_read [OF slash_free_path_parts k] 1 R]
  have "?m b' R = Inr (c, R2)" if "part b' b" "part R2 b'" for b'
  proof -
    have "file_at b' p = Some d" using file_at_part [OF map_le_trans [OF k2(1) that(2)] r(3)] .
    then have b': "path_parts rel @ [''SKILL.md''] \<in> paths b'"
      using file_in_paths [of p b'] p_def by simp
    then have "is_dir b' (path_parts rel)" unfolding is_dir_iff by (intro disjI2 bexI [OF _ b']) (simp add: strict_prefix_def)
    moreover have "list_all (exists_at b') (clean_prefixes [] (path_parts rel))"
      using exists_prefix [OF b'] clean_prefixes_prefix [of _ "[]" "path_parts rel"] by (auto simp: list_all_iff intro: prefix_order.trans)
    with root have "confine b' [] rel = Inr (path_parts rel)" by (auto simp: confine_def Let_def split: if_splits)
    ultimately show ?thesis using s(3) [OF that] by (simp add: src_try_def src_guard_def)
  qed
  with s(1,2) show "part R R2 \<and> sound R2 b \<and> (\<forall>b'. part b' b \<longrightarrow> part R2 b' \<longrightarrow> ?m b' R = Inr (c, R2))" by blast
qed

lemma stable_compileSkill: "stable b (\<lambda>b. compileSkill sha b declared relative supporting)"
  unfolding compileSkill_def
  by (intro stable_open stable_try)
    (auto simp: Let_def intro!: stable_guard stable_bind [OF stable_supporting])

text \<open>Names that are listed are names that are read.\<close>

lemma clean_parts_valid: "list_all valid_part ps \<Longrightarrow> clean_parts r out ps = rev out @ ps"
  by (induction ps arbitrary: out) (auto simp: valid_part_def)

lemma path_parts_join: "list_all valid_part p \<Longrightarrow> slash_free p \<Longrightarrow> p \<noteq> [] \<Longrightarrow> path_parts (join ''/'' p) = p"
  by (simp add: path_parts_def clean_parts_valid)

lemma supporting_reads:
  assumes "slash_free root" "read_supporting sha b root seen names R = Inr (fs, R')" "sound R b" "name \<in> set names"
  shows "root @ path_parts name \<in> paths R'"
  using assms(2-4)
proof (induction names arbitrary: seen R fs)
  case (Cons f names)
  from Cons.prems(1) obtain p d gs where p: "confine b root f = Inr p" and d: "file_at b p = Some d"
    and rest: "read_supporting sha b root (f # seen) names (AList.update (join ''/'' p) d R) = Inr (gs, R')"
    by (auto simp: src_guard_def src_try_def src_bind_def src_return_def read_src_Inr split: sum.splits if_splits)
  have p_def: "p = root @ path_parts f" "slash_free p" using confine_Inr [OF p] assms(1) by auto
  note r = read_part [OF d Cons.prems(2)]
  have "p \<in> paths R'"
    using file_in_paths [OF p_def(2) r(3)] part_paths [OF stableD(1) [OF stable_supporting [OF assms(1)] rest r(2)]] by blast
  with Cons.IH [OF rest r(2)] Cons.prems(3) p_def(1) show ?case by auto
qed simp

lemma compileSkill_reads:
  assumes "compileSkill sha b declared rel names R = Inr (s, R')" "sound R b" "name \<in> set names"
  shows "path_parts rel @ path_parts name \<in> paths R'"
proof -
  from assms(1) obtain root p d fs where root: "confine b [] rel = Inr root" and d: "file_at b p = Some d"
    and rest: "read_supporting sha b root [] names (AList.update (join ''/'' p) d R) = Inr (fs, R')"
    by (auto simp: compileSkill_def src_guard_def src_try_def src_bind_def src_return_def read_src_Inr Let_def
        split: sum.splits if_splits prod.splits)
  with supporting_reads [OF _ rest read_part(2) [OF d assms(2)] assms(3)] confine_Inr [OF root] show ?thesis by simp
qed

lemma enumerate_spec:
  "valid_bundle b \<Longrightarrow> listed (visible_files b root [] (set (ReadDir b root))) [] (enumerate_files b root)"
  unfolding enumerate_files_def by (rule enum_entries_spec) (auto simp: MaxCompiledSkillFiles_def)

lemma listed_Inr: "listed S [] (Inr files) \<longleftrightarrow> distinct files \<and> set files = S \<and> int (length files) \<le> MaxCompiledSkillFiles"
  by (auto simp: listed_def split: if_splits)

lemma listed_again:
  assumes "listed S [] (Inr files)" "listed S [] r"
  obtains files' where "r = Inr files'" "sort files' = sort files"
proof -
  from assms(2) obtain new where new: "distinct new" "set new = S"
    "r = (if int (length new) \<le> MaxCompiledSkillFiles then Inr new else Inl TooManySkillFiles)"
    by (auto simp: listed_def)
  from assms(1) new have "length new = length files" by (metis distinct_card listed_Inr)
  moreover have "sort new = sort files"
    using assms(1) new by (intro sorted_distinct_set_unique) (auto simp: listed_Inr)
  ultimately show thesis using that new(3) assms(1) by (auto simp: listed_Inr)
qed

lemma visible_top: "visible_files b root [] (set (ReadDir b root)) =
    {join ''/'' p | p. p \<noteq> [] \<and> root @ p \<in> paths b \<and> (\<forall>x \<in> set p. \<not> hidden x) \<and> p \<noteq> [''SKILL.md'']}" (is "?l = ?r")
proof (intro set_eqI iffI)
  fix s assume "s \<in> ?r"
  then obtain p where p: "s = join ''/'' p" "p \<noteq> []" "root @ p \<in> paths b" "\<forall>x \<in> set p. \<not> hidden x" "p \<noteq> [''SKILL.md'']" by blast
  then obtain c q where "p = c # q" by (cases p) auto
  with p show "s \<in> ?l" by (auto simp: visible_files_def ReadDir_iff)
qed (force simp: visible_files_def)

lemma visible_read:
  assumes "valid_bundle b" "part b' b" "part R b'"
    and reads: "\<And>f. f \<in> visible_files b root [] (set (ReadDir b root)) \<Longrightarrow> root @ path_parts f \<in> paths R"
  shows "visible_files b' root [] (set (ReadDir b' root)) = visible_files b root [] (set (ReadDir b root))"
proof -
  have "root @ p \<in> paths b'" if p: "p \<noteq> []" "root @ p \<in> paths b" "\<forall>x \<in> set p. \<not> hidden x" "p \<noteq> [''SKILL.md'']" for p
  proof -
    have "list_all valid_part (root @ p)" using assms(1) p(2) by (auto simp: valid_bundle_def)
    then have "path_parts (join ''/'' p) = p" using p(1) in_paths_nonempty [OF p(2)] by (intro path_parts_join) auto
    with reads [of "join ''/'' p"] p part_paths [OF assms(3)] show ?thesis by (auto simp: visible_top)
  qed
  with part_paths [OF assms(2)] show ?thesis unfolding visible_top by blast
qed

lemma stable_enumerated:
  assumes "valid_bundle b"
  shows "stable b (\<lambda>b. src_try (enumerate_files b (path_parts rel)) (\<lambda>files. compileSkill sha b name rel (sort files)))"
proof (rule stableI)
  fix R s R2
  let ?m = "\<lambda>b. src_try (enumerate_files b (path_parts rel)) (\<lambda>files. compileSkill sha b name rel (sort files))"
  assume "?m b R = Inr (s, R2)" and R: "sound R b"
  then obtain files where files: "enumerate_files b (path_parts rel) = Inr files"
    and run: "compileSkill sha b name rel (sort files) R = Inr (s, R2)"
    by (auto simp: src_try_def split: sum.splits)
  note s = stableD [OF stable_compileSkill run R]
  have listed: "listed (visible_files b (path_parts rel) [] (set (ReadDir b (path_parts rel)))) [] (Inr files)"
    using enumerate_spec [OF assms] files by metis
  have "?m b' R = Inr (s, R2)" if b': "part b' b" "part R2 b'" for b'
  proof -
    have "visible_files b' (path_parts rel) [] (set (ReadDir b' (path_parts rel))) =
        visible_files b (path_parts rel) [] (set (ReadDir b (path_parts rel)))"
      using compileSkill_reads [OF run R] listed by (intro visible_read [OF assms b']) (auto simp: listed_Inr)
    with listed_again [OF listed] enumerate_spec [OF part_valid [OF assms b'(1)]] obtain files'
      where "enumerate_files b' (path_parts rel) = Inr files'" "sort files' = sort files" by metis
    with s(3) [OF b'] show ?thesis by (simp add: src_try_def)
  qed
  with s(1,2) show "part R R2 \<and> sound R2 b \<and> (\<forall>b'. part b' b \<longrightarrow> part R2 b' \<longrightarrow> ?m b' R = Inr (s, R2))" by blast
qed

lemma stable_compileSkillDir: "valid_bundle b \<Longrightarrow> stable b (\<lambda>b. compileSkillDir sha b rel)"
  unfolding compileSkillDir_def
  by (intro stable_guard stable_open stable_try) (auto intro: stable_enumerated)

section \<open>The whole bundle\<close>

lemma stable_journey_skill: "valid_bundle b \<Longrightarrow> stable b (\<lambda>b. journey_skill sha b skill cache)"
proof -
  assume b: "valid_bundle b"
  obtain skills bytes files where cache: "cache = (skills, bytes, files)" by (cases cache)
  show ?thesis
  proof (cases "map_of skills (path_Clean skill)")
    case None
    have "stable b (\<lambda>b. let (bytesUsed, filesUsed) = skillFootprint s in
        src_guard (\<not> (bytes > MaxCompiledSkillBytes - bytesUsed \<or> files > MaxCompiledSkillFiles - filesUsed)) AggregateLimit (
        src_return (s, (path_Clean skill, s) # skills, bytes + bytesUsed, files + filesUsed)))" for s
      by (cases "skillFootprint s") auto
    with None cache b show ?thesis by (simp add: journey_skill_def stable_bind stable_compileSkillDir)
  qed (auto simp: journey_skill_def cache)
qed

lemma stable_compileJourney: "valid_bundle b \<Longrightarrow> stable b (\<lambda>b. compileJourney sha b catalog rj cache)"
  unfolding compileJourney_def
  by (intro stable_guard stable_try) (auto intro!: stable_bind stable_journey_skill)

lemma stable_compile_journeys:
  "valid_bundle b \<Longrightarrow> stable b (\<lambda>b. compile_journeys sha b catalog n compiled cache rjs)"
proof (induction rjs arbitrary: n compiled cache)
  case (Cons rj rjs)
  have "stable b (\<lambda>b. case a of (j, cache') \<Rightarrow> src_guard (j_ID j \<notin> j_ID ` set compiled) (InJourney n DuplicateID) (
      compile_journeys sha b catalog (Suc n) (compiled @ [j\<lparr>j_Digest := sha (print_json (canonicalJourney j))\<rparr>]) cache' rjs))" for a
    using Cons by (cases a) auto
  then show ?case
    unfolding compile_journeys.simps by (intro stable_bind stable_in_journey stable_compileJourney [OF Cons.prems])
qed (auto simp: stable_return)

lemma stable_prompt: "stable b (\<lambda>b. conversation_prompt b name)"
proof (cases "name = []")
  case False
  have "read_src b p MaxPromptBytes = src_bind (read_src b p MaxPromptBytes) src_return" for b p
    by (rule ext) (simp add: src_bind_def src_return_def split: sum.splits)
  with stable_read [of "[]" b "\<lambda>b. src_return" name MaxPromptBytes] False show ?thesis
    by (simp add: conversation_prompt_def stable_return)
qed (simp add: conversation_prompt_def stable_return)

lemma stable_source:
  "valid_bundle b \<Longrightarrow> stable b (\<lambda>b. src_bind (conversation_prompt b name) (\<lambda>prompt.
     src_bind (compile_journeys sha b catalog n compiled cache rjs) (\<lambda>js. src_return (set_of sha catalog prompt js))))"
  by (intro stable_bind stable_prompt stable_compile_journeys stable_return)

lemma compileSource_Inr:
  "compileSource sha yaml b = Inr (ds, files) \<longleftrightarrow>
     (\<exists>data raw catalog reads. readFS b [BundleConfig] MaxConfigBytes = Inr data \<and> yaml data = YamlDocument raw False \<and>
        compileCatalog (rw_Catalog raw) = Inr catalog \<and> rw_Journeys raw \<noteq> [] \<and>
        src_bind (conversation_prompt b (rw_ConversationPrompt raw)) (\<lambda>prompt.
          src_bind (compile_journeys sha b catalog 1 [] ([], 0, 0) (rw_Journeys raw)) (\<lambda>js.
          src_return (set_of sha catalog prompt js))) [] = Inr (ds, reads) \<and>
        checkAliasOps ds = Inr () \<and> checkPolicyConflicts ds = Inr () \<and> files = AList.update BundleConfig data reads)"
  unfolding compileSource_def and_then_def lift_error_def
  by (auto split: sum.splits yaml_result.splits if_splits)

lemma readFS_Inr: "readFS b p limit = Inr d \<longleftrightarrow> file_at b p = Some d \<and> int (length d) \<le> limit"
  by (auto simp: readFS_def split: option.splits if_splits)

lemma sound_empty: "sound [] b"
  by (simp add: sound_def)

lemma compileSource_again:
  assumes "valid_bundle b" "compileSource sha yaml b = Inr (ds, files)"
  shows "sound files b" "map_of files BundleConfig \<noteq> None" "compileSource sha yaml files = Inr (ds, files)"
proof -
  from assms(2) obtain data raw catalog reads where c: "file_at b [BundleConfig] = Some data" "int (length data) \<le> MaxConfigBytes"
      "yaml data = YamlDocument raw False" "compileCatalog (rw_Catalog raw) = Inr catalog" "rw_Journeys raw \<noteq> []"
      "checkAliasOps ds = Inr ()" "checkPolicyConflicts ds = Inr ()" and files: "files = AList.update BundleConfig data reads"
    and run: "src_bind (conversation_prompt b (rw_ConversationPrompt raw)) (\<lambda>prompt.
          src_bind (compile_journeys sha b catalog 1 [] ([], 0, 0) (rw_Journeys raw)) (\<lambda>js.
          src_return (set_of sha catalog prompt js))) [] = Inr (ds, reads)"
    unfolding compileSource_Inr readFS_Inr by blast
  note s = stableD [OF stable_source [OF assms(1)] run sound_empty]
  note r = read_part [OF c(1) s(2), simplified, folded files]
  show "sound files b" by (rule r(2))
  then have "part files b" by (simp add: sound_def)
  from s(3) [OF this r(1)] c r(3) files show "compileSource sha yaml files = Inr (ds, files)"
    unfolding compileSource_Inr readFS_Inr by blast
  show "map_of files BundleConfig \<noteq> None" by (simp add: files update_conv')
qed

lemma CompileBundle_again:
  assumes "CompileBundle sha yaml b = Inr (ds, files)"
  shows "sound files b" "map_of files BundleConfig \<noteq> None" "validateBundle files = Inr ()" "CompileBundle sha yaml files = Inr (ds, files)"
proof -
  from assms have v: "validateBundle b = Inr ()" and c: "compileSource sha yaml b = Inr (ds, files)"
    by (auto simp: CompileBundle_def and_then_def split: sum.splits if_splits)
  note again = compileSource_again [OF validate_valid [OF v] c]
  from again show "sound files b" "map_of files BundleConfig \<noteq> None" by auto
  from validate_part [OF v] again(1) show "validateBundle files = Inr ()" by (simp add: sound_def)
  with again show "CompileBundle sha yaml files = Inr (ds, files)" by (auto simp: CompileBundle_def and_then_def)
qed

text \<open>C8. What the compiler keeps of a bundle is enough: it keeps only files of the bundle, and compiling the files it kept
  gives the same definitions and keeps the same files again. Files outside the configuration, the prompt and the skill
  packages do not matter.\<close>

theorem CompileBundle_roundtrip:
  assumes "CompileBundle sha yaml b = Inr (ds, files)"
  shows "map_of files \<subseteq>\<^sub>m map_of b \<and> CompileBundle sha yaml files = Inr (ds, files)"
  using CompileBundle_again [OF assms] by (simp add: sound_def)

definition example_config :: rawConfig where
  "example_config =
     \<lparr>rw_Catalog = \<lparr>rc_OperationMetaKey = ''op'', rc_CallIDHeader = []\<rparr>, rw_ConversationPrompt = ''./prompt.md'',
      rw_Journeys = [\<lparr>rj_ID = ''leave'', rj_Skill = ''skills/leave'', rj_ProductVersions = \<lparr>Min = [], MaxExclusive = []\<rparr>,
        rj_Tools = [\<lparr>rt_Op = Some [''leave.balance''], rt_Tags = None, rt_Alias = [], rt_ReadOnly = False,
           rt_Class = ''read_only'', rt_Approval = []\<rparr>], rj_Deny = [], rj_MaxTools = None\<rparr>]\<rparr>"

definition example_yaml :: "bytes \<Rightarrow> yaml_result" where
  "example_yaml d = (if d = ''c'' then YamlDocument example_config False else YamlInvalid)"

definition example_bundle :: Bundle where
  "example_bundle =
     [(''README.md'', ''r''), (''skills/leave/notes/days.md'', ''d''), (''skills/leave/.draft'', ''h''),
      (''skills/leave/SKILL.md'', ''---'' @ [newline] @ ''name: leave'' @ [newline] @ ''description: Leave'' @ [newline] @
         ''---'' @ [newline] @ ''Help.''),
      (''prompt.md'', ''p''), (''journeys.yaml'', ''c'')]"

lemma example_compiles:
  "case CompileBundle rev example_yaml example_bundle of
     Inl e \<Rightarrow> False
   | Inr (ds, files) \<Rightarrow> ds_order ds = [''leave''] \<and>
       map fst files = [''prompt.md'', ''skills/leave/SKILL.md'', ''skills/leave/notes/days.md'', ''journeys.yaml'']"
  by code_simp

theorem CompileBundle_roundtrip_witness:
  "\<exists>ds files. CompileBundle rev example_yaml example_bundle = Inr (ds, files) \<and>
     map fst files = [''prompt.md'', ''skills/leave/SKILL.md'', ''skills/leave/notes/days.md'', ''journeys.yaml''] \<and>
     CompileBundle rev example_yaml files = Inr (ds, files)"
  using example_compiles CompileBundle_roundtrip [of rev example_yaml example_bundle]
  by (cases "CompileBundle rev example_yaml example_bundle") auto

text \<open>The supporting files of a skill package are exactly the visible ones: in a validated bundle, the compiler lists
  every file below the directory of the package once, except the instructions themselves and what is in or below a name that
  begins with a dot; it fails only when there are more than 256.\<close>

theorem enumerate_files_complete:
  assumes "validateBundle b = Inr ()"
  shows "case enumerate_files b root of
      Inr files \<Rightarrow> distinct files \<and> set files =
        {join ''/'' p | p. p \<noteq> [] \<and> root @ p \<in> paths b \<and> (\<nexists>x. x \<in> set p \<and> hidden x) \<and> p \<noteq> [''SKILL.md'']}
    | Inl e \<Rightarrow> e = TooManySkillFiles \<and> 256 <
        card {join ''/'' p | p. p \<noteq> [] \<and> root @ p \<in> paths b \<and> (\<nexists>x. x \<in> set p \<and> hidden x) \<and> p \<noteq> [''SKILL.md'']}"
proof -
  from enumerate_spec [OF validate_valid [OF assms], of root]
  obtain new where "distinct new" "set new = visible_files b root [] (set (ReadDir b root))"
    "enumerate_files b root = (if int (length new) \<le> MaxCompiledSkillFiles then Inr new else Inl TooManySkillFiles)"
    by (auto simp: listed_def)
  then show ?thesis
    by (auto simp: visible_top MaxCompiledSkillFiles_def distinct_card [symmetric] Ball_def split: if_splits)
qed

theorem enumerate_files_complete_witness:
  "validateBundle example_bundle = Inr () \<and>
   {join ''/'' p | p. p \<noteq> [] \<and> [''skills'', ''leave''] @ p \<in> paths example_bundle \<and> (\<nexists>x. x \<in> set p \<and> hidden x) \<and> p \<noteq> [''SKILL.md'']}
     = {''notes/days.md''}"
proof -
  have ok: "validateBundle example_bundle = Inr ()" by code_simp
  have "enumerate_files example_bundle [''skills'', ''leave''] = Inr [''notes/days.md'']" by code_simp
  with ok enumerate_files_complete [OF ok, of "[''skills'', ''leave'']"] show ?thesis by auto
qed

end
