(* ===== verification/Bundle_Read.thy ===== *)
theory Bundle_Read
  imports Bundle_Roundtrip
begin

text \<open>
  Reading a bundle from a directory (\<open>ReadBundle\<close> of \<open>internal/definitions/bundle.go\<close>). The directory is a tree; the entries of a
  directory are listed in the order in which they are read. What is read is a valid bundle.
\<close>

section \<open>The reader\<close>

datatype tree = File bytes | Dir "(string \<times> tree) list" | Symlink | Special

record bundleReader =
  br_out :: Bundle
  br_total :: int
  br_entries :: int

definition reader_file :: "path \<Rightarrow> bytes \<Rightarrow> bundleReader \<Rightarrow> bundle_error + bundleReader" where
  "reader_file full data r =
     (if int (length (br_out r)) \<ge> MaxBundleFiles then Inl TooManyFiles
      else if \<not> valid_name (join ''/'' full) then Inl InvalidPath
      else if int (length data) > MaxBundleFileBytes then Inl FileTooLarge
      else if br_total r + int (length data) > MaxBundleBytes then Inl BundleTooLarge
      else Inr (r\<lparr>br_total := br_total r + int (length data), br_out := AList.update (join ''/'' full) data (br_out r)\<rparr>))"

fun walk :: "path \<Rightarrow> (string \<times> tree) list \<Rightarrow> bundleReader \<Rightarrow> bundle_error + bundleReader" where
  "walk dir [] r = Inr r"
| "walk dir ((name, t) # es) r =
     (if prefix ''.'' name then walk dir es r
      else if br_entries r + 1 > 2 * MaxBundleFiles then Inl TooManyFiles
      else
        let r1 = r\<lparr>br_entries := br_entries r + 1\<rparr> in
        case t of
          Symlink \<Rightarrow> Inl SymbolicLink
        | Dir sub \<Rightarrow>
            if \<not> valid_name (join ''/'' (dir @ [name])) then Inl InvalidPath
            else and_then (walk (dir @ [name]) sub r1) (\<lambda>r2. walk dir es r2)
        | File d \<Rightarrow> and_then (reader_file (dir @ [name]) d r1) (\<lambda>r2. walk dir es r2)
        | Special \<Rightarrow> Inl UnsupportedFile)"

definition ReadBundle :: "(string \<times> tree) list \<Rightarrow> bundle_error + Bundle" where
  "ReadBundle es =
     and_then (walk [] es \<lparr>br_out = [], br_total = 0, br_entries = 0\<rparr>) (\<lambda>r.
     if map_of (br_out r) BundleConfig = None then Inl ConfigRequired else Inr (br_out r))"

section \<open>What is read\<close>

text \<open>The visible files of a tree, in the order of the walk.\<close>

fun tree_files :: "path \<Rightarrow> (string \<times> tree) list \<Rightarrow> (path \<times> bytes) list" where
  "tree_files dir [] = []"
| "tree_files dir ((name, t) # es) =
     (if prefix ''.'' name then []
      else case t of
          File d \<Rightarrow> [(dir @ [name], d)]
        | Dir sub \<Rightarrow> tree_files (dir @ [name]) sub
        | Symlink \<Rightarrow> []
        | Special \<Rightarrow> []) @ tree_files dir es"

text \<open>A directory has no name twice, and a name has no slash.\<close>

fun proper :: "(string \<times> tree) list \<Rightarrow> bool" where
  "proper [] \<longleftrightarrow> True"
| "proper ((name, t) # es) \<longleftrightarrow>
     slash \<notin> set name \<and> name \<notin> fst ` set es \<and> (case t of Dir sub \<Rightarrow> proper sub | _ \<Rightarrow> True) \<and> proper es"

definition apart :: "path list \<Rightarrow> bool" where
  "apart ps \<longleftrightarrow> distinct ps \<and> (\<forall>p \<in> set ps. \<forall>q \<in> set ps. \<not> strict_prefix p q)"

lemma tree_files_below: "(p, d) \<in> set (tree_files dir es) \<Longrightarrow> \<exists>n \<in> fst ` set es. prefix (dir @ [n]) p"
proof (induction dir es rule: tree_files.induct)
  case (2 dir name t es)
  show ?case
  proof (cases "(p, d) \<in> set (tree_files dir es)")
    case True
    with "2.IH"(2) show ?thesis by auto
  next
    case False
    with "2.prems" consider "p = dir @ [name]" | sub where "\<not> prefix ''.'' name" "t = Dir sub" "(p, d) \<in> set (tree_files (dir @ [name]) sub)"
      by (auto split: if_splits tree.splits)
    then show ?thesis
    proof cases
      case 2
      with "2.IH"(1) obtain n where "prefix ((dir @ [name]) @ [n]) p" by blast
      then have "prefix (dir @ [name]) p" by (rule append_prefixD)
      then show ?thesis by simp
    qed simp
  qed
qed simp

lemma tree_files_slash_free: "slash_free dir \<Longrightarrow> proper es \<Longrightarrow> (p, d) \<in> set (tree_files dir es) \<Longrightarrow> slash_free p"
  by (induction dir es rule: tree_files.induct) (auto split: if_splits tree.splits)

lemma apart_append:
  assumes "apart ps" "apart qs" "\<And>p q. p \<in> set ps \<Longrightarrow> q \<in> set qs \<Longrightarrow> \<not> prefix p q \<and> \<not> prefix q p"
  shows "apart (ps @ qs)"
  using assms unfolding apart_def strict_prefix_def by auto

lemma tree_files_apart: "proper es \<Longrightarrow> apart (map fst (tree_files dir es))"
proof (induction dir es rule: tree_files.induct)
  case (2 dir name t es)
  let ?first = "if prefix ''.'' name then [] else case t of File d \<Rightarrow> [(dir @ [name], d)] | Dir sub \<Rightarrow> tree_files (dir @ [name]) sub
        | Symlink \<Rightarrow> [] | Special \<Rightarrow> []"
  have "apart (map fst ?first)" using 2 by (auto simp: apart_def split: tree.splits)
  moreover have "apart (map fst (tree_files dir es))" using 2 by auto
  moreover have "\<not> prefix p q \<and> \<not> prefix q p" if p: "p \<in> set (map fst ?first)" and q: "q \<in> set (map fst (tree_files dir es))" for p q
  proof -
    from p have p: "prefix (dir @ [name]) p" using tree_files_below [of p _ dir "[(name, t)]"] by force
    from q obtain n where n: "n \<in> fst ` set es" "prefix (dir @ [n]) q" using tree_files_below [of q _ dir es] by force
    with "2.prems" have "n \<noteq> name" by auto
    with p n(2) show ?thesis by (auto simp: prefix_def append_eq_append_conv2)
  qed
  ultimately show ?case using apart_append [of "map fst ?first" "map fst (tree_files dir es)"] by simp
qed (simp add: apart_def)

definition store_all :: "(path \<times> bytes) list \<Rightarrow> Bundle \<Rightarrow> Bundle" where
  "store_all fs b = fold (\<lambda>(p, d). AList.update (join ''/'' p) d) fs b"

definition within :: "bundleReader \<Rightarrow> bool" where
  "within r \<longleftrightarrow> int (length (br_out r)) \<le> MaxBundleFiles \<and> br_total r \<le> MaxBundleBytes \<and>
     (\<forall>(k, d) \<in> set (br_out r). valid_name k \<and> int (length d) \<le> MaxBundleFileBytes)"

lemma update_within: "x \<in> set (AList.update k d R) \<Longrightarrow> x = (k, d) \<or> x \<in> set R"
  by (induction R) (auto split: if_splits)

lemma length_update: "length (AList.update k d R) \<le> Suc (length R)"
  by (induction R) auto

lemma reader_file_spec:
  assumes "reader_file full d r = Inr r'" "within r"
  shows "within r' \<and> br_out r' = store_all [(full, d)] (br_out r) \<and> br_total r' = br_total r + int (length d)"
  using assms length_update [of "join ''/'' full" d "br_out r"]
  by (auto simp: reader_file_def within_def store_all_def dest!: update_within split: if_splits)

lemma store_all_append: "store_all (xs @ ys) b = store_all ys (store_all xs b)"
  by (simp add: store_all_def)

lemma walk_spec:
  assumes "walk dir es r = Inr r'" "within r"
  shows "within r' \<and> br_out r' = store_all (tree_files dir es) (br_out r) \<and>
    br_total r' = br_total r + sum_list (map (\<lambda>(p, d). int (length d)) (tree_files dir es))"
  using assms
proof (induction dir es r arbitrary: r' rule: walk.induct)
  case (1 dir r)
  then show ?case by (simp add: store_all_def)
next
  case (2 dir name t es r)
  let ?r = "r\<lparr>br_entries := br_entries r + 1\<rparr>"
  show ?case
  proof (cases "prefix ''.'' name")
    case True
    then have "walk dir ((name, t) # es) r = walk dir es r" "tree_files dir ((name, t) # es) = tree_files dir es" by simp_all
    with "2.IH"(1) [OF True _ "2.prems"(2), of r'] "2.prems"(1) show ?thesis by (simp only:)
  next
    case vis: False
    have few: "\<not> br_entries r + 1 > 2 * MaxBundleFiles" by (rule notI) (use "2.prems"(1) vis in simp)
    have r: "within ?r" using "2.prems"(2) by (simp add: within_def)
    show ?thesis
    proof (cases t)
      case (File d)
      with "2.prems"(1) vis few obtain r2 where r2: "reader_file (dir @ [name]) d ?r = Inr r2" "walk dir es r2 = Inr r'"
        by (auto simp: Let_def and_then_Inr_iff)
      note first = reader_file_spec [OF r2(1) r]
      from "2.IH"(2) [OF vis few refl File r2(2)] first vis File show ?thesis by (simp add: store_all_def)
    next
      case (Dir sub)
      with "2.prems"(1) vis few obtain r2 where r2: "walk (dir @ [name]) sub ?r = Inr r2" "walk dir es r2 = Inr r'"
        and valid: "\<not> \<not> valid_name (join ''/'' (dir @ [name]))"
        by (auto simp: Let_def and_then_Inr_iff split: if_splits)
      note first = "2.IH"(3) [OF vis few refl Dir valid r2(1) r]
      from "2.IH"(4) [OF vis few refl Dir valid r2(2)] first vis Dir show ?thesis by (simp add: store_all_append)
    qed (use "2.prems" vis few in \<open>auto simp: Let_def\<close>)
  qed
qed

lemma store_all_map:
  assumes "distinct (map fst fs)" "\<forall>p \<in> fst ` set fs. p \<noteq> [] \<and> slash_free p" "\<forall>p \<in> fst ` set fs. join ''/'' p \<notin> fst ` set b"
  shows "store_all fs b = b @ map (\<lambda>(p, d). (join ''/'' p, d)) fs"
  using assms
proof (induction fs arbitrary: b)
  case (Cons x fs)
  obtain p d where x: "x = (p, d)" by fastforce
  have new: "AList.update k d b = b @ [(k, d)]" if "k \<notin> fst ` set b" for k and b :: Bundle
    using that by (induction b) auto
  have "store_all fs (b @ [(join ''/'' p, d)]) = (b @ [(join ''/'' p, d)]) @ map (\<lambda>(p, d). (join ''/'' p, d)) fs"
    using Cons.prems x by (intro Cons.IH) (auto simp: join_eq image_iff)
  with Cons.prems x new [of "join ''/'' p" b] show ?case by (simp add: store_all_def)
qed (simp add: store_all_def)

lemma apart_clash:
  assumes "apart ps" "\<forall>p \<in> set ps. p \<noteq> [] \<and> slash_free p" "p \<in> set ps" "dir \<in> set (dirs_of (join ''/'' p))"
  shows "dir \<notin> join ''/'' ` set ps"
proof
  assume "dir \<in> join ''/'' ` set ps"
  then obtain q where q: "q \<in> set ps" "dir = join ''/'' q" by blast
  from assms obtain r where r: "r \<noteq> []" "strict_prefix r p" "dir = join ''/'' r" by (auto simp: dirs_of_iff)
  then have "slash_free r" using assms(2,3) by (auto simp: strict_prefix_def prefix_def)
  with r q assms(2) have "r = q" by (metis join_eq)
  with r(2) q(1) assms(1,3) show False by (auto simp: apart_def)
qed

text \<open>Reading a directory gives a bundle that is valid for the compiler and that is exactly the visible files of the
  directory, with the configuration among them.\<close>

theorem ReadBundle_reads:
  assumes "proper es" "ReadBundle es = Inr b"
  shows "b = map (\<lambda>(p, d). (join ''/'' p, d)) (tree_files [] es) \<and> validateBundle b = Inr () \<and> map_of b BundleConfig \<noteq> None"
proof -
  let ?fs = "tree_files [] es"
  from assms(2) obtain r where r: "walk [] es \<lparr>br_out = [], br_total = 0, br_entries = 0\<rparr> = Inr r"
    and b: "b = br_out r" "map_of b BundleConfig \<noteq> None"
    by (auto simp: ReadBundle_def and_then_Inr_iff split: if_splits)
  have "within \<lparr>br_out = [], br_total = 0, br_entries = 0\<rparr>" by (simp add: within_def MaxBundleFiles_def MaxBundleBytes_def)
  note spec = walk_spec [OF r this]
  have paths: "\<forall>p \<in> set (map fst ?fs). p \<noteq> [] \<and> slash_free p"
    using tree_files_slash_free [OF _ assms(1), of "[]"] tree_files_below [of _ _ "[]" es] by fastforce
  note apart = tree_files_apart [OF assms(1), of "[]"]
  have b_eq: "b = map (\<lambda>(p, d). (join ''/'' p, d)) ?fs"
    using store_all_map [of ?fs "[]"] spec b(1) apart paths by (simp add: apart_def)
  have "map_of b dir = None" if "(k, d) \<in> set b" "dir \<in> set (dirs_of k)" for k d dir
    using that apart_clash [OF apart paths] by (auto simp: b_eq map_of_eq_None_iff image_image split_beta)
  moreover have "sum_list (map (\<lambda>(k, d). int (length d)) b) = br_total r"
    using spec by (simp add: b_eq o_def case_prod_unfold)
  ultimately have "validate_files b 0 b = Inr ()"
    using spec b(1) validate_files_iff [of 0 b b] by (auto simp: within_def MaxBundleBytes_def)
  with spec b b_eq show ?thesis by (auto simp: validateBundle_def within_def)
qed

definition example_tree :: "(string \<times> tree) list" where
  "example_tree =
     [(''.git'', Dir [(''config'', File ''g'')]), (''journeys.yaml'', File ''c''),
      (''skills'', Dir [(''leave'', Dir [(''.draft'', Symlink), (''SKILL.md'', File ''s'')])])]"

theorem ReadBundle_reads_witness:
  "ReadBundle example_tree = Inr [(''journeys.yaml'', ''c''), (''skills/leave/SKILL.md'', ''s'')] \<and>
   validateBundle [(''journeys.yaml'', ''c''), (''skills/leave/SKILL.md'', ''s'')] = Inr ()"
proof -
  have read: "ReadBundle example_tree = Inr [(''journeys.yaml'', ''c''), (''skills/leave/SKILL.md'', ''s'')]" by code_simp
  have "proper example_tree" by code_simp
  from read ReadBundle_reads [OF this read] show ?thesis by blast
qed

end
