(* ===== verification/Defstore.thy ===== *)
theory Defstore
  imports Runtime_Safety Bundle_Read Journal_Pins Platform_Safety
begin

text \<open>
  The rollout of definitions (\<open>internal/defstore/activate.go\<close>): a bundle directory is read, compiled, stored and made current,
  while other replicas work on the same database. The loader of \<open>Runtime_Run\<close> is given the compiler of \<open>Bundle\<close>.
\<close>

section \<open>Activation\<close>

definition activateAttempts :: nat where "activateAttempts = 5"

datatype Outcome = Activated | AlreadyCurrent | Superseded

record Result =
  rs_Digest :: string
  rs_Current :: string
  rs_Outcome :: Outcome

datatype activate_error =
    ErrBundle bundle_error
  | ErrDatabase run_error
  | ErrUnservable string
  | ErrAttempts

type_synonym activation = "(activate_error + Result) run"

definition bundle_compiler :: "(bytes \<Rightarrow> string) \<Rightarrow> (bytes \<Rightarrow> yaml_result) \<Rightarrow> compiler" where
  "bundle_compiler sha yaml files = (case CompileBundle sha yaml files of Inl _ \<Rightarrow> None | Inr (ds, _) \<Rightarrow> Some ds)"

definition report :: "string \<Rightarrow> string \<Rightarrow> Outcome \<Rightarrow> activation" where
  "report candidate current outcome =
     succeed (Inr \<lparr>rs_Digest = candidate, rs_Current = current, rs_Outcome = outcome\<rparr>)"

text \<open>A database call, whose error ends the activation.\<close>

definition store_call :: "env \<Rightarrow> (int \<Rightarrow> db \<Rightarrow> (journal_error + 'a) \<times> db) \<Rightarrow> ('a \<Rightarrow> activation) \<Rightarrow> activation" where
  "store_call env f k =
     outcome_of (journal env f) (\<lambda>r. case r of Inl e \<Rightarrow> succeed (Inl (ErrDatabase e)) | Inr a \<Rightarrow> k a)"

text \<open>The current digest, empty when there is none.\<close>

definition current_or_empty :: "env \<Rightarrow> (string \<Rightarrow> activation) \<Rightarrow> activation" where
  "current_or_empty env k =
     outcome_of (journal env (\<lambda>now db. (CurrentDefinition db, db))) (\<lambda>r.
     case r of
       Inr d \<Rightarrow> k d
     | Inl e \<Rightarrow> if e = ErrJournal ErrDefinition then k [] else succeed (Inl (ErrDatabase e)))"

fun load_each :: "env \<Rightarrow> compiler \<Rightarrow> string list \<Rightarrow> activation \<Rightarrow> activation" where
  "load_each env compile [] k = k"
| "load_each env compile (d # ds) k =
     outcome_of (Load env compile d) (\<lambda>r.
     case r of
       Inr _ \<Rightarrow> load_each env compile ds k
     | Inl e \<Rightarrow> succeed (Inl (if e = ErrJournal ErrDefinition then ErrUnservable d else ErrDatabase e)))"

definition move_current :: "env \<Rightarrow> bool \<Rightarrow> string \<Rightarrow> string \<Rightarrow> activation \<Rightarrow> activation" where
  "move_current env rollback current candidate again =
     read w_sets (\<lambda>sets.
     outcome_of (journal env ((if rollback then RollbackDefinition else ActivateDefinition) current candidate (Some (\<lambda>d. Served d sets)))) (\<lambda>r.
     case r of
       Inr _ \<Rightarrow> report candidate candidate Activated
     | Inl e \<Rightarrow>
         if e = ErrJournal ErrDefinitionSuperseded then current_or_empty env (\<lambda>current. report candidate current Superseded)
         else if e \<noteq> ErrJournal ErrDefinition then succeed (Inl (ErrDatabase e))
         else again))"

primrec activate_loop :: "nat \<Rightarrow> env \<Rightarrow> compiler \<Rightarrow> bool \<Rightarrow> string \<Rightarrow> activation" where
  "activate_loop 0 env compile rollback candidate = succeed (Inl ErrAttempts)"
| "activate_loop (Suc n) env compile rollback candidate =
     current_or_empty env (\<lambda>current.
     if current = candidate then report candidate current AlreadyCurrent
     else
       let go = store_call env (\<lambda>now db. (Inr (ReferencedDefinitions db), db)) (\<lambda>referenced.
         load_each env compile (candidate # referenced) (
         move_current env rollback current candidate (activate_loop n env compile rollback candidate)))
       in
       if rollback then go
       else store_call env (\<lambda>now db. (Inr (DefinitionActivated candidate db), db)) (\<lambda>earlier.
         if earlier then report candidate current Superseded else go))"

text \<open>The database is migrated first; a migrated one is left as it is. The loader of the activation starts empty.\<close>

definition Activate_op ::
  "env \<Rightarrow> (bytes \<Rightarrow> string) \<Rightarrow> (bytes \<Rightarrow> yaml_result) \<Rightarrow> (string \<times> tree) list \<Rightarrow> bool \<Rightarrow> activation" where
  "Activate_op env sha yaml dir rollback =
     modify (\<lambda>w. w\<lparr>w_sets := []\<rparr>) (
     store_call env (\<lambda>now db. (Inr (), db)) (\<lambda>_.
     case ReadBundle dir of
       Inl e \<Rightarrow> succeed (Inl (ErrBundle e))
     | Inr b \<Rightarrow>
         (case CompileBundle sha yaml b of
            Inl e \<Rightarrow> succeed (Inl (ErrBundle e))
          | Inr (ds, files) \<Rightarrow>
              store_call env (\<lambda>now. PutDefinitionSet (ds_digest ds) files) (\<lambda>_.
              activate_loop activateAttempts env (bundle_compiler sha yaml) rollback (ds_digest ds)))))"

section \<open>Facts that other replicas cannot undo\<close>

definition stored_files :: "string \<Rightarrow> Bundle \<Rightarrow> db \<Rightarrow> bool" where
  "stored_files d files db \<longleftrightarrow> (d, files) \<in> set (map (\<lambda>s. (dset_digest s, dset_files s)) (definition_sets db))"

definition set_stored :: "string \<Rightarrow> db \<Rightarrow> bool" where
  "set_stored d db \<longleftrightarrow> (\<exists>files. stored_files d files db)"

lemma set_stored_iff: "set_stored d db \<longleftrightarrow> d \<in> dset_digest ` set (definition_sets db)"
  by (force simp: set_stored_def stored_files_def)

definition lasting :: "libs \<Rightarrow> (db \<Rightarrow> bool) \<Rightarrow> bool" where
  "lasting lib P \<longleftrightarrow> (\<forall>db reqs. reachable lib db \<longrightarrow> P db \<longrightarrow> P (run_requests lib reqs db))"

lemma lastingI: "(\<And>a b. move lib a b \<Longrightarrow> P a \<Longrightarrow> P b) \<Longrightarrow> lasting lib P"
  unfolding lasting_def
  by (intro allI impI, rule reachable_relation [where R = "\<lambda>a b. P a \<longrightarrow> P b", THEN mp]) auto

lemma lasting_activated: "lasting lib (activated d)"
  using activated_kept_requests by (auto simp: lasting_def)

lemma lasting_files: "lasting lib (stored_files d files)"
proof (rule lastingI)
  fix a b assume "move lib a b" "stored_files d files a"
  then show "stored_files d files b"
  proof (induction rule: move.induct)
    case (activated db e now)
    have "map (\<lambda>s. (dset_digest s, dset_files s)) (update_where p (\<lambda>s. s\<lparr>dset_activated_at := Some now\<rparr>) xs) =
        map (\<lambda>s. (dset_digest s, dset_files s)) xs" for p and xs :: "definition_set_row list"
      by (simp add: update_where_def)
    with activated show ?case unfolding stored_files_def markActivated_def by (simp del: set_map list.map)
  qed (auto simp: stored_files_def table_updates set_marker_def insert_snapshot_def add_event_def)
qed

lemma lasting_stored: "lasting lib (set_stored d)"
  using lasting_files unfolding lasting_def set_stored_def by blast

lemma lasting_conj: "lasting lib P \<Longrightarrow> lasting lib Q \<Longrightarrow> lasting lib (\<lambda>db. P db \<and> Q db)"
  by (simp add: lasting_def)

section \<open>Assertions on the steps of an activation\<close>

definition post :: "(world \<Rightarrow> bool) \<Rightarrow> 'a run \<Rightarrow> (run_error + 'a \<Rightarrow> world \<Rightarrow> bool) \<Rightarrow> bool" where
  "post P m Q \<longleftrightarrow> (\<forall>w. P w \<longrightarrow> Q (fst (m w)) (snd (m w)))"

lemma post_outcome_of: "post P m Q \<Longrightarrow> (\<And>r. post (Q r) (k r) S) \<Longrightarrow> post P (outcome_of m k) S"
  unfolding post_def outcome_of_def by (metis (mono_tags, lifting) case_prod_beta')

lemma post_succeed: "(\<And>w. P w \<Longrightarrow> Q (Inr a) w) \<Longrightarrow> post P (succeed a) Q"
  by (simp add: post_def succeed_def)

lemma post_modify: "(\<And>w. P w \<Longrightarrow> P' (f w)) \<Longrightarrow> post P' k Q \<Longrightarrow> post P (modify f k) Q"
  by (simp add: post_def modify_def)

lemma post_read: "(\<And>x. post (\<lambda>w. P w \<and> f w = x) (k x) Q) \<Longrightarrow> post P (read f k) Q"
  by (simp add: post_def read_def)

lemma post_pre: "post P m Q \<Longrightarrow> (\<And>w. P' w \<Longrightarrow> P w) \<Longrightarrow> post P' m Q"
  by (simp add: post_def)

text \<open>The worlds of an activation: the database is one that requests produce, and a set in the cache of the loader has the
  digest under which it is kept and is what its files compile to.\<close>

definition good :: "env \<Rightarrow> compiler \<Rightarrow> (db \<Rightarrow> bool) \<Rightarrow> world \<Rightarrow> bool" where
  "good env compile P w \<longleftrightarrow> reachable (env_lib env) (w_db w) \<and> P (w_db w) \<and>
     (\<forall>d ds. map_of (w_sets w) d = Some ds \<longrightarrow> ds_digest ds = d \<and> (\<exists>files. stored_files d files (w_db w) \<and> compile files = Some ds))"

definition answered :: "env \<Rightarrow> (db \<Rightarrow> bool) \<Rightarrow> (int \<Rightarrow> db \<Rightarrow> (journal_error + 'a) \<times> db) \<Rightarrow> run_error + 'a \<Rightarrow> world \<Rightarrow> bool" where
  "answered env P f r w \<longleftrightarrow> r = Inl ErrContext \<or>
     (\<exists>now db x. P db \<and> f now db = (x, w_db w) \<and> r = (case x of Inl e \<Rightarrow> Inl (ErrJournal e) | Inr a \<Rightarrow> Inr a))"

lemma answered_simps:
  fixes f :: "int \<Rightarrow> db \<Rightarrow> (journal_error + 'a) \<times> db"
  shows "answered env P f (Inr a) w \<longleftrightarrow> (\<exists>now db. P db \<and> f now db = (Inr a, w_db w))"
  "answered env P f (Inl (ErrJournal e)) w \<longleftrightarrow> (\<exists>now db. P db \<and> f now db = (Inl e, w_db w))"
proof -
  have "Inr a = (case x of Inl e \<Rightarrow> Inl (ErrJournal e) | Inr a \<Rightarrow> Inr a) \<longleftrightarrow> x = Inr a" for x by (cases x) auto
  then show "answered env P f (Inr a) w \<longleftrightarrow> (\<exists>now db. P db \<and> f now db = (Inr a, w_db w))" unfolding answered_def by auto
  have "(Inl (ErrJournal e) :: run_error + 'a) = (case x of Inl e \<Rightarrow> Inl (ErrJournal e) | Inr a \<Rightarrow> Inr a) \<longleftrightarrow> x = Inl e" for x
    by (cases x) auto
  then show "answered env P f (Inl (ErrJournal e)) w \<longleftrightarrow> (\<exists>now db. P db \<and> f now db = (Inl e, w_db w))"
    unfolding answered_def by simp
qed

lemma post_journal:
  assumes "is_request (env_lib env) f" "lasting (env_lib env) P"
  shows "post (\<lambda>w. good env compile P w \<and> w_sets w = sets) (journal env f)
    (\<lambda>r w. good env compile P w \<and> w_sets w = sets \<and> answered env P f r w)"
  unfolding post_def
proof (intro allI impI)
  fix w assume w: "good env compile P w \<and> w_sets w = sets"
  let ?db = "run_requests (env_lib env) (env_others env (w_tick w)) (w_db w)"
  obtain reqs n where after: "snd (journal env f w) = w\<lparr>w_db := run_requests (env_lib env) reqs (w_db w), w_tick := n\<rparr>"
    using journal_world [OF assms(1)] by blast
  have "good env compile P (snd (journal env f w)) \<and> w_sets (snd (journal env f w)) = sets"
    using w assms(2) lasting_files [of "env_lib env"] unfolding after good_def lasting_def
    by (auto simp: reachable_requests) blast
  moreover have "P ?db" using w assms(2) by (auto simp: good_def lasting_def)
  then have "answered env P f (fst (journal env f w)) (snd (journal env f w))"
    unfolding answered_def journal_def Let_def by (auto split: prod.splits option.splits intro!: exI [of _ ?db])
  ultimately show "good env compile P (snd (journal env f w)) \<and> w_sets (snd (journal env f w)) = sets \<and>
      answered env P f (fst (journal env f w)) (snd (journal env f w))" by blast
qed

lemma post_bindr:
  "post P m Q \<Longrightarrow> (\<And>a. post (Q (Inr a)) (k a) S) \<Longrightarrow> (\<And>e w. Q (Inl e) w \<Longrightarrow> S (Inl e) w) \<Longrightarrow> post P (bindr m k) S"
  unfolding post_def bindr_def by (auto split: prod.splits sum.splits)

lemma post_throw: "(\<And>w. P w \<Longrightarrow> Q (Inl e) w) \<Longrightarrow> post P (throw e) Q"
  by (simp add: post_def throw_def)

lemma post_check: "(b \<Longrightarrow> post P k Q) \<Longrightarrow> (\<And>w. P w \<Longrightarrow> Q (Inl e) w) \<Longrightarrow> post P (check b e k) Q"
  by (simp add: check_def post_throw)

lemma post_option:
  "(x = None \<Longrightarrow> post P m Q) \<Longrightarrow> (\<And>a. x = Some a \<Longrightarrow> post P (k a) Q) \<Longrightarrow> post P (case x of None \<Rightarrow> m | Some a \<Rightarrow> k a) Q"
  by (cases x) auto

lemma DefinitionSet_op_stored: "DefinitionSet_op d db = Inr files \<Longrightarrow> stored_files d files db"
  by (auto simp: DefinitionSet_op_def stored_files_def find_Some_iff split: option.splits)

lemma post_Load:
  assumes "lasting (env_lib env) P"
  shows "post (good env compile P) (Load env compile d) (\<lambda>r. good env compile P)"
  unfolding Load_def
proof (rule post_read, rule post_option)
  fix sets and ds :: DefinitionSet
  assume "map_of sets d = Some ds"
  show "post (\<lambda>w. good env compile P w \<and> w_sets w = sets) (succeed ds) (\<lambda>r. good env compile P)" by (rule post_succeed) simp
next
  fix sets :: "(string \<times> DefinitionSet) list"
  assume none: "map_of sets d = None"
  show "post (\<lambda>w. good env compile P w \<and> w_sets w = sets)
      (bindr (journal env (\<lambda>now db. (DefinitionSet_op d db, db))) (\<lambda>files.
         case compile files of None \<Rightarrow> throw (ErrJournal ErrDefinition)
         | Some ds \<Rightarrow> check (ds_digest ds = d) (ErrJournal ErrDefinition) (
             modify (\<lambda>w. w\<lparr>w_sets := (d, ds) # w_sets w\<rparr>) (succeed ds)))) (\<lambda>r. good env compile P)"
  proof (rule post_bindr [OF post_journal [OF read_request assms]], goal_cases)
    case (1 files)
    show ?case
      by (intro post_option post_check post_throw post_modify [where P' = "good env compile P"] post_succeed)
        (auto simp: good_def answered_simps dest!: DefinitionSet_op_stored)
  qed simp
qed

section \<open>What an activation reports\<close>

definition told :: "env \<Rightarrow> compiler \<Rightarrow> bool \<Rightarrow> string \<Rightarrow> run_error + (activate_error + Result) \<Rightarrow> world \<Rightarrow> bool" where
  "told env compile rollback candidate r w \<longleftrightarrow> good env compile (set_stored candidate) w \<and>
     (case r of
        Inr (Inr res) \<Rightarrow> rs_Digest res = candidate \<and>
          (case rs_Outcome res of
             Activated \<Rightarrow> rs_Current res = candidate \<and> definition_current (w_db w) = Some candidate \<and>
               activated candidate (w_db w) \<and> Served candidate (w_sets w)
           | AlreadyCurrent \<Rightarrow> rs_Current res = candidate \<and> definition_current (w_db w) = Some candidate
           | Superseded \<Rightarrow> \<not> rollback \<and> activated candidate (w_db w))
      | _ \<Rightarrow> True)"

lemma told_failed: "good env compile (set_stored candidate) w \<Longrightarrow> told env compile rollback candidate (Inr (Inl e)) w"
  by (simp add: told_def)

lemma markActivated_activated: "set_stored d db \<Longrightarrow> activated d (markActivated d now db)"
proof -
  assume "set_stored d db"
  then obtain x where x: "x \<in> set (definition_sets db)" "dset_digest x = d" by (auto simp: set_stored_def stored_files_def)
  with in_update_whereI [OF x(1), of "\<lambda>s. dset_digest s = d \<and> dset_activated_at s = None" "\<lambda>s. s\<lparr>dset_activated_at := Some now\<rparr>"]
  show ?thesis unfolding activated_def markActivated_def list_ex_iff by (auto split: if_splits intro: rev_bexI)
qed

lemma activate_moves:
  assumes "activate expected candidate (Some served) rollback now db = (Inr u, db')" "set_stored candidate db"
  shows "definition_current db' = Some candidate \<and> activated candidate db' \<and> served candidate"
proof -
  have stored: "set_stored candidate (db\<lparr>definition_current := Some candidate\<rparr>)" using assms(2) by (simp add: set_stored_def stored_files_def)
  have current: "definition_current (markActivated candidate now d) = definition_current d" for d by (simp add: markActivated_def)
  show ?thesis
    using assms(1) markActivated_activated [OF assms(2), of now] markActivated_activated [OF stored, of now] current
    by (auto simp: activate_def begin_func_Inr activate_tx_def tx_defs split: if_splits)
qed

lemma activate_superseded:
  assumes "activate expected candidate (Some served) rollback now db = (Inl ErrDefinitionSuperseded, db')"
  shows "\<not> rollback \<and> activated candidate db'"
  using assms
  by (auto simp: activate_def begin_func_Inl activate_tx_def tx_defs split: if_splits)

lemma post_good:
  assumes "lasting (env_lib env) P" "is_request (env_lib env) f"
  shows "post (good env compile P) (journal env f) (\<lambda>r w. good env compile P w \<and> answered env P f r w)"
  using post_journal [OF assms(2,1), of compile] unfolding post_def by blast

lemma post_current:
  assumes "lasting (env_lib env) P" "\<And>d. post (\<lambda>w. good env compile P w \<and> or_empty (definition_current (w_db w)) = d) (k d) S"
    "\<And>e w. good env compile P w \<Longrightarrow> S (Inr (Inl e)) w"
  shows "post (good env compile P) (current_or_empty env k) S"
  unfolding current_or_empty_def
proof (rule post_outcome_of [OF post_good [OF assms(1) read_request]])
  fix r
  show "post (\<lambda>w. good env compile P w \<and> answered env P (\<lambda>now db. (CurrentDefinition db, db)) r w)
      (case r of Inl e \<Rightarrow> if e = ErrJournal ErrDefinition then k [] else succeed (Inl (ErrDatabase e)) | Inr d \<Rightarrow> k d) S"
  proof (cases r)
    case (Inl e)
    show ?thesis
    proof (cases "e = ErrJournal ErrDefinition")
      case True
      with Inl show ?thesis
        by (auto intro!: post_pre [OF assms(2)] simp: answered_def CurrentDefinition_def or_empty_def split: option.splits sum.splits)
    qed (use Inl assms(3) in \<open>auto intro!: post_succeed\<close>)
  next
    case (Inr d)
    then show ?thesis
      by (auto intro!: post_pre [OF assms(2)] simp: answered_def CurrentDefinition_def or_empty_def split: option.splits sum.splits)
  qed
qed

lemma post_store_call:
  assumes "lasting (env_lib env) P" "is_request (env_lib env) f"
    "\<And>a. post (\<lambda>w. good env compile P w \<and> answered env P f (Inr a) w) (k a) S" "\<And>e w. good env compile P w \<Longrightarrow> S (Inr (Inl e)) w"
  shows "post (good env compile P) (store_call env f k) S"
  unfolding store_call_def
proof (rule post_outcome_of [OF post_good [OF assms(1,2)]])
  fix r
  show "post (\<lambda>w. good env compile P w \<and> answered env P f r w)
      (case r of Inl e \<Rightarrow> succeed (Inl (ErrDatabase e)) | Inr a \<Rightarrow> k a) S"
    using assms(3,4) by (cases r) (auto intro: post_succeed)
qed

lemma post_load_each:
  assumes "lasting (env_lib env) P" "post (good env compile P) k S" "\<And>e w. good env compile P w \<Longrightarrow> S (Inr (Inl e)) w"
  shows "post (good env compile P) (load_each env compile ds k) S"
proof (induction ds)
  case (Cons d ds)
  show ?case
    unfolding load_each.simps
  proof (rule post_outcome_of [OF post_Load [OF assms(1)]])
    fix r show "post (good env compile P) (case r of Inl e \<Rightarrow> succeed (Inl (if e = ErrJournal ErrDefinition then ErrUnservable d else ErrDatabase e))
        | Inr _ \<Rightarrow> load_each env compile ds k) S"
      using Cons assms(3) by (cases r) (auto intro: post_succeed)
  qed
qed (use assms(2) in simp)

lemma activate_request:
  "is_request lib ((if rollback then RollbackDefinition else ActivateDefinition) current candidate served)"
  by (cases rollback) (auto intro: is_requestI [of _ _ "ReqRollback current candidate served"] is_requestI [of _ _ "ReqActivate current candidate served"])

lemma activate_choice:
  "(if rollback then RollbackDefinition else ActivateDefinition) current candidate served = activate current candidate served rollback"
  by (simp add: RollbackDefinition_def ActivateDefinition_def)

lemma post_move_current:
  fixes compile :: compiler
  assumes again: "post (good env compile (set_stored candidate)) again (told env compile rollback candidate)"
  shows "post (good env compile (set_stored candidate)) (move_current env rollback current candidate again) (told env compile rollback candidate)"
  unfolding move_current_def
proof (rule post_read, rule post_outcome_of [OF post_journal [OF activate_request lasting_stored]])
  fix sets r
  let ?act = "(if rollback then RollbackDefinition else ActivateDefinition) current candidate (Some (\<lambda>d. Served d sets))"
  let ?pre = "\<lambda>w. good env compile (set_stored candidate) w \<and> w_sets w = sets \<and> answered env (set_stored candidate) ?act r w"
  have super: "post (good env compile (\<lambda>db. set_stored candidate db \<and> activated candidate db))
      (current_or_empty env (\<lambda>current. report candidate current Superseded)) (told env compile rollback candidate)" if "\<not> rollback"
    unfolding report_def
    by (rule post_current [OF lasting_conj [OF lasting_stored lasting_activated]])
      (use that in \<open>auto intro!: post_succeed simp: told_def good_def\<close>)
  show "post ?pre (case r of
       Inr _ \<Rightarrow> report candidate candidate Activated
     | Inl e \<Rightarrow>
         if e = ErrJournal ErrDefinitionSuperseded then current_or_empty env (\<lambda>current. report candidate current Superseded)
         else if e \<noteq> ErrJournal ErrDefinition then succeed (Inl (ErrDatabase e))
         else again) (told env compile rollback candidate)"
  proof (cases r)
    case (Inr u)
    then have "told env compile rollback candidate (Inr (Inr \<lparr>rs_Digest = candidate, rs_Current = candidate, rs_Outcome = Activated\<rparr>)) w"
      if "?pre w" for w
      using that activate_moves [of current candidate "\<lambda>d. Served d sets" rollback _ _ u "w_db w"]
      unfolding activate_choice by (auto simp: told_def answered_simps)
    with Inr show ?thesis by (auto simp: report_def intro: post_succeed)
  next
    case (Inl e)
    have "\<not> rollback \<and> activated candidate (w_db w)" if "e = ErrJournal ErrDefinitionSuperseded" "?pre w" for w
      using that Inl activate_superseded [of current candidate "\<lambda>d. Served d sets" rollback _ _ "w_db w"]
      unfolding activate_choice by (auto simp: answered_simps)
    then have "post ?pre (current_or_empty env (\<lambda>current. report candidate current Superseded)) (told env compile rollback candidate)"
      if "e = ErrJournal ErrDefinitionSuperseded"
      using that super by (cases rollback) (auto simp: good_def post_def)
    moreover have "post ?pre again (told env compile rollback candidate)" by (rule post_pre [OF again]) simp
    ultimately show ?thesis using Inl by (auto intro!: post_succeed told_failed)
  qed
qed

lemma post_loop:
  assumes "candidate \<noteq> []"
  shows "post (good env compile (set_stored candidate)) (activate_loop n env compile rollback candidate) (told env compile rollback candidate)"
proof (induction n)
  case 0
  show ?case by (auto intro!: post_succeed told_failed)
next
  case (Suc n)
  let ?good = "good env compile (set_stored candidate)"
  let ?go = "\<lambda>current. store_call env (\<lambda>now db. (Inr (ReferencedDefinitions db), db)) (\<lambda>referenced.
         load_each env compile (candidate # referenced) (
         move_current env rollback current candidate (activate_loop n env compile rollback candidate)))"
  have go: "post ?good (?go current) (told env compile rollback candidate)" for current
    by (intro post_store_call [OF lasting_stored read_request] post_pre [OF post_load_each [OF lasting_stored post_move_current [OF Suc]]])
      (auto intro: told_failed)
  have earlier: "post ?good (store_call env (\<lambda>now db. (Inr (DefinitionActivated candidate db), db)) (\<lambda>earlier.
      if earlier then report candidate current Superseded else ?go current)) (told env compile rollback candidate)"
    if "\<not> rollback" for current
  proof (rule post_store_call [OF lasting_stored read_request])
    fix earlier
    show "post (\<lambda>w. ?good w \<and> answered env (set_stored candidate) (\<lambda>now db. (Inr (DefinitionActivated candidate db), db)) (Inr earlier) w)
        (if earlier then report candidate current Superseded else ?go current) (told env compile rollback candidate)"
    proof (cases earlier)
      case True
      with that show ?thesis by (auto simp: report_def answered_simps told_def DefinitionActivated_def intro!: post_succeed)
    next
      case False
      show ?thesis unfolding if_not_P [OF False] by (rule post_pre [OF go]) simp
    qed
  qed (rule told_failed)
  show ?case
    unfolding activate_loop.simps Let_def
  proof (rule post_current [OF lasting_stored])
    fix current
    have "post ?good (if rollback then ?go current else store_call env (\<lambda>now db. (Inr (DefinitionActivated candidate db), db)) (\<lambda>earlier.
        if earlier then report candidate current Superseded else ?go current)) (told env compile rollback candidate)"
    proof (cases rollback)
      case True
      show ?thesis unfolding if_P [OF True] by (rule go)
    next
      case False
      show ?thesis unfolding if_not_P [OF False] by (rule earlier [OF False])
    qed
    then show "post (\<lambda>w. ?good w \<and> or_empty (definition_current (w_db w)) = current)
        (if current = candidate then report candidate current AlreadyCurrent
         else if rollback then ?go current else store_call env (\<lambda>now db. (Inr (DefinitionActivated candidate db), db)) (\<lambda>earlier.
           if earlier then report candidate current Superseded else ?go current)) (told env compile rollback candidate)"
    proof (cases "current = candidate")
      case True
      with assms show ?thesis
        by (auto simp: report_def told_def or_empty_def split: option.splits intro!: post_succeed)
    next
      case False
      assume go: "post ?good (if rollback then ?go current else store_call env (\<lambda>now db. (Inr (DefinitionActivated candidate db), db)) (\<lambda>earlier.
        if earlier then report candidate current Superseded else ?go current)) (told env compile rollback candidate)"
      show ?thesis unfolding if_not_P [OF False] by (rule post_pre [OF go]) simp
    qed
  qed (rule told_failed)
qed

lemma put_stored:
  "PutDefinitionSet d files db = (Inr u, db') \<Longrightarrow> d \<noteq> [] \<and> set_stored d db'"
  by (force simp: PutDefinitionSet_def set_stored_def stored_files_def digestPattern_def begin_func_Inr tx_defs list_ex_iff
      split: if_splits)

lemma activation_told:
  assumes "reachable (env_lib env) (w_db w)" "Activate_op env sha yaml dir rollback w = (Inr (Inr res), w')"
  shows "(\<exists>b ds files. ReadBundle dir = Inr b \<and> CompileBundle sha yaml b = Inr (ds, files) \<and> rs_Digest res = ds_digest ds) \<and>
    (case rs_Outcome res of
       Activated \<Rightarrow> rs_Current res = rs_Digest res \<and> definition_current (w_db w') = Some (rs_Digest res) \<and>
         activated (rs_Digest res) (w_db w') \<and>
         (\<exists>files ds. stored_files (rs_Digest res) files (w_db w') \<and> bundle_compiler sha yaml files = Some ds \<and>
            ds_digest ds = rs_Digest res)
     | AlreadyCurrent \<Rightarrow> rs_Current res = rs_Digest res \<and> definition_current (w_db w') = Some (rs_Digest res)
     | Superseded \<Rightarrow> \<not> rollback \<and> activated (rs_Digest res) (w_db w'))"
proof -
  let ?compile = "bundle_compiler sha yaml"
  let ?all = "\<lambda>r w. \<forall>res. r = Inr (Inr res) \<longrightarrow> (\<exists>b ds files. ReadBundle dir = Inr b \<and> CompileBundle sha yaml b = Inr (ds, files) \<and>
      told env ?compile rollback (ds_digest ds) r w)"
  have any: "lasting (env_lib env) (\<lambda>_. True)" by (simp add: lasting_def)
  have put: "is_request (env_lib env) (\<lambda>now. PutDefinitionSet d files)" for d files
    by (rule is_requestI [of _ _ "ReqPutDefinitionSet d files"]) simp
  have rest: "post (good env ?compile (\<lambda>_. True)) (store_call env (\<lambda>now. PutDefinitionSet (ds_digest ds) files) (\<lambda>_.
      activate_loop activateAttempts env ?compile rollback (ds_digest ds))) ?all"
    if "ReadBundle dir = Inr b" "CompileBundle sha yaml b = Inr (ds, files)" for b ds files
  proof (rule post_store_call [OF any put])
    fix u
    have "post (\<lambda>w. good env ?compile (set_stored (ds_digest ds)) w \<and> ds_digest ds \<noteq> [])
        (activate_loop activateAttempts env ?compile rollback (ds_digest ds)) ?all"
      using post_loop [of "ds_digest ds" env ?compile activateAttempts rollback] that unfolding post_def by blast
    then show "post (\<lambda>w. good env ?compile (\<lambda>_. True) w \<and> answered env (\<lambda>_. True) (\<lambda>now. PutDefinitionSet (ds_digest ds) files) (Inr u) w)
        (activate_loop activateAttempts env ?compile rollback (ds_digest ds)) ?all"
      by (rule post_pre) (auto simp: answered_simps good_def dest: put_stored)
  qed simp
  have "post (\<lambda>w. reachable (env_lib env) (w_db w)) (Activate_op env sha yaml dir rollback) ?all"
    unfolding Activate_op_def
  proof (rule post_modify [where P' = "good env ?compile (\<lambda>_. True)"], goal_cases)
    case 2
    show ?case
    proof (rule post_store_call [OF any read_request], goal_cases)
      case (1 u)
      show ?case
        using rest by (auto split: sum.split intro!: post_succeed intro: post_pre)
    qed simp
  qed (simp add: good_def)
  with assms have "?all (Inr (Inr res)) w'" unfolding post_def by (metis fst_conv snd_conv)
  then obtain b ds files where ds: "ReadBundle dir = Inr b" "CompileBundle sha yaml b = Inr (ds, files)"
    and told: "told env ?compile rollback (ds_digest ds) (Inr (Inr res)) w'" by blast
  then have "Served (ds_digest ds) (w_sets w') \<Longrightarrow> \<exists>files d. stored_files (ds_digest ds) files (w_db w') \<and> ?compile files = Some d \<and>
      ds_digest d = ds_digest ds"
    unfolding told_def good_def Served_def by blast
  with ds told show ?thesis by (auto simp: told_def split: Outcome.splits)
qed

text \<open>C11. What an activation reports is true when it returns, whatever other replicas did meanwhile: the set that is said to be
  activated or current already is the current one; an activated set is marked so and its stored files compile to the digest of
  the bundle; a set is superseded only without rollback, and only when it was activated before.\<close>

theorem Activate_reports:
  assumes "reachable (env_lib env) (w_db w)" "Activate_op env sha yaml dir rollback w = (Inr (Inr res), w')"
  shows "(\<exists>b ds files. ReadBundle dir = Inr b \<and> CompileBundle sha yaml b = Inr (ds, files) \<and> rs_Digest res = ds_digest ds) \<and>
    (case rs_Outcome res of
       Activated \<Rightarrow> rs_Current res = rs_Digest res \<and> definition_current (w_db w') = Some (rs_Digest res) \<and>
         activated (rs_Digest res) (w_db w') \<and>
         (\<exists>files ds. stored_files (rs_Digest res) files (w_db w') \<and> bundle_compiler sha yaml files = Some ds \<and>
            ds_digest ds = rs_Digest res)
     | AlreadyCurrent \<Rightarrow> rs_Current res = rs_Digest res \<and> definition_current (w_db w') = Some (rs_Digest res)
     | Superseded \<Rightarrow> \<not> rollback \<and> activated (rs_Digest res) (w_db w'))"
  by (rule activation_told [OF assms])

section \<open>An activation that nobody disturbs\<close>

definition undisturbed :: "env \<Rightarrow> bool" where
  "undisturbed env \<longleftrightarrow> (\<forall>n. env_others env n = [] \<and> env_fault env n = None)"

lemma journal_undisturbed:
  "undisturbed env \<Longrightarrow> f (env_now env (w_tick w)) (w_db w) = (r, db') \<Longrightarrow>
     journal env f w = ((case r of Inl e \<Rightarrow> Inl (ErrJournal e) | Inr a \<Rightarrow> Inr a), w\<lparr>w_db := db', w_tick := Suc (w_tick w)\<rparr>)"
  by (simp add: journal_def undisturbed_def)

definition loadable :: "compiler \<Rightarrow> db \<Rightarrow> string \<Rightarrow> bool" where
  "loadable compile db d \<longleftrightarrow> (\<exists>files ds. DefinitionSet_op d db = Inr files \<and> compile files = Some ds \<and> ds_digest ds = d)"

lemma Load_undisturbed:
  assumes "undisturbed env" "loadable compile (w_db w) d"
  shows "\<exists>ds n sets. Load env compile d w = (Inr ds, w\<lparr>w_tick := n, w_sets := sets\<rparr>) \<and> Served d sets \<and>
    (\<forall>x. Served x (w_sets w) \<longrightarrow> Served x sets)"
proof (cases "map_of (w_sets w) d")
  case None
  from assms(2) obtain files ds where "DefinitionSet_op d (w_db w) = Inr files" "compile files = Some ds" "ds_digest ds = d"
    by (auto simp: loadable_def)
  with None assms(1) show ?thesis
    unfolding Load_def read_def
    by (intro exI [of _ ds] exI [of _ "Suc (w_tick w)"] exI [of _ "(d, ds) # w_sets w"])
      (simp add: bindr_def journal_undisturbed check_def modify_def succeed_def Served_def)
next
  case (Some ds)
  then show ?thesis
    unfolding Load_def read_def
    by (intro exI [of _ ds] exI [of _ "w_tick w"] exI [of _ "w_sets w"]) (simp add: succeed_def Served_def)
qed

lemma load_each_undisturbed:
  assumes "undisturbed env" "\<And>d. d \<in> set ds \<Longrightarrow> loadable compile (w_db w) d"
  shows "\<exists>n sets. load_each env compile ds k w = k (w\<lparr>w_tick := n, w_sets := sets\<rparr>) \<and>
    (\<forall>x. x \<in> set ds \<or> Served x (w_sets w) \<longrightarrow> Served x sets)"
  using assms(2)
proof (induction ds arbitrary: w)
  case Nil
  then show ?case by (intro exI [of _ "w_tick w"] exI [of _ "w_sets w"]) simp
next
  case (Cons d ds)
  from Load_undisturbed [OF assms(1) Cons.prems [of d]] obtain s n sets where load:
    "Load env compile d w = (Inr s, w\<lparr>w_tick := n, w_sets := sets\<rparr>)" "Served d sets" "\<forall>x. Served x (w_sets w) \<longrightarrow> Served x sets"
    by auto
  from Cons.IH [of "w\<lparr>w_tick := n, w_sets := sets\<rparr>"] Cons.prems obtain m sets'
    where "load_each env compile ds k (w\<lparr>w_tick := n, w_sets := sets\<rparr>) = k (w\<lparr>w_tick := m, w_sets := sets'\<rparr>)"
      "\<forall>x. x \<in> set ds \<or> Served x sets \<longrightarrow> Served x sets'" by auto
  with load show ?case by (intro exI [of _ m] exI [of _ sets']) (auto simp: outcome_of_def)
qed

lemma activate_undisturbed:
  assumes "length candidate = 64" "served candidate" "\<not> activated candidate db" "definition_current db \<noteq> Some candidate"
    "\<And>d. d \<in> set (referencedDigests db) \<Longrightarrow> served d"
  shows "\<exists>db'. activate (or_empty (definition_current db)) candidate (Some served) rollback now db = (Inr (), db')"
proof -
  have "d \<in> set (referencedDigests db)" if "definition_current db = Some d" for d using that by (simp add: referencedDigests_def)
  with assms show ?thesis
    by (auto simp: activate_def begin_func_def activate_tx_def tx_defs or_empty_def list_all_iff split: option.splits)
qed

lemma current_undisturbed:
  "undisturbed env \<Longrightarrow> current_or_empty env k w = k (or_empty (definition_current (w_db w))) (w\<lparr>w_tick := Suc (w_tick w)\<rparr>)"
  by (cases "definition_current (w_db w)")
    (simp_all add: current_or_empty_def outcome_of_def journal_undisturbed CurrentDefinition_def or_empty_def)

lemma store_call_undisturbed:
  "undisturbed env \<Longrightarrow> f (env_now env (w_tick w)) (w_db w) = (Inr a, db') \<Longrightarrow>
     store_call env f k w = k a (w\<lparr>w_db := db', w_tick := Suc (w_tick w)\<rparr>)"
  by (simp add: store_call_def outcome_of_def journal_undisturbed)

lemma move_undisturbed:
  assumes "undisturbed env" "length candidate = 64" "\<not> activated candidate (w_db w)" "definition_current (w_db w) \<noteq> Some candidate"
    "\<And>d. d \<in> insert candidate (set (referencedDigests (w_db w))) \<Longrightarrow> Served d (w_sets w)"
  shows "\<exists>w'. move_current env rollback (or_empty (definition_current (w_db w))) candidate again w =
    (Inr (Inr \<lparr>rs_Digest = candidate, rs_Current = candidate, rs_Outcome = Activated\<rparr>), w')"
proof -
  obtain db' where "activate (or_empty (definition_current (w_db w))) candidate (Some (\<lambda>d. Served d (w_sets w))) rollback
      (env_now env (w_tick w)) (w_db w) = (Inr (), db')"
    using activate_undisturbed [OF assms(2) _ assms(3,4), of "\<lambda>d. Served d (w_sets w)"] assms(5) by blast
  then show ?thesis
    unfolding move_current_def activate_choice
    by (simp add: read_def outcome_of_def journal_undisturbed [OF assms(1)] report_def succeed_def)
qed

lemma loop_undisturbed:
  assumes "undisturbed env" "length candidate = 64" "\<not> activated candidate (w_db w)" "definition_current (w_db w) \<noteq> Some candidate"
    "\<And>d. d \<in> insert candidate (set (referencedDigests (w_db w))) \<Longrightarrow> loadable compile (w_db w) d"
  shows "\<exists>w'. activate_loop (Suc n) env compile rollback candidate w =
    (Inr (Inr \<lparr>rs_Digest = candidate, rs_Current = candidate, rs_Outcome = Activated\<rparr>), w')"
proof -
  let ?move = "move_current env rollback (or_empty (definition_current (w_db w))) candidate (activate_loop n env compile rollback candidate)"
  have new: "or_empty (definition_current (w_db w)) \<noteq> candidate"
    using assms(2,4) by (cases "definition_current (w_db w)") (auto simp: or_empty_def)
  have loads: "\<exists>w'. load_each env compile (candidate # ReferencedDefinitions (w_db w)) ?move (w\<lparr>w_tick := m\<rparr>) =
      (Inr (Inr \<lparr>rs_Digest = candidate, rs_Current = candidate, rs_Outcome = Activated\<rparr>), w')" for m
  proof -
    from load_each_undisturbed [OF assms(1), of "candidate # ReferencedDefinitions (w_db w)" compile "w\<lparr>w_tick := m\<rparr>" ?move] assms(5)
    obtain k sets where l: "load_each env compile (candidate # ReferencedDefinitions (w_db w)) ?move (w\<lparr>w_tick := m\<rparr>) =
        ?move (w\<lparr>w_tick := k, w_sets := sets\<rparr>)"
      "\<forall>x. x \<in> insert candidate (set (referencedDigests (w_db w))) \<longrightarrow> Served x sets"
      by (auto simp: ReferencedDefinitions_def)
    from move_undisturbed [OF assms(1-2), of "w\<lparr>w_tick := k, w_sets := sets\<rparr>"] assms(3,4) l(2) show ?thesis
      unfolding l(1) by simp
  qed
  show ?thesis
    using loads new assms(3)
    by (cases rollback) (simp_all add: current_undisturbed [OF assms(1)] store_call_undisturbed [OF assms(1)] DefinitionActivated_def Let_def
        del: load_each.simps)
qed

text \<open>Storing a new set leaves what is current, referenced and stored as it was.\<close>

lemma put_new:
  assumes "digestPattern d" "files \<noteq> []" "[] \<notin> fst ` set files" "\<not> set_stored d db"
  shows "PutDefinitionSet d files db = (Inr (), db\<lparr>definition_sets := definition_sets db @
    [\<lparr>dset_digest = d, dset_files = files, dset_activated_at = None\<rparr>]\<rparr>)"
  using assms by (auto simp: PutDefinitionSet_def begin_func_def tx_defs set_stored_iff list_ex_iff)

lemma src_bind_Inr: "src_bind m k R = Inr (c, R2) \<longleftrightarrow> (\<exists>a R1. m R = Inr (a, R1) \<and> k a R1 = Inr (c, R2))"
  by (auto simp: src_bind_def split: sum.splits)

lemma CompileBundle_digest:
  assumes "CompileBundle sha yaml b = Inr (ds, files)"
  shows "\<exists>x. ds_digest ds = sha x"
proof -
  from assms have "compileSource sha yaml b = Inr (ds, files)"
    by (auto simp: CompileBundle_def and_then_Inr_iff split: if_splits)
  then obtain catalog prompt js where "ds = set_of sha catalog prompt js"
    unfolding compileSource_Inr src_bind_Inr by (auto simp: src_return_def)
  then show ?thesis by (auto simp: set_of_def setDigest_def)
qed

lemma find_append: "find P (xs @ ys) = (case find P xs of Some x \<Rightarrow> Some x | None \<Rightarrow> find P ys)"
  by (induction xs) auto

lemma Activate_undisturbed:
  assumes "undisturbed env" "\<And>d. digestPattern (sha d)" "ReadBundle dir = Inr b" "CompileBundle sha yaml b = Inr (ds, files)"
    "\<not> set_stored (ds_digest ds) (w_db w)" "definition_current (w_db w) \<noteq> Some (ds_digest ds)"
    "\<And>d. d \<in> set (referencedDigests (w_db w)) \<Longrightarrow> loadable (bundle_compiler sha yaml) (w_db w) d"
  shows "\<exists>w'. Activate_op env sha yaml dir rollback w =
    (Inr (Inr \<lparr>rs_Digest = ds_digest ds, rs_Current = ds_digest ds, rs_Outcome = Activated\<rparr>), w')"
proof -
  let ?d = "ds_digest ds"
  let ?db = "w_db w\<lparr>definition_sets := definition_sets (w_db w) @ [\<lparr>dset_digest = ?d, dset_files = files, dset_activated_at = None\<rparr>]\<rparr>"
  let ?w = "w\<lparr>w_sets := [], w_db := ?db, w_tick := Suc (Suc (w_tick w))\<rparr>"
  note again = CompileBundle_again [OF assms(4)]
  have hex: "digestPattern ?d" using CompileBundle_digest [OF assms(4)] assms(2) by auto
  have names: "files \<noteq> []" "[] \<notin> fst ` set files"
    using again(2,3) validate_files_iff [of 0 files files]
    by (auto simp: validateBundle_def MaxBundleBytes_def valid_name_def valid_part_def split: if_splits)
  have old: "DefinitionSet_op d ?db = DefinitionSet_op d (w_db w)" if "loadable (bundle_compiler sha yaml) (w_db w) d" for d
    using that by (auto simp: loadable_def DefinitionSet_op_def find_append split: option.splits)
  have "find (\<lambda>s. dset_digest s = ?d) (definition_sets (w_db w)) = None"
    using assms(5) by (force simp: find_None_iff set_stored_iff)
  then have "loadable (bundle_compiler sha yaml) ?db ?d"
    using again(4) by (simp add: loadable_def DefinitionSet_op_def find_append bundle_compiler_def)
  moreover have "busy_conversation ?db = busy_conversation (w_db w)"
    by (rule ext) (simp add: busy_conversation_def busy_interaction_def [abs_def])
  then have refs: "referencedDigests ?db = referencedDigests (w_db w)" by (simp add: referencedDigests_def)
  moreover have "\<not> activated ?d ?db"
    using assms(5) by (force simp: activated_def list_ex_iff set_stored_iff)
  ultimately have "\<exists>w'. activate_loop activateAttempts env (bundle_compiler sha yaml) rollback ?d ?w =
      (Inr (Inr \<lparr>rs_Digest = ?d, rs_Current = ?d, rs_Outcome = Activated\<rparr>), w')"
    unfolding activateAttempts_def numeral_nat
    using hex assms(6,7) old
    by (intro loop_undisturbed [OF assms(1)]) (auto simp: digestPattern_def loadable_def)
  then show ?thesis
    using assms(3,4) put_new [OF hex names assms(5)]
    by (simp add: Activate_op_def modify_def store_call_undisturbed [OF assms(1)])
qed


section \<open>A rollout\<close>

definition hex_digest :: "bytes \<Rightarrow> string" where
  "hex_digest d = replicate 64 (if prefix [CHR ''{'', CHR 34, CHR ''C''] d then CHR ''1'' else CHR ''0'')"

definition rollout_dir :: "(string \<times> tree) list" where
  "rollout_dir =
     [(''journeys.yaml'', File ''c''), (''prompt.md'', File ''p''),
      (''skills'', Dir [(''leave'', Dir [(''SKILL.md'', File (''---'' @ [newline] @ ''name: leave'' @ [newline] @
         ''description: Leave'' @ [newline] @ ''---'' @ [newline] @ ''Help.''))])])]"

definition rollout_digest :: string where
  "rollout_digest = (case ReadBundle rollout_dir of Inl _ \<Rightarrow> [] | Inr b \<Rightarrow>
     (case CompileBundle hex_digest example_yaml b of Inl _ \<Rightarrow> [] | Inr (ds, files) \<Rightarrow> ds_digest ds))"

lemma rollout_digest_hex: "digestPattern rollout_digest"
  by code_simp

text \<open>What the rollout needs.\<close>

lemma rollout_ready:
  "undisturbed quiet_env" "digestPattern (hex_digest x)" "\<not> set_stored d (w_db (world_of empty_db))"
  "definition_current (w_db (world_of empty_db)) \<noteq> Some d" "d \<notin> set (referencedDigests (w_db (world_of empty_db)))"
  by (auto simp: undisturbed_def quiet_env_def hex_digest_def digestPattern_def list_all_iff is_digit_def
      world_of_def empty_db_def set_stored_iff referencedDigests_def List.map_filter_def)

lemma rollout_compiles:
  "\<exists>b ds files. ReadBundle rollout_dir = Inr b \<and> CompileBundle hex_digest example_yaml b = Inr (ds, files) \<and> ds_digest ds = rollout_digest"
proof -
  have "rollout_digest \<noteq> []" using rollout_digest_hex by (auto simp: digestPattern_def)
  then show ?thesis by (auto simp: rollout_digest_def split: sum.splits)
qed


theorem Activate_reports_witness:
  "\<exists>w'. Activate_op quiet_env hex_digest example_yaml rollout_dir False (world_of empty_db) =
     (Inr (Inr \<lparr>rs_Digest = rollout_digest, rs_Current = rollout_digest, rs_Outcome = Activated\<rparr>), w') \<and>
     definition_current (w_db w') = Some rollout_digest \<and> activated rollout_digest (w_db w')"
proof -
  obtain b ds files where b: "ReadBundle rollout_dir = Inr b" "CompileBundle hex_digest example_yaml b = Inr (ds, files)"
    and d: "ds_digest ds = rollout_digest" using rollout_compiles by blast
  obtain w' where w': "Activate_op quiet_env hex_digest example_yaml rollout_dir False (world_of empty_db) =
     (Inr (Inr \<lparr>rs_Digest = rollout_digest, rs_Current = rollout_digest, rs_Outcome = Activated\<rparr>), w')"
    using Activate_undisturbed [OF rollout_ready(1,2) b rollout_ready(3,4), of False] rollout_ready(5) d by auto
  have "reachable (env_lib quiet_env) (w_db (world_of empty_db))" by (simp add: world_of_def reachable.empty)
  from Activate_reports [OF this w'] w' show ?thesis by auto
qed

end
