(* ===== verification/Startup.thy ===== *)
theory Startup
  imports Keycloak Provider Defstore
begin

text \<open>
  The process entry point (\<open>cmd/agent-platform/main.go\<close>): the configuration from the environment, the order in which the parts are
  opened and released, and the \<open>activate\<close> command. URL and duration parsers and everything outside the process are parameters.
\<close>

section \<open>Telemetry settings\<close>

record URI =
  ri_Scheme :: string
  ri_Host :: string
  ri_Path :: string

datatype startup_error =
    CfgUnavailable | CfgMissing | CfgListener | CfgShutdown | CfgProvider | CfgLitellm provider_error | CfgTelemetryHeader
  | CfgTelemetryEndpoint | CfgCredentialHeaders | CfgCostGate | CfgEndpoints | CfgBudgetMissing | CfgBudgetInvalid | CfgBudgetModel

fun header_items :: "(string \<times> string) list \<Rightarrow> string list \<Rightarrow> startup_error + (string \<times> string) list" where
  "header_items hs [] = Inr hs"
| "header_items hs (item # items) =
     (case cut (CHR ''='') item of None \<Rightarrow> Inl CfgTelemetryHeader
      | Some (l, r) \<Rightarrow>
          let name = canonical_header_key (trim_space l); v = trim_space r in
          if name = [] \<or> v = [] \<or> list_ex (\<lambda>c. c \<in> set [CHR 0x0D, CHR 0x0A, CHR '':'']) name \<or>
             list_ex (\<lambda>c. c \<in> set [CHR 0x0D, CHR 0x0A]) v
          then Inl CfgTelemetryHeader
          else if name \<in> fst ` set hs then Inl CfgTelemetryHeader
          else header_items (hs @ [(name, v)]) items)"

definition telemetryHeaders :: "string \<Rightarrow> startup_error + (string \<times> string) list" where
  "telemetryHeaders raw =
     (if trim_space raw = [] then Inr [] else header_items [] (split_on (CHR '','') (trim_space raw)))"

record telemetry_Config =
  tl_ServiceName :: string
  tl_ServiceVersion :: string
  tl_Endpoint :: string
  tl_Headers :: "(string \<times> string) list"
  tl_ShutdownTimeout :: int
  tl_ExportTimeout :: int

text \<open>\<open>require\<close>: a variable that must not be blank.\<close>

definition require_var :: "(string \<Rightarrow> string) \<Rightarrow> string \<Rightarrow> startup_error + string" where
  "require_var lookup name = (let v = trim_space (lookup name) in if v = [] then Inl CfgMissing else Inr v)"

definition telemetryConfig :: "(string \<Rightarrow> URI option) \<Rightarrow> (string \<Rightarrow> string) \<Rightarrow> int \<Rightarrow> startup_error + telemetry_Config" where
  "telemetryConfig parse lookup grace =
     and_then (require_var lookup ''OTEL_SERVICE_NAME'') (\<lambda>name.
     and_then (require_var lookup ''OTEL_SERVICE_VERSION'') (\<lambda>version.
     and_then (telemetryHeaders (lookup ''OTEL_EXPORTER_OTLP_HEADERS'')) (\<lambda>headers.
     let endpoint = trim_space (lookup ''OTEL_EXPORTER_OTLP_ENDPOINT'') in
     if endpoint \<noteq> [] \<and> (case parse endpoint of None \<Rightarrow> True
          | Some u \<Rightarrow> ri_Scheme u \<noteq> ''http'' \<and> ri_Scheme u \<noteq> ''https'' \<or> ri_Host u = [] \<or> ri_Path u = [] \<or> ri_Path u = ''/'')
     then Inl CfgTelemetryEndpoint
     else Inr \<lparr>tl_ServiceName = name, tl_ServiceVersion = version, tl_Endpoint = endpoint, tl_Headers = headers,
            tl_ShutdownTimeout = grace, tl_ExportTimeout = 0\<rparr>)))"

text \<open>The tracer provider (\<open>internal/telemetry/telemetry.go\<close>): its resource, the exporter with its endpoint, headers and time limit, if
  there is an endpoint, and the bound on flushing. Times are in nanoseconds; making resource and exporter can fail.\<close>

record telemetry_Provider =
  tr_service :: "string \<times> string"
  tr_exporter :: "(string \<times> (string \<times> string) list \<times> int) option"
  tr_shutdownTimeout :: int

definition telemetry_New ::
    "(string \<times> string \<Rightarrow> bool) \<Rightarrow> (string \<times> (string \<times> string) list \<times> int \<Rightarrow> bool) \<Rightarrow> telemetry_Config \<Rightarrow> telemetry_Provider option" where
  "telemetry_New resource exporter cfg =
     (let service = (if tl_ServiceName cfg = [] then ''az-agent-platform'' else tl_ServiceName cfg, tl_ServiceVersion cfg);
          shutdown = (if tl_ShutdownTimeout cfg \<le> 0 then 5000000000 else tl_ShutdownTimeout cfg);
          target = (tl_Endpoint cfg, tl_Headers cfg, if tl_ExportTimeout cfg \<le> 0 then 10000000000 else tl_ExportTimeout cfg) in
      if \<not> resource service then None
      else if tl_Endpoint cfg = [] then Some \<lparr>tr_service = service, tr_exporter = None, tr_shutdownTimeout = shutdown\<rparr>
      else if exporter target then Some \<lparr>tr_service = service, tr_exporter = Some target, tr_shutdownTimeout = shutdown\<rparr>
      else None)"

text \<open>The time flushing may take: the bound of the provider, or less when the caller has less; no provider, nothing to flush.\<close>

definition telemetry_Shutdown :: "int option \<Rightarrow> telemetry_Provider option \<Rightarrow> int" where
  "telemetry_Shutdown caller p = (case p of None \<Rightarrow> 0
     | Some q \<Rightarrow> (case caller of None \<Rightarrow> tr_shutdownTimeout q | Some left \<Rightarrow> min left (tr_shutdownTimeout q)))"

lemma telemetry_New_bounds:
  assumes "telemetry_New resource exporter cfg = Some p"
  shows "0 < tr_shutdownTimeout p" "fst (tr_service p) \<noteq> []" "tr_exporter p = None \<longleftrightarrow> tl_Endpoint cfg = []"
    "telemetry_Shutdown caller (Some p) \<le> tr_shutdownTimeout p"
  using assms by (auto simp: telemetry_New_def telemetry_Shutdown_def Let_def split: if_splits option.splits)

section \<open>Lists in variables\<close>

definition splitValues :: "string \<Rightarrow> string list" where
  "splitValues raw = filter (\<lambda>v. v \<noteq> []) (map trim_space (split_on (CHR '','') raw))"

fun budget_pairs :: "(string \<times> int) list \<Rightarrow> string list \<Rightarrow> startup_error + (string \<times> int) list" where
  "budget_pairs m [] = Inr m"
| "budget_pairs m (pair # pairs) =
     (case cut (CHR ''='') pair of None \<Rightarrow> Inl CfgBudgetInvalid
      | Some (l, r) \<Rightarrow>
          let name = trim_space l in
          (case ParseInt (trim_space r) of None \<Rightarrow> Inl CfgBudgetInvalid
           | Some n \<Rightarrow>
               if name = [] \<or> n < 1 \<or> name \<in> fst ` set m then Inl CfgBudgetInvalid
               else budget_pairs (m @ [(name, n)]) pairs))"

definition parseHistoryBudget :: "string \<Rightarrow> string \<Rightarrow> startup_error + int" where
  "parseHistoryBudget raw model =
     (if trim_space raw = [] then Inl CfgBudgetMissing
      else and_then (budget_pairs [] (split_on (CHR '','') raw)) (\<lambda>m.
           case map_of m model of None \<Rightarrow> Inl CfgBudgetModel | Some n \<Rightarrow> Inr n))"

section \<open>The configuration\<close>

definition keycloakConfig :: "(string \<Rightarrow> string) \<Rightarrow> startup_error + KeycloakConfig" where
  "keycloakConfig lookup =
     and_then (require_var lookup ''KEYCLOAK_JWT_ISSUER'') (\<lambda>issuer.
     and_then (require_var lookup ''KEYCLOAK_JWKS_URL'') (\<lambda>jwks.
     and_then (require_var lookup ''KEYCLOAK_JWT_AUDIENCE'') (\<lambda>audience.
     and_then (require_var lookup ''KEYCLOAK_JWT_SOURCE'') (\<lambda>source.
     and_then (require_var lookup ''KEYCLOAK_JWT_HEADER'') (\<lambda>header.
     and_then (require_var lookup ''KEYCLOAK_USER_CLAIM_PATH'') (\<lambda>user.
     and_then (require_var lookup ''KEYCLOAK_TENANT_CLAIM_PATH'') (\<lambda>tenant.
     and_then (require_var lookup ''KEYCLOAK_JWT_ALLOWED_ALGORITHMS'') (\<lambda>algorithms.
       Inr \<lparr>kc_Issuer = issuer, kc_JWKSURL = jwks, kc_Audience = audience, kc_JWTSource = source, kc_JWTHeader = header,
            kc_UserClaimPath = user, kc_TenantClaimPath = tenant, kc_AllowedAlgorithms = splitValues algorithms\<rparr>))))))))"

record config =
  cf_databaseURL :: string
  cf_port :: int
  cf_grace :: int
  cf_keycloak :: KeycloakConfig
  cf_foundryEndpoint :: string
  cf_foundryDeployment :: string
  cf_modelProvider :: string
  cf_litellm :: litellm_Config
  cf_telemetry :: telemetry_Config
  cf_credentialHeaders :: "string list"
  cf_costGate :: Gate
  cf_historyBudget :: int
  cf_tenantDirectoryPath :: string
  cf_settingsPath :: string
  cf_mcpEndpoints :: "(string \<times> string) list"

text \<open>The parsers of the standard library the configuration goes through.\<close>

record parsers =
  ps_duration :: "string \<Rightarrow> int option"
  ps_endpoint :: url_parser
  ps_model :: model_url_parser
  ps_uri :: "string \<Rightarrow> URI option"

definition no_litellm :: litellm_Config where
  "no_litellm = \<lparr>lc_BaseURL = [], lc_APIKey = [], lc_Model = []\<rparr>"

text \<open>The settings of the configured provider: endpoint and deployment, or the proxy; both with the configured model.\<close>

definition provider_config :: "parsers \<Rightarrow> (string \<Rightarrow> string) \<Rightarrow> string \<Rightarrow> startup_error + (string \<times> string) \<times> litellm_Config" where
  "provider_config p lookup provider =
     (if provider = ''foundry'' then
        and_then (require_var lookup ''AZ_AGENT_FOUNDRY_PROJECT_ENDPOINT'') (\<lambda>endpoint.
        and_then (require_var lookup ''AZ_AGENT_FOUNDRY_DEPLOYMENT'') (\<lambda>deployment. Inr ((endpoint, deployment), no_litellm)))
      else if provider = ''litellm'' then
        (case litellm_ConfigFromEnv (ps_model p) (Some lookup) of Inl e \<Rightarrow> Inl (CfgLitellm e) | Inr c \<Rightarrow> Inr (([], []), c))
      else Inl CfgProvider)"

definition listener_port :: "string \<Rightarrow> startup_error + int" where
  "listener_port t = (case ParseInt t of None \<Rightarrow> Inl CfgListener
     | Some port \<Rightarrow> if port < 1 \<or> port > 65535 then Inl CfgListener else Inr port)"

definition shutdown_grace :: "parsers \<Rightarrow> string \<Rightarrow> startup_error + int" where
  "shutdown_grace p t = (case ps_duration p t of None \<Rightarrow> Inl CfgShutdown
     | Some grace \<Rightarrow> if grace \<le> 0 then Inl CfgShutdown else Inr grace)"

definition credential_headers :: "string \<Rightarrow> startup_error + string list" where
  "credential_headers raw = (case ParseHeaderNames raw of Inl _ \<Rightarrow> Inl CfgCredentialHeaders | Inr names \<Rightarrow> Inr names)"

definition cost_gate :: "string \<Rightarrow> string \<Rightarrow> startup_error + Gate" where
  "cost_gate kind headers = (case New_gate kind headers of Inl _ \<Rightarrow> Inl CfgCostGate | Inr gate \<Rightarrow> Inr gate)"

definition mcp_endpoints :: "parsers \<Rightarrow> string \<Rightarrow> startup_error + (string \<times> string) list" where
  "mcp_endpoints p spec = (case ParseAllowlist (ps_endpoint p) spec of Inl _ \<Rightarrow> Inl CfgEndpoints
     | Inr es \<Rightarrow> if Allowlist_IDs es = [] then Inl CfgEndpoints else Inr es)"

definition loadConfig :: "parsers \<Rightarrow> (string \<Rightarrow> string) option \<Rightarrow> startup_error + config" where
  "loadConfig p env_lookup =
     (case env_lookup of None \<Rightarrow> Inl CfgUnavailable
      | Some lookup \<Rightarrow>
          and_then (require_var lookup ''DATABASE_URL'') (\<lambda>databaseURL.
          and_then (require_var lookup ''AGENT_PLATFORM_PORT'') (\<lambda>portText.
          and_then (listener_port portText) (\<lambda>port.
          and_then (require_var lookup ''AGENT_PLATFORM_SHUTDOWN_GRACE'') (\<lambda>graceText.
          and_then (shutdown_grace p graceText) (\<lambda>grace.
          and_then (keycloakConfig lookup) (\<lambda>keycloak.
          let named = trim_space (lookup ''AZ_AGENT_MODEL_PROVIDER'');
              provider = (if named = [] then ''foundry'' else named) in
          and_then (provider_config p lookup provider) (\<lambda>((endpoint, deployment), proxy).
          and_then (telemetryConfig (ps_uri p) lookup grace) (\<lambda>telemetry.
          and_then (credential_headers (lookup ''AGENT_PLATFORM_CREDENTIAL_HEADERS'')) (\<lambda>names.
          and_then (cost_gate (trim_space (lookup ''AGENT_PLATFORM_COST_GATE'')) (lookup ''AGENT_PLATFORM_COST_HEADERS'')) (\<lambda>gate.
          and_then (require_var lookup ''AGENT_PLATFORM_TENANT_DIRECTORY'') (\<lambda>dirPath.
          and_then (require_var lookup ''AGENT_PLATFORM_MCP_ENDPOINTS'') (\<lambda>spec.
          and_then (mcp_endpoints p spec) (\<lambda>endpoints.
          and_then (require_var lookup ''AGENT_PLATFORM_SETTINGS'') (\<lambda>settings.
          and_then (parseHistoryBudget (lookup ''AGENT_PLATFORM_HISTORY_BUDGET'')
              (if provider = ''litellm'' then lc_Model proxy else deployment)) (\<lambda>budget.
          Inr \<lparr>cf_databaseURL = databaseURL, cf_port = port, cf_grace = grace, cf_keycloak = keycloak,
               cf_foundryEndpoint = endpoint, cf_foundryDeployment = deployment, cf_modelProvider = provider, cf_litellm = proxy,
               cf_telemetry = telemetry, cf_credentialHeaders = names, cf_costGate = gate, cf_historyBudget = budget,
               cf_tenantDirectoryPath = dirPath, cf_settingsPath = settings, cf_mcpEndpoints = endpoints\<rparr>))))))))))))))))"

section \<open>Files\<close>

text \<open>A file as reading gives it, limited to a byte more than is accepted, and what the strict decoder makes of it: nothing, an error, or a
  document and what follows it.\<close>

datatype 'd static_doc = StaticEmpty | StaticInvalid | StaticDoc 'd "bool option"

datatype file_error = CannotRead | TooLong | EmptyFile | BadYAML | SeveralDocuments | BadDirectory static_error | BadSettings settings_error

definition maxStaticSize :: int where "maxStaticSize = 1048576"

definition load_file :: "bytes option \<Rightarrow> (bytes \<Rightarrow> file_error + 'a) \<Rightarrow> file_error + 'a" where
  "load_file content parse = (case content of None \<Rightarrow> Inl CannotRead
     | Some data \<Rightarrow> if int (length data) > maxStaticSize then Inl TooLong else parse data)"

text \<open>\<open>StaticDoc d (Some ok)\<close>: more follows, a document (\<open>ok\<close>) or text that is none.\<close>

definition settings_ParseStatic :: "(bytes \<Rightarrow> Document static_doc) \<Rightarrow> bytes \<Rightarrow> file_error + Compiled" where
  "settings_ParseStatic yaml data =
     (case yaml data of
        StaticEmpty \<Rightarrow> Inl EmptyFile
      | StaticInvalid \<Rightarrow> Inl BadYAML
      | StaticDoc d rest \<Rightarrow>
          (case rest of Some ok \<Rightarrow> Inl (if ok then SeveralDocuments else BadYAML)
           | None \<Rightarrow> (case Compile d of Inl e \<Rightarrow> Inl (BadSettings e) | Inr c \<Rightarrow> Inr c)))"

definition settings_LoadStatic :: "(bytes \<Rightarrow> Document static_doc) \<Rightarrow> bytes option \<Rightarrow> file_error + Compiled" where
  "settings_LoadStatic yaml content = load_file content (settings_ParseStatic yaml)"

definition tenantdir_ParseStatic :: "(bytes \<Rightarrow> (string \<times> Entry) list static_doc) \<Rightarrow> bytes \<Rightarrow> file_error + (string \<times> Entry) list" where
  "tenantdir_ParseStatic yaml data =
     (case yaml data of
        StaticEmpty \<Rightarrow> Inl EmptyFile
      | StaticInvalid \<Rightarrow> Inl BadYAML
      | StaticDoc d rest \<Rightarrow>
          (case rest of Some ok \<Rightarrow> Inl SeveralDocuments
           | None \<Rightarrow> (case ParseStatic_entries d of Inl e \<Rightarrow> Inl (BadDirectory e) | Inr es \<Rightarrow> Inr es)))"

definition tenantdir_LoadStatic ::
    "(bytes \<Rightarrow> (string \<times> Entry) list static_doc) \<Rightarrow> bytes option \<Rightarrow> file_error + (string \<times> Entry) list" where
  "tenantdir_LoadStatic yaml content = load_file content (tenantdir_ParseStatic yaml)"

section \<open>Starting and stopping\<close>

datatype run_failure =
    RunConfig startup_error | RunTelemetry | RunDirectory | RunSettings | RunDatabase | RunMigration | RunIdentity | RunModel
  | RunService | RunListener | RunShutdown | RunTelemetryShutdown | RunStopped

datatype effect =
    TelemetryStarted | TelemetryStopped | PoolOpened | PoolClosed | Pinged | Migrated | ServiceCreated | ServiceClosed
  | Listening | ServiceShutdown

text \<open>How the steps that leave the process turn out.\<close>

record process_env =
  pe_parsers :: parsers
  pe_https :: "string \<Rightarrow> HTTPSURL option"
  pe_order :: "(string \<times> string) list \<Rightarrow> (string \<times> string) list"
  pe_resource :: "string \<times> string \<Rightarrow> bool"
  pe_exporter :: "string \<times> (string \<times> string) list \<times> int \<Rightarrow> bool"
  pe_file :: "string \<Rightarrow> bytes option"
  pe_directory :: "bytes \<Rightarrow> (string \<times> Entry) list static_doc"
  pe_settings :: "bytes \<Rightarrow> Document static_doc"
  pe_pool :: bool
  pe_ping :: bool
  pe_migrate :: bool
  pe_azure :: bool
  pe_listen :: bool
  pe_signalled :: bool
  pe_drained :: bool
  pe_flushed :: bool

definition loadTenancy :: "process_env \<Rightarrow> config \<Rightarrow> run_failure + (string \<times> Entry) list \<times> (string \<times> string) list \<times> Compiled" where
  "loadTenancy e c =
     (case tenantdir_LoadStatic (pe_directory e) (pe_file e (cf_tenantDirectoryPath c)) of Inl _ \<Rightarrow> Inl RunDirectory
      | Inr dir \<Rightarrow>
          (case settings_LoadStatic (pe_settings e) (pe_file e (cf_settingsPath c)) of Inl _ \<Rightarrow> Inl RunSettings
           | Inr source \<Rightarrow> Inr (dir, cf_mcpEndpoints c, source)))"

definition newModel :: "process_env \<Rightarrow> config \<Rightarrow> bool" where
  "newModel e c =
     (if cf_modelProvider c = ''litellm'' then \<not> isl (litellm_New (ps_model (pe_parsers e)) (cf_litellm c))
      else pe_azure e \<and> \<not> isl (foundry_New (ps_model (pe_parsers e))
        \<lparr>fc_ProjectEndpoint = cf_foundryEndpoint c, fc_Deployment = cf_foundryDeployment c, fc_Credential = True\<rparr>))"

text \<open>The dependencies the service insists on: pool, authenticator, model, directory and settings.\<close>

definition service_New :: "bool \<Rightarrow> bool \<Rightarrow> bool \<Rightarrow> bool \<Rightarrow> bool \<Rightarrow> bool" where
  "service_New pool authenticator model dirs settings = (pool \<and> authenticator \<and> model \<and> dirs \<and> settings)"

text \<open>The part with the service open, and what its deferred release adds.\<close>

definition serve :: "process_env \<Rightarrow> run_failure option \<times> effect list" where
  "serve e =
     (if \<not> pe_listen e then (Some RunListener, [ServiceCreated, ServiceClosed])
      else if pe_signalled e then
        (if \<not> pe_drained e then Some RunShutdown else if \<not> pe_flushed e then Some RunTelemetryShutdown else None,
         [ServiceCreated, Listening, ServiceShutdown, TelemetryStopped, ServiceClosed])
      else (Some RunStopped, [ServiceCreated, Listening, ServiceClosed]))"

definition with_pool :: "process_env \<Rightarrow> config \<Rightarrow> run_failure option \<times> effect list" where
  "with_pool e c =
     (if \<not> pe_ping e then (Some RunDatabase, [])
      else if \<not> pe_migrate e then (Some RunMigration, [Pinged])
      else if isl (NewKeycloakAuthenticator (pe_https e) (pe_order e) (cf_keycloak c)) then (Some RunIdentity, [Pinged, Migrated])
      else if \<not> newModel e c then (Some RunModel, [Pinged, Migrated])
      else if \<not> service_New True True True True True then (Some RunService, [Pinged, Migrated])
      else let (r, es) = serve e in (r, [Pinged, Migrated] @ es))"

definition with_telemetry :: "process_env \<Rightarrow> config \<Rightarrow> run_failure option \<times> effect list" where
  "with_telemetry e c =
     (case loadTenancy e c of Inl f \<Rightarrow> (Some f, [])
      | Inr _ \<Rightarrow>
          if \<not> pe_pool e then (Some RunDatabase, [])
          else let (r, es) = with_pool e c in (r, PoolOpened # es @ [PoolClosed]))"

definition run_process :: "process_env \<Rightarrow> (string \<Rightarrow> string) option \<Rightarrow> run_failure option \<times> effect list" where
  "run_process e lookup =
     (case loadConfig (pe_parsers e) lookup of Inl err \<Rightarrow> (Some (RunConfig err), [])
      | Inr c \<Rightarrow>
          if telemetry_New (pe_resource e) (pe_exporter e) (cf_telemetry c) = None then (Some RunTelemetry, [])
          else let (r, es) = with_telemetry e c in
               (r, TelemetryStarted # es @ (if TelemetryStopped \<in> set es then [] else [TelemetryStopped])))"

section \<open>The activate command\<close>

text \<open>\<open>flag.FlagSet\<close> with the flags of the command: whether \<open>--rollback\<close> was given, the bundle, and the arguments left over.\<close>

definition ParseBool :: "string \<Rightarrow> bool option" where
  "ParseBool s = (if s \<in> set [''1'', ''t'', ''T'', ''TRUE'', ''true'', ''True''] then Some True
     else if s \<in> set [''0'', ''f'', ''F'', ''FALSE'', ''false'', ''False''] then Some False else None)"

definition flag_parts :: "string \<Rightarrow> string \<times> string option" where
  "flag_parts name = (case cut (CHR ''='') (drop 1 name) of None \<Rightarrow> (name, None) | Some (l, r) \<Rightarrow> (take 1 name @ l, Some r))"

fun parse_flags :: "bool \<times> string \<Rightarrow> string list \<Rightarrow> ((bool \<times> string) \<times> string list) option" where
  "parse_flags fs [] = Some (fs, [])"
| "parse_flags (rollback, bundle) (s # args) =
     (if length s < 2 \<or> hd s \<noteq> CHR ''-'' then Some ((rollback, bundle), s # args)
      else if s = ''--'' then Some ((rollback, bundle), args)
      else let name = (if take 2 s = ''--'' then drop 2 s else drop 1 s) in
        if name = [] \<or> hd name = CHR ''-'' \<or> hd name = CHR ''='' then None
        else case flag_parts name of (flag, given) \<Rightarrow>
          if flag = ''rollback'' then
            (case given of None \<Rightarrow> parse_flags (True, bundle) args
             | Some v \<Rightarrow> (case ParseBool v of None \<Rightarrow> None | Some b \<Rightarrow> parse_flags (b, bundle) args))
          else if flag = ''bundle'' then
            (case given of Some v \<Rightarrow> parse_flags (rollback, v) args
             | None \<Rightarrow> (case args of [] \<Rightarrow> None | v # args' \<Rightarrow> parse_flags (rollback, v) args'))
          else None)"

definition activateCategory :: "activate_error \<Rightarrow> string" where
  "activateCategory err = (case err of ErrDatabase _ \<Rightarrow> ''database'' | ErrBundle _ \<Rightarrow> ''bundle''
     | ErrUnservable _ \<Rightarrow> ''unavailable definition'' | ErrAttempts \<Rightarrow> ''unavailable definition'')"

definition fail_line :: "string \<Rightarrow> int \<times> string \<times> string" where
  "fail_line category = (1, [], ''agent platform activation failed: '' @ category @ [newline])"

definition result_line :: "Result \<Rightarrow> string" where
  "result_line res = (case rs_Outcome res of
       AlreadyCurrent \<Rightarrow> ''already current '' @ rs_Digest res
     | Superseded \<Rightarrow> ''not activated '' @ rs_Digest res @ '': activated before (use --rollback); current '' @ rs_Current res
     | Activated \<Rightarrow> ''activated '' @ rs_Digest res) @ [newline]"

text \<open>The exit code, standard output and standard error. \<open>open_ok\<close> says whether the database can be opened and answers.\<close>

definition runActivate ::
    "env \<Rightarrow> (bytes \<Rightarrow> string) \<Rightarrow> (bytes \<Rightarrow> yaml_result) \<Rightarrow> (string \<Rightarrow> (string \<times> tree) list) \<Rightarrow> bool \<Rightarrow> string list \<Rightarrow> (string \<Rightarrow> string) \<Rightarrow>
     world \<Rightarrow> (int \<times> string \<times> string) \<times> world" where
  "runActivate env sha yaml dirs open_ok args lookup w =
     (case parse_flags (False, []) args of None \<Rightarrow> (fail_line ''usage'', w)
      | Some ((rollback, bundle), rest) \<Rightarrow>
          if rest \<noteq> [] \<or> trim_space bundle = [] then (fail_line ''usage'', w)
          else if trim_space (lookup ''DATABASE_URL'') = [] then (fail_line ''configuration'', w)
          else if \<not> open_ok then (fail_line ''database'', w)
          else (case Activate_op env sha yaml (dirs bundle) rollback w of
              (Inr (Inr res), w') \<Rightarrow> ((0, result_line res, []), w')
            | (Inr (Inl err), w') \<Rightarrow> (fail_line (activateCategory err), w')
            | (Inl _, w') \<Rightarrow> (fail_line ''other'', w')))"

end
