(* ===== verification/Startup_Properties.thy ===== *)
theory Startup_Properties
  imports Startup
begin

text \<open>
  What starting the process guarantees (\<open>cmd/agent-platform/main.go\<close>): the configuration it accepts, the order in which it opens and
  releases what it holds, and what the \<open>activate\<close> command prints.
\<close>

section \<open>Accepted configurations\<close>

lemma require_var_Inr [simp]: "require_var lookup name = Inr v \<longleftrightarrow> v = trim_space (lookup name) \<and> v \<noteq> []"
  by (auto simp: require_var_def Let_def)

lemma budget_pairs_positive:
  assumes "budget_pairs m pairs = Inr m'" "\<forall>(name, n) \<in> set m. 1 \<le> n" "distinct (map fst m)"
  shows "(\<forall>(name, n) \<in> set m'. 1 \<le> n) \<and> distinct (map fst m')"
  using assms
proof (induction pairs arbitrary: m)
  case (Cons pair pairs)
  from Cons.prems(1) obtain name n where n: "\<not> n < 1" "name \<notin> fst ` set m" "budget_pairs (m @ [(name, n)]) pairs = Inr m'"
    by (auto simp: Let_def split: option.splits if_splits)
  show ?case by (rule Cons.IH [OF n(3)]) (use n Cons.prems in auto)
qed simp

lemma parseHistoryBudget_positive: "parseHistoryBudget raw model = Inr n \<Longrightarrow> 1 \<le> n"
  using budget_pairs_positive [of "[]"]
  by (fastforce simp: parseHistoryBudget_def and_then_Inr_iff split: if_splits option.splits dest: map_of_SomeD)

lemma provider_config_cases:
  assumes "provider_config p lookup provider = Inr ((endpoint, deployment), proxy)"
  shows "provider = ''foundry'' \<and> endpoint \<noteq> [] \<and> deployment \<noteq> [] \<and> proxy = no_litellm \<or>
     provider = ''litellm'' \<and> endpoint = [] \<and> deployment = [] \<and> lc_Model proxy \<noteq> [] \<and> lc_APIKey proxy \<noteq> []"
  using assms
  by (auto simp: provider_config_def litellm_ConfigFromEnv_def litellm_validate_def and_then_Inr_iff Let_def
      split: if_splits sum.splits option.splits)

lemma and_thenE:
  assumes "and_then r f = Inr b"
  obtains a where "r = Inr a" "f a = Inr b"
  using assms by (auto simp: and_then_Inr_iff)

lemma part_ok:
  "listener_port t = Inr port \<Longrightarrow> 1 \<le> port \<and> port \<le> 65535"
  "shutdown_grace p t = Inr grace \<Longrightarrow> 0 < grace"
  "credential_headers raw = Inr names \<Longrightarrow> ParseHeaderNames raw = Inr names"
  "cost_gate kind raw = Inr gate \<Longrightarrow> New_gate kind raw = Inr gate"
  "mcp_endpoints p raw = Inr es \<Longrightarrow> ParseAllowlist (ps_endpoint p) raw = Inr es \<and> Allowlist_IDs es \<noteq> []"
  by (auto simp: listener_port_def shutdown_grace_def credential_headers_def cost_gate_def mcp_endpoints_def
      split: option.splits sum.splits if_splits)

lemma loadConfig_parts:
  assumes "loadConfig p lookup = Inr c"
  shows "\<exists>port grace gate headers spec endpoints raw l. lookup = Some l \<and>
     listener_port port = Inr (cf_port c) \<and> shutdown_grace p grace = Inr (cf_grace c) \<and>
     credential_headers headers = Inr (cf_credentialHeaders c) \<and> cost_gate gate spec = Inr (cf_costGate c) \<and>
     mcp_endpoints p endpoints = Inr (cf_mcpEndpoints c) \<and>
     parseHistoryBudget raw (if cf_modelProvider c = ''litellm'' then lc_Model (cf_litellm c) else cf_foundryDeployment c) =
       Inr (cf_historyBudget c) \<and>
     provider_config p l (cf_modelProvider c) = Inr ((cf_foundryEndpoint c, cf_foundryDeployment c), cf_litellm c)"
proof -
  from assms obtain l where l: "lookup = Some l" by (auto simp: loadConfig_def split: option.splits)
  show ?thesis
    using assms unfolding loadConfig_def l option.case Let_def
    apply (elim and_thenE)
    apply (simp only: split_paired_all case_prod_conv)
    apply (elim and_thenE)
    apply (drule sum.inject(2) [THEN iffD1])
    apply hypsubst_thin
    apply (simp only: config.select_convs)
    apply (intro exI conjI)
           apply (rule refl | assumption)+
    done
qed

lemma ParseAllowlist_urls:
  assumes "ParseAllowlist parse spec = Inr es" "(i, url) \<in> set es"
  shows "ValidEndpointID i \<and> (\<exists>raw u. parse raw = Some u \<and> url = u_String u \<and> (u_Scheme u = ''http'' \<or> u_Scheme u = ''https'') \<and>
     u_Hostname u \<noteq> [] \<and> \<not> u_User u \<and> \<not> u_Fragment u)"
proof -
  from assms obtain items where "NewAllowlist parse items = Inr es"
    by (auto simp: ParseAllowlist_def and_then_Inr_iff split: if_splits)
  from NewAllowlist_ok [OF this] assms(2) show ?thesis by blast
qed

text \<open>C25. A configuration is accepted only with a usable port and grace period, a positive history budget for the configured model, the
  settings of exactly the chosen provider, at least one integration endpoint, each an http or https URL with a host and without
  credentials or fragment, and credential headers that are distinct and none of the reserved ones.\<close>

theorem loadConfig_safe:
  assumes "loadConfig p lookup = Inr c"
  shows "1 \<le> cf_port c \<and> cf_port c \<le> 65535 \<and> 0 < cf_grace c \<and> 1 \<le> cf_historyBudget c \<and>
     (cf_modelProvider c = ''foundry'' \<and> cf_foundryEndpoint c \<noteq> [] \<and> cf_foundryDeployment c \<noteq> [] \<and> cf_litellm c = no_litellm \<or>
      cf_modelProvider c = ''litellm'' \<and> cf_foundryEndpoint c = [] \<and> cf_foundryDeployment c = [] \<and>
        lc_Model (cf_litellm c) \<noteq> [] \<and> lc_APIKey (cf_litellm c) \<noteq> []) \<and>
     cf_mcpEndpoints c \<noteq> [] \<and>
     (\<forall>(i, url) \<in> set (cf_mcpEndpoints c). ValidEndpointID i \<and> (\<exists>raw u. ps_endpoint p raw = Some u \<and> url = u_String u \<and>
        (u_Scheme u = ''http'' \<or> u_Scheme u = ''https'') \<and> u_Hostname u \<noteq> [] \<and> \<not> u_User u \<and> \<not> u_Fragment u)) \<and>
     distinct (cf_credentialHeaders c) \<and> set (cf_credentialHeaders c) \<inter> set reserved_credential = {}"
proof -
  from loadConfig_parts [OF assms] obtain port grace headers gate spec endpoints raw l where
    c: "listener_port port = Inr (cf_port c)" "shutdown_grace p grace = Inr (cf_grace c)"
      "credential_headers headers = Inr (cf_credentialHeaders c)" "mcp_endpoints p endpoints = Inr (cf_mcpEndpoints c)"
      "parseHistoryBudget raw (if cf_modelProvider c = ''litellm'' then lc_Model (cf_litellm c) else cf_foundryDeployment c) =
        Inr (cf_historyBudget c)"
      "provider_config p l (cf_modelProvider c) = Inr ((cf_foundryEndpoint c, cf_foundryDeployment c), cf_litellm c)"
    by (elim exE conjE) (rule that)
  note e = part_ok(5) [OF c(4)]
  have "\<forall>(i, url) \<in> set (cf_mcpEndpoints c). ValidEndpointID i \<and> (\<exists>raw u. ps_endpoint p raw = Some u \<and> url = u_String u \<and>
        (u_Scheme u = ''http'' \<or> u_Scheme u = ''https'') \<and> u_Hostname u \<noteq> [] \<and> \<not> u_User u \<and> \<not> u_Fragment u)"
    using ParseAllowlist_urls e by blast
  moreover have "cf_mcpEndpoints c \<noteq> []" using e by (auto simp: Allowlist_IDs_def sorted_keys_def)
  moreover have "distinct (cf_credentialHeaders c) \<and> set (cf_credentialHeaders c) \<inter> set reserved_credential = {}"
    using ParseHeaderNames_safe [OF part_ok(3) [OF c(3)]] by (auto simp: list_all_iff)
  ultimately show ?thesis
    using part_ok(1) [OF c(1)] part_ok(2) [OF c(2)] parseHistoryBudget_positive [OF c(5)] provider_config_cases [OF c(6)] by blast
qed

text \<open>An environment with every required variable.\<close>

definition sample_lookup :: "string \<Rightarrow> string" where
  "sample_lookup name = (case map_of
     [(''DATABASE_URL'', ''postgres://db''), (''AGENT_PLATFORM_PORT'', ''8080''), (''AGENT_PLATFORM_SHUTDOWN_GRACE'', ''30s''),
      (''KEYCLOAK_JWT_ISSUER'', ''https://kc''), (''KEYCLOAK_JWKS_URL'', ''https://kc/certs''), (''KEYCLOAK_JWT_AUDIENCE'', ''chat''),
      (''KEYCLOAK_JWT_SOURCE'', ''header''), (''KEYCLOAK_JWT_HEADER'', ''X-Token''), (''KEYCLOAK_USER_CLAIM_PATH'', ''/sub''),
      (''KEYCLOAK_TENANT_CLAIM_PATH'', ''/tenant''), (''KEYCLOAK_JWT_ALLOWED_ALGORITHMS'', ''RS256''),
      (''AZ_AGENT_FOUNDRY_PROJECT_ENDPOINT'', ''https://ai''), (''AZ_AGENT_FOUNDRY_DEPLOYMENT'', ''gpt''),
      (''OTEL_SERVICE_NAME'', ''agents''), (''OTEL_SERVICE_VERSION'', ''1''), (''AGENT_PLATFORM_TENANT_DIRECTORY'', ''d''),
      (''AGENT_PLATFORM_MCP_ENDPOINTS'', ''eu=https://h''), (''AGENT_PLATFORM_SETTINGS'', ''s''),
      (''AGENT_PLATFORM_HISTORY_BUDGET'', ''gpt=100'')] name of None \<Rightarrow> [] | Some v \<Rightarrow> v)"

definition sample_parsers :: parsers where
  "sample_parsers = \<lparr>ps_duration = (\<lambda>_. Some 30000000000), ps_endpoint = example_parser,
     ps_model = (\<lambda>_. Some \<lparr>mu_Scheme = ''https'', mu_Host = ''ai'', mu_User = False, mu_RawQuery = [], mu_Fragment = []\<rparr>),
     ps_uri = (\<lambda>_. None)\<rparr>"

lemma sample_loads: "\<exists>c. loadConfig sample_parsers (Some sample_lookup) = Inr c"
proof -
  have "\<not> isl (loadConfig sample_parsers (Some sample_lookup))" by code_simp
  then show ?thesis by (cases "loadConfig sample_parsers (Some sample_lookup)") auto
qed

theorem loadConfig_safe_witness:
  "\<exists>c. loadConfig sample_parsers (Some sample_lookup) = Inr c \<and> 1 \<le> cf_port c \<and> 1 \<le> cf_historyBudget c"
proof -
  obtain c where "loadConfig sample_parsers (Some sample_lookup) = Inr c" using sample_loads by blast
  with loadConfig_safe [OF this] show ?thesis by blast
qed

section \<open>Opening and releasing\<close>

text \<open>The ways a start can go, by what it opens.\<close>

lemma serve_effects:
  "snd (serve e) \<in> set [[ServiceCreated, ServiceClosed], [ServiceCreated, Listening, ServiceClosed],
     [ServiceCreated, Listening, ServiceShutdown, TelemetryStopped, ServiceClosed]]"
  by (simp add: serve_def)

lemma with_pool_effects:
  "snd (with_pool e c) \<in> set ([[], [Pinged], [Pinged, Migrated]] @
     map ((@) [Pinged, Migrated]) [[ServiceCreated, ServiceClosed], [ServiceCreated, Listening, ServiceClosed],
       [ServiceCreated, Listening, ServiceShutdown, TelemetryStopped, ServiceClosed]])"
  using serve_effects [of e] by (auto simp: with_pool_def Let_def split: prod.splits)

text \<open>C26. Whatever fails on the way: the process releases what it opened, each once and in the opposite order (tracing alone may be flushed
  before the service and the pool are closed), listens only after the schema was migrated, and reports success only after a signal, when
  the service was drained and tracing flushed.\<close>

theorem run_process_releases:
  assumes "run_process e lookup = (r, es)"
  shows "count_list es TelemetryStopped = count_list es TelemetryStarted \<and> count_list es TelemetryStarted \<le> 1 \<and>
     count_list es PoolClosed = count_list es PoolOpened \<and> count_list es ServiceClosed = count_list es ServiceCreated \<and>
     filter (\<lambda>x. x \<in> {PoolOpened, Migrated, ServiceCreated, Listening, ServiceShutdown, ServiceClosed, PoolClosed}) es \<in>
       set [[], [PoolOpened, PoolClosed], [PoolOpened, Migrated, PoolClosed],
         [PoolOpened, Migrated, ServiceCreated, ServiceClosed, PoolClosed],
         [PoolOpened, Migrated, ServiceCreated, Listening, ServiceClosed, PoolClosed],
         [PoolOpened, Migrated, ServiceCreated, Listening, ServiceShutdown, ServiceClosed, PoolClosed]] \<and>
     (r = None \<longrightarrow> ServiceShutdown \<in> set es \<and> pe_signalled e \<and> pe_drained e \<and> pe_flushed e)"
proof -
  have ok: "fst (with_pool e c) = None \<Longrightarrow> ServiceShutdown \<in> set (snd (with_pool e c)) \<and> pe_signalled e \<and> pe_drained e \<and> pe_flushed e" for c
    by (auto simp: with_pool_def serve_def service_New_def split: if_splits)
  consider "es = []" "r \<noteq> None" | "es = [TelemetryStarted, TelemetryStopped]" "r \<noteq> None"
    | c where "r = fst (with_pool e c)" "es = TelemetryStarted # (PoolOpened # snd (with_pool e c) @ [PoolClosed]) @
        (if TelemetryStopped \<in> set (snd (with_pool e c)) then [] else [TelemetryStopped])"
    using assms
    by (auto simp: run_process_def with_telemetry_def loadTenancy_def Let_def case_prod_beta split: sum.splits if_splits)
  then show ?thesis
  proof cases
    case (3 c)
    with ok [of c] show ?thesis using with_pool_effects [of e c] by auto
  qed simp_all
qed

definition sample_process :: process_env where
  "sample_process = \<lparr>pe_parsers = sample_parsers,
     pe_https = (\<lambda>_. Some \<lparr>h_Scheme = ''https'', h_Host = ''kc'', h_User = False, h_Fragment = []\<rparr>), pe_order = id,
     pe_resource = (\<lambda>_. True), pe_exporter = (\<lambda>_. True), pe_file = (\<lambda>_. Some []),
     pe_directory = (\<lambda>_. StaticDoc [(''acme'', \<lparr>en_ProductVersion = ''1'', en_EndpointID = ''eu''\<rparr>)] None),
     pe_settings = (\<lambda>_. StaticDoc \<lparr>d_Default = no_layer, d_Tenants = [], d_Users = []\<rparr> None),
     pe_pool = True, pe_ping = True, pe_migrate = True, pe_azure = True, pe_listen = True, pe_signalled = True, pe_drained = True,
     pe_flushed = True\<rparr>"

theorem run_process_releases_witness:
  "\<exists>es. run_process sample_process (Some sample_lookup) = (None, es) \<and> ServiceShutdown \<in> set es"
proof -
  have "fst (run_process sample_process (Some sample_lookup)) = None" by code_simp
  then obtain es where "run_process sample_process (Some sample_lookup) = (None, es)" by (metis prod.collapse)
  with run_process_releases [OF this] show ?thesis by blast
qed

section \<open>The activate command\<close>

lemma runActivate_success:
  assumes "runActivate env sha yaml dirs open_ok args lookup w = ((0, out, err), w')"
  obtains rollback named res where "parse_flags (False, []) args = Some ((rollback, named), [])"
    "Activate_op env sha yaml (dirs named) rollback w = (Inr (Inr res), w')" "out = result_line res" "err = []"
  using assms that
  by (auto simp: runActivate_def fail_line_def split: option.splits prod.splits sum.splits if_splits)

lemma result_line_activated: "result_line res = ''activated '' @ d @ [newline] \<Longrightarrow> rs_Outcome res = Activated \<and> rs_Digest res = d"
  by (auto simp: result_line_def split: Outcome.splits)



end
