(* ===== verification/Migrations.thy ===== *)
theory Migrations
  imports Json
begin

text \<open>
  The migrations runner (\<open>internal/journal/migrate.go\<close>): forward-only migrations in one transaction under an advisory lock, with the
  checksum of every migration on record. The schema and the effect of a migration on it are parameters, and so is SHA-256; the
  lock makes the transactions of two replicas follow one another.
\<close>

datatype migrate_error = SchemaNewer | ChecksumChanged int | StatementFailed

text \<open>The rows of \<open>agent_schema_migrations\<close> and the rest of the database.\<close>

record 's migration_db =
  mg_rows :: "(int \<times> string) list"
  mg_schema :: 's

definition mg_version :: "'s migration_db \<Rightarrow> int" where
  "mg_version d = fold max (map fst (mg_rows d)) 0"

fun migrate_each ::
    "(bytes \<Rightarrow> string) \<Rightarrow> (bytes \<Rightarrow> 's \<Rightarrow> 's option) \<Rightarrow> int \<Rightarrow> bytes list \<Rightarrow> 's migration_db \<Rightarrow> migrate_error + 's migration_db" where
  "migrate_each sha exec i [] d = Inr d"
| "migrate_each sha exec i (data # rest) d =
     (case map_of (mg_rows d) (i + 1) of
        Some existing \<Rightarrow> if existing \<noteq> sha data then Inl (ChecksumChanged (i + 1)) else migrate_each sha exec (i + 1) rest d
      | None \<Rightarrow>
          (case exec data (mg_schema d) of None \<Rightarrow> Inl StatementFailed
           | Some s \<Rightarrow> migrate_each sha exec (i + 1) rest \<lparr>mg_rows = mg_rows d @ [(i + 1, sha data)], mg_schema = s\<rparr>))"

text \<open>The first \<open>n\<close> migrations, in one transaction: an error leaves the database as it was.\<close>

definition migrateTo ::
    "(bytes \<Rightarrow> string) \<Rightarrow> (bytes \<Rightarrow> 's \<Rightarrow> 's option) \<Rightarrow> bytes list \<Rightarrow> nat \<Rightarrow> 's migration_db \<Rightarrow> (migrate_error option) \<times> 's migration_db" where
  "migrateTo sha exec files n d =
     (if mg_version d > int (length (take n files)) then (Some SchemaNewer, d)
      else case migrate_each sha exec 0 (take n files) d of Inl e \<Rightarrow> (Some e, d) | Inr d' \<Rightarrow> (None, d'))"

definition Migrate ::
    "(bytes \<Rightarrow> string) \<Rightarrow> (bytes \<Rightarrow> 's \<Rightarrow> 's option) \<Rightarrow> bytes list \<Rightarrow> 's migration_db \<Rightarrow> (migrate_error option) \<times> 's migration_db" where
  "Migrate sha exec files d = migrateTo sha exec files (length files) d"

section \<open>Steps\<close>

lemma migrate_each_append:
  "migrate_each sha exec i (fs @ gs) d =
     and_then (migrate_each sha exec i fs d) (\<lambda>d'. migrate_each sha exec (i + int (length fs)) gs d')"
  by (induction fs arbitrary: i d) (auto simp: algebra_simps split: option.split)

text \<open>Rows stay, and new ones are for the migrations that ran.\<close>

lemma migrate_each_rows:
  assumes "migrate_each sha exec i fs d = Inr d'"
  shows "\<exists>new. mg_rows d' = mg_rows d @ new \<and> (\<forall>(v, c) \<in> set new. i < v \<and> v \<le> i + int (length fs) \<and> map_of (mg_rows d) v = None)"
  using assms
proof (induction fs arbitrary: i d)
  case (Cons f fs)
  show ?case
  proof (cases "map_of (mg_rows d) (i + 1)")
    case None
    with Cons.prems obtain s where
      s: "migrate_each sha exec (i + 1) fs \<lparr>mg_rows = mg_rows d @ [(i + 1, sha f)], mg_schema = s\<rparr> = Inr d'"
      by (auto split: option.splits)
    from Cons.IH [OF s] obtain new where new: "mg_rows d' = mg_rows d @ (i + 1, sha f) # new"
      "\<forall>(v, c) \<in> set new. i + 1 < v \<and> v \<le> i + 1 + int (length fs) \<and> map_of (mg_rows d @ [(i + 1, sha f)]) v = None" by auto
    then show ?thesis
      using None by (intro exI [of _ "(i + 1, sha f) # new"]) (auto simp: map_of_append split: option.splits)
  next
    case (Some c)
    with Cons.prems have "migrate_each sha exec (i + 1) fs d = Inr d'" by (auto split: if_splits)
    from Cons.IH [OF this] show ?thesis by fastforce
  qed
qed simp

definition recorded :: "(bytes \<Rightarrow> string) \<Rightarrow> int \<Rightarrow> bytes list \<Rightarrow> 's migration_db \<Rightarrow> bool" where
  "recorded sha i fs d \<longleftrightarrow> (\<forall>k < length fs. map_of (mg_rows d) (i + 1 + int k) = Some (sha (fs ! k)))"

lemma recorded_Cons: "recorded sha i (f # fs) d \<longleftrightarrow> map_of (mg_rows d) (i + 1) = Some (sha f) \<and> recorded sha (i + 1) fs d"
  by (auto simp: recorded_def less_Suc_eq_0_disj All_less_Suc2 algebra_simps)

lemma recorded_again: "recorded sha i fs d \<Longrightarrow> migrate_each sha exec i fs d = Inr d"
  by (induction fs arbitrary: i) (auto simp: recorded_Cons)

lemma migrate_each_recorded:
  assumes "migrate_each sha exec i fs d = Inr d'"
  shows "recorded sha i fs d'"
  using assms
proof (induction fs arbitrary: i d)
  case (Cons f fs)
  obtain d1 where d1: "migrate_each sha exec (i + 1) fs d1 = Inr d'" "map_of (mg_rows d1) (i + 1) = Some (sha f)"
  proof (cases "map_of (mg_rows d) (i + 1)")
    case None
    with Cons.prems obtain s where
      "migrate_each sha exec (i + 1) fs \<lparr>mg_rows = mg_rows d @ [(i + 1, sha f)], mg_schema = s\<rparr> = Inr d'"
      by (auto split: option.splits)
    moreover have "map_of (mg_rows d @ [(i + 1, sha f)]) (i + 1) = Some (sha f)" using None by (simp add: map_of_append map_add_def)
    ultimately show ?thesis using that by (metis migration_db.select_convs(1))
  qed (use Cons.prems that in \<open>auto split: if_splits\<close>)
  from migrate_each_rows [OF d1(1)] d1(2) have "map_of (mg_rows d') (i + 1) = Some (sha f)" by (auto simp: map_of_append)
  with Cons.IH [OF d1(1)] show ?case by (simp add: recorded_Cons)
qed (simp add: recorded_def)

lemma recorded_mono:
  assumes "recorded sha i fs d" "migrate_each sha exec j gs d = Inr d'"
  shows "recorded sha i fs d'"
proof -
  obtain new where n: "mg_rows d' = mg_rows d @ new" using migrate_each_rows [OF assms(2)] by blast
  show ?thesis using assms(1) unfolding recorded_def n by (simp add: map_of_append)
qed

lemma fold_max_le: "fold max xs (a :: int) \<le> b \<longleftrightarrow> a \<le> b \<and> (\<forall>x \<in> set xs. x \<le> b)"
  by (induction xs arbitrary: a) auto

lemma mg_version_le: "0 \<le> b \<Longrightarrow> mg_version d \<le> b \<longleftrightarrow> (\<forall>(v, c) \<in> set (mg_rows d). v \<le> b)"
  by (auto simp: mg_version_def fold_max_le)

lemma migrateTo_cases:
  assumes "migrateTo sha exec files n d = (None, d')"
  shows "mg_version d \<le> int (length (take n files))" "migrate_each sha exec 0 (take n files) d = Inr d'"
    "mg_version d' \<le> int (length (take n files))"
proof -
  show v: "mg_version d \<le> int (length (take n files))" and e: "migrate_each sha exec 0 (take n files) d = Inr d'"
    using assms by (auto simp: migrateTo_def split: if_splits sum.splits)
  from migrate_each_rows [OF e] v show "mg_version d' \<le> int (length (take n files))" by (auto simp: mg_version_le)
qed

text \<open>C24. Migrations can be repeated and cut in two: a failed run leaves the database as it was; after a successful one every migration is on
  record with its checksum and further runs, of this or another replica, change nothing; and going to an earlier version first and then
  to the later one gives the same database as going there at once.\<close>

theorem migrate_once:
  fixes d :: "'s migration_db"
  assumes "n \<le> m" "m \<le> length files" "migrateTo sha exec files m d = (r, d')"
  shows "(r \<noteq> None \<longrightarrow> d' = d) \<and>
    (r = None \<longrightarrow> recorded sha 0 (take m files) d' \<and> migrateTo sha exec files m d' = (None, d') \<and>
       (mg_version d \<le> int n \<longrightarrow> (\<exists>d1. migrateTo sha exec files n d = (None, d1) \<and> migrateTo sha exec files m d1 = (None, d'))))"
proof (cases r)
  case (Some e)
  with assms(3) show ?thesis by (auto simp: migrateTo_def split: if_splits sum.splits)
next
  case None
  note to = migrateTo_cases [OF assms(3) [unfolded None]]
  note rec = migrate_each_recorded [OF to(2)]
  have again: "migrateTo sha exec files m d' = (None, d')"
    using to(3) recorded_again [OF rec] by (simp add: migrateTo_def)
  have ln: "length (take n files) = n" using assms(1,2) by simp
  have split: "take m files = take n files @ drop n (take m files)"
    using append_take_drop_id [of n "take m files"] assms(1) by (simp add: min_absorb1)
  have "\<exists>d1. migrateTo sha exec files n d = (None, d1) \<and> migrateTo sha exec files m d1 = (None, d')" if v: "mg_version d \<le> int n"
  proof -
    from to(2) obtain d1 where d1: "migrate_each sha exec 0 (take n files) d = Inr d1"
        "migrate_each sha exec (0 + int (length (take n files))) (drop n (take m files)) d1 = Inr d'"
      by (subst (asm) split) (auto simp: migrate_each_append and_then_Inr_iff)
    have one: "migrateTo sha exec files n d = (None, d1)" using v d1(1) ln by (simp add: migrateTo_def)
    have "migrate_each sha exec 0 (take m files) d1 = Inr d'"
      by (subst split) (simp add: migrate_each_append recorded_again [OF migrate_each_recorded [OF d1(1)]] d1(2) [simplified])
    moreover have "mg_version d1 \<le> int (length (take m files))"
      using migrateTo_cases(3) [OF one] assms(1,2) ln by simp
    ultimately show ?thesis using one by (auto simp: migrateTo_def)
  qed
  with None rec again show ?thesis by blast
qed

theorem migrate_once_witness:
  "\<exists>d1. migrateTo id (\<lambda>f s. Some (s @ f)) [''a'', ''b''] 1 \<lparr>mg_rows = [], mg_schema = []\<rparr> = (None, d1) \<and>
     migrateTo id (\<lambda>f s. Some (s @ f)) [''a'', ''b''] 2 d1 = (None, \<lparr>mg_rows = [(1, ''a''), (2, ''b'')], mg_schema = ''ab''\<rparr>)"
proof -
  have "migrateTo id (\<lambda>f s. Some (s @ f)) [''a'', ''b''] 2 \<lparr>mg_rows = [], mg_schema = []\<rparr> =
      (None, \<lparr>mg_rows = [(1, ''a''), (2, ''b'')], mg_schema = ''ab''\<rparr>)" by code_simp
  from migrate_once [of 1, OF _ _ this] show ?thesis by (simp add: mg_version_def)
qed

end
