(* ===== verification/Service.thy ===== *)
theory Service
  imports Platform Bundle
begin

text \<open>
  The HTTP service around the platform (\<open>internal/service/service.go\<close>): routes, probes, serving and shutdown; the redaction of exported
  spans (\<open>internal/telemetry/redact.go\<close>); and the scripted cost gate (\<open>internal/cost/scripted.go\<close>).
\<close>

section \<open>Routes\<close>

text \<open>\<open>http.ServeMux\<close> first redirects a path that is not clean.\<close>

definition cleanPath :: "string \<Rightarrow> string" where
  "cleanPath p =
     (if p = [] then ''/''
      else let q = (if hd p \<noteq> slash then slash # p else p); c = path_Clean q in
           if last q = slash \<and> c \<noteq> ''/'' then c @ ''/'' else c)"

datatype route = Livez | Readyz | ChatRoute | Redirected string

definition route_of :: "string \<Rightarrow> route" where
  "route_of p =
     (if cleanPath p \<noteq> p then Redirected (cleanPath p)
      else if p = ''/livez'' then Livez
      else if p = ''/readyz'' then Readyz
      else ChatRoute)"

datatype service_answer = Status int | Moved string | ToChat

definition service_handler :: "env \<Rightarrow> runner \<Rightarrow> Platform_state \<Rightarrow> string \<Rightarrow> world \<Rightarrow> service_answer \<times> world" where
  "service_handler env rr p path w =
     (case route_of path of
        Livez \<Rightarrow> (Status 200, w)
      | Readyz \<Rightarrow>
          (case Platform_Ready env rr p w of
             (Inr ready, w') \<Rightarrow> (Status (if ready then 200 else 503), w')
           | (Inl _, w') \<Rightarrow> (Status 503, w'))
      | ChatRoute \<Rightarrow> (ToChat, w)
      | Redirected q \<Rightarrow> (Moved q, w))"

section \<open>Serving and shutdown\<close>

record Service_state =
  sv_platform :: Platform_state
  sv_server :: bool

datatype service_error = AlreadyServing | ServerFailed | DrainFailed

text \<open>\<open>how\<close>: how the server ends, \<open>None\<close> when it was closed by a shutdown.\<close>

definition Service_Serve :: "service_error option \<Rightarrow> Service_state \<Rightarrow> service_error option \<times> Service_state" where
  "Service_Serve how s = (if sv_server s then (Some AlreadyServing, s) else (how, s\<lparr>sv_server := True\<rparr>))"

definition Service_BeginDrain :: "Service_state \<Rightarrow> Service_state" where
  "Service_BeginDrain s = s\<lparr>sv_platform := BeginDrain (sv_platform s)\<rparr>"

text \<open>Whether draining and the shutdown of the server failed; without a server there is nothing to shut down. An error of the drain
  is the one that is returned.\<close>

definition Service_Shutdown :: "bool \<Rightarrow> bool \<Rightarrow> Service_state \<Rightarrow> service_error option \<times> Service_state" where
  "Service_Shutdown drain_failed server_failed s =
     (let s' = Service_BeginDrain s in
      (if drain_failed then Some DrainFailed else if sv_server s \<and> server_failed then Some ServerFailed else None, s'))"

definition Service_Close :: "Service_state \<Rightarrow> Service_state" where
  "Service_Close s = s\<lparr>sv_platform := Close_platform (sv_platform s)\<rparr>"

lemma shutdown_draining:
  "p_draining (sv_platform (snd (Service_Shutdown df sf s)))" "p_draining (sv_platform (Service_Close s))"
  by (simp_all add: Service_Shutdown_def Service_BeginDrain_def BeginDrain_def Service_Close_def Close_platform_def Let_def)

lemma draining_not_ready: "p_draining p \<Longrightarrow> Platform_Ready env rr p w = (Inr False, w)"
  by (simp add: Platform_Ready_def succeed_def)

lemma draining_no_submit: "p_draining p \<Longrightarrow> Submit env p c cred w = (Inl (if p_closed p then ErrContext else ErrOther ''platform is draining''), w)"
  by (auto simp: Submit_def check_def throw_def)

text \<open>From the moment a shutdown begins, and after a close, the readiness probe fails and every submission is refused, without a
  look at the database and without an effect on it, while the liveness probe still succeeds.\<close>

theorem shutdown_refuses:
  assumes "s' = snd (Service_Shutdown drain_failed server_failed s) \<or> s' = Service_Close s"
  shows "service_handler env rr (sv_platform s') ''/readyz'' w = (Status 503, w) \<and>
     service_handler env rr (sv_platform s') ''/livez'' w = (Status 200, w) \<and>
     (\<exists>e. Submit env (sv_platform s') c cred w = (Inl e, w))"
proof -
  have d: "p_draining (sv_platform s')" using assms shutdown_draining by auto
  have r: "route_of ''/readyz'' = Readyz" "route_of ''/livez'' = Livez" by code_simp+
  show ?thesis using draining_not_ready [OF d] draining_no_submit [OF d] by (simp add: service_handler_def r)
qed

theorem shutdown_refuses_witness:
  "\<exists>rr w. service_handler quiet_env rr (sv_platform (snd (Service_Shutdown False False
     \<lparr>sv_platform = \<lparr>p_ownerID = ''o'', p_closed = False, p_draining = False\<rparr>, sv_server = True\<rparr>))) ''/readyz'' w = (Status 503, w)"
  using shutdown_refuses [OF disjI1 [OF refl]] by blast

section \<open>Redaction\<close>

type_synonym attributes = "(string \<times> json) list"

record span =
  sp_Name :: string
  sp_Attributes :: attributes
  sp_Events :: "(string \<times> attributes) list"

definition RedactedAttributes :: "string list" where "RedactedAttributes = [''gen_ai.tool.description'']"

definition withoutRedacted :: "attributes \<Rightarrow> attributes" where
  "withoutRedacted attrs =
     (if \<not> list_ex (\<lambda>a. fst a \<in> set RedactedAttributes) attrs then attrs
      else filter (\<lambda>a. fst a \<notin> set RedactedAttributes) attrs)"

text \<open>What an exporter sees of an ended span.\<close>

definition redactedSpan :: "span \<Rightarrow> span" where
  "redactedSpan s = s\<lparr>sp_Attributes := withoutRedacted (sp_Attributes s),
     sp_Events := map (\<lambda>(name, attrs). (name, withoutRedacted attrs)) (sp_Events s)\<rparr>"

lemma withoutRedacted_filter: "withoutRedacted attrs = filter (\<lambda>a. fst a \<notin> set RedactedAttributes) attrs"
  by (auto simp: withoutRedacted_def list_ex_iff intro!: filter_True [symmetric])

text \<open>An exported span has none of the redacted attributes, in itself or in its events, and keeps every other one.\<close>

lemma redactedSpan_safe:
  "\<forall>a \<in> set (sp_Attributes (redactedSpan s)) \<union> \<Union> (set ` snd ` set (sp_Events (redactedSpan s))). fst a \<noteq> ''gen_ai.tool.description''"
  "\<lbrakk>a \<in> set (sp_Attributes s); fst a \<noteq> ''gen_ai.tool.description''\<rbrakk> \<Longrightarrow> a \<in> set (sp_Attributes (redactedSpan s))"
  by (auto simp: redactedSpan_def withoutRedacted_filter RedactedAttributes_def)

section \<open>The scripted gate\<close>

record Scripted =
  sg_fn :: "(Attribution \<Rightarrow> string \<Rightarrow> run_error + Decision) option"
  sg_inner :: Gate
  sg_admits :: "Attribution list"
  sg_accesses :: "Attribution list"

definition NewScripted :: "Gate option \<Rightarrow> Scripted" where
  "NewScripted inner = \<lparr>sg_fn = None, sg_inner = (case inner of None \<Rightarrow> Open | Some g \<Rightarrow> g), sg_admits = [], sg_accesses = []\<rparr>"

definition SetAdmit :: "(Attribution \<Rightarrow> string \<Rightarrow> run_error + Decision) option \<Rightarrow> Scripted \<Rightarrow> Scripted" where
  "SetAdmit fn s = s\<lparr>sg_fn := fn\<rparr>"

definition Scripted_Admit :: "Attribution \<Rightarrow> string \<Rightarrow> Scripted \<Rightarrow> (run_error + Decision) \<times> Scripted" where
  "Scripted_Admit a profile s =
     ((case sg_fn s of None \<Rightarrow> Inr Allow | Some fn \<Rightarrow> fn a profile), s\<lparr>sg_admits := sg_admits s @ [a]\<rparr>)"

definition Scripted_Access :: "Attribution \<Rightarrow> string \<Rightarrow> Scripted \<Rightarrow> Access \<times> Scripted" where
  "Scripted_Access a profile s = (Gate_Access (sg_inner s) a profile, s\<lparr>sg_accesses := sg_accesses s @ [a]\<rparr>)"

definition Admits :: "Scripted \<Rightarrow> Attribution list" where "Admits s = sg_admits s"

definition Accesses :: "Scripted \<Rightarrow> Attribution list" where "Accesses s = sg_accesses s"

lemma scripted_records:
  "Admits (fold (\<lambda>(a, c) s. snd (Scripted_Admit a c s)) xs s) = Admits s @ map fst xs"
  "Accesses (fold (\<lambda>(a, c) s. snd (Scripted_Admit a c s)) xs s) = Accesses s"
  by (induction xs arbitrary: s) (auto simp: Scripted_Admit_def Admits_def Accesses_def)

end
