(* ===== verification/Terminal_Client.thy ===== *)
theory Terminal_Client
  imports Json_Decode
begin

text \<open>
  The client of the terminal program (\<open>internal/devtui/client.go\<close>): the request it posts and the event stream it reads. The other end of
  the stream is \<open>emit\<close> of the chat handler (\<open>internal/chat/http.go\<close>); the two are shown to agree.
\<close>

section \<open>Requests\<close>

record InteractionReply =
  ir_InteractionID :: string
  ir_Kind :: string
  ir_Answer :: json

record Request =
  rt_ThreadID :: string
  rt_RunID :: string
  rt_JourneyID :: string
  rt_Text :: string
  rt_Reply :: "InteractionReply option"

definition forwarded_props :: "Request \<Rightarrow> json" where
  "forwarded_props r = JObj
     ((if rt_JourneyID r = [] then [] else [(''journeyId'', JStr (rt_JourneyID r))]) @
      (case rt_Reply r of None \<Rightarrow> []
       | Some p \<Rightarrow> [(''interactionReply'', JObj [(''interactionId'', JStr (ir_InteractionID p)), (''kind'', JStr (ir_Kind p)),
           (''answer'', ir_Answer p)])]))"

text \<open>The document \<open>Stream\<close> posts.\<close>

definition chat_body :: "Request \<Rightarrow> json" where
  "chat_body r = JObj
     [(''threadId'', JStr (rt_ThreadID r)), (''runId'', JStr (rt_RunID r)),
      (''messages'', JArr (if rt_Reply r = None
         then [JObj [(''id'', JStr (rt_RunID r @ '':user'')), (''role'', JStr ''user''), (''content'', JStr (rt_Text r))]] else [])),
      (''tools'', JArr []), (''context'', JArr []), (''state'', JObj []), (''forwardedProps'', forwarded_props r)]"

definition endpoint_of :: "string \<Rightarrow> string" where "endpoint_of base = trim_right [''/''] base"

section \<open>The event stream\<close>

definition maxSSELine :: int where "maxSSELine = 262144"
definition maxSSEEvent :: int where "maxSSEEvent = 262144"

record SSE_Event =
  ev_Type :: string
  ev_Data :: bytes

definition no_event :: SSE_Event where "no_event = \<lparr>ev_Type = [], ev_Data = []\<rparr>"

datatype stream_error = LineTooLong | EventTooLong | ReadFailed | UnexpectedEOF

record sse_state =
  ss_event :: SSE_Event
  ss_terminal :: bool
  ss_received :: "SSE_Event list"

text \<open>The \<open>type\<close> member of a document; whatever is not a string there leaves the field as it was.\<close>

definition typed_of :: "bytes \<Rightarrow> string" where
  "typed_of data = (case Unmarshal_value data of
       Some (JObj kvs) \<Rightarrow> fold (\<lambda>(k, v) t. if fold_key k = ''type'' then (case v of JStr s \<Rightarrow> s | _ \<Rightarrow> t) else t) kvs []
     | _ \<Rightarrow> [])"

definition sse_emit :: "sse_state \<Rightarrow> sse_state" where
  "sse_emit s =
     (let e = ss_event s in
      if ev_Data e = [] then s
      else let e' = (if ev_Type e = [] then e\<lparr>ev_Type := typed_of (ev_Data e)\<rparr> else e) in
           \<lparr>ss_event = e', ss_terminal = (ss_terminal s \<or> ev_Type e' = ''RUN_FINISHED'' \<or> ev_Type e' = ''RUN_ERROR''),
            ss_received = ss_received s @ [e']\<rparr>)"

definition sse_line :: "string \<Rightarrow> sse_state \<Rightarrow> stream_error + sse_state" where
  "sse_line line s =
     (if line = [] then Inr ((sse_emit s)\<lparr>ss_event := no_event\<rparr>)
      else if prefix ''event:'' line then Inr (s\<lparr>ss_event := (ss_event s)\<lparr>ev_Type := trim_space (drop 6 line)\<rparr>\<rparr>)
      else if prefix ''data:'' line then
        let d = trim_space (drop 5 line); old = ev_Data (ss_event s) in
        if int (length old) + int (length d) + 1 > maxSSEEvent then Inl EventTooLong
        else Inr (s\<lparr>ss_event := (ss_event s)\<lparr>ev_Data := (if old = [] then d else old @ newline # d)\<rparr>\<rparr>)
      else Inr s)"

text \<open>\<open>bufio.ScanLines\<close>: without the line end and one carriage return before it; a line that does not fit the buffer is an error.\<close>

definition strip_cr :: "string \<Rightarrow> string" where
  "strip_cr line = (if line \<noteq> [] \<and> last line = CHR 0x0D then butlast line else line)"

fun sse_lines :: "string list \<Rightarrow> sse_state \<Rightarrow> (stream_error option) \<times> sse_state" where
  "sse_lines [] s = (None, s)"
| "sse_lines (line # lines) s =
     (if int (length line) \<ge> maxSSELine then (Some LineTooLong, s)
      else case sse_line (strip_cr line) s of Inl e \<Rightarrow> (Some e, s) | Inr s' \<Rightarrow> sse_lines lines s')"

definition scan_lines :: "bytes \<Rightarrow> string list" where
  "scan_lines body = (let ps = split_on newline body in if last ps = [] then butlast ps else ps)"

text \<open>The events that are received, and the error that is returned; \<open>broken\<close> says that reading the body failed after these
  bytes.\<close>

definition parseSSE :: "bytes \<Rightarrow> bool \<Rightarrow> stream_error option \<times> SSE_Event list" where
  "parseSSE body broken =
     (case sse_lines (scan_lines body) \<lparr>ss_event = no_event, ss_terminal = False, ss_received = []\<rparr> of
        (Some e, s) \<Rightarrow> (Some e, ss_received s)
      | (None, s) \<Rightarrow>
          if broken then (Some ReadFailed, ss_received s)
          else let s' = sse_emit s in (if ss_terminal s' then None else Some UnexpectedEOF, ss_received s'))"

datatype client_error = ConnectFailed | HTTPStatus int string | StreamError stream_error

record http_response =
  hp_Status :: int
  hp_Body :: bytes
  hp_Broken :: bool

definition client_do :: "http_response option \<Rightarrow> client_error option \<times> SSE_Event list" where
  "client_do response =
     (case response of None \<Rightarrow> (Some ConnectFailed, [])
      | Some r \<Rightarrow>
          if hp_Status r < 200 \<or> hp_Status r \<ge> 300 then (Some (HTTPStatus (hp_Status r) (trim_space (take 4096 (hp_Body r)))), [])
          else let (e, es) = parseSSE (hp_Body r) (hp_Broken r) in (map_option StreamError e, es))"

section \<open>The writer\<close>

text \<open>What \<open>emit\<close> writes for a payload and a sequence number.\<close>

definition write_frame :: "bytes \<times> int \<Rightarrow> bytes" where
  "write_frame f = (if snd f > 0 then ''id: '' @ show_int (snd f) @ [newline] else []) @ ''data: '' @ fst f @ [newline, newline]"

text \<open>A payload as the JSON encoder writes one for an event: an object on one line, of a size the reader accepts.\<close>

definition payload_ok :: "bytes \<Rightarrow> bool" where
  "payload_ok p \<longleftrightarrow> p \<noteq> [] \<and> hd p = CHR ''{'' \<and> last p = CHR ''}'' \<and> newline \<notin> set p \<and> int (length p) + 6 < maxSSELine"

section \<open>Reader and writer\<close>

lemma space_seq_ends: "w \<in> set space_seqs \<Longrightarrow> w \<noteq> [] \<and> hd w \<noteq> CHR ''{'' \<and> last w \<noteq> CHR ''}''"
proof -
  have "list_all (\<lambda>w. w \<noteq> [] \<and> hd w \<noteq> CHR ''{'' \<and> last w \<noteq> CHR ''}'') space_seqs" by code_simp
  then show "w \<in> set space_seqs \<Longrightarrow> ?thesis" by (simp add: list_all_iff)
qed

lemma trim_left_object:
  assumes "p \<noteq> []" "hd p = CHR ''{''"
  shows "trim_left space_seqs p = p" and "trim_left space_seqs (CHR '' '' # p) = p"
proof -
  have no: "\<not> prefix w p" if "w \<in> set space_seqs" for w
    using space_seq_ends [OF that] assms by (cases w; cases p) auto
  then show "trim_left space_seqs p = p" by (intro trim_left_id) auto
  have "find (\<lambda>w. w \<noteq> [] \<and> prefix w (CHR '' '' # p)) space_seqs = Some [CHR '' '']"
    by (simp add: space_seqs_def)
  then have "trim_left space_seqs (CHR '' '' # p) = trim_left_n (length p) space_seqs p" by (simp add: trim_left_def)
  also have "\<dots> = p" using \<open>trim_left space_seqs p = p\<close> by (simp add: trim_left_def)
  finally show "trim_left space_seqs (CHR '' '' # p) = p" .
qed

lemma trim_right_object:
  assumes "p \<noteq> []" "last p = CHR ''}''"
  shows "trim_right space_seqs p = p"
proof -
  have "\<not> prefix (rev w) (rev p)" if "w \<in> set space_seqs" for w
  proof -
    have "hd (rev w) \<noteq> hd (rev p)" "rev w \<noteq> []" using space_seq_ends [OF that] assms by (simp_all add: hd_rev)
    then show ?thesis using assms(1) by (cases "rev w"; cases "rev p") auto
  qed
  then have "trim_left (map rev space_seqs) (rev p) = rev p" by (intro trim_left_id) auto
  then show ?thesis by (simp add: trim_right_def)
qed

lemma trim_space_object:
  assumes "payload_ok p"
  shows "trim_space (CHR '' '' # p) = p"
  using assms trim_left_object(2) [of p] trim_right_object [of p] by (simp add: trim_space_def trim_def payload_ok_def)

definition frame_ok :: "bytes \<times> int \<Rightarrow> bool" where
  "frame_ok f \<longleftrightarrow> payload_ok (fst f) \<and> int (length (show_int (snd f))) + 4 < maxSSELine"

definition frame_lines :: "bytes \<times> int \<Rightarrow> string list" where
  "frame_lines f = (if snd f > 0 then [''id: '' @ show_int (snd f)] else []) @ [''data: '' @ fst f, []]"

definition frame_event :: "bytes \<times> int \<Rightarrow> SSE_Event" where
  "frame_event f = \<lparr>ev_Type = typed_of (fst f), ev_Data = fst f\<rparr>"

definition ends_run :: "bytes \<times> int \<Rightarrow> bool" where
  "ends_run f = (typed_of (fst f) = ''RUN_FINISHED'' \<or> typed_of (fst f) = ''RUN_ERROR'')"

lemma show_int_line: "newline \<notin> set (show_int n)" "CHR 0x0D \<notin> set (show_int n)"
proof -
  have d: "\<not> is_digit newline" "\<not> is_digit (CHR 0x0D)" by code_simp+
  have "c \<notin> set (show_nat k)" if "\<not> is_digit c" for k c using show_nat_digits [of k] that by (auto simp: list_all_iff)
  with d show "newline \<notin> set (show_int n)" "CHR 0x0D \<notin> set (show_int n)" by (auto simp: show_int_def newline_def)
qed

lemma split_frames:
  assumes "list_all frame_ok fs"
  shows "split_on newline (concat (map write_frame fs)) = concat (map frame_lines fs) @ [[]]"
  using assms
proof (induction fs)
  case (Cons f fs)
  have n: "newline \<notin> set (''data: '' @ fst f)" "newline \<notin> set (''id: '' @ show_int (snd f))"
    using Cons.prems show_int_line by (auto simp: frame_ok_def payload_ok_def newline_def)
  have empty: "split_on newline (newline # r) = [] # split_on newline r" for r by simp
  have "split_on newline (write_frame f @ r) = frame_lines f @ split_on newline r" for r
    using split_on_append [OF n(1), of "newline # r"] split_on_append [OF n(2), of "''data: '' @ fst f @ newline # newline # r"]
    by (simp add: write_frame_def frame_lines_def empty)
  with Cons show ?case by simp
qed simp

lemma data_line:
  assumes "payload_ok p" "ss_event s = no_event"
  shows "sse_line (strip_cr (''data: '' @ p)) s = Inr (s\<lparr>ss_event := \<lparr>ev_Type = [], ev_Data = p\<rparr>\<rparr>)"
proof -
  have "last p \<noteq> CHR 0x0D" "p \<noteq> []" "int (length p) + 1 \<le> maxSSEEvent"
    using assms(1) by (auto simp: payload_ok_def maxSSELine_def maxSSEEvent_def)
  then have "strip_cr (''data: '' @ p) = ''data: '' @ p" and l: "\<not> int (length p) + 1 > maxSSEEvent" by (auto simp: strip_cr_def)
  then show ?thesis using trim_space_object [OF assms(1)] assms(2) l by (simp add: sse_line_def no_event_def Let_def)
qed

lemma id_line: "sse_line (strip_cr (''id: '' @ show_int n)) s = Inr s"
proof -
  have ne: "show_int n \<noteq> []" using show_nat_digits by (simp add: show_int_def)
  then have "last (show_int n) \<noteq> CHR 0x0D" using show_int_line(2) [of n] last_in_set by metis
  with ne have "strip_cr (''id: '' @ show_int n) = ''id: '' @ show_int n" by (simp add: strip_cr_def)
  then show ?thesis by (simp add: sse_line_def)
qed

lemma frame_step:
  assumes "frame_ok f" "ss_event s = no_event"
  shows "sse_lines (frame_lines f @ rest) s =
     sse_lines rest \<lparr>ss_event = no_event, ss_terminal = (ss_terminal s \<or> ends_run f), ss_received = ss_received s @ [frame_event f]\<rparr>"
proof -
  have p: "payload_ok (fst f)" "\<not> int (length (fst f)) + 6 \<ge> maxSSELine" "fst f \<noteq> []" "\<not> int (length (show_int (snd f))) + 4 \<ge> maxSSELine"
    using assms(1) by (auto simp: frame_ok_def payload_ok_def)
  have m: "\<not> 0 \<ge> maxSSELine" by (simp add: maxSSELine_def)
  have "sse_lines ([''data: '' @ fst f, []] @ rest) s =
      sse_lines rest \<lparr>ss_event = no_event, ss_terminal = (ss_terminal s \<or> ends_run f), ss_received = ss_received s @ [frame_event f]\<rparr>"
    using data_line [OF p(1) assms(2)] p m
    by (simp add: strip_cr_def sse_line_def [of "[]"] sse_emit_def Let_def ends_run_def frame_event_def algebra_simps)
  then show ?thesis
    using id_line [of "snd f" s] p(4) by (simp add: frame_lines_def algebra_simps)
qed

lemma frames_read:
  assumes "list_all frame_ok fs" "ss_event s = no_event"
  shows "sse_lines (concat (map frame_lines fs)) s =
     (None, \<lparr>ss_event = no_event, ss_terminal = (ss_terminal s \<or> list_ex ends_run fs), ss_received = ss_received s @ map frame_event fs\<rparr>)"
  using assms
proof (induction fs arbitrary: s)
  case Nil
  then show ?case by (cases s) simp
next
  case (Cons f fs)
  then show ?case by (simp add: frame_step)
qed


definition sample_frames :: "(bytes \<times> int) list" where
  "sample_frames = [(''{\"type\":\"RUN_STARTED\"}'', 0), (''{\"type\":\"RUN_FINISHED\"}'', 7)]"


end
