(* ===== verification/Terminal_Model.thy ===== *)
theory Terminal_Model
  imports Terminal_Client
begin

text \<open>
  The state of the terminal program (\<open>internal/devtui/model.go\<close>): what an event of the stream, the end of the stream and a line of input do
  to it. Drawing and the text input are the terminal framework's; a line of input is an argument, and so are random identifiers.
  Documents name no member twice, as the handler writes them; the arguments of a proposed call are only drawn and left out.
\<close>

section \<open>Text\<close>

definition maxTranscriptLines :: nat where "maxTranscriptLines = 1000"
definition maxTranscriptBytes :: int where "maxTranscriptBytes = 262144"

text \<open>Without control characters, line ends and tabulators excepted.\<close>

fun drop_controls :: "string \<Rightarrow> string" where
  "drop_controls [] = []"
| "drop_controls (c # s) =
     (if c = CHR 0xC2 \<and> s \<noteq> [] \<and> byte_in 128 159 (hd s) then drop_controls (drop 1 s)
      else if (byte_in 0 31 c \<or> byte_in 127 127 c) \<and> c \<noteq> CHR 0x0A \<and> c \<noteq> CHR 0x09 then drop_controls s
      else c # drop_controls s)"

definition sanitize_text :: "string \<Rightarrow> string" where
  "sanitize_text s = drop_controls (to_valid_utf8 s)"

text \<open>The last \<open>limit\<close> bytes, from the start of a character on.\<close>

definition utf8Suffix :: "string \<Rightarrow> int \<Rightarrow> string" where
  "utf8Suffix s limit =
     (if int (length s) \<le> limit then s
      else dropWhile (byte_in 128 191) (drop (nat (int (length s) - limit)) s))"

definition transcript_bytes :: "string list \<Rightarrow> int" where
  "transcript_bytes ls = int (length ls) - 1 + int (sum_list (map length ls))"

fun trim_bytes :: "int \<Rightarrow> string list \<Rightarrow> string list" where
  "trim_bytes b [] = []"
| "trim_bytes b (l # ls) =
     (if b \<le> maxTranscriptBytes then l # ls
      else let excess = b - maxTranscriptBytes in
        if int (length l) \<le> excess then trim_bytes (b - (int (length l) + 1)) ls
        else utf8Suffix l (int (length l) - excess) # ls)"

definition trimTranscript :: "string list \<Rightarrow> string list" where
  "trimTranscript ls =
     (let ls' = (if length ls > maxTranscriptLines then drop (length ls - maxTranscriptLines) ls else ls) in
      trim_bytes (transcript_bytes ls') ls')"

definition assistant :: string where "assistant = ''assistant: ''"

definition add_line :: "string \<Rightarrow> string list \<Rightarrow> string list" where
  "add_line line ls =
     trimTranscript
       (if ls \<noteq> [] \<and> prefix assistant line \<and> prefix assistant (last ls)
        then butlast ls @ [last ls @ drop (length assistant) line] else ls @ [line])"

section \<open>Interactions\<close>

record tui_question =
  tq_ID :: string
  tq_Header :: string
  tq_Question :: string
  tq_Options :: "(string \<times> string) list"

record tui_call =
  tc_CallId :: string
  tc_CallName :: string
  tc_Binding :: string

record tui_interaction =
  ti_ID :: string
  ti_Kind :: string
  ti_Questions :: "tui_question list"
  ti_Call :: tui_call

text \<open>Decoding a member into a field: the value and whether it had the right type. A member that is missing or null leaves the zero
  value.\<close>

definition text_field :: "string \<Rightarrow> (string \<times> json) list \<Rightarrow> string \<times> bool" where
  "text_field k kvs = (case find (\<lambda>kv. fold_key (fst kv) = k) kvs of
       None \<Rightarrow> ([], True)
     | Some (_, JStr s) \<Rightarrow> (s, True)
     | Some (_, JNull) \<Rightarrow> ([], True)
     | Some _ \<Rightarrow> ([], False))"

definition object_field :: "string \<Rightarrow> (string \<times> json) list \<Rightarrow> (string \<times> json) list \<times> bool" where
  "object_field k kvs = (case find (\<lambda>kv. fold_key (fst kv) = k) kvs of
       None \<Rightarrow> ([], True)
     | Some (_, JObj m) \<Rightarrow> (m, True)
     | Some (_, JNull) \<Rightarrow> ([], True)
     | Some _ \<Rightarrow> ([], False))"

definition list_field :: "string \<Rightarrow> (string \<times> json) list \<Rightarrow> json list \<times> bool" where
  "list_field k kvs = (case find (\<lambda>kv. fold_key (fst kv) = k) kvs of
       None \<Rightarrow> ([], True)
     | Some (_, JArr vs) \<Rightarrow> (vs, True)
     | Some (_, JNull) \<Rightarrow> ([], True)
     | Some _ \<Rightarrow> ([], False))"

definition members_of :: "json \<Rightarrow> (string \<times> json) list \<times> bool" where
  "members_of j = (case j of JObj m \<Rightarrow> (m, True) | JNull \<Rightarrow> ([], True) | _ \<Rightarrow> ([], False))"

definition decode_option :: "json \<Rightarrow> (string \<times> string) \<times> bool" where
  "decode_option j =
     (let (m, ok) = members_of j; (l, ok1) = text_field ''label'' m; (d, ok2) = text_field ''description'' m in
      ((l, d), ok \<and> ok1 \<and> ok2))"

definition decode_question :: "json \<Rightarrow> tui_question \<times> bool" where
  "decode_question j =
     (let (m, ok) = members_of j; (i, ok1) = text_field ''id'' m; (h, ok2) = text_field ''header'' m;
          (q, ok3) = text_field ''question'' m; (os, ok4) = list_field ''options'' m; ds = map decode_option os in
      (\<lparr>tq_ID = i, tq_Header = h, tq_Question = q, tq_Options = map fst ds\<rparr>,
       ok \<and> ok1 \<and> ok2 \<and> ok3 \<and> ok4 \<and> list_all snd ds))"

definition decode_interaction :: "(string \<times> json) list \<Rightarrow> tui_interaction \<times> bool" where
  "decode_interaction m =
     (let (i, ok1) = text_field ''id'' m; (k, ok2) = text_field ''kind'' m; (qs, ok3) = list_field ''questions'' m;
          (c, ok4) = object_field ''call'' m; (ci, ok5) = text_field ''callid'' c; (cn, ok6) = text_field ''name'' c;
          (b, ok7) = text_field ''binding'' c; ds = map decode_question qs in
      (\<lparr>ti_ID = i, ti_Kind = k, ti_Questions = map fst ds, ti_Call = \<lparr>tc_CallId = ci, tc_CallName = cn, tc_Binding = b\<rparr>\<rparr>,
       ok1 \<and> ok2 \<and> ok3 \<and> ok4 \<and> ok5 \<and> ok6 \<and> ok7 \<and> list_all snd ds))"

text \<open>The interaction of a snapshot: null or missing is none; a value of another type leaves an empty one.\<close>

definition snapshot_interaction :: "(string \<times> json) list \<Rightarrow> tui_interaction option" where
  "snapshot_interaction m = (case find (\<lambda>kv. fold_key (fst kv) = ''interaction'') m of
       None \<Rightarrow> None
     | Some (_, JNull) \<Rightarrow> None
     | Some (_, JObj i) \<Rightarrow> Some (fst (decode_interaction i))
     | Some _ \<Rightarrow> Some (fst (decode_interaction [])))"

section \<open>The model\<close>

type_synonym answers = "(string \<times> (string \<times> string)) list"

record Model =
  m_threadID :: string
  m_runID :: string
  m_journeyID :: string
  m_transcript :: "string list"
  m_pending :: "tui_interaction option"
  m_answers :: answers
  m_questionIndex :: nat
  m_status :: string
  m_streaming :: bool
  m_terminal :: bool
  m_lastRequest :: "Request option"

definition NewModel :: "string \<Rightarrow> string \<Rightarrow> string \<Rightarrow> Model" where
  "NewModel thread run journey =
     \<lparr>m_threadID = thread, m_runID = run, m_journeyID = journey, m_transcript = [], m_pending = None, m_answers = [],
      m_questionIndex = 0, m_status = ''ready'', m_streaming = False, m_terminal = False, m_lastRequest = None\<rparr>"

datatype command = NoCommand | StartStream Request | StartResume string string

definition start :: "Request \<Rightarrow> Model \<Rightarrow> command \<times> Model" where
  "start r m = (StartStream r, m\<lparr>m_streaming := True, m_status := ''streaming'', m_terminal := False, m_lastRequest := Some r\<rparr>)"

definition startResume :: "string \<Rightarrow> Model \<Rightarrow> command \<times> Model" where
  "startResume run m = (StartResume (m_threadID m) run, m\<lparr>m_streaming := True, m_status := ''resuming'', m_terminal := False\<rparr>)"

definition Model_Init :: "Model \<Rightarrow> command \<times> Model" where
  "Model_Init m = (if m_runID m = [] then (NoCommand, m) else startResume (m_runID m) m)"

definition set_pending :: "tui_interaction option \<Rightarrow> Model \<Rightarrow> Model" where
  "set_pending p m = m\<lparr>m_pending := p, m_answers := [], m_questionIndex := 0\<rparr>"

text \<open>A custom event stands for the event it names. The data of an event is \<open>None\<close> when it is not a document.\<close>

definition unwrap :: "string \<Rightarrow> json option \<Rightarrow> string \<times> json option" where
  "unwrap t j = (case j of
       Some (JObj kvs) \<Rightarrow>
         (let (name, ok) = text_field ''name'' kvs in
          if t = ''CUSTOM'' \<and> ok \<and> name \<noteq> [] then (name, map_option snd (find (\<lambda>kv. fold_key (fst kv) = ''value'') kvs)) else (t, j))
     | _ \<Rightarrow> (t, j))"

definition apply_event :: "string \<Rightarrow> json option \<Rightarrow> Model \<Rightarrow> Model" where
  "apply_event t0 j0 m =
     (let (t, j) = unwrap t0 j0; kvs = (case j of Some (JObj kvs) \<Rightarrow> kvs | _ \<Rightarrow> []) in
      if t = ''TEXT_MESSAGE_CONTENT'' then
        m\<lparr>m_transcript := add_line (assistant @ sanitize_text (fst (text_field ''delta'' kvs))) (m_transcript m)\<rparr>
      else if t = ''STATE_SNAPSHOT'' then
        let snap = fst (object_field ''snapshot'' kvs); thread = fst (text_field ''threadid'' snap);
            m1 = (if thread = [] then m else m\<lparr>m_threadID := thread\<rparr>);
            m2 = set_pending (snapshot_interaction snap) m1 in
        (if fst (text_field ''runstate'' snap) = ''awaiting_input'' \<and> m_pending m2 \<noteq> None then m2\<lparr>m_status := ''awaiting input''\<rparr> else m2)
      else if t = ''interaction.requested'' then
        (case j of
           Some (JObj i) \<Rightarrow>
             (let (p, ok) = decode_interaction i in
              if ok \<and> ti_ID p \<noteq> [] then (set_pending (Some p) m)\<lparr>m_status := ''awaiting input''\<rparr> else m)
         | _ \<Rightarrow> m)
      else if t = ''RUN_FINISHED'' then
        (if m_pending m = None then m\<lparr>m_terminal := True, m_status := ''finished''\<rparr> else m\<lparr>m_terminal := True\<rparr>)
      else if t = ''RUN_ERROR'' then
        m\<lparr>m_terminal := True, m_status := ''error: '' @ sanitize_text (fst (text_field ''message'' kvs))\<rparr>
      else if prefix ''tool.'' t then
        let name = fst (text_field ''toolname'' kvs) in
        m\<lparr>m_transcript := add_line (sanitize_text t @ '': '' @ sanitize_text (if name = [] then ''operation'' else name)) (m_transcript m)\<rparr>
      else m)"

definition canRetry :: "Model \<Rightarrow> bool" where
  "canRetry m = (\<not> m_terminal m \<and> (m_lastRequest m \<noteq> None \<or> m_runID m \<noteq> []))"

text \<open>The end of a stream, with the text of its error.\<close>

definition stream_done :: "string option \<Rightarrow> Model \<Rightarrow> Model" where
  "stream_done err m0 =
     (let m = m0\<lparr>m_streaming := False\<rparr> in
      case err of
        Some e \<Rightarrow> m\<lparr>m_status := ''error: '' @ sanitize_text e @ (if canRetry m then ''; type /retry'' else [])\<rparr>
      | None \<Rightarrow>
          if \<not> m_terminal m then m\<lparr>m_status := ''stream ended; type /retry''\<rparr>
          else if m_pending m \<noteq> None then m\<lparr>m_status := ''awaiting input''\<rparr>
          else if m_status m = ''streaming'' then m\<lparr>m_status := ''finished''\<rparr>
          else m)"

definition answers_json :: "answers \<Rightarrow> json" where
  "answers_json as = canon (JObj (map (\<lambda>(q, k, v). (q, JObj [(k, JStr v)])) as))"

definition submitInteraction :: "string \<Rightarrow> tui_interaction \<Rightarrow> string \<Rightarrow> Model \<Rightarrow> command \<times> Model" where
  "submitInteraction fresh p text m =
     (if ti_Kind p = ''approval'' then
        let decision = map to_lower text in
        if decision \<noteq> ''approve'' \<and> decision \<noteq> ''deny'' then (NoCommand, m\<lparr>m_status := ''type approve or deny''\<rparr>)
        else start \<lparr>rt_ThreadID = m_threadID m, rt_RunID = fresh, rt_JourneyID = [], rt_Text = [],
               rt_Reply = Some \<lparr>ir_InteractionID = ti_ID p, ir_Kind = ''approval'',
                 ir_Answer = JObj [(''binding'', JStr (tc_Binding (ti_Call p))), (''decision'', JStr decision)]\<rparr>\<rparr> (m\<lparr>m_runID := fresh\<rparr>)
      else
        let m1 = (if m_questionIndex m < length (ti_Questions p) then
                    let q = ti_Questions p ! m_questionIndex m;
                        a = (if text \<in> fst ` set (tq_Options q) then (''option'', text) else (''custom'', text)) in
                    m\<lparr>m_answers := filter (\<lambda>x. fst x \<noteq> tq_ID q) (m_answers m) @ [(tq_ID q, a)], m_questionIndex := m_questionIndex m + 1\<rparr>
                  else m) in
        if m_questionIndex m1 < length (ti_Questions p) then (NoCommand, m1)
        else start \<lparr>rt_ThreadID = m_threadID m1, rt_RunID = fresh, rt_JourneyID = [], rt_Text = [],
               rt_Reply = Some \<lparr>ir_InteractionID = ti_ID p, ir_Kind = ''clarification'',
                 ir_Answer = JObj [(''answers'', answers_json (m_answers m1))]\<rparr>\<rparr> (m1\<lparr>m_runID := fresh\<rparr>))"

text \<open>A line of input while nothing streams; \<open>thread\<close> and \<open>fresh\<close> are new identifiers.\<close>

definition submit :: "string \<Rightarrow> string \<Rightarrow> string \<Rightarrow> Model \<Rightarrow> command \<times> Model" where
  "submit thread fresh input m =
     (let text = trim_space input in
      if text = [] then (NoCommand, m)
      else if text = ''/new'' then
        (NoCommand, m\<lparr>m_threadID := [], m_runID := [], m_pending := None, m_answers := [], m_lastRequest := None, m_terminal := False,
           m_transcript := [], m_status := ''new conversation''\<rparr>)
      else if text = ''/retry'' then
        (case m_lastRequest m of
           Some r \<Rightarrow> if \<not> m_terminal m then start r m else (NoCommand, m\<lparr>m_status := ''nothing to retry''\<rparr>)
         | None \<Rightarrow> if m_runID m \<noteq> [] \<and> \<not> m_terminal m then startResume (m_runID m) m else (NoCommand, m\<lparr>m_status := ''nothing to retry''\<rparr>))
      else if m_lastRequest m \<noteq> None \<and> \<not> m_terminal m then (NoCommand, m\<lparr>m_status := ''stream ended; type /retry''\<rparr>)
      else if prefix ''/journey '' text \<and> trim_space (drop 9 text) \<noteq> [] then
        let journey = trim_space (drop 9 text) in
        (NoCommand, m\<lparr>m_journeyID := journey, m_status := ''journey: '' @ sanitize_text journey\<rparr>)
      else case m_pending m of
        Some p \<Rightarrow> submitInteraction fresh p text m
      | None \<Rightarrow>
          let m1 = (if m_threadID m = [] then m\<lparr>m_threadID := thread\<rparr> else m);
              m2 = m1\<lparr>m_runID := fresh, m_transcript := add_line (''you: '' @ sanitize_text text) (m_transcript m1)\<rparr> in
          start \<lparr>rt_ThreadID = m_threadID m2, rt_RunID = fresh, rt_JourneyID = m_journeyID m2, rt_Text = text, rt_Reply = None\<rparr> m2)"

text \<open>The messages of the program; input is only taken when nothing streams.\<close>

datatype tui_msg = StreamEvent string "json option" | StreamDone "string option" | Enter string string string

fun tui_update :: "tui_msg \<Rightarrow> Model \<Rightarrow> command \<times> Model" where
  "tui_update (StreamEvent t j) m = (NoCommand, apply_event t j m)"
| "tui_update (StreamDone err) m = (NoCommand, stream_done err m)"
| "tui_update (Enter thread fresh input) m = (if m_streaming m then (NoCommand, m) else submit thread fresh input m)"

fun tui_run :: "tui_msg list \<Rightarrow> Model \<Rightarrow> command list \<times> Model" where
  "tui_run [] m = ([], m)"
| "tui_run (msg # msgs) m = (let (c, m1) = tui_update msg m; (cs, m2) = tui_run msgs m1 in (c # cs, m2))"

section \<open>The transcript is bounded\<close>

definition bounded :: "string list \<Rightarrow> bool" where
  "bounded ls \<longleftrightarrow> length ls \<le> maxTranscriptLines \<and> transcript_bytes ls \<le> maxTranscriptBytes"

lemma utf8Suffix_length: "0 \<le> limit \<Longrightarrow> int (length (utf8Suffix s limit)) \<le> limit"
  using length_dropWhile_le [of "byte_in 128 191" "drop (nat (int (length s) - limit)) s"] by (auto simp: utf8Suffix_def)

lemma trim_bytes_bounded:
  assumes "b = transcript_bytes ls"
  shows "transcript_bytes (trim_bytes b ls) \<le> maxTranscriptBytes \<and> length (trim_bytes b ls) \<le> length ls"
  using assms
proof (induction ls arbitrary: b)
  case Nil
  then show ?case by (simp add: transcript_bytes_def maxTranscriptBytes_def)
next
  case (Cons l ls)
  let ?excess = "b - maxTranscriptBytes"
  show ?case
  proof (cases "b \<le> maxTranscriptBytes")
    case False
    show ?thesis
    proof (cases "int (length l) \<le> ?excess")
      case True
      have "b - (int (length l) + 1) = transcript_bytes ls" using Cons.prems by (simp add: transcript_bytes_def)
      from Cons.IH [OF this] False True show ?thesis by simp
    next
      case less: False
      then have "int (length (utf8Suffix l (int (length l) - ?excess))) \<le> int (length l) - ?excess" by (intro utf8Suffix_length) simp
      with False less Cons.prems show ?thesis by (simp add: transcript_bytes_def)
    qed
  qed (use Cons.prems in simp)
qed

lemma trimTranscript_bounded: "bounded (trimTranscript ls)"
proof -
  let ?ls = "if length ls > maxTranscriptLines then drop (length ls - maxTranscriptLines) ls else ls"
  have "length ?ls \<le> maxTranscriptLines" by simp
  with trim_bytes_bounded [of "transcript_bytes ?ls" ?ls] show ?thesis by (auto simp: bounded_def trimTranscript_def Let_def)
qed

lemma add_line_bounded: "bounded (add_line l ls)"
  by (simp add: add_line_def trimTranscript_bounded)

lemma bounded_Nil: "bounded []"
  by (simp add: bounded_def transcript_bytes_def maxTranscriptBytes_def)

lemma start_frame [simp]: "m_transcript (snd (start r m)) = m_transcript m" "m_transcript (snd (startResume run m)) = m_transcript m"
  by (simp_all add: start_def startResume_def)

lemma apply_event_transcript: "bounded (m_transcript m) \<Longrightarrow> bounded (m_transcript (apply_event t j m))"
  by (auto simp: apply_event_def set_pending_def Let_def add_line_bounded split: prod.splits option.splits json.splits)

lemma stream_done_frame [simp]: "m_transcript (stream_done e m) = m_transcript m"
  by (simp add: stream_done_def Let_def split: option.splits)

lemma submitInteraction_frame [simp]: "m_transcript (snd (submitInteraction fresh p text m)) = m_transcript m"
  by (simp add: submitInteraction_def Let_def)

lemma submit_transcript: "bounded (m_transcript m) \<Longrightarrow> bounded (m_transcript (snd (submit thread fresh input m)))"
  by (simp add: submit_def Let_def add_line_bounded bounded_Nil split: option.split)

lemma tui_update_transcript: "bounded (m_transcript m) \<Longrightarrow> bounded (m_transcript (snd (tui_update msg m)))"
  by (cases msg) (simp_all add: apply_event_transcript submit_transcript)

lemma tui_run_transcript: "bounded (m_transcript m) \<Longrightarrow> bounded (m_transcript (snd (tui_run msgs m)))"
proof (induction msgs arbitrary: m)
  case (Cons msg msgs)
  from Cons.IH [OF tui_update_transcript [OF Cons.prems]] show ?case by (simp add: Let_def case_prod_beta)
qed simp

text \<open>Whatever the server sends and the user types, the transcript never has more than a thousand lines nor more than 256 KiB.\<close>

theorem transcript_bounded:
  "let ls = m_transcript (snd (tui_run msgs (NewModel thread run journey))) in
     length ls \<le> 1000 \<and> length (join [newline] ls) \<le> 262144"
proof -
  let ?ls = "m_transcript (snd (tui_run msgs (NewModel thread run journey)))"
  have b: "bounded ?ls" by (rule tui_run_transcript) (simp add: NewModel_def bounded_Nil)
  have j: "ls = [] \<or> int (length (join [newline] ls)) = transcript_bytes ls" for ls
    by (induction ls rule: induct_list012) (auto simp: transcript_bytes_def)
  show ?thesis using b j [of ?ls] by (auto simp: Let_def bounded_def maxTranscriptLines_def maxTranscriptBytes_def)
qed

section \<open>A request is only repeated unchanged\<close>

fun ends_stream :: "tui_msg \<Rightarrow> bool" where
  "ends_stream (StreamEvent t j) = (fst (unwrap t j) = ''RUN_FINISHED'' \<or> fst (unwrap t j) = ''RUN_ERROR'')"
| "ends_stream (Enter thread fresh input) = (trim_space input = ''/new'')"
| "ends_stream (StreamDone e) = False"

lemma apply_event_request:
  "m_lastRequest (apply_event t j m) = m_lastRequest m"
  "\<not> ends_stream (StreamEvent t j) \<Longrightarrow> m_terminal (apply_event t j m) = m_terminal m"
proof -
  obtain t' j' where u: "unwrap t j = (t', j')" by (cases "unwrap t j")
  show "m_lastRequest (apply_event t j m) = m_lastRequest m"
    by (simp add: apply_event_def u set_pending_def Let_def case_prod_beta split: option.split json.split)
  show "\<not> ends_stream (StreamEvent t j) \<Longrightarrow> m_terminal (apply_event t j m) = m_terminal m"
    by (simp add: apply_event_def u set_pending_def Let_def case_prod_beta split: option.split json.split)
qed

lemma stream_done_request: "m_lastRequest (stream_done e m) = m_lastRequest m" "m_terminal (stream_done e m) = m_terminal m"
  by (simp_all add: stream_done_def Let_def split: option.splits)

lemma unfinished_step:
  assumes "m_lastRequest m = Some r" "\<not> m_terminal m" "\<not> ends_stream msg" "tui_update msg m = (c, m')"
  shows "c \<in> {NoCommand, StartStream r} \<and> m_lastRequest m' = Some r \<and> \<not> m_terminal m'"
proof (cases msg)
  case (StreamEvent t j)
  with assms apply_event_request [of t j m] show ?thesis by auto
next
  case (StreamDone e)
  with assms stream_done_request [of e m] show ?thesis by auto
next
  case (Enter thread fresh input)
  with assms show ?thesis by (auto simp: submit_def start_def Let_def split: if_splits)
qed

text \<open>C30. Until its stream reports the end of the run, or the user begins a new conversation, a request is only ever sent again as it
  was, with the same run identifier and the same answer: no other request is started, whatever is typed and received.\<close>

theorem unfinished_request:
  assumes "m_lastRequest m = Some r" "\<not> m_terminal m" "list_all (\<lambda>msg. \<not> ends_stream msg) msgs" "tui_run msgs m = (cs, m')"
  shows "set cs \<subseteq> {NoCommand, StartStream r} \<and> m_lastRequest m' = Some r"
  using assms
proof (induction msgs arbitrary: m cs)
  case (Cons msg msgs)
  obtain c m1 cs' where step: "tui_update msg m = (c, m1)" and rest: "tui_run msgs m1 = (cs', m')" and cs: "cs = c # cs'"
    using Cons.prems(4) by (auto simp: Let_def split: prod.splits)
  have "\<not> ends_stream msg" "list_all (\<lambda>msg. \<not> ends_stream msg) msgs" using Cons.prems(3) by simp_all
  from unfinished_step [OF Cons.prems(1,2) this(1) step] Cons.IH [OF _ _ this(2) rest] cs show ?case by auto
qed simp

theorem unfinished_request_witness:
  "\<exists>r m. m_lastRequest m = Some r \<and>
     set (fst (tui_run [StreamDone None, Enter ''t'' ''r2'' ''again'', Enter ''t'' ''r3'' ''/retry''] m)) \<subseteq> {NoCommand, StartStream r}"
proof -
  let ?s = "submit ''t'' ''r1'' ''hello'' (NewModel [] [] [])"
  let ?msgs = "[StreamDone None, Enter ''t'' ''r2'' ''again'', Enter ''t'' ''r3'' ''/retry'']"
  have "m_lastRequest (snd ?s) \<noteq> None" "\<not> m_terminal (snd ?s)" "list_all (\<lambda>msg. \<not> ends_stream msg) ?msgs" by code_simp+
  then obtain r where r: "m_lastRequest (snd ?s) = Some r" "\<not> m_terminal (snd ?s)" "list_all (\<lambda>msg. \<not> ends_stream msg) ?msgs" by auto
  from unfinished_request [OF r prod.collapse [symmetric]] r(1) show ?thesis by blast
qed

end
