(* ===== verification/Terminal_Main.thy ===== *)
theory Terminal_Main
  imports Startup Terminal_Model
begin

text \<open>
  The entry point of the terminal program (\<open>cmd/agent-platform-tui/main.go\<close>): flags, the readiness check and what the program is started
  with; and the text of its screen that does not depend on the framework (\<open>header\<close> and \<open>wrap\<close> of \<open>internal/devtui/model.go\<close>).
  The URL parser and printer, the terminals, the answer of the service and the terminal framework are parameters.
\<close>

section \<open>Flags\<close>

record tui_options =
  to_baseURL :: string
  to_token :: string
  to_journeyID :: string
  to_threadID :: string
  to_runID :: string

datatype tui_error =
    BadFlags | UnexpectedArgument string | RunNeedsThread | EmptyURL | NotInteractive | TokenRequired | InvalidURL | NotReachable
  | NotReady int | ProgramFailed

definition set_flag :: "string \<Rightarrow> string \<Rightarrow> tui_options \<Rightarrow> tui_options option" where
  "set_flag flag v o1 =
     (if flag = ''url'' then Some (o1\<lparr>to_baseURL := v\<rparr>)
      else if flag = ''journey'' then Some (o1\<lparr>to_journeyID := v\<rparr>)
      else if flag = ''thread'' then Some (o1\<lparr>to_threadID := v\<rparr>)
      else if flag = ''run'' then Some (o1\<lparr>to_runID := v\<rparr>)
      else None)"

text \<open>\<open>flag.FlagSet\<close> with string flags only: a flag without a value takes the next argument.\<close>

fun tui_flags :: "tui_options \<Rightarrow> string list \<Rightarrow> (tui_options \<times> string list) option" where
  "tui_flags o1 [] = Some (o1, [])"
| "tui_flags o1 (s # args) =
     (if length s < 2 \<or> hd s \<noteq> CHR ''-'' then Some (o1, s # args)
      else if s = ''--'' then Some (o1, args)
      else let name = (if take 2 s = ''--'' then drop 2 s else drop 1 s) in
        if name = [] \<or> hd name = CHR ''-'' \<or> hd name = CHR ''='' then None
        else case flag_parts name of (flag, given) \<Rightarrow>
          (case given of
             Some v \<Rightarrow> (case set_flag flag v o1 of None \<Rightarrow> None | Some o2 \<Rightarrow> tui_flags o2 args)
           | None \<Rightarrow>
               (case args of [] \<Rightarrow> None
                | v # args' \<Rightarrow> (case set_flag flag v o1 of None \<Rightarrow> None | Some o2 \<Rightarrow> tui_flags o2 args'))))"

definition default_url :: "(string \<Rightarrow> string) option \<Rightarrow> string" where
  "default_url lookup = (case lookup of None \<Rightarrow> ''http://localhost:8080''
     | Some l \<Rightarrow> let v = trim_space (l ''AGENT_PLATFORM_URL'') in if v = [] then ''http://localhost:8080'' else v)"

definition parseFlags :: "string list \<Rightarrow> (string \<Rightarrow> string) option \<Rightarrow> tui_error + tui_options" where
  "parseFlags args lookup =
     (case tui_flags \<lparr>to_baseURL = default_url lookup, to_token = [], to_journeyID = [], to_threadID = [], to_runID = []\<rparr> args of
        None \<Rightarrow> Inl BadFlags
      | Some (r, rest) \<Rightarrow>
          if rest \<noteq> [] then Inl (UnexpectedArgument (hd rest))
          else if to_runID r \<noteq> [] \<and> to_threadID r = [] then Inl RunNeedsThread
          else if trim_space (to_baseURL r) = [] then Inl EmptyURL
          else Inr (r\<lparr>to_journeyID := trim_space (to_journeyID r), to_threadID := trim_space (to_threadID r),
                      to_runID := trim_space (to_runID r)\<rparr>))"

section \<open>Readiness\<close>

text \<open>The parts of a parsed URL the check changes or looks at; \<open>ru_Other\<close> is what it leaves alone (user information and escapes).\<close>

record ready_url =
  ru_Scheme :: string
  ru_Host :: string
  ru_Path :: string
  ru_RawQuery :: string
  ru_Fragment :: string
  ru_Other :: string

record tui_env =
  tv_parse :: "string \<Rightarrow> ready_url option"
  tv_print :: "ready_url \<Rightarrow> string"
  tv_request :: "string \<Rightarrow> bool"
  tv_answer :: "string \<Rightarrow> int option"
  tv_stdin :: bool
  tv_stdout :: bool
  tv_getenv :: "string \<Rightarrow> string"
  tv_program :: bool

definition readinessEndpoint :: "tui_env \<Rightarrow> string \<Rightarrow> string option" where
  "readinessEndpoint e base = (case tv_parse e (trim_space base) of None \<Rightarrow> None
     | Some u \<Rightarrow>
         if ru_Scheme u = [] \<or> ru_Host u = [] then None
         else Some (tv_print e (u\<lparr>ru_Path := trim_right [''/''] (ru_Path u) @ ''/readyz'', ru_RawQuery := [], ru_Fragment := []\<rparr>)))"

definition checkReadiness :: "tui_env \<Rightarrow> string \<Rightarrow> tui_error option" where
  "checkReadiness e base =
     (case readinessEndpoint e base of None \<Rightarrow> Some InvalidURL
      | Some endpoint \<Rightarrow>
          if \<not> tv_request e endpoint then Some InvalidURL
          else case tv_answer e endpoint of None \<Rightarrow> Some NotReachable
          | Some status \<Rightarrow> if status < 200 \<or> status \<ge> 300 then Some (NotReady status) else None)"

section \<open>The program\<close>

definition wantsHelp :: "string list \<Rightarrow> bool" where
  "wantsHelp args = list_ex (\<lambda>arg. arg = ''--help'' \<or> arg = ''-h'') args"

text \<open>What \<open>runContext\<close> does: it prints the usage, or runs the program with these options and this model.\<close>

datatype tui_outcome = UsagePrinted | ProgramRun tui_options Model

definition runContext :: "tui_env \<Rightarrow> string list \<Rightarrow> (string \<Rightarrow> string) option \<Rightarrow> tui_error option \<times> tui_outcome option" where
  "runContext e args lookup =
     (if wantsHelp args then (None, Some UsagePrinted)
      else case parseFlags args lookup of Inl err \<Rightarrow> (Some err, None)
      | Inr r \<Rightarrow>
          if \<not> tv_stdin e \<or> \<not> tv_stdout e then (Some NotInteractive, None)
          else let l = (case lookup of None \<Rightarrow> tv_getenv e | Some l \<Rightarrow> l);
                   r' = r\<lparr>to_token := trim_space (l ''KEYCLOAK_ACCESS_TOKEN'')\<rparr> in
            if to_token r' = [] then (Some TokenRequired, None)
            else (case checkReadiness e (to_baseURL r') of Some err \<Rightarrow> (Some err, None)
              | None \<Rightarrow>
                  (if tv_program e then None else Some ProgramFailed,
                   Some (ProgramRun r' (NewModel (to_threadID r') (to_runID r') (to_journeyID r'))))))"

text \<open>The terminal program runs only on a terminal, with a token, and after the readiness probe of the URL it was given answered with
  success; it starts with the conversation, run and journey of the flags, and a run to resume is only accepted with a thread flag.\<close>

theorem runContext_checked:
  assumes "runContext e args lookup = (err, Some (ProgramRun r m))"
  shows "tv_stdin e \<and> tv_stdout e \<and> to_token r \<noteq> [] \<and>
     (\<exists>u status. tv_parse e (trim_space (to_baseURL r)) = Some u \<and> ru_Host u \<noteq> [] \<and> 200 \<le> status \<and> status < 300 \<and>
        tv_answer e (tv_print e (u\<lparr>ru_Path := trim_right [''/''] (ru_Path u) @ ''/readyz'', ru_RawQuery := [], ru_Fragment := []\<rparr>)) = Some status) \<and>
     (\<exists>given. tui_flags \<lparr>to_baseURL = default_url lookup, to_token = [], to_journeyID = [], to_threadID = [], to_runID = []\<rparr> args =
          Some (given, []) \<and> m = NewModel (trim_space (to_threadID given)) (trim_space (to_runID given)) (trim_space (to_journeyID given)) \<and>
        (to_runID given \<noteq> [] \<longrightarrow> to_threadID given \<noteq> []))"
proof -
  from assms obtain o1 where p: "parseFlags args lookup = Inr o1" "tv_stdin e" "tv_stdout e" "to_token r \<noteq> []"
      "checkReadiness e (to_baseURL r) = None" "m = NewModel (to_threadID o1) (to_runID o1) (to_journeyID o1)"
    by (auto simp: runContext_def Let_def split: if_splits sum.splits option.splits)
  from p(5) have "\<exists>u status. tv_parse e (trim_space (to_baseURL r)) = Some u \<and> ru_Host u \<noteq> [] \<and> 200 \<le> status \<and> status < 300 \<and>
      tv_answer e (tv_print e (u\<lparr>ru_Path := trim_right [''/''] (ru_Path u) @ ''/readyz'', ru_RawQuery := [], ru_Fragment := []\<rparr>)) = Some status"
    by (auto simp: checkReadiness_def readinessEndpoint_def split: option.splits if_splits)
  moreover from p(1,6) have "\<exists>given. tui_flags \<lparr>to_baseURL = default_url lookup, to_token = [], to_journeyID = [], to_threadID = [], to_runID = []\<rparr> args =
          Some (given, []) \<and> m = NewModel (trim_space (to_threadID given)) (trim_space (to_runID given)) (trim_space (to_journeyID given)) \<and>
        (to_runID given \<noteq> [] \<longrightarrow> to_threadID given \<noteq> [])"
    by (auto simp: parseFlags_def split: option.splits prod.splits if_splits)
  ultimately show ?thesis using p by blast
qed

definition ready_env :: tui_env where
  "ready_env = \<lparr>tv_parse = (\<lambda>_. Some \<lparr>ru_Scheme = ''http'', ru_Host = ''h'', ru_Path = [], ru_RawQuery = [], ru_Fragment = [], ru_Other = []\<rparr>),
     tv_print = (\<lambda>u. ''http://h'' @ ru_Path u), tv_request = (\<lambda>_. True), tv_answer = (\<lambda>u. if u = ''http://h/readyz'' then Some 200 else None),
     tv_stdin = True, tv_stdout = True, tv_getenv = (\<lambda>_. ''token''), tv_program = True\<rparr>"

theorem runContext_checked_witness:
  "\<exists>r m. runContext ready_env [''--url=http://h'', ''-journey'', ''j''] (Some (\<lambda>_. ''token'')) = (None, Some (ProgramRun r m)) \<and> to_token r \<noteq> []"
proof -
  let ?r = "runContext ready_env [''--url=http://h'', ''-journey'', ''j''] (Some (\<lambda>_. ''token''))"
  have "fst ?r = None" "\<not> Option.is_none (snd ?r)" "snd ?r \<noteq> Some UsagePrinted" by code_simp+
  then obtain out where out: "?r = (None, Some out)" "out \<noteq> UsagePrinted" by (cases ?r; cases "snd ?r") auto
  then obtain r m where rm: "?r = (None, Some (ProgramRun r m))" by (cases out) auto
  from runContext_checked [OF rm] rm show ?thesis by blast
qed

text \<open>The check that a run names its thread is made before the values are trimmed: a blank thread passes it and is empty afterwards.\<close>

lemma blank_thread_passes:
  "\<exists>r. parseFlags [''--run'', ''r1'', ''--thread'', '' ''] None = Inr r \<and> to_runID r = ''r1'' \<and> to_threadID r = []"
proof -
  have "case parseFlags [''--run'', ''r1'', ''--thread'', '' ''] None of Inl _ \<Rightarrow> False | Inr r \<Rightarrow> to_runID r = ''r1'' \<and> to_threadID r = []"
    by code_simp
  then show ?thesis by (auto split: sum.splits)
qed

section \<open>The screen\<close>

text \<open>The first line of a text that is too wide: whole characters until the width is reached, counted in bytes; a byte that is part
  of no character counts as one.\<close>

function wrap_end :: "int \<Rightarrow> string \<Rightarrow> string \<times> string" where
  "wrap_end width line =
     (if line = [] \<or> width \<le> 0 then ([], line)
      else let n = max 1 (utf8_width line); (a, b) = wrap_end (width - int n) (drop n line) in (take n line @ a, b))"
  by pat_completeness auto
termination
  by (relation "measure (\<lambda>(width, line). length line)") auto

declare wrap_end.simps [simp del]

lemma wrap_end_parts: "wrap_end width line = (a, b) \<Longrightarrow> a @ b = line"
proof (induction width line arbitrary: a b rule: wrap_end.induct)
  case (1 width line)
  show ?case
  proof (cases "line = [] \<or> width \<le> 0")
    case False
    obtain a' b' where r: "wrap_end (width - int (max 1 (utf8_width line))) (drop (max 1 (utf8_width line)) line) = (a', b')"
      by (meson surj_pair)
    with 1(2) False have "a = take (max 1 (utf8_width line)) line @ a'" "b = b'" by (auto simp: wrap_end.simps [of width line] Let_def)
    with 1(1) [OF False refl r] show ?thesis by simp
  qed (use 1(2) in \<open>auto simp: wrap_end.simps\<close>)
qed

lemma wrap_end_progress: "\<lbrakk>wrap_end width line = (a, b); line \<noteq> []; 1 \<le> width\<rbrakk> \<Longrightarrow> length b < length line"
  using wrap_end_parts [of width line a b] by (auto simp: wrap_end.simps [of width line] Let_def split: prod.splits)

lemma utf8_width_le: "utf8_width s \<le> 4"
  by (simp add: utf8_width_def split: list.split)

text \<open>A line is wider than the screen by less than one character.\<close>

lemma wrap_end_width: "\<lbrakk>wrap_end width line = (a, b); 1 \<le> width\<rbrakk> \<Longrightarrow> int (length a) < width + 4"
proof (induction width line arbitrary: a b rule: wrap_end.induct)
  case (1 width line)
  let ?n = "max 1 (utf8_width line)"
  show ?case
  proof (cases "line = []")
    case False
    obtain a' b' where r: "wrap_end (width - int ?n) (drop ?n line) = (a', b')" by (meson surj_pair)
    with 1(2,3) False have a: "a = take ?n line @ a'" by (auto simp: wrap_end.simps [of width line] Let_def)
    show ?thesis
    proof (cases "1 \<le> width - int ?n")
      case True
      from 1(1) [OF _ refl r True] False 1(3) a show ?thesis by (simp add: min_def)
    next
      case stop: False
      then have "a' = []" using r wrap_end.simps [of "width - int ?n" "drop ?n line"] by (metis (no_types, lifting) Pair_inject int_one_le_iff_zero_less not_less)
      moreover have "?n \<le> 4" using utf8_width_le [of line] by simp
      moreover have "length (take ?n line) \<le> ?n" by simp
      ultimately show ?thesis using a 1(3) by simp
    qed
  qed (use 1(2,3) in \<open>auto simp: wrap_end.simps\<close>)
qed

text \<open>The lines a line is cut into; the widths are at least one.\<close>

function wrap_line :: "int \<Rightarrow> string \<Rightarrow> string list" where
  "wrap_line width line =
     (if line = [] then []
      else case wrap_end (max 1 width) line of (a, b) \<Rightarrow> a # wrap_line width b)"
  by pat_completeness auto
termination
  by (relation "measure (\<lambda>(width, line). length line)") (auto dest!: wrap_end_progress [OF sym])

declare wrap_line.simps [simp del]

definition wrap :: "string \<Rightarrow> int \<Rightarrow> string" where
  "wrap text width = join [newline] (map (\<lambda>line. join [newline] (wrap_line width line)) (split_on newline text))"

definition header :: "string \<Rightarrow> int \<Rightarrow> Model \<Rightarrow> string" where
  "header base width m = wrap (join [newline]
     [''agent-platform  '' @ sanitize_text (m_status m), ''url: '' @ sanitize_text base, ''thread: '' @ sanitize_text (m_threadID m),
      ''run: '' @ sanitize_text (m_runID m), ''journey: '' @ sanitize_text (m_journeyID m)]) (max 1 width)"

text \<open>The lines below the header: the screen without the header, the input and the footer.\<close>

definition layout_height :: "int \<Rightarrow> string \<Rightarrow> int" where
  "layout_height screen head = max 1 (screen - int (count_list head newline) - 3)"

lemma wrap_line_concat: "concat (wrap_line width line) = line"
proof (induction width line rule: wrap_line.induct)
  case (1 width line)
  obtain a b where ab: "wrap_end (max 1 width) line = (a, b)" by (meson surj_pair)
  show ?case
  proof (cases "line = []")
    case False
    from 1 [OF False ab [symmetric]] wrap_end_parts [OF ab] False ab show ?thesis by (simp add: wrap_line.simps [of width line])
  qed (simp add: wrap_line.simps)
qed

lemma wrap_line_width: "l \<in> set (wrap_line width line) \<Longrightarrow> int (length l) < max 1 width + 4"
proof (induction width line rule: wrap_line.induct)
  case (1 width line)
  obtain a b where ab: "wrap_end (max 1 width) line = (a, b)" by (meson surj_pair)
  show ?case
  proof (cases "line = []")
    case False
    with 1(2) ab have "l = a \<or> l \<in> set (wrap_line width b)" by (simp add: wrap_line.simps [of width line])
    with 1(1) [OF False ab [symmetric]] wrap_end_width [OF ab] show ?thesis by auto
  qed (use 1(2) in \<open>simp add: wrap_line.simps\<close>)
qed

lemma wrap_line_free: "c \<notin> set line \<Longrightarrow> l \<in> set (wrap_line width line) \<Longrightarrow> c \<notin> set l"
  using wrap_line_concat [of width line] by (metis UN_I set_concat)

end
