(* ===== verification/Spec2Isabelle.thy ===== *)
theory Spec2Isabelle
  imports Journal_Pins Journal_Life Platform_Safety Runtime_Properties Platform_Observe Chat_Properties
    Keycloak_Properties Startup_Properties Migrations Service Terminal_Main
begin

text \<open>
  A verification of the agent platform (package paths below are under \<open>src/internal\<close>, except \<open>cmd\<close>). A client sends a command to the
  chat interface; the platform admits it to a journal in PostgreSQL, claims a run under a lease, and executes it: a loop of model
  requests whose tool calls go to one integration endpoint, under approval where the reviewed definitions ask for it. Every replica
  works on the same database, so nothing below assumes that a replica is alone, except where a property says so.

  \<^bold>\<open>Parts and theories.\<close>

  \<^item> \<open>Prelude\<close> and \<open>Json\<close>: what the program uses of Go's \<open>strings\<close>, \<open>sort\<close>, \<open>net/textproto\<close> and \<open>encoding/json\<close> (strings are
    byte strings; a parser and a printer of documents, with the round trip between them).
  \<^item> \<open>Selectors\<close>, \<open>Definitions\<close>, \<open>Bundle\<close>, \<open>Bundle_Read\<close> (\<open>definitions\<close>): versions, selectors and aliases; compilation of
    tools and the checks over a set; bundles, skill packages and \<open>CompileBundle\<close>, which records what it reads; \<open>ReadBundle\<close>.
    \<open>Bundle_Roundtrip\<close> proves that the recorded files compile to the same set: each compilation step is shown \<open>stable\<close>, that is,
    determined by its reads.
  \<^item> \<open>Journeys\<close>, \<open>Settings\<close>, \<open>Tenantdir\<close>, \<open>Headers\<close>, \<open>Cost\<close>, \<open>Skills\<close> (\<open>journeys\<close>, \<open>settings\<close>, \<open>tenantdir\<close>, \<open>credential\<close>,
    \<open>cost\<close>, \<open>skills\<close>): the active set, layered settings, the allowlist of endpoints, forwarded headers, the cost gate, and the
    material of a skill.
  \<^item> \<open>Catalog\<close>, \<open>Catalog_Safety\<close>, \<open>Catalog_Binding\<close> (\<open>catalog\<close>): tool descriptors, resolution of journeys against the tools of
    an endpoint, and the binding of a run to an endpoint.
  \<^item> \<open>Journal_Store\<close>, \<open>Journal_Reply\<close>, \<open>Journal_Owners\<close>, \<open>Journal_Commands\<close>, \<open>Journal_Interactions\<close>, \<open>Journal_Operations\<close>,
    \<open>Journal_Runs\<close>, \<open>Journal_Definitions\<close> (\<open>journal\<close>): the tables as one record \<open>db\<close>, a transaction as a function that fails or
    gives a new \<open>db\<close> (a failing one is rolled back by \<open>begin_func\<close>), and one definition per operation, with the time as an argument.
  \<^item> \<open>Runtime\<close>, \<open>Runtime_History\<close>, \<open>Runtime_Dispatch\<close>, \<open>Runtime_Agent\<close>, \<open>Runtime_Loop\<close>, \<open>Runtime_Run\<close> (\<open>runtime\<close>,
    \<open>defstore/loader.go\<close>): a run as a function on a \<open>world\<close>. Before every database operation the other workers make the requests of
    \<open>env_others\<close>; an operation can fail before or after its commit (\<open>env_fault\<close>), and the model, the endpoint and the context answer
    whatever \<open>env\<close> says.
  \<^item> \<open>Platform\<close> (\<open>platform\<close>): submission, execution and observation. \<open>Defstore\<close> (\<open>defstore/activate.go\<close>): the rollout of a bundle.
  \<^item> \<open>Chat_Identity\<close> and \<open>Chat\<close> (\<open>chat\<close>): bearer tokens, the tables of identifiers, and the HTTP handler with its event stream.
  \<^item> \<open>Json_Decode\<close>, \<open>Keycloak\<close>, \<open>Keycloak_Cache\<close> (\<open>chat/keycloak_auth.go\<close>): documents from elsewhere and base64url; signed tokens, the
    published keys and their cache. \<open>Keycloak_Cache\<close> lets any number of calls of \<open>key\<close> interleave: one step per critical section,
    per waiting at the gate and per answer of the key server.
  \<^item> \<open>Provider\<close> (\<open>provider/litellm\<close>, \<open>provider/foundry\<close>): the two model clients, with the transport that reports the dispatch.
  \<^item> \<open>Migrations\<close> (\<open>journal/migrate.go\<close>); \<open>Service\<close> (\<open>service\<close>, \<open>telemetry/redact.go\<close>, \<open>cost/scripted.go\<close>); \<open>Startup\<close>
    (\<open>cmd/agent-platform/main.go\<close>, \<open>telemetry/telemetry.go\<close>, the static files of \<open>settings\<close> and \<open>tenantdir\<close>): configuration, what is opened and released in
    which order, and the \<open>activate\<close> command.
  \<^item> \<open>Terminal_Client\<close>, \<open>Terminal_Model\<close> (\<open>devtui\<close>): the other end of the event stream, and the state of the terminal program;
    \<open>Terminal_Main\<close> (\<open>cmd/agent-platform-tui\<close>): its flags, the readiness check, and the wrapping of its header.

  \<^bold>\<open>Specification of the journal and refinement.\<close> \<open>Journal_Moves\<close> states what may happen to the tables as an inductive relation
  \<open>move\<close>: a conversation gains an event, a run advances, an approval is decided, a call is dispatched. \<open>Journal_Logic\<close> gives
  rules for transactions in the locale \<open>tx_relation\<close>; \<open>Journal_Refine\<close> and \<open>Journal_Calls\<close> show that every operation is a sequence of
  moves, and \<open>Journal_System\<close> that every reachable database is reached by moves, so that an invariant or a relation is checked
  once, over the moves. \<open>Journal_Safety\<close> and \<open>Journal_Approvals\<close> hold the invariants; \<open>Journal_Properties\<close>, \<open>Journal_Consent\<close>,
  \<open>Journal_Admission\<close>, \<open>Journal_Life\<close> and \<open>Journal_Pins\<close> what follows: a worker without the lease writes nothing, one owner, a
  gapless event log, admission once, calls sent only as approved and at most once or twice, runs that only move forward, and
  activation that only moves forward.

  \<^bold>\<open>Runs.\<close> \<open>Runtime_Safety\<close> states in the locales \<open>run_relation\<close> and \<open>model_relation\<close> which primitive steps a relation between
  worlds has to respect for a whole run to respect it. One interpretation gives safety (\<open>Platform_Safety\<close>: every call that is sent is on
  record and allowed), one the bound on model requests (\<open>Runtime_Properties\<close>: at most sixteen). \<open>Platform_Observe\<close> shows that an
  observer receives every event once, in order. \<open>Defstore\<close> shows what an activation reports while others work, and that an
  undisturbed one succeeds; this rests on the round trip of bundles. \<open>Chat_Properties\<close> shows in the locale \<open>reading_relation\<close> that a
  request that is not a submission changes nothing, and that an answer is one error or one well-formed stream.

  \<^bold>\<open>The edges.\<close> \<open>Keycloak_Properties\<close> shows what an accepted token was checked for and that principals are distinct;
  \<open>Keycloak_Cache\<close> that at most two requests to the key server begin in any thirty seconds and that a returned key is allowed and fresh,
  by invariants over the reachable states. \<open>Provider\<close> proves once, in the locale \<open>model_adapter\<close>, that an adapter reports the dispatch once
  and before anything is sent. \<open>Migrations\<close> shows that migrations can be repeated and cut in two, \<open>Service\<close> that a shutdown refuses new
  work, and \<open>Startup_Properties\<close> what a configuration guarantees, that everything opened is released, and that the \<open>activate\<close> command
  tells the truth (from the facts on \<open>Defstore\<close>). \<open>Terminal_Client\<close> shows that the reader receives exactly the frames the handler's
  \<open>emit\<close> writes, \<open>Terminal_Model\<close> that the transcript is bounded and that an unfinished request is only repeated unchanged.

  \<^bold>\<open>Interfaces.\<close> Each locale is interpreted on the model: \<open>three_way\<close> (version segments), \<open>active_set_port\<close> (the set of active
  journeys), \<open>settings_source\<close>, \<open>directory\<close>, \<open>decorator\<close> (headers), \<open>tx_relation\<close> and \<open>fenced_operation\<close> (transactions),
  \<open>world_relation\<close>, \<open>run_relation\<close>, \<open>model_relation\<close> (runs), \<open>handler_relation\<close> and \<open>reading_relation\<close> (the chat handler),
  \<open>model_adapter\<close> (the model providers).

  \<^bold>\<open>Loops and bounds.\<close> The loop of a run has sixteen rounds and a guarded call two attempts, as in the code, and so have the three
  attempts to bind a definition set and the five to activate one. \<open>execute\<close> takes the number of restarts as fuel: a run is restarted
  only when a command arrived meanwhile, and its safety holds for every number. Trimming, directory enumeration and the JSON decoder are
  total functions with termination proofs; the decoder has fuel that is the length of its input, which \<open>Json\<close> shows to be enough
  for every printed document. Lengths and limits are integers without overflow, as they are bounded far below the machine's range; versions,
  counters and sequence numbers of the database are integers.

  \<^bold>\<open>Parameters.\<close> SHA-256, the message library of the model client, the YAML decoder, URL, duration, floating point and date parsers, the
  model, the endpoint, the directory, the settings source and the cost gate of a runner are arguments; random identifiers too. So are the
  JWT library (which token it verifies under which key), the answers of the key server, the client libraries of the model services (the HTTP
  requests they make and their answer), the effect of a migration on the schema, and the outcomes of the steps of a start that leave the
  process. Where a property needs something of them it is a hypothesis (for example, that a digest has 64 hexadecimal digits), and a
  witness shows that it can hold.

  \<^bold>\<open>Not modelled.\<close> The test doubles (servers, models and databases for tests). Of the terminal program: drawing below the header,
  scrolling and the editing of a line, which belong to a third-party framework. Of the modelled parts: the waiting of goroutines,
  cancellation of requests (where it is not an outcome that is given), signal handlers, tracing, and the text of error messages.
  Goroutines that renew leases and reap runs appear as requests of other workers.
\<close>

end
